(* ===== verification/HV_Prelude.thy ===== *)
theory HV_Prelude
  imports Main "HOL-Library.Word" "HOL-Library.Char_ord" "HOL-Library.List_Lexorder"
begin

text \<open>
  Shared vocabulary of the development: bytes, Rust strings, the error type of
  src/crates/heelonvault-core/src/errors.rs, and the error-and-state effects in which the
  stateful code is written, with the lemma collections the component theories use.

  A Rust \<open>String\<close> is its UTF-8 bytes, an Isabelle \<open>string\<close>; a \<open>Vec<u8>\<close> is a list of 8-bit
  words. \<open>Result<A, AppError>\<close> is the sum \<open>app_error + 'a\<close>, \<open>Inl\<close> being \<open>Err\<close>. A fallible
  function that changes state is a function from the state to a result and the next state, so
  that an error leaves the state exactly as far changed as the code had changed it.
\<close>

section \<open>Types\<close>

type_synonym byte = "8 word"
type_synonym bytes = "8 word list"
type_synonym uuid = "128 word"
type_synonym timestamp = int

named_theorems eff_simps \<open>how the effect combinators run\<close>
named_theorems inv_intros \<open>an operation keeps an invariant of the state\<close>

section \<open>Errors\<close>

datatype access_denied_reason =
    AdminRequired
  | TeamLeaderRequired
  | TeamMembershipRequired
  | VaultAccessDenied
  | VaultWriteDenied
  | VaultAdminRequired
  | VaultSharedCreateDenied
  | InvalidCredentials
  | PasswordRequiredForChange
  | InvalidTotpCode
  | AuditCrossUserDenied
  | Unauthorized

datatype recovery_failure =
    InvalidPhrase
  | WrongPhraseOrAlteredFile
  | NotABackup
  | UnsupportedBackupVersion "16 word"
  | NoAccount
  | MultipleAccounts
  | InconsistentKeyMaterial
  | RecoveryKeyMissing

text \<open>
  \<open>sqlx::Error\<close> is another crate's type. The model keeps the constraint that made a statement
  fail, for a \<open>fetch_one\<close> the missing row, and for a \<open>try_get\<close> the column whose value does not
  fit its Rust type.
\<close>

datatype db_error =
    UniqueViolation string
  | ForeignKeyViolation
  | CheckViolation
  | RowNotFound
  | ColumnDecode string

datatype app_error =
    InitializationRequired string
  | Validation string
  | NotFound string
  | Conflict string
  | Storage string
  | Database db_error
  | Io string
  | Crypto string
  | Authorization access_denied_reason
  | Recovery recovery_failure
  | SingleAccountVault
  | FeatureNotAvailable string
  | LicenseExpired
  | ShutdownInProgress
  | Internal

type_synonym 'a result = "app_error + 'a"

fun show_nat :: "nat \<Rightarrow> string" where
  "show_nat n = (if n < 10 then [char_of (48 + n)] else show_nat (n div 10) @ [char_of (48 + n mod 10)])"

declare show_nat.simps [simp del]

definition read_decimal :: "string \<Rightarrow> int" where
  "read_decimal s = foldl (\<lambda>a c. 10 * a + (int (of_char c) - 48)) 0 s"

lemma read_decimal_show_nat: "read_decimal (show_nat n) = int n"
proof (induction n rule: show_nat.induct)
  case (1 n)
  show ?case
  proof (cases "n < 10")
    case True
    then show ?thesis by (simp add: show_nat.simps read_decimal_def)
  next
    case False
    then have "read_decimal (show_nat (n div 10)) = int (n div 10)" by (rule 1)
    moreover have "10 * int (n div 10) + int (n mod 10) = int n"
      by (metis mult_div_mod_eq of_nat_add of_nat_mult of_nat_numeral)
    ultimately show ?thesis
      using False by (simp add: show_nat.simps [of n] read_decimal_def)
  qed
qed

fun show_access_denied_reason :: "access_denied_reason \<Rightarrow> string" where
  "show_access_denied_reason AdminRequired = ''admin role required''"
| "show_access_denied_reason TeamLeaderRequired = ''team leader role required''"
| "show_access_denied_reason TeamMembershipRequired = ''team membership required''"
| "show_access_denied_reason VaultAccessDenied = ''vault access denied for this user''"
| "show_access_denied_reason VaultWriteDenied = ''vault write denied for this user''"
| "show_access_denied_reason VaultAdminRequired = ''vault administration requires admin permission''"
| "show_access_denied_reason VaultSharedCreateDenied =
     ''creating secrets in shared vault requires admin role''"
| "show_access_denied_reason InvalidCredentials = ''invalid credentials''"
| "show_access_denied_reason PasswordRequiredForChange = ''current password required for this change''"
| "show_access_denied_reason InvalidTotpCode = ''invalid TOTP setup code''"
| "show_access_denied_reason AuditCrossUserDenied =
     ''insufficient permissions to view another user's audit log''"
| "show_access_denied_reason Unauthorized = ''unauthorized action''"

fun show_recovery_failure :: "recovery_failure \<Rightarrow> string" where
  "show_recovery_failure InvalidPhrase = ''the recovery phrase is not a valid BIP39 phrase''"
| "show_recovery_failure WrongPhraseOrAlteredFile = ''wrong recovery phrase or altered backup file''"
| "show_recovery_failure NotABackup = ''the file is not a HeelonVault backup''"
| "show_recovery_failure (UnsupportedBackupVersion v) =
     ''unsupported backup format version '' @ show_nat (unat v)"
| "show_recovery_failure NoAccount = ''the backup contains no account''"
| "show_recovery_failure MultipleAccounts =
     ''password reset from a backup requires a single-account vault''"
| "show_recovery_failure InconsistentKeyMaterial =
     ''a vault does not open with the account key; nothing was modified''"
| "show_recovery_failure RecoveryKeyMissing =
     ''the backup holds no recovery key for this account''"

text \<open>
  The text of an \<open>AppError\<close>. The texts of \<open>sqlx::Error\<close> and of \<open>std::io::Error\<close> come from
  elsewhere: the first is an argument, the second is carried by the constructor.
\<close>

fun show_app_error :: "(db_error \<Rightarrow> string) \<Rightarrow> app_error \<Rightarrow> string" where
  "show_app_error sq (InitializationRequired s) = ''initialization required: '' @ s"
| "show_app_error sq (Validation s) = ''validation error: '' @ s"
| "show_app_error sq (NotFound s) = ''not found: '' @ s"
| "show_app_error sq (Conflict s) = ''conflict: '' @ s"
| "show_app_error sq (Storage s) = ''storage error: '' @ s"
| "show_app_error sq (Database e) = ''database error: '' @ sq e"
| "show_app_error sq (Io s) = ''IO error: '' @ s"
| "show_app_error sq (Crypto s) = ''crypto error: '' @ s"
| "show_app_error sq (Authorization r) = ''authorization error: '' @ show_access_denied_reason r"
| "show_app_error sq (Recovery r) = ''recovery error: '' @ show_recovery_failure r"
| "show_app_error sq SingleAccountVault =
     ''this vault uses an account key and holds a single account''"
| "show_app_error sq (FeatureNotAvailable s) = ''feature not available in this edition: '' @ s"
| "show_app_error sq LicenseExpired = ''the license has expired''"
| "show_app_error sq ShutdownInProgress = ''shutdown in progress''"
| "show_app_error sq Internal = ''internal error''"

section \<open>Results\<close>

text \<open>\<open>?\<close> on a pure result, \<open>Result::ok\<close>, and \<open>Option::ok_or\<close>.\<close>

definition bindR :: "('e + 'a) \<Rightarrow> ('a \<Rightarrow> 'e + 'b) \<Rightarrow> 'e + 'b" where
  "bindR r f = (case r of Inl e \<Rightarrow> Inl e | Inr a \<Rightarrow> f a)"

definition ok_of :: "('e + 'a) \<Rightarrow> 'a option" where
  "ok_of r = (case r of Inl _ \<Rightarrow> None | Inr a \<Rightarrow> Some a)"

definition ok_or :: "'a option \<Rightarrow> 'e \<Rightarrow> 'e + 'a" where
  "ok_or x e = (case x of None \<Rightarrow> Inl e | Some a \<Rightarrow> Inr a)"

definition ensure :: "bool \<Rightarrow> 'e \<Rightarrow> 'e + unit" where
  "ensure b e = (if b then Inr () else Inl e)"

lemma bindR_simps [simp]: "bindR (Inl e) f = Inl e" "bindR (Inr a) f = f a"
  by (simp_all add: bindR_def)

lemma bindR_Inr_iff: "bindR r f = Inr b \<longleftrightarrow> (\<exists>a. r = Inr a \<and> f a = Inr b)"
  by (cases r) auto

lemma bindR_Inl_iff: "bindR r f = Inl e \<longleftrightarrow> r = Inl e \<or> (\<exists>a. r = Inr a \<and> f a = Inl e)"
  by (cases r) auto

lemma ok_of_simps [simp]: "ok_of (Inl e) = None" "ok_of (Inr a) = Some a"
  by (simp_all add: ok_of_def)

lemma ok_of_Some_iff [simp]: "ok_of r = Some a \<longleftrightarrow> r = Inr a"
  by (cases r) auto

lemma ok_or_simps [simp]: "ok_or None e = Inl e" "ok_or (Some a) e = Inr a"
  by (simp_all add: ok_or_def)

lemma ok_or_Inr_iff [simp]: "ok_or x e = Inr a \<longleftrightarrow> x = Some a"
  by (cases x) auto

lemma ensure_iff [simp]: "ensure b e = Inr u \<longleftrightarrow> b" "ensure b e = Inl e' \<longleftrightarrow> \<not> b \<and> e' = e"
  by (auto simp: ensure_def)

lemma ensure_simps [simp]: "ensure True e = Inr ()" "ensure False e = Inl e"
  by (simp_all add: ensure_def)

text \<open>Collecting into a \<open>Result<Vec<_>, _>\<close>: the first error wins.\<close>

fun mapR :: "('a \<Rightarrow> 'e + 'b) \<Rightarrow> 'a list \<Rightarrow> 'e + 'b list" where
  "mapR f [] = Inr []"
| "mapR f (x # xs) = bindR (f x) (\<lambda>y. bindR (mapR f xs) (\<lambda>ys. Inr (y # ys)))"

lemma mapR_total: "(\<And>x. x \<in> set xs \<Longrightarrow> f x = Inr (g x)) \<Longrightarrow> mapR f xs = Inr (map g xs)"
  by (induction xs) auto

lemma mapR_Inr_iff: "mapR f xs = Inr ys \<longleftrightarrow> list_all2 (\<lambda>x y. f x = Inr y) xs ys"
  by (induction xs arbitrary: ys) (auto simp: bindR_Inr_iff list_all2_Cons1)

section \<open>Effects: errors and state\<close>

type_synonym ('s, 'a) eff = "'s \<Rightarrow> 'a result \<times> 's"

definition returnE :: "'a \<Rightarrow> ('s, 'a) eff" where
  "returnE a = (\<lambda>s. (Inr a, s))"

definition throwE :: "app_error \<Rightarrow> ('s, 'a) eff" where
  "throwE e = (\<lambda>s. (Inl e, s))"

text \<open>\<open>let x = m?; f x\<close>: an error of \<open>m\<close> is returned with the state \<open>m\<close> left.\<close>

definition bindE :: "('s, 'a) eff \<Rightarrow> ('a \<Rightarrow> ('s, 'b) eff) \<Rightarrow> ('s, 'b) eff" where
  "bindE m f = (\<lambda>s. case m s of (Inl e, s') \<Rightarrow> (Inl e, s') | (Inr a, s') \<Rightarrow> f a s')"

text \<open>A pure result in an effect, a read of the state, and \<open>m.ok()\<close> or a \<open>match\<close> on \<open>m\<close>.\<close>

definition liftE :: "'a result \<Rightarrow> ('s, 'a) eff" where
  "liftE r = (\<lambda>s. (r, s))"

definition getsE :: "('s \<Rightarrow> 'a) \<Rightarrow> ('s, 'a) eff" where
  "getsE g = (\<lambda>s. (Inr (g s), s))"

definition modifyE :: "('s \<Rightarrow> 's) \<Rightarrow> ('s, unit) eff" where
  "modifyE g = (\<lambda>s. (Inr (), g s))"

definition attemptE :: "('s, 'a) eff \<Rightarrow> ('s, 'a result) eff" where
  "attemptE m = (\<lambda>s. case m s of (r, s') \<Rightarrow> (Inr r, s'))"

definition map_errE :: "(app_error \<Rightarrow> app_error) \<Rightarrow> ('s, 'a) eff \<Rightarrow> ('s, 'a) eff" where
  "map_errE h m = (\<lambda>s. case m s of (Inl e, s') \<Rightarrow> (Inl (h e), s') | (Inr a, s') \<Rightarrow> (Inr a, s'))"

text \<open>A database transaction: an error rolls the state back.\<close>

definition transactionE :: "('s, 'a) eff \<Rightarrow> ('s, 'a) eff" where
  "transactionE m = (\<lambda>s. case m s of (Inl e, _) \<Rightarrow> (Inl e, s) | (Inr a, s') \<Rightarrow> (Inr a, s'))"

text \<open>A \<open>for\<close> loop whose body may fail.\<close>

fun forE :: "'x list \<Rightarrow> ('x \<Rightarrow> ('s, unit) eff) \<Rightarrow> ('s, unit) eff" where
  "forE [] f = returnE ()"
| "forE (x # xs) f = bindE (f x) (\<lambda>_. forE xs f)"

lemma returnE_run [eff_simps]: "returnE a s = (Inr a, s)"
  by (simp add: returnE_def)

lemma throwE_run [eff_simps]: "throwE e s = (Inl e, s)"
  by (simp add: throwE_def)

lemma liftE_run [eff_simps]: "liftE r s = (r, s)"
  by (simp add: liftE_def)

lemma getsE_run [eff_simps]: "getsE g s = (Inr (g s), s)"
  by (simp add: getsE_def)

lemma modifyE_run [eff_simps]: "modifyE g s = (Inr (), g s)"
  by (simp add: modifyE_def)

lemma attemptE_run [eff_simps]: "attemptE m s = (Inr (fst (m s)), snd (m s))"
  by (simp add: attemptE_def split: prod.split)

lemma map_errE_run [eff_simps]:
  "map_errE h m s = (case fst (m s) of Inl e \<Rightarrow> Inl (h e) | Inr a \<Rightarrow> Inr a, snd (m s))"
  by (simp add: map_errE_def split: prod.split sum.split)

lemma bindE_run [eff_simps]:
  "bindE m f s = (case fst (m s) of Inl e \<Rightarrow> (Inl e, snd (m s)) | Inr a \<Rightarrow> f a (snd (m s)))"
  by (simp add: bindE_def split: prod.split sum.split)

lemma transactionE_run [eff_simps]:
  "transactionE m s = (case fst (m s) of Inl e \<Rightarrow> (Inl e, s) | Inr a \<Rightarrow> (Inr a, snd (m s)))"
  by (simp add: transactionE_def split: prod.split sum.split)

text \<open>Running the first step of a sequence, when its outcome is known.\<close>

named_theorems bind_simps \<open>the first step of a sequence is run\<close>

lemma bindE_step [bind_simps]:
  "m s = (Inr a, s') \<Longrightarrow> bindE m f s = f a s'"
  "m s = (Inl e, s') \<Longrightarrow> bindE m f s = (Inl e, s')"
  by (simp_all add: bindE_def)

lemma bindE_pure [bind_simps]:
  "bindE (liftE (Inr a)) f = f a"
  "bindE (liftE (Inl e)) f = throwE e"
  "bindE (returnE a) f = f a"
  "bindE (throwE e) f = throwE e"
  "bindE (bindE m g) f = bindE m (\<lambda>b. bindE (g b) f)"
  by (auto simp: bindE_def liftE_def returnE_def throwE_def fun_eq_iff split: prod.split sum.split)

lemma bindE_state [bind_simps]:
  "bindE (getsE g) f s = f (g s) s"
  "bindE (modifyE h) k s = k () (h s)"
  by (simp_all add: bindE_def getsE_def modifyE_def)

lemma bindE_same: "m s = m' s \<Longrightarrow> bindE m f s = bindE m' f s"
  by (simp add: bindE_def)

text \<open>What a successful or failed \<open>bindE\<close> and \<open>transactionE\<close> say of their parts.\<close>

lemma bindE_Inr_iff:
  "bindE m f s = (Inr b, s') \<longleftrightarrow> (\<exists>a s1. m s = (Inr a, s1) \<and> f a s1 = (Inr b, s'))"
  by (cases "m s") (auto simp: bindE_def split: sum.splits)

lemma bindE_Inl_iff:
  "bindE m f s = (Inl e, s') \<longleftrightarrow>
     m s = (Inl e, s') \<or> (\<exists>a s1. m s = (Inr a, s1) \<and> f a s1 = (Inl e, s'))"
  by (cases "m s") (auto simp: bindE_def split: sum.splits)

lemma transactionE_Inr_iff: "transactionE m s = (Inr a, s') \<longleftrightarrow> m s = (Inr a, s')"
  by (cases "m s") (auto simp: transactionE_def split: sum.splits)

lemma transactionE_Inl_state: "transactionE m s = (Inl e, s') \<Longrightarrow> s' = s"
  by (cases "m s") (auto simp: transactionE_def split: sum.splits)

lemma liftE_Inr_iff: "liftE r s = (Inr a, s') \<longleftrightarrow> r = Inr a \<and> s' = s"
  by (auto simp: liftE_def)

lemma returnE_iff: "returnE a s = (r, s') \<longleftrightarrow> r = Inr a \<and> s' = s"
  by (auto simp: returnE_def)

lemma getsE_iff: "getsE g s = (r, s') \<longleftrightarrow> r = Inr (g s) \<and> s' = s"
  by (auto simp: getsE_def)

lemma modifyE_iff: "modifyE g s = (r, s') \<longleftrightarrow> r = Inr () \<and> s' = g s"
  by (auto simp: modifyE_def)

lemma throwE_iff: "throwE e s = (r, s') \<longleftrightarrow> r = Inl e \<and> s' = s"
  by (auto simp: throwE_def)

lemmas eff_iffs = bindE_Inr_iff bindE_Inl_iff transactionE_Inr_iff liftE_Inr_iff returnE_iff
  getsE_iff modifyE_iff throwE_iff

section \<open>Invariants of effects\<close>

text \<open>\<open>keeps I m\<close>: whatever \<open>m\<close> answers, error or not, it leaves a state in which \<open>I\<close> holds.\<close>

definition keeps :: "('s \<Rightarrow> bool) \<Rightarrow> ('s, 'a) eff \<Rightarrow> bool" where
  "keeps I m \<longleftrightarrow> (\<forall>s. I s \<longrightarrow> I (snd (m s)))"

lemma keepsD: "keeps I m \<Longrightarrow> I s \<Longrightarrow> I (snd (m s))"
  by (simp add: keeps_def)

lemma keeps_returnE [inv_intros]: "keeps I (returnE a)"
  by (simp add: keeps_def returnE_def)

lemma keeps_throwE [inv_intros]: "keeps I (throwE e)"
  by (simp add: keeps_def throwE_def)

lemma keeps_liftE [inv_intros]: "keeps I (liftE r)"
  by (simp add: keeps_def liftE_def)

lemma keeps_getsE [inv_intros]: "keeps I (getsE g)"
  by (simp add: keeps_def getsE_def)

lemma keeps_bindE [inv_intros]: "keeps I m \<Longrightarrow> (\<And>a. keeps I (f a)) \<Longrightarrow> keeps I (bindE m f)"
  by (auto simp: keeps_def bindE_run split: sum.split)

lemma keeps_attemptE [inv_intros]: "keeps I m \<Longrightarrow> keeps I (attemptE m)"
  by (auto simp: keeps_def attemptE_run)

lemma keeps_map_errE [inv_intros]: "keeps I m \<Longrightarrow> keeps I (map_errE h m)"
  by (auto simp: keeps_def map_errE_run)

lemma keeps_transactionE [inv_intros]: "keeps I m \<Longrightarrow> keeps I (transactionE m)"
  by (auto simp: keeps_def transactionE_run split: sum.split)

lemma keeps_forE [inv_intros]: "(\<And>x. keeps I (f x)) \<Longrightarrow> keeps I (forE xs f)"
  by (induction xs) (auto intro: inv_intros)

lemma keeps_if [inv_intros]: "keeps I m \<Longrightarrow> keeps I m' \<Longrightarrow> keeps I (if b then m else m')"
  by simp

lemma keeps_option [inv_intros]:
  "keeps I m \<Longrightarrow> (\<And>a. keeps I (f a)) \<Longrightarrow> keeps I (case x of None \<Rightarrow> m | Some a \<Rightarrow> f a)"
  by (cases x) auto

lemma keeps_sum [inv_intros]:
  "(\<And>e. keeps I (g e)) \<Longrightarrow> (\<And>a. keeps I (f a)) \<Longrightarrow> keeps I (case x of Inl e \<Rightarrow> g e | Inr a \<Rightarrow> f a)"
  by (cases x) auto

text \<open>An effect that reads only.\<close>

definition reads_only :: "('s, 'a) eff \<Rightarrow> bool" where
  "reads_only m \<longleftrightarrow> (\<forall>s. snd (m s) = s)"

lemma reads_only_keeps: "reads_only m \<Longrightarrow> keeps I m"
  by (simp add: reads_only_def keeps_def)

text \<open>
  \<open>frames V m\<close>: \<open>m\<close> never changes the part \<open>V\<close> of the state. \<open>atomic V m\<close>: a failure of \<open>m\<close>
  leaves that part as it was.
\<close>

named_theorems atomic_intros \<open>an operation that fails changes nothing of a part of the state\<close>
named_theorems frame_intros \<open>an operation never changes a part of the state\<close>

definition frames :: "('s \<Rightarrow> 'v) \<Rightarrow> ('s, 'a) eff \<Rightarrow> bool" where
  "frames V m \<longleftrightarrow> (\<forall>s. V (snd (m s)) = V s)"

definition atomic :: "('s \<Rightarrow> 'v) \<Rightarrow> ('s, 'a) eff \<Rightarrow> bool" where
  "atomic V m \<longleftrightarrow> (\<forall>s e s'. m s = (Inl e, s') \<longrightarrow> V s' = V s)"

lemma framesD: "frames V m \<Longrightarrow> m s = (r, s') \<Longrightarrow> V s' = V s"
  by (metis frames_def snd_conv)

lemma atomicD: "atomic V m \<Longrightarrow> m s = (Inl e, s') \<Longrightarrow> V s' = V s"
  by (simp add: atomic_def)

lemma frames_returnE [frame_intros]: "frames V (returnE a)"
  by (simp add: frames_def returnE_def)

lemma frames_throwE [frame_intros]: "frames V (throwE e)"
  by (simp add: frames_def throwE_def)

lemma frames_liftE [frame_intros]: "frames V (liftE r)"
  by (simp add: frames_def liftE_def)

lemma frames_getsE [frame_intros]: "frames V (getsE g)"
  by (simp add: frames_def getsE_def)

lemma frames_bindE [frame_intros]:
  "frames V m \<Longrightarrow> (\<And>a. frames V (f a)) \<Longrightarrow> frames V (bindE m f)"
  by (auto simp: frames_def bindE_run split: sum.split)

lemma frames_attemptE [frame_intros]: "frames V m \<Longrightarrow> frames V (attemptE m)"
  by (simp add: frames_def attemptE_run)

lemma frames_map_errE [frame_intros]: "frames V m \<Longrightarrow> frames V (map_errE h m)"
  by (simp add: frames_def map_errE_run)

lemma frames_if [frame_intros]: "frames V m \<Longrightarrow> frames V m' \<Longrightarrow> frames V (if b then m else m')"
  by simp

lemma frames_option [frame_intros]:
  "frames V m \<Longrightarrow> (\<And>a. frames V (f a)) \<Longrightarrow> frames V (case x of None \<Rightarrow> m | Some a \<Rightarrow> f a)"
  by (cases x) auto

lemma frames_sum [frame_intros]:
  "(\<And>e. frames V (g e)) \<Longrightarrow> (\<And>a. frames V (f a)) \<Longrightarrow>
   frames V (case x of Inl e \<Rightarrow> g e | Inr a \<Rightarrow> f a)"
  by (cases x) auto

lemma frames_prod [frame_intros]:
  "(\<And>a b. frames V (f a b)) \<Longrightarrow> frames V (case x of (a, b) \<Rightarrow> f a b)"
  by (cases x) auto

lemma frames_forE [frame_intros]: "(\<And>x. frames V (f x)) \<Longrightarrow> frames V (forE xs f)"
  by (induction xs) (auto intro: frame_intros)

lemma frames_atomic: "frames V m \<Longrightarrow> atomic V m"
  by (auto simp: atomic_def dest: framesD)

lemma atomic_bindE [atomic_intros]:
  assumes "frames V m" "\<And>a. atomic V (f a)"
  shows "atomic V (bindE m f)"
  unfolding atomic_def
proof (intro allI impI)
  fix s e s'
  assume "bindE m f s = (Inl e, s')"
  then show "V s' = V s"
    using framesD [OF assms(1), of s] atomicD [OF assms(2)] by (auto simp: bindE_Inl_iff)
qed

text \<open>A step that fails having written nothing, followed by writes that cannot fail.\<close>

lemma atomic_bind_total:
  assumes "atomic V m" "\<And>a s. \<exists>b. fst (f a s) = Inr b"
  shows "atomic V (bindE m f)"
  unfolding atomic_def
proof (intro allI impI)
  fix s e s'
  assume "bindE m f s = (Inl e, s')"
  then show "V s' = V s"
    using atomicD [OF assms(1), of s] assms(2) by (auto simp: bindE_Inl_iff) (metis fst_conv sum.distinct(1))
qed

lemma atomic_modifyE [atomic_intros]: "atomic V (modifyE g)"
  by (simp add: atomic_def modifyE_def)

lemma atomic_transactionE [atomic_intros]: "atomic V (transactionE m)"
  by (auto simp: atomic_def dest: transactionE_Inl_state)

lemma atomic_if [atomic_intros]: "atomic V m \<Longrightarrow> atomic V m' \<Longrightarrow> atomic V (if b then m else m')"
  by simp

lemma atomic_option [atomic_intros]:
  "atomic V m \<Longrightarrow> (\<And>a. atomic V (f a)) \<Longrightarrow> atomic V (case x of None \<Rightarrow> m | Some a \<Rightarrow> f a)"
  by (cases x) auto

lemmas atomic_leaves [atomic_intros] =
  frames_atomic [OF frames_returnE] frames_atomic [OF frames_throwE] frames_atomic [OF frames_liftE]
  frames_atomic [OF frames_getsE]

section \<open>Lists used as tables\<close>

text \<open>
  A table is the list of its rows in insertion order. \<open>find_row\<close> is a lookup by key,
  \<open>update_where\<close> an \<open>UPDATE .. WHERE\<close>, \<open>filter\<close> a \<open>SELECT\<close> or, negated, a \<open>DELETE\<close>.
\<close>

definition find_row :: "('r \<Rightarrow> 'k) \<Rightarrow> 'k \<Rightarrow> 'r list \<Rightarrow> 'r option" where
  "find_row key k rs = find (\<lambda>r. key r = k) rs"

definition update_where :: "('r \<Rightarrow> bool) \<Rightarrow> ('r \<Rightarrow> 'r) \<Rightarrow> 'r list \<Rightarrow> 'r list" where
  "update_where P f rs = map (\<lambda>r. if P r then f r else r) rs"

definition count_where :: "('r \<Rightarrow> bool) \<Rightarrow> 'r list \<Rightarrow> nat" where
  "count_where P rs = length (filter P rs)"

lemma find_row_simps [simp]:
  "find_row key k [] = None"
  "find_row key k (r # rs) = (if key r = k then Some r else find_row key k rs)"
  by (simp_all add: find_row_def)

lemma find_row_Some_in: "find_row key k rs = Some r \<Longrightarrow> r \<in> set rs \<and> key r = k"
  by (induction rs) (auto split: if_splits)

lemma find_row_None_iff: "find_row key k rs = None \<longleftrightarrow> k \<notin> key ` set rs"
  by (induction rs) auto

lemma find_row_in: "distinct (map key rs) \<Longrightarrow> r \<in> set rs \<Longrightarrow> find_row key (key r) rs = Some r"
  by (induction rs) force+

lemma find_row_append:
  "find_row key k (rs @ rs') =
     (case find_row key k rs of Some r \<Rightarrow> Some r | None \<Rightarrow> find_row key k rs')"
  by (induction rs) auto

lemma update_where_simps [simp]:
  "update_where P f [] = []"
  "update_where P f (r # rs) = (if P r then f r else r) # update_where P f rs"
  by (simp_all add: update_where_def)

lemma set_update_where: "set (update_where P f rs) = (\<lambda>r. if P r then f r else r) ` set rs"
  by (simp add: update_where_def)

lemma map_update_where_same:
  "(\<And>r. P r \<Longrightarrow> g (f r) = g r) \<Longrightarrow> map g (update_where P f rs) = map g rs"
  by (induction rs) auto

lemma find_row_update_where:
  assumes "\<And>r. key (f r) = key r"
  shows "find_row key k (update_where P f rs) =
    map_option (\<lambda>r. if P r then f r else r) (find_row key k rs)"
  using assms by (induction rs) auto

lemma update_where_none: "(\<And>r. r \<in> set rs \<Longrightarrow> \<not> P r) \<Longrightarrow> update_where P f rs = rs"
  by (induction rs) auto

lemma find_row_filter_key:
  "find_row key k (filter (\<lambda>r. key r \<noteq> k') rs) = (if k = k' then None else find_row key k rs)"
  by (induction rs) auto

lemma find_row_filter_distinct:
  "distinct (map key rs) \<Longrightarrow>
   find_row key k (filter P rs) =
     (case find_row key k rs of None \<Rightarrow> None | Some r \<Rightarrow> if P r then Some r else None)"
proof (induction rs)
  case Nil
  show ?case by simp
next
  case (Cons r rs)
  then have "key r = k \<Longrightarrow> find_row key k rs = None"
    by (auto simp: find_row_None_iff)
  with Cons show ?case by (auto split: option.splits)
qed

lemma distinct_map_filter_key: "distinct (map key rs) \<Longrightarrow> distinct (map key (filter P rs))"
  by (induction rs) auto

lemma count_where_eq_0 [simp]: "count_where P rs = 0 \<longleftrightarrow> (\<forall>r \<in> set rs. \<not> P r)"
  by (simp add: count_where_def filter_empty_conv)

lemma at_least_5:
  assumes "5 \<le> length bs"
  obtains a b c d e rest where "bs = a # b # c # d # e # rest"
proof -
  have "Suc (Suc (Suc (Suc (Suc 0)))) \<le> length bs" using assms by simp
  then show ?thesis using that by (auto simp only: Suc_le_length_iff)
qed

lemma drop_5: "drop (5 + n) (a # b # c # d # e # xs) = drop n xs"
  by (simp only: add.commute [of 5 n] drop_drop [symmetric]) simp

lemma count_where_pos [simp]: "0 < count_where P rs \<longleftrightarrow> (\<exists>r \<in> set rs. P r)"
  by (metis count_where_eq_0 neq0_conv)

lemma find_row_update_key:
  assumes "\<And>r. key (f r) = key r"
  shows "find_row key k (update_where (\<lambda>r. key r = k') f rs) =
    (if k = k' then map_option f (find_row key k rs) else find_row key k rs)"
  using assms by (induction rs) auto

lemma find_row_map:
  "(\<And>r. key (g r) = key r) \<Longrightarrow> find_row key k (map g rs) = map_option g (find_row key k rs)"
  by (induction rs) auto

lemma find_row_iff:
  assumes "distinct (map key rs)"
  shows "find_row key k rs = Some r \<longleftrightarrow> r \<in> set rs \<and> key r = k"
  using find_row_Some_in [of key k rs r] find_row_in [OF assms, of r] by blast

lemma find_unique:
  assumes "r \<in> set xs" "P r" "\<And>r'. r' \<in> set xs \<Longrightarrow> P r' \<Longrightarrow> r' = r"
  shows "find P xs = Some r"
proof (cases "find P xs")
  case None
  then show ?thesis using assms(1,2) by (simp add: find_None_iff)
next
  case (Some r')
  then have "r' \<in> set xs" "P r'" by (auto simp: find_Some_iff)
  then show ?thesis using Some assms(3) by blast
qed

section \<open>Rust strings\<close>

definition as_bytes :: "string \<Rightarrow> bytes" where
  "as_bytes s = map of_char s"

definition cont_byte :: "byte \<Rightarrow> bool" where
  "cont_byte b \<longleftrightarrow> 0x80 \<le> b \<and> b \<le> 0xBF"

text \<open>
  \<open>std::str::from_utf8\<close>: the well-formed byte sequences of the Unicode standard (table 3-7), so
  no overlong form, no surrogate and nothing above U+10FFFF.
\<close>

fun utf8_valid :: "bytes \<Rightarrow> bool" where
  "utf8_valid [] = True"
| "utf8_valid [a] = (a < 0x80)"
| "utf8_valid [a, b] =
     (if a < 0x80 then utf8_valid [b] else 0xC2 \<le> a \<and> a \<le> 0xDF \<and> cont_byte b)"
| "utf8_valid [a, b, c] =
     (if a < 0x80 then utf8_valid [b, c]
      else if 0xC2 \<le> a \<and> a \<le> 0xDF then cont_byte b \<and> utf8_valid [c]
      else 0xE0 \<le> a \<and> a \<le> 0xEF \<and> cont_byte b \<and> cont_byte c
           \<and> (a = 0xE0 \<longrightarrow> 0xA0 \<le> b) \<and> (a = 0xED \<longrightarrow> b \<le> 0x9F))"
| "utf8_valid (a # b # c # d # r) =
     (if a < 0x80 then utf8_valid (b # c # d # r)
      else if 0xC2 \<le> a \<and> a \<le> 0xDF then cont_byte b \<and> utf8_valid (c # d # r)
      else if 0xE0 \<le> a \<and> a \<le> 0xEF then cont_byte b \<and> cont_byte c
           \<and> (a = 0xE0 \<longrightarrow> 0xA0 \<le> b) \<and> (a = 0xED \<longrightarrow> b \<le> 0x9F) \<and> utf8_valid (d # r)
      else 0xF0 \<le> a \<and> a \<le> 0xF4 \<and> cont_byte b \<and> cont_byte c \<and> cont_byte d
           \<and> (a = 0xF0 \<longrightarrow> 0x90 \<le> b) \<and> (a = 0xF4 \<longrightarrow> b \<le> 0x8F) \<and> utf8_valid r)"

definition from_utf8 :: "bytes \<Rightarrow> string option" where
  "from_utf8 bs = (if utf8_valid bs then Some (map (\<lambda>b. char_of (unat b)) bs) else None)"

lemma unat_of_char [simp]: "unat (of_char c :: byte) = of_char c"
proof -
  have "(of_char c :: nat) < 256" by simp
  then have "unat (of_nat (of_char c) :: byte) = of_char c"
    by (simp add: unat_of_nat)
  then show ?thesis by (simp add: of_nat_of_char)
qed

lemma of_char_byte: "(of_char (char_of (unat b)) :: byte) = b"
proof -
  have "unat b < 256" using unsigned_less [of b] by simp
  then have "unat (of_char (char_of (unat b)) :: byte) = unat b" by simp
  then show ?thesis by (simp only: word_unat_eq_iff)
qed

lemma from_utf8_as_bytes: "utf8_valid (as_bytes s) \<Longrightarrow> from_utf8 (as_bytes s) = Some s"
  by (simp add: from_utf8_def as_bytes_def comp_def)

lemma as_bytes_from_utf8: "from_utf8 bs = Some s \<Longrightarrow> as_bytes s = bs"
  by (auto simp: from_utf8_def as_bytes_def of_char_byte comp_def split: if_splits)

lemma length_as_bytes [simp]: "length (as_bytes s) = length s"
  by (simp add: as_bytes_def)

lemma inj_as_bytes: "as_bytes s = as_bytes t \<Longrightarrow> s = t"
proof -
  assume "as_bytes s = as_bytes t"
  then have "map (\<lambda>b. char_of (unat b)) (as_bytes s) = map (\<lambda>b. char_of (unat b)) (as_bytes t)"
    by simp
  then show "s = t" by (simp add: as_bytes_def comp_def)
qed

text \<open>
  \<open>str::trim\<close> removes the characters of the Unicode property White_Space at both ends. The
  UTF-8 form of each of them, as character codes:
\<close>

definition white_space :: "nat list list" where
  "white_space =
     [[9], [10], [11], [12], [13], [32], [194, 133], [194, 160], [225, 154, 128],
      [226, 128, 128], [226, 128, 129], [226, 128, 130], [226, 128, 131], [226, 128, 132],
      [226, 128, 133], [226, 128, 134], [226, 128, 135], [226, 128, 136], [226, 128, 137],
      [226, 128, 138], [226, 128, 168], [226, 128, 169], [226, 128, 175], [226, 129, 159],
      [227, 128, 128]]"

fun strip_prefix :: "nat list \<Rightarrow> string \<Rightarrow> string option" where
  "strip_prefix [] s = Some s"
| "strip_prefix (p # ps) [] = None"
| "strip_prefix (p # ps) (c # cs) = (if of_char c = p then strip_prefix ps cs else None)"

fun first_strip :: "nat list list \<Rightarrow> string \<Rightarrow> string option" where
  "first_strip [] s = None"
| "first_strip (p # ps) s = (case strip_prefix p s of Some r \<Rightarrow> Some r | None \<Rightarrow> first_strip ps s)"

lemma strip_prefix_length: "strip_prefix p s = Some r \<Longrightarrow> length s = length p + length r"
  by (induction p s rule: strip_prefix.induct) (auto split: if_splits)

lemma first_strip_shorter:
  "\<forall>p \<in> set ps. p \<noteq> [] \<Longrightarrow> first_strip ps s = Some r \<Longrightarrow> length r < length s"
  by (induction ps) (auto dest!: strip_prefix_length split: option.splits)

function trim_with :: "nat list list \<Rightarrow> string \<Rightarrow> string" where
  "trim_with ps s =
     (if list_all (\<lambda>p. p \<noteq> []) ps
      then (case first_strip ps s of Some r \<Rightarrow> trim_with ps r | None \<Rightarrow> s) else s)"
  by pat_completeness auto
termination
  by (relation "measure (\<lambda>(ps, s). length s)") (auto simp: list_all_iff intro: first_strip_shorter)

declare trim_with.simps [simp del]

definition trim :: "string \<Rightarrow> string" where
  "trim s = rev (trim_with (map rev white_space) (rev (trim_with white_space s)))"

lemma trim_with_length: "length (trim_with ps s) \<le> length s"
proof (induction ps s rule: trim_with.induct)
  case (1 ps s)
  show ?case
  proof (cases "list_all (\<lambda>p. p \<noteq> []) ps \<and> first_strip ps s \<noteq> None")
    case True
    then obtain r where r: "first_strip ps s = Some r" by auto
    with True have "length r < length s"
      by (auto simp: list_all_iff intro: first_strip_shorter)
    moreover from "1.IH" True r have "length (trim_with ps r) \<le> length r" by blast
    ultimately show ?thesis using True r by (simp add: trim_with.simps [of ps s])
  next
    case False
    then show ?thesis by (auto simp: trim_with.simps [of ps s] split: option.split)
  qed
qed

lemma trim_length: "length (trim s) \<le> length s"
  using trim_with_length [of white_space s]
    trim_with_length [of "map rev white_space" "rev (trim_with white_space s)"]
  by (simp add: trim_def)

lemma trim_Nil [simp]: "trim [] = []"
  using trim_length [of "[]"] by simp

definition is_ascii_digit :: "char \<Rightarrow> bool" where
  "is_ascii_digit c \<longleftrightarrow> (48::nat) \<le> of_char c \<and> of_char c \<le> (57::nat)"

text \<open>Signed machine integers whose overflow a function handles are kept as \<open>int\<close> with it written out.\<close>

definition saturate_i64 :: "int \<Rightarrow> int" where
  "saturate_i64 x = max (- (2 ^ 63)) (min (2 ^ 63 - 1) x)"

definition wrap_i32 :: "int \<Rightarrow> int" where
  "wrap_i32 x = (x + 2 ^ 31) mod 2 ^ 32 - 2 ^ 31"

lemma saturate_i64_id [simp]: "- (2 ^ 63) \<le> x \<Longrightarrow> x < 2 ^ 63 \<Longrightarrow> saturate_i64 x = x"
  by (simp add: saturate_i64_def)

lemma saturate_i64_nonneg: "0 \<le> x \<Longrightarrow> 0 \<le> saturate_i64 x"
  by (simp add: saturate_i64_def)

lemma wrap_i32_id [simp]: "- (2 ^ 31) \<le> x \<Longrightarrow> x < 2 ^ 31 \<Longrightarrow> wrap_i32 x = x"
  by (simp add: wrap_i32_def)

text \<open>Instants are nanoseconds since the Unix epoch, as \<open>DateTime<Utc>\<close> counts them.\<close>

definition nanos_per_sec :: int where
  "nanos_per_sec = 1000000000"

text \<open>\<open>DateTime::timestamp\<close> and \<open>TimeDelta::num_seconds\<close> of a positive difference.\<close>

definition unix_secs :: "timestamp \<Rightarrow> int" where
  "unix_secs t = t div nanos_per_sec"

text \<open>\<open>saturating_add\<close> on an unsigned machine integer.\<close>

definition saturating_add :: "'w::len word \<Rightarrow> 'w word \<Rightarrow> 'w word" where
  "saturating_add a b = (if a + b < a then - 1 else a + b)"

end
