(* ===== verification/HV_Models.thy ===== *)
theory HV_Models
  imports HV_Prelude
begin

text \<open>
  The domain types of src/crates/heelonvault-core/src/models/ and the text codes under which
  their enumerations are stored. The locale \<open>db_enum\<close> is the contract of such a code: what is
  written is read back, and every text that is read is the code of one value. Each enumeration
  of the repository interprets it with the parser and printer of its own file.
\<close>

section \<open>Text codes of enumerations\<close>

locale db_enum =
  fixes to_db :: "'e \<Rightarrow> string"
    and from_db :: "string \<Rightarrow> 'e option"
  assumes read_written: "from_db (to_db e) = Some e"
    and written_read: "from_db s = Some e \<Longrightarrow> s = to_db e"
begin

lemma from_db_iff: "from_db s = Some e \<longleftrightarrow> s = to_db e"
  using read_written written_read by blast

lemma to_db_inject: "to_db e = to_db e' \<longleftrightarrow> e = e'"
  using read_written by (metis option.inject)

lemma from_db_None_iff: "from_db s = None \<longleftrightarrow> s \<notin> range to_db"
  using read_written written_read by (metis not_None_eq rangeE rangeI)

end

section \<open>Users\<close>

datatype user_role = User | Admin

record user =
  usr_id :: uuid
  usr_username :: string
  usr_role :: user_role
  usr_email :: "string option"
  usr_display_name :: "string option"
  usr_preferred_language :: string
  usr_show_passwords_in_edit :: bool
  usr_updated_at :: "string option"

text \<open>\<open>UserRole::to_db_str\<close>, and the repository's own pair \<open>format_role\<close> and \<open>parse_role\<close>.\<close>

fun user_role_to_db_str :: "user_role \<Rightarrow> string" where
  "user_role_to_db_str Admin = ''admin''"
| "user_role_to_db_str User = ''user''"

fun format_role :: "user_role \<Rightarrow> string" where
  "format_role Admin = ''admin''"
| "format_role User = ''user''"

definition parse_role :: "string \<Rightarrow> user_role result" where
  "parse_role s =
     (if s = ''user'' then Inr User
      else if s = ''admin'' then Inr Admin
      else Inl (Storage ''invalid user role in storage''))"

section \<open>Teams\<close>

datatype team_member_role = Member | Leader

record team =
  tm_id :: uuid
  tm_name :: string
  tm_created_by :: "uuid option"
  tm_created_at :: string

record team_member =
  mem_team_id :: uuid
  mem_user_id :: uuid
  mem_role :: team_member_role
  mem_joined_at :: string

fun team_member_role_to_db_str :: "team_member_role \<Rightarrow> string" where
  "team_member_role_to_db_str Member = ''member''"
| "team_member_role_to_db_str Leader = ''leader''"

definition team_member_role_from_db_str :: "string \<Rightarrow> string + team_member_role" where
  "team_member_role_from_db_str s =
     (if s = ''member'' then Inr Member
      else if s = ''leader'' then Inr Leader
      else Inl (''unknown team member role: '' @ s))"

definition parse_member_role :: "string \<Rightarrow> team_member_role result" where
  "parse_member_role raw =
     (case team_member_role_from_db_str raw of
        Inr r \<Rightarrow> Inr r
      | Inl err \<Rightarrow> Inl (Storage (''invalid team member role in storage: '' @ err)))"

section \<open>Vaults\<close>

record vault =
  v_id :: uuid
  v_owner_user_id :: uuid
  v_name :: string

datatype vault_share_role = RoleRead | RoleWrite | RoleAdmin

fun vault_share_role_to_db_str :: "vault_share_role \<Rightarrow> string" where
  "vault_share_role_to_db_str RoleRead = ''read''"
| "vault_share_role_to_db_str RoleWrite = ''write''"
| "vault_share_role_to_db_str RoleAdmin = ''admin''"

definition vault_share_role_from_db_str :: "string \<Rightarrow> vault_share_role option" where
  "vault_share_role_from_db_str raw =
     (if raw = ''read'' then Some RoleRead
      else if raw = ''write'' then Some RoleWrite
      else if raw = ''admin'' then Some RoleAdmin
      else None)"

definition can_write :: "vault_share_role \<Rightarrow> bool" where
  "can_write r \<longleftrightarrow> r = RoleWrite \<or> r = RoleAdmin"

definition can_admin :: "vault_share_role \<Rightarrow> bool" where
  "can_admin r \<longleftrightarrow> r = RoleAdmin"

datatype vault_access_kind = Owner | DirectShare | TeamShare

definition vault_access_kind_from_db_str :: "string \<Rightarrow> vault_access_kind option" where
  "vault_access_kind_from_db_str raw =
     (if raw = ''owner'' then Some Owner
      else if raw = ''direct_share'' then Some DirectShare
      else if raw = ''team_share'' then Some TeamShare
      else None)"

record accessible_vault =
  av_vault :: vault
  av_role :: vault_share_role
  av_access_kind :: vault_access_kind
  av_vault_key_version :: int

section \<open>Secrets\<close>

datatype secret_type = Password | ApiToken | SshKey | SecureDocument

definition from_dropdown_index :: "32 word \<Rightarrow> secret_type option" where
  "from_dropdown_index i =
     (if i = 0 then Some Password
      else if i = 1 then Some ApiToken
      else if i = 2 then Some SshKey
      else if i = 3 then Some SecureDocument
      else None)"

fun dropdown_index :: "secret_type \<Rightarrow> 32 word" where
  "dropdown_index Password = 0"
| "dropdown_index ApiToken = 1"
| "dropdown_index SshKey = 2"
| "dropdown_index SecureDocument = 3"

fun to_secret_type_db :: "secret_type \<Rightarrow> string" where
  "to_secret_type_db Password = ''password''"
| "to_secret_type_db ApiToken = ''api_token''"
| "to_secret_type_db SshKey = ''ssh_key''"
| "to_secret_type_db SecureDocument = ''secure_document''"

definition parse_secret_type_db :: "string \<Rightarrow> secret_type result" where
  "parse_secret_type_db raw =
     (if raw = ''password'' then Inr Password
      else if raw = ''api_token'' then Inr ApiToken
      else if raw = ''ssh_key'' then Inr SshKey
      else if raw = ''secure_document'' then Inr SecureDocument
      else Inl (Storage ''invalid secret_type in storage''))"

datatype blob_storage = Inline | File

fun to_blob_storage_db :: "blob_storage \<Rightarrow> string" where
  "to_blob_storage_db Inline = ''inline''"
| "to_blob_storage_db File = ''file''"

definition parse_blob_storage_db :: "string \<Rightarrow> blob_storage result" where
  "parse_blob_storage_db raw =
     (if raw = ''inline'' then Inr Inline
      else if raw = ''file'' then Inr File
      else Inl (Storage ''invalid blob_storage in storage''))"

record secret_item =
  si_id :: uuid
  si_vault_id :: uuid
  si_secret_type :: secret_type
  si_title :: "string option"
  si_metadata_json :: "string option"
  si_tags :: "string option"
  si_expires_at :: "string option"
  si_created_at :: "string option"
  si_modified_at :: "string option"
  si_usage_count :: "32 word"
  si_blob_storage :: blob_storage
  si_secret_blob :: bytes
  si_deleted_at :: "string option"

section \<open>Audit actions\<close>

datatype audit_action =
    UserCreated | UserDeleted | UserRoleChanged | UserPasswordReset
  | TeamCreated | TeamDeleted | TeamMemberAdded | TeamMemberRemoved
  | VaultSharedWithUser | VaultSharedWithTeam | VaultAccessRevoked | VaultKeyRotated
  | VaultCreated | VaultDeleted | VaultOpened
  | SecretCreated | SecretUpdated | SecretDeleted | SecretViewed
  | SecretPasswordCopied | SecretFieldCopied

fun audit_action_to_db_str :: "audit_action \<Rightarrow> string" where
  "audit_action_to_db_str UserCreated = ''user.created''"
| "audit_action_to_db_str UserDeleted = ''user.deleted''"
| "audit_action_to_db_str UserRoleChanged = ''user.role_changed''"
| "audit_action_to_db_str UserPasswordReset = ''user.password_reset''"
| "audit_action_to_db_str TeamCreated = ''team.created''"
| "audit_action_to_db_str TeamDeleted = ''team.deleted''"
| "audit_action_to_db_str TeamMemberAdded = ''team.member_added''"
| "audit_action_to_db_str TeamMemberRemoved = ''team.member_removed''"
| "audit_action_to_db_str VaultSharedWithUser = ''vault.shared_with_user''"
| "audit_action_to_db_str VaultSharedWithTeam = ''vault.shared_with_team''"
| "audit_action_to_db_str VaultAccessRevoked = ''vault.access_revoked''"
| "audit_action_to_db_str VaultKeyRotated = ''vault.key_rotated''"
| "audit_action_to_db_str VaultCreated = ''vault.created''"
| "audit_action_to_db_str VaultDeleted = ''vault.deleted''"
| "audit_action_to_db_str VaultOpened = ''vault.opened''"
| "audit_action_to_db_str SecretCreated = ''secret.created''"
| "audit_action_to_db_str SecretUpdated = ''secret.updated''"
| "audit_action_to_db_str SecretDeleted = ''secret.deleted''"
| "audit_action_to_db_str SecretViewed = ''secret.viewed''"
| "audit_action_to_db_str SecretPasswordCopied = ''secret.password_copied''"
| "audit_action_to_db_str SecretFieldCopied = ''secret.field_copied''"

record audit_log_entry =
  al_id :: int
  al_actor_user_id :: "uuid option"
  al_action :: string
  al_target_type :: "string option"
  al_target_id :: "string option"
  al_detail :: "string option"
  al_performed_at :: string

section \<open>Licenses\<close>

datatype license_tier = Community | Professional

fun show_license_tier :: "license_tier \<Rightarrow> string" where
  "show_license_tier Community = ''Community''"
| "show_license_tier Professional = ''Professional''"

record license =
  lic_id :: string
  lic_customer_name :: string
  lic_slots_count :: "32 word"
  lic_expiration_date :: string
  lic_features :: "string list"
  lic_tier :: license_tier

text \<open>\<open>chrono::DateTime::parse_from_rfc3339\<close> is an argument: it belongs to another crate.\<close>

definition license_is_valid :: "(string \<Rightarrow> timestamp option) \<Rightarrow> timestamp \<Rightarrow> license \<Rightarrow> bool" where
  "license_is_valid parse_rfc3339 now l =
     (case parse_rfc3339 (lic_expiration_date l) of
        Some expiration \<Rightarrow> now \<le> expiration
      | None \<Rightarrow> False)"

definition has_capacity :: "32 word \<Rightarrow> license \<Rightarrow> bool" where
  "has_capacity current_slots l \<longleftrightarrow> current_slots < lic_slots_count l"

section \<open>The codes are faithful\<close>

interpretation user_role_code: db_enum user_role_to_db_str "\<lambda>s. ok_of (parse_role s)"
proof unfold_locales
  show "ok_of (parse_role (user_role_to_db_str e)) = Some e" for e
    by (cases e) (simp_all add: parse_role_def)
  show "ok_of (parse_role s) = Some e \<Longrightarrow> s = user_role_to_db_str e" for s e
    by (auto simp: parse_role_def split: if_splits)
qed

interpretation member_role_code: db_enum team_member_role_to_db_str
  "\<lambda>s. ok_of (parse_member_role s)"
proof unfold_locales
  show "ok_of (parse_member_role (team_member_role_to_db_str e)) = Some e" for e
    by (cases e) (simp_all add: parse_member_role_def team_member_role_from_db_str_def)
  show "ok_of (parse_member_role s) = Some e \<Longrightarrow> s = team_member_role_to_db_str e" for s e
    by (auto simp: parse_member_role_def team_member_role_from_db_str_def split: if_splits)
qed

interpretation share_role_code: db_enum vault_share_role_to_db_str vault_share_role_from_db_str
proof unfold_locales
  show "vault_share_role_from_db_str (vault_share_role_to_db_str e) = Some e" for e
    by (cases e) (simp_all add: vault_share_role_from_db_str_def)
  show "vault_share_role_from_db_str s = Some e \<Longrightarrow> s = vault_share_role_to_db_str e" for s e
    by (auto simp: vault_share_role_from_db_str_def split: if_splits)
qed

interpretation secret_type_code: db_enum to_secret_type_db "\<lambda>s. ok_of (parse_secret_type_db s)"
proof unfold_locales
  show "ok_of (parse_secret_type_db (to_secret_type_db e)) = Some e" for e
    by (cases e) (simp_all add: parse_secret_type_db_def)
  show "ok_of (parse_secret_type_db s) = Some e \<Longrightarrow> s = to_secret_type_db e" for s e
    by (auto simp: parse_secret_type_db_def split: if_splits)
qed

interpretation blob_storage_code: db_enum to_blob_storage_db "\<lambda>s. ok_of (parse_blob_storage_db s)"
proof unfold_locales
  show "ok_of (parse_blob_storage_db (to_blob_storage_db e)) = Some e" for e
    by (cases e) (simp_all add: parse_blob_storage_db_def)
  show "ok_of (parse_blob_storage_db s) = Some e \<Longrightarrow> s = to_blob_storage_db e" for s e
    by (auto simp: parse_blob_storage_db_def split: if_splits)
qed

lemma format_role_eq: "format_role r = user_role_to_db_str r"
  by (cases r) simp_all

lemma parse_format_role [simp]: "parse_role (format_role r) = Inr r"
  using user_role_code.read_written [of r] by (simp add: format_role_eq)

lemma parse_member_role_written [simp]:
  "parse_member_role (team_member_role_to_db_str r) = Inr r"
  using member_role_code.read_written [of r] by simp

lemma parse_secret_type_written [simp]: "parse_secret_type_db (to_secret_type_db t) = Inr t"
  using secret_type_code.read_written [of t] by simp

lemma parse_blob_storage_written [simp]: "parse_blob_storage_db (to_blob_storage_db t) = Inr t"
  using blob_storage_code.read_written [of t] by simp

lemma share_role_written [simp]:
  "vault_share_role_from_db_str (vault_share_role_to_db_str r) = Some r"
  by (rule share_role_code.read_written)

lemma can_admin_imp_can_write: "can_admin r \<Longrightarrow> can_write r"
  by (simp add: can_admin_def can_write_def)

text \<open>The type selector of the secret editor: the indices are exactly 0 to 3.\<close>

lemma dropdown_roundtrip: "from_dropdown_index (dropdown_index t) = Some t"
  by (cases t) (simp_all add: from_dropdown_index_def)

lemma dropdown_sound: "from_dropdown_index i = Some t \<Longrightarrow> dropdown_index t = i"
  by (auto simp: from_dropdown_index_def split: if_splits)

text \<open>No two audit actions share a code, so a filter on a code selects one action.\<close>

lemma audit_action_to_db_str_inject:
  "audit_action_to_db_str a = audit_action_to_db_str b \<longleftrightarrow> a = b"
  by (cases a; cases b) simp_all

end
