(* ===== verification/HV_Db.thy ===== *)
theory HV_Db
  imports HV_Models "HOL-Library.Product_Lexorder"
begin

text \<open>
  The database that the repositories of src/crates/heelonvault-core/src/repositories/ share. The
  tables are those of src/crates/heelonvault-app/migrations/, with the columns the core crate
  reads or writes. \<open>db_ok\<close> states the constraints the migrations declare: primary keys, UNIQUE
  columns, foreign keys and CHECKs. SQLite enforces them, so every statement of the repository
  files that could break one is modelled with the error it then raises.

  A row's identifiers are stored as the UUIDs themselves: the code writes \<open>Uuid::to_string\<close> and
  parses it back, a round trip of the uuid crate. Columns parsed by the repository's own code
  (roles, types, storage kinds) are kept as text.
\<close>

section \<open>Rows\<close>

record user_row =
  ur_id :: uuid
  ur_username :: string
  ur_role :: string
  ur_password_envelope :: "bytes option"
  ur_totp_secret_envelope :: "bytes option"
  ur_totp_secret :: "bytes option"
  ur_recovery_phrase_envelope :: "bytes option"
  ur_recovery_verifier :: "bytes option"
  ur_recovery_key_envelope :: "bytes option"
  ur_email :: "string option"
  ur_display_name :: "string option"
  ur_preferred_language :: string
  ur_show_passwords_in_edit :: int
  ur_updated_at :: "string option"

record vault_row =
  vr_id :: uuid
  vr_owner_user_id :: uuid
  vr_name :: string
  vr_vault_key_envelope :: "bytes option"
  vr_vault_key_version :: int
  vr_sort_order :: int
  vr_deleted_at :: "string option"

record secret_row =
  sr_id :: uuid
  sr_vault_id :: uuid
  sr_secret_type :: string
  sr_title :: "string option"
  sr_metadata_json :: "string option"
  sr_secret_blob :: "bytes option"
  sr_file_blob_ref :: "bytes option"
  sr_blob_storage :: string
  sr_tags :: "string option"
  sr_expires_at :: "string option"
  sr_created_at :: string
  sr_modified_at :: string
  sr_usage_count :: int
  sr_deleted_at :: "string option"

record share_row =
  kr_vault_id :: uuid
  kr_user_id :: uuid
  kr_key_envelope :: bytes
  kr_granted_by :: "uuid option"
  kr_granted_via_team :: "uuid option"
  kr_granted_at :: string
  kr_role :: string

record team_row =
  tr_id :: uuid
  tr_name :: string
  tr_created_by :: "uuid option"
  tr_created_at :: string

record member_row =
  mr_team_id :: uuid
  mr_user_id :: uuid
  mr_role :: string
  mr_joined_at :: string

record auth_row =
  ap_username :: string
  ap_failed_attempts :: int
  ap_last_attempt_at :: "int option"
  ap_auto_lock_delay_mins :: int

record history_row =
  lh_user_id :: uuid
  lh_login_at :: string
  lh_ip_address :: "string option"
  lh_device_info :: "string option"

record ip_row =
  ir_ip :: string
  ir_attempts :: int
  ir_first_attempt_at :: string
  ir_locked_until :: "string option"

record audit_row =
  ar_id :: int
  ar_actor_user_id :: "uuid option"
  ar_action :: string
  ar_target_type :: "string option"
  ar_target_id :: "string option"
  ar_detail :: "string option"
  ar_performed_at :: string

text \<open>\<open>db_clock\<close> is the text of \<open>CURRENT_TIMESTAMP\<close>.\<close>

record db =
  users :: "user_row list"
  vaults :: "vault_row list"
  secret_items :: "secret_row list"
  vault_key_shares :: "share_row list"
  teams :: "team_row list"
  team_members :: "member_row list"
  auth_policy :: "auth_row list"
  login_history :: "history_row list"
  login_attempts_ip :: "ip_row list"
  audit_log :: "audit_row list"
  db_clock :: string

definition empty_db :: "string \<Rightarrow> db" where
  "empty_db clock = \<lparr>users = [], vaults = [], secret_items = [], vault_key_shares = [], teams = [],
     team_members = [], auth_policy = [], login_history = [], login_attempts_ip = [],
     audit_log = [], db_clock = clock\<rparr>"

abbreviation share_key :: "share_row \<Rightarrow> uuid \<times> uuid" where
  "share_key s \<equiv> (kr_vault_id s, kr_user_id s)"

abbreviation member_key :: "member_row \<Rightarrow> uuid \<times> uuid" where
  "member_key m \<equiv> (mr_team_id m, mr_user_id m)"

section \<open>Constraints\<close>

definition user_ids :: "db \<Rightarrow> uuid set" where
  "user_ids d = ur_id ` set (users d)"

definition vault_ids :: "db \<Rightarrow> uuid set" where
  "vault_ids d = vr_id ` set (vaults d)"

definition team_ids :: "db \<Rightarrow> uuid set" where
  "team_ids d = tr_id ` set (teams d)"

definition user_row_ok :: "user_row \<Rightarrow> bool" where
  "user_row_ok u \<longleftrightarrow> ur_role u = ''user'' \<or> ur_role u = ''admin''"

definition secret_row_ok :: "secret_row \<Rightarrow> bool" where
  "secret_row_ok s \<longleftrightarrow>
     sr_secret_type s \<in> {''password'', ''api_token'', ''ssh_key'', ''secure_document''}
     \<and> (sr_blob_storage s = ''inline'' \<and> sr_secret_blob s \<noteq> None
        \<or> sr_blob_storage s = ''file'' \<and> sr_file_blob_ref s \<noteq> None)"

definition share_row_ok :: "share_row \<Rightarrow> bool" where
  "share_row_ok s \<longleftrightarrow> kr_role s \<in> {''read'', ''write'', ''admin''}"

definition member_row_ok :: "member_row \<Rightarrow> bool" where
  "member_row_ok m \<longleftrightarrow> mr_role m \<in> {''member'', ''leader''}"

definition users_ok :: "db \<Rightarrow> bool" where
  "users_ok d \<longleftrightarrow>
     distinct (map ur_id (users d)) \<and> distinct (map ur_username (users d))
     \<and> distinct (filter (\<lambda>e. e \<noteq> None) (map ur_email (users d)))
     \<and> list_all user_row_ok (users d)"

definition vaults_ok :: "db \<Rightarrow> bool" where
  "vaults_ok d \<longleftrightarrow>
     distinct (map vr_id (vaults d)) \<and> (\<forall>v \<in> set (vaults d). vr_owner_user_id v \<in> user_ids d)"

definition secrets_ok :: "db \<Rightarrow> bool" where
  "secrets_ok d \<longleftrightarrow>
     distinct (map sr_id (secret_items d))
     \<and> (\<forall>s \<in> set (secret_items d). sr_vault_id s \<in> vault_ids d \<and> secret_row_ok s)"

definition shares_ok :: "db \<Rightarrow> bool" where
  "shares_ok d \<longleftrightarrow>
     distinct (map share_key (vault_key_shares d))
     \<and> (\<forall>s \<in> set (vault_key_shares d). kr_vault_id s \<in> vault_ids d \<and> kr_user_id s \<in> user_ids d
           \<and> share_row_ok s
           \<and> set_option (kr_granted_via_team s) \<subseteq> team_ids d)"

definition teams_ok :: "db \<Rightarrow> bool" where
  "teams_ok d \<longleftrightarrow>
     distinct (map tr_id (teams d)) \<and> distinct (map tr_name (teams d))
     \<and> (\<forall>t \<in> set (teams d). set_option (tr_created_by t) \<subseteq> user_ids d)
     \<and> distinct (map member_key (team_members d))
     \<and> (\<forall>m \<in> set (team_members d). mr_team_id m \<in> team_ids d \<and> mr_user_id m \<in> user_ids d
           \<and> member_row_ok m)"

definition logs_ok :: "db \<Rightarrow> bool" where
  "logs_ok d \<longleftrightarrow>
     distinct (map ap_username (auth_policy d))
     \<and> distinct (map ir_ip (login_attempts_ip d))
     \<and> (\<forall>h \<in> set (login_history d). lh_user_id h \<in> user_ids d)
     \<and> (\<forall>a \<in> set (audit_log d).
           set_option (ar_actor_user_id a) \<subseteq> user_ids d)"

definition db_ok :: "db \<Rightarrow> bool" where
  "db_ok d \<longleftrightarrow> users_ok d \<and> vaults_ok d \<and> secrets_ok d \<and> shares_ok d \<and> teams_ok d \<and> logs_ok d"

text \<open>An update of a table changes only the parts of the schema that read the table.\<close>

lemma user_ids_frame [simp]:
  "user_ids (d\<lparr>vaults := x1\<rparr>) = user_ids d"
  "user_ids (d\<lparr>secret_items := x2\<rparr>) = user_ids d"
  "user_ids (d\<lparr>vault_key_shares := x3\<rparr>) = user_ids d"
  "user_ids (d\<lparr>teams := x4\<rparr>) = user_ids d"
  "user_ids (d\<lparr>team_members := x5\<rparr>) = user_ids d"
  "user_ids (d\<lparr>auth_policy := x6\<rparr>) = user_ids d"
  "user_ids (d\<lparr>login_history := x7\<rparr>) = user_ids d"
  "user_ids (d\<lparr>login_attempts_ip := x8\<rparr>) = user_ids d"
  "user_ids (d\<lparr>audit_log := x9\<rparr>) = user_ids d"
  "user_ids (d\<lparr>db_clock := x10\<rparr>) = user_ids d"
  by (simp_all add: user_ids_def)

lemma vault_ids_frame [simp]:
  "vault_ids (d\<lparr>users := x0\<rparr>) = vault_ids d"
  "vault_ids (d\<lparr>secret_items := x2\<rparr>) = vault_ids d"
  "vault_ids (d\<lparr>vault_key_shares := x3\<rparr>) = vault_ids d"
  "vault_ids (d\<lparr>teams := x4\<rparr>) = vault_ids d"
  "vault_ids (d\<lparr>team_members := x5\<rparr>) = vault_ids d"
  "vault_ids (d\<lparr>auth_policy := x6\<rparr>) = vault_ids d"
  "vault_ids (d\<lparr>login_history := x7\<rparr>) = vault_ids d"
  "vault_ids (d\<lparr>login_attempts_ip := x8\<rparr>) = vault_ids d"
  "vault_ids (d\<lparr>audit_log := x9\<rparr>) = vault_ids d"
  "vault_ids (d\<lparr>db_clock := x10\<rparr>) = vault_ids d"
  by (simp_all add: vault_ids_def)

lemma team_ids_frame [simp]:
  "team_ids (d\<lparr>users := x0\<rparr>) = team_ids d"
  "team_ids (d\<lparr>vaults := x1\<rparr>) = team_ids d"
  "team_ids (d\<lparr>secret_items := x2\<rparr>) = team_ids d"
  "team_ids (d\<lparr>vault_key_shares := x3\<rparr>) = team_ids d"
  "team_ids (d\<lparr>team_members := x5\<rparr>) = team_ids d"
  "team_ids (d\<lparr>auth_policy := x6\<rparr>) = team_ids d"
  "team_ids (d\<lparr>login_history := x7\<rparr>) = team_ids d"
  "team_ids (d\<lparr>login_attempts_ip := x8\<rparr>) = team_ids d"
  "team_ids (d\<lparr>audit_log := x9\<rparr>) = team_ids d"
  "team_ids (d\<lparr>db_clock := x10\<rparr>) = team_ids d"
  by (simp_all add: team_ids_def)

lemma users_ok_frame [simp]:
  "users_ok (d\<lparr>vaults := x1\<rparr>) = users_ok d"
  "users_ok (d\<lparr>secret_items := x2\<rparr>) = users_ok d"
  "users_ok (d\<lparr>vault_key_shares := x3\<rparr>) = users_ok d"
  "users_ok (d\<lparr>teams := x4\<rparr>) = users_ok d"
  "users_ok (d\<lparr>team_members := x5\<rparr>) = users_ok d"
  "users_ok (d\<lparr>auth_policy := x6\<rparr>) = users_ok d"
  "users_ok (d\<lparr>login_history := x7\<rparr>) = users_ok d"
  "users_ok (d\<lparr>login_attempts_ip := x8\<rparr>) = users_ok d"
  "users_ok (d\<lparr>audit_log := x9\<rparr>) = users_ok d"
  "users_ok (d\<lparr>db_clock := x10\<rparr>) = users_ok d"
  by (simp_all add: users_ok_def)

lemma vaults_ok_frame [simp]:
  "vaults_ok (d\<lparr>secret_items := x2\<rparr>) = vaults_ok d"
  "vaults_ok (d\<lparr>vault_key_shares := x3\<rparr>) = vaults_ok d"
  "vaults_ok (d\<lparr>teams := x4\<rparr>) = vaults_ok d"
  "vaults_ok (d\<lparr>team_members := x5\<rparr>) = vaults_ok d"
  "vaults_ok (d\<lparr>auth_policy := x6\<rparr>) = vaults_ok d"
  "vaults_ok (d\<lparr>login_history := x7\<rparr>) = vaults_ok d"
  "vaults_ok (d\<lparr>login_attempts_ip := x8\<rparr>) = vaults_ok d"
  "vaults_ok (d\<lparr>audit_log := x9\<rparr>) = vaults_ok d"
  "vaults_ok (d\<lparr>db_clock := x10\<rparr>) = vaults_ok d"
  by (simp_all add: vaults_ok_def)

lemma secrets_ok_frame [simp]:
  "secrets_ok (d\<lparr>users := x0\<rparr>) = secrets_ok d"
  "secrets_ok (d\<lparr>vault_key_shares := x3\<rparr>) = secrets_ok d"
  "secrets_ok (d\<lparr>teams := x4\<rparr>) = secrets_ok d"
  "secrets_ok (d\<lparr>team_members := x5\<rparr>) = secrets_ok d"
  "secrets_ok (d\<lparr>auth_policy := x6\<rparr>) = secrets_ok d"
  "secrets_ok (d\<lparr>login_history := x7\<rparr>) = secrets_ok d"
  "secrets_ok (d\<lparr>login_attempts_ip := x8\<rparr>) = secrets_ok d"
  "secrets_ok (d\<lparr>audit_log := x9\<rparr>) = secrets_ok d"
  "secrets_ok (d\<lparr>db_clock := x10\<rparr>) = secrets_ok d"
  by (simp_all add: secrets_ok_def)

lemma shares_ok_frame [simp]:
  "shares_ok (d\<lparr>secret_items := x2\<rparr>) = shares_ok d"
  "shares_ok (d\<lparr>team_members := x5\<rparr>) = shares_ok d"
  "shares_ok (d\<lparr>auth_policy := x6\<rparr>) = shares_ok d"
  "shares_ok (d\<lparr>login_history := x7\<rparr>) = shares_ok d"
  "shares_ok (d\<lparr>login_attempts_ip := x8\<rparr>) = shares_ok d"
  "shares_ok (d\<lparr>audit_log := x9\<rparr>) = shares_ok d"
  "shares_ok (d\<lparr>db_clock := x10\<rparr>) = shares_ok d"
  by (simp_all add: shares_ok_def)

lemma teams_ok_frame [simp]:
  "teams_ok (d\<lparr>vaults := x1\<rparr>) = teams_ok d"
  "teams_ok (d\<lparr>secret_items := x2\<rparr>) = teams_ok d"
  "teams_ok (d\<lparr>vault_key_shares := x3\<rparr>) = teams_ok d"
  "teams_ok (d\<lparr>auth_policy := x6\<rparr>) = teams_ok d"
  "teams_ok (d\<lparr>login_history := x7\<rparr>) = teams_ok d"
  "teams_ok (d\<lparr>login_attempts_ip := x8\<rparr>) = teams_ok d"
  "teams_ok (d\<lparr>audit_log := x9\<rparr>) = teams_ok d"
  "teams_ok (d\<lparr>db_clock := x10\<rparr>) = teams_ok d"
  by (simp_all add: teams_ok_def)

lemma logs_ok_frame [simp]:
  "logs_ok (d\<lparr>vaults := x1\<rparr>) = logs_ok d"
  "logs_ok (d\<lparr>secret_items := x2\<rparr>) = logs_ok d"
  "logs_ok (d\<lparr>vault_key_shares := x3\<rparr>) = logs_ok d"
  "logs_ok (d\<lparr>teams := x4\<rparr>) = logs_ok d"
  "logs_ok (d\<lparr>team_members := x5\<rparr>) = logs_ok d"
  "logs_ok (d\<lparr>db_clock := x10\<rparr>) = logs_ok d"
  by (simp_all add: logs_ok_def)

lemma empty_db_ok: "db_ok (empty_db clock)"
  by (simp add: db_ok_def users_ok_def vaults_ok_def secrets_ok_def shares_ok_def teams_ok_def
      logs_ok_def empty_db_def)

section \<open>Replacing one table\<close>

lemma db_ok_users:
  assumes "db_ok d" "users_ok (d\<lparr>users := us\<rparr>)" "user_ids d \<subseteq> ur_id ` set us"
  shows "db_ok (d\<lparr>users := us\<rparr>)"
  using assms
  by (fastforce simp: db_ok_def vaults_ok_def shares_ok_def teams_ok_def logs_ok_def user_ids_def)

lemma db_ok_secrets:
  "db_ok d \<Longrightarrow> secrets_ok (d\<lparr>secret_items := ss\<rparr>) \<Longrightarrow> db_ok (d\<lparr>secret_items := ss\<rparr>)"
  by (simp add: db_ok_def)

lemma db_ok_shares:
  "db_ok d \<Longrightarrow> shares_ok (d\<lparr>vault_key_shares := ks\<rparr>) \<Longrightarrow> db_ok (d\<lparr>vault_key_shares := ks\<rparr>)"
  by (simp add: db_ok_def)

lemma db_ok_vaults:
  assumes "db_ok d" "vaults_ok (d\<lparr>vaults := vs\<rparr>)" "vault_ids d \<subseteq> vr_id ` set vs"
  shows "db_ok (d\<lparr>vaults := vs\<rparr>)"
  using assms
  by (fastforce simp: db_ok_def secrets_ok_def shares_ok_def vault_ids_def)

lemmas db_part_defs = users_ok_def vaults_ok_def secrets_ok_def shares_ok_def teams_ok_def logs_ok_def
  user_ids_def vault_ids_def team_ids_def

end
