(* ===== verification/HV_Access.thy ===== *)
theory HV_Access
  imports HV_Models
begin

text \<open>
  The role-based access decision of services/access_control.rs: who may do what with the whole
  application, with a team, with a vault.
\<close>

section \<open>Actions and resources\<close>

datatype action =
    AdminManageUsers
  | TeamManageMembers
  | TeamReadMembers
  | VaultCreate
  | VaultOpen
  | VaultWrite
  | VaultList
  | VaultDelete
  | VaultShare
  | VaultRevoke
  | VaultRotate
  | AuditRead
  | AuditWrite
  | BackupExport
  | BackupRestore

record vault_resource =
  is_owner :: bool
  has_direct_share :: bool
  has_team_share :: bool
  share_role :: "vault_share_role option"

datatype resource =
    Global
  | Team "team_member_role option"
  | Vault vault_resource

definition has_access :: "vault_resource \<Rightarrow> bool" where
  "has_access v \<longleftrightarrow> is_owner v \<or> has_direct_share v \<or> has_team_share v"

definition role_is :: "(vault_share_role \<Rightarrow> bool) \<Rightarrow> vault_resource \<Rightarrow> bool" where
  "role_is P v = (case share_role v of Some role \<Rightarrow> P role | None \<Rightarrow> False)"

definition denied :: "access_denied_reason \<Rightarrow> unit result" where
  "denied r = Inl (Authorization r)"

definition check_permission :: "user \<Rightarrow> action \<Rightarrow> resource \<Rightarrow> unit result" where
  "check_permission user action resource =
     (if usr_role user = Admin then Inr ()
      else case (action, resource) of
        (AdminManageUsers, _) \<Rightarrow> denied AdminRequired
      | (AuditRead, _) \<Rightarrow> denied AdminRequired
      | (AuditWrite, _) \<Rightarrow> Inr ()
      | (TeamManageMembers, Team requester_role) \<Rightarrow>
          if requester_role = Some Leader then Inr () else denied TeamLeaderRequired
      | (TeamReadMembers, Team requester_role) \<Rightarrow>
          if requester_role \<noteq> None then Inr () else denied TeamMembershipRequired
      | (VaultCreate, Global) \<Rightarrow> Inr ()
      | (VaultList, Global) \<Rightarrow> Inr ()
      | (VaultDelete, Vault v) \<Rightarrow>
          if has_access v \<and> (is_owner v \<or> role_is can_admin v) then Inr ()
          else denied VaultAdminRequired
      | (VaultWrite, Vault v) \<Rightarrow>
          if has_access v \<and> (is_owner v \<or> role_is can_write v) then Inr ()
          else denied VaultWriteDenied
      | (VaultOpen, Vault v) \<Rightarrow> if has_access v then Inr () else denied VaultAccessDenied
      | (VaultShare, Vault v) \<Rightarrow>
          if has_access v \<and> (is_owner v \<or> role_is can_admin v) then Inr ()
          else denied VaultAdminRequired
      | (VaultRevoke, Vault v) \<Rightarrow>
          if has_access v \<and> (is_owner v \<or> role_is can_admin v) then Inr ()
          else denied VaultAdminRequired
      | (VaultRotate, Vault v) \<Rightarrow>
          if has_access v \<and> (is_owner v \<or> role_is can_admin v) then Inr ()
          else denied VaultAdminRequired
      | (BackupExport, _) \<Rightarrow> denied AdminRequired
      | (BackupRestore, _) \<Rightarrow> denied AdminRequired
      | _ \<Rightarrow> denied Unauthorized)"

section \<open>The decision as a lattice of rights\<close>

text \<open>
  What the table amounts to for vaults: every right a user holds on a vault is one of four
  levels, and an action needs a level. The specification below does not look at the actions one
  by one.
\<close>

datatype vault_right = NoRight | OpenRight | WriteRight | AdminRight

fun right_level :: "vault_right \<Rightarrow> nat" where
  "right_level NoRight = 0"
| "right_level OpenRight = 1"
| "right_level WriteRight = 2"
| "right_level AdminRight = 3"

definition right_on :: "vault_resource \<Rightarrow> vault_right" where
  "right_on v =
     (if \<not> has_access v then NoRight
      else if is_owner v then AdminRight
      else case share_role v of
        None \<Rightarrow> OpenRight
      | Some RoleRead \<Rightarrow> OpenRight
      | Some RoleWrite \<Rightarrow> WriteRight
      | Some RoleAdmin \<Rightarrow> AdminRight)"

fun needed_right :: "action \<Rightarrow> vault_right option" where
  "needed_right VaultOpen = Some OpenRight"
| "needed_right VaultWrite = Some WriteRight"
| "needed_right VaultDelete = Some AdminRight"
| "needed_right VaultShare = Some AdminRight"
| "needed_right VaultRevoke = Some AdminRight"
| "needed_right VaultRotate = Some AdminRight"
| "needed_right _ = None"

text \<open>Replacing the role in a share by a stronger one.\<close>

fun role_level :: "vault_share_role \<Rightarrow> nat" where
  "role_level RoleRead = 0"
| "role_level RoleWrite = 1"
| "role_level RoleAdmin = 2"

lemma role_is_mono:
  assumes "share_role v = Some r" "role_level r \<le> role_level r'" "role_is P v"
    and "P = can_admin \<or> P = can_write"
  shows "role_is P (v\<lparr>share_role := Some r'\<rparr>)"
  using assms by (cases r; cases r') (auto simp: role_is_def can_admin_def can_write_def)

lemma has_access_role [simp]: "has_access (v\<lparr>share_role := x\<rparr>) = has_access v"
  by (simp add: has_access_def)

lemma vault_right_cases:
  "\<not> has_access v \<Longrightarrow> right_on v = NoRight"
  "has_access v \<Longrightarrow> is_owner v \<Longrightarrow> right_on v = AdminRight"
  by (simp_all add: right_on_def)

lemma right_level_bounds:
  "1 \<le> right_level (right_on v) \<longleftrightarrow> has_access v"
  "2 \<le> right_level (right_on v) \<longleftrightarrow> has_access v \<and> (is_owner v \<or> role_is can_write v)"
  "3 \<le> right_level (right_on v) \<longleftrightarrow> has_access v \<and> (is_owner v \<or> role_is can_admin v)"
  by (auto simp: right_on_def role_is_def can_write_def can_admin_def
      split: option.split vault_share_role.split)

text \<open>
  C12: For a user who is not an administrator, every decision on a vault is the comparison of the
  right the user holds on it with the right the action needs: ownership or an administrator
  share is the administration right, a write share the write right, any other access path the
  right to open, and a role without an access path is no right at all. Actions that are not
  about a vault are refused on a vault, except the writing of audit entries.
\<close>

theorem vault_decision:
  assumes "usr_role u = User"
  shows "check_permission u a (Vault v) = Inr () \<longleftrightarrow>
    (case needed_right a of
       Some needed \<Rightarrow> right_level needed \<le> right_level (right_on v)
     | None \<Rightarrow> a = AuditWrite)"
  using assms
  by (cases a) (simp_all add: check_permission_def denied_def right_level_bounds
      right_level_bounds(1) [unfolded One_nat_def])

theorem vault_decision_witness:
  "check_permission \<lparr>usr_id = 1, usr_username = ''bob'', usr_role = User, usr_email = None,
      usr_display_name = None, usr_preferred_language = ''fr'', usr_show_passwords_in_edit = False,
      usr_updated_at = None\<rparr>
     VaultDelete (Vault \<lparr>is_owner = False, has_direct_share = True, has_team_share = False,
       share_role = Some RoleWrite\<rparr>) \<noteq> Inr ()"
  by (subst vault_decision) (simp_all add: right_on_def has_access_def)

text \<open>
  Rights only grow: whoever passes the check with some role on a vault share passes it with
  any stronger role, for every action.
\<close>

theorem check_permission_mono:
  assumes "share_role v = Some r" and "role_level r \<le> role_level r'"
    and "check_permission u a (Vault v) = Inr ()"
  shows "check_permission u a (Vault (v\<lparr>share_role := Some r'\<rparr>)) = Inr ()"
  using assms(3) role_is_mono [OF assms(1,2)]
  by (cases a) (auto simp: check_permission_def denied_def split: if_splits)

theorem check_permission_mono_witness:
  "check_permission \<lparr>usr_id = 1, usr_username = ''bob'', usr_role = User, usr_email = None,
      usr_display_name = None, usr_preferred_language = ''fr'', usr_show_passwords_in_edit = False,
      usr_updated_at = None\<rparr>
     VaultWrite (Vault (\<lparr>is_owner = False, has_direct_share = True, has_team_share = False,
       share_role = Some RoleWrite\<rparr>\<lparr>share_role := Some RoleAdmin\<rparr>)) = Inr ()"
  by (rule check_permission_mono [where r = RoleWrite])
    (simp_all add: check_permission_def denied_def has_access_def role_is_def can_write_def)

end
