(* ===== verification/HV_AuthPolicy.thy ===== *)
theory HV_AuthPolicy
  imports HV_Db
begin

text \<open>
  Throttling of logins by username: services/auth_policy_service.rs over the table auth_policy.
  The clock is an argument of each operation; \<open>record_failed_attempt\<close> reads it twice.
\<close>

section \<open>State and delays\<close>

definition MAX_FAILED_ATTEMPTS :: int where "MAX_FAILED_ATTEMPTS = 5"
definition LOCK_WINDOW_SECS :: int where "LOCK_WINDOW_SECS = 300"
definition BACKOFF_MAX_SECS :: int where "BACKOFF_MAX_SECS = 30"
definition DEFAULT_AUTO_LOCK_DELAY_MINS :: int where "DEFAULT_AUTO_LOCK_DELAY_MINS = 5"

record auth_policy_state =
  aps_failed_attempts :: int
  aps_remaining_lock_secs :: int

definition aps_is_locked :: "auth_policy_state \<Rightarrow> bool" where
  "aps_is_locked s \<longleftrightarrow>
     aps_failed_attempts s \<ge> MAX_FAILED_ATTEMPTS \<and> aps_remaining_lock_secs s > 0"

definition backoff_delay_secs :: "int \<Rightarrow> int" where
  "backoff_delay_secs failed_attempts =
     (if failed_attempts \<le> 0 then 0
      else let shift = nat (max 0 (min 30 (failed_attempts - 1)))
           in min (2 ^ shift) BACKOFF_MAX_SECS)"

definition remaining_lock_secs :: "int \<Rightarrow> int option \<Rightarrow> int \<Rightarrow> int" where
  "remaining_lock_secs failed_attempts last_attempt_at now_ts =
     (case last_attempt_at of
        None \<Rightarrow> 0
      | Some last_ts \<Rightarrow>
          let elapsed = saturate_i64 (now_ts - last_ts);
              remaining =
                if failed_attempts \<ge> MAX_FAILED_ATTEMPTS \<and> elapsed < LOCK_WINDOW_SECS
                then LOCK_WINDOW_SECS - elapsed else 0;
              backoff = backoff_delay_secs failed_attempts
          in if backoff > elapsed then max remaining (backoff - elapsed) else remaining)"

definition is_allowed_auto_lock_delay :: "int \<Rightarrow> bool" where
  "is_allowed_auto_lock_delay mins \<longleftrightarrow> mins \<in> {0, 1, 5, 10, 15, 30}"

section \<open>Operations\<close>

definition ensure_row_exists :: "string \<Rightarrow> (db, unit) eff" where
  "ensure_row_exists username = modifyE (\<lambda>d.
     if find_row ap_username username (auth_policy d) = None
     then d\<lparr>auth_policy := auth_policy d @
            [\<lparr>ap_username = username, ap_failed_attempts = 0, ap_last_attempt_at = None,
              ap_auto_lock_delay_mins = 5\<rparr>]\<rparr>
     else d)"

definition fetch_auth_row :: "string \<Rightarrow> (db, auth_row) eff" where
  "fetch_auth_row username =
     bindE (getsE (\<lambda>d. find_row ap_username username (auth_policy d)))
       (\<lambda>r. liftE (ok_or r (Database RowNotFound)))"

definition update_auth_row :: "string \<Rightarrow> (auth_row \<Rightarrow> auth_row) \<Rightarrow> (db, unit) eff" where
  "update_auth_row username f = modifyE (\<lambda>d.
     d\<lparr>auth_policy := update_where (\<lambda>r. ap_username r = username) f (auth_policy d)\<rparr>)"

definition auth_get_state :: "timestamp \<Rightarrow> string \<Rightarrow> (db, auth_policy_state) eff" where
  "auth_get_state now username =
     (if trim username = []
      then returnE \<lparr>aps_failed_attempts = 0, aps_remaining_lock_secs = 0\<rparr>
      else bindE (ensure_row_exists username) (\<lambda>_.
           bindE (fetch_auth_row username) (\<lambda>row.
           returnE \<lparr>aps_failed_attempts = ap_failed_attempts row,
             aps_remaining_lock_secs =
               remaining_lock_secs (ap_failed_attempts row) (ap_last_attempt_at row)
                 (unix_secs now)\<rparr>)))"

definition auth_record_failed_attempt ::
  "timestamp \<Rightarrow> timestamp \<Rightarrow> string \<Rightarrow> (db, auth_policy_state) eff" where
  "auth_record_failed_attempt now now' username =
     (if trim username = []
      then returnE \<lparr>aps_failed_attempts = 1, aps_remaining_lock_secs = 0\<rparr>
      else bindE (ensure_row_exists username) (\<lambda>_.
           bindE (update_auth_row username
             (\<lambda>r. r\<lparr>ap_failed_attempts := ap_failed_attempts r + 1,
                    ap_last_attempt_at := Some (unix_secs now)\<rparr>)) (\<lambda>_.
           auth_get_state now' username)))"

definition auth_reset_failed_attempts :: "string \<Rightarrow> (db, unit) eff" where
  "auth_reset_failed_attempts username =
     (if trim username = [] then returnE ()
      else bindE (ensure_row_exists username) (\<lambda>_.
           bindE (fetch_auth_row username) (\<lambda>_.
           update_auth_row username
             (\<lambda>r. r\<lparr>ap_failed_attempts := 0, ap_last_attempt_at := None\<rparr>))))"

definition get_auto_lock_delay :: "string \<Rightarrow> (db, int) eff" where
  "get_auto_lock_delay username =
     (if trim username = [] then returnE DEFAULT_AUTO_LOCK_DELAY_MINS
      else bindE (ensure_row_exists username) (\<lambda>_.
           bindE (getsE (\<lambda>d. find_row ap_username username (auth_policy d))) (\<lambda>row.
           let delay = (case row of None \<Rightarrow> DEFAULT_AUTO_LOCK_DELAY_MINS
                        | Some r \<Rightarrow> ap_auto_lock_delay_mins r)
           in returnE (if is_allowed_auto_lock_delay delay then delay
                       else DEFAULT_AUTO_LOCK_DELAY_MINS))))"

definition update_auto_lock_delay :: "string \<Rightarrow> int \<Rightarrow> (db, unit) eff" where
  "update_auto_lock_delay username mins =
     (if trim username = []
      then throwE (Validation ''username must not be empty for auto-lock settings'')
      else if \<not> is_allowed_auto_lock_delay mins
      then throwE (Validation ''auto-lock delay must be one of: 0, 1, 5, 10, 15, 30'')
      else bindE (ensure_row_exists username) (\<lambda>_.
           update_auth_row username (\<lambda>r. r\<lparr>ap_auto_lock_delay_mins := mins\<rparr>)))"

section \<open>The row of a username after each operation\<close>

lemmas auth_op_defs = ensure_row_exists_def fetch_auth_row_def update_auth_row_def
  auth_get_state_def auth_record_failed_attempt_def auth_reset_failed_attempts_def
  get_auto_lock_delay_def update_auto_lock_delay_def

definition fresh_auth_row :: "string \<Rightarrow> auth_row" where
  "fresh_auth_row u = \<lparr>ap_username = u, ap_failed_attempts = 0, ap_last_attempt_at = None,
     ap_auto_lock_delay_mins = 5\<rparr>"

text \<open>A username without a row behaves as one whose row is fresh.\<close>

definition auth_row_of :: "string \<Rightarrow> db \<Rightarrow> auth_row" where
  "auth_row_of u d =
     (case find_row ap_username u (auth_policy d) of Some r \<Rightarrow> r | None \<Rightarrow> fresh_auth_row u)"

lemma auth_row_of_update [simp]:
  assumes "\<And>r. ap_username (f r) = ap_username r"
  shows "auth_row_of w (d\<lparr>auth_policy := update_where (\<lambda>r. ap_username r = u) f (auth_policy d)\<rparr>) =
    (if w = u \<and> find_row ap_username u (auth_policy d) \<noteq> None then f (auth_row_of w d)
     else auth_row_of w d)"
proof (cases "find_row ap_username w (auth_policy d)")
  case (Some r)
  then have "ap_username r = w" using find_row_Some_in by fastforce
  then show ?thesis
    using Some assms by (cases "w = u") (simp_all add: auth_row_of_def find_row_update_where)
next
  case None
  then show ?thesis
    using assms by (cases "w = u") (simp_all add: auth_row_of_def find_row_update_where)
qed

lemma ensure_row_exists_run:
  obtains d' where "ensure_row_exists u d = (Inr (), d')"
    "find_row ap_username u (auth_policy d') = Some (auth_row_of u d)"
    "\<And>w. auth_row_of w d' = auth_row_of w d"
    "d' = d\<lparr>auth_policy := auth_policy d'\<rparr>"
    "distinct (map ap_username (auth_policy d)) \<Longrightarrow> distinct (map ap_username (auth_policy d'))"
proof (cases "find_row ap_username u (auth_policy d)")
  case None
  let ?d = "d\<lparr>auth_policy := auth_policy d @ [fresh_auth_row u]\<rparr>"
  have "ensure_row_exists u d = (Inr (), ?d)"
    using None by (simp add: ensure_row_exists_def eff_simps fresh_auth_row_def)
  moreover have "auth_row_of w ?d = auth_row_of w d" for w
    by (auto simp: auth_row_of_def find_row_append fresh_auth_row_def split: option.split)
  moreover have "find_row ap_username u (auth_policy ?d) = Some (auth_row_of u d)"
    using None by (simp add: auth_row_of_def find_row_append fresh_auth_row_def)
  moreover have "distinct (map ap_username (auth_policy d)) \<Longrightarrow>
      distinct (map ap_username (auth_policy ?d))"
    using None by (simp add: find_row_None_iff fresh_auth_row_def)
  ultimately show ?thesis using that [of ?d] by simp
next
  case (Some r)
  then show ?thesis
    using that [of d] by (simp add: ensure_row_exists_def eff_simps auth_row_of_def)
qed

lemma auth_get_state_run:
  assumes "trim u \<noteq> []"
  shows "fst (auth_get_state now u d) =
      Inr \<lparr>aps_failed_attempts = ap_failed_attempts (auth_row_of u d),
           aps_remaining_lock_secs = remaining_lock_secs (ap_failed_attempts (auth_row_of u d))
             (ap_last_attempt_at (auth_row_of u d)) (unix_secs now)\<rparr>"
    and "auth_row_of w (snd (auth_get_state now u d)) = auth_row_of w d"
proof -
  obtain d' where "ensure_row_exists u d = (Inr (), d')"
      "find_row ap_username u (auth_policy d') = Some (auth_row_of u d)"
      "\<And>w. auth_row_of w d' = auth_row_of w d"
    by (metis ensure_row_exists_run [of u d])
  then show "fst (auth_get_state now u d) =
      Inr \<lparr>aps_failed_attempts = ap_failed_attempts (auth_row_of u d),
           aps_remaining_lock_secs = remaining_lock_secs (ap_failed_attempts (auth_row_of u d))
             (ap_last_attempt_at (auth_row_of u d)) (unix_secs now)\<rparr>"
    and "auth_row_of w (snd (auth_get_state now u d)) = auth_row_of w d"
    using assms by (simp_all add: auth_get_state_def fetch_auth_row_def eff_simps)
qed

lemma auth_record_run:
  assumes "trim u \<noteq> []"
  shows "auth_row_of w (snd (auth_record_failed_attempt now now' u d)) =
    (if w = u then (auth_row_of u d)\<lparr>ap_failed_attempts := ap_failed_attempts (auth_row_of u d) + 1,
       ap_last_attempt_at := Some (unix_secs now)\<rparr> else auth_row_of w d)"
proof -
  obtain d' where "ensure_row_exists u d = (Inr (), d')"
      "find_row ap_username u (auth_policy d') = Some (auth_row_of u d)"
      "\<And>w. auth_row_of w d' = auth_row_of w d"
    by (metis ensure_row_exists_run [of u d])
  then show ?thesis
    using assms
    by (simp add: auth_record_failed_attempt_def update_auth_row_def eff_simps auth_get_state_run(2))
qed

lemma auth_reset_run:
  assumes "trim u \<noteq> []"
  shows "auth_row_of w (snd (auth_reset_failed_attempts u d)) =
    (if w = u then (auth_row_of u d)\<lparr>ap_failed_attempts := 0, ap_last_attempt_at := None\<rparr>
     else auth_row_of w d)"
proof -
  obtain d' where "ensure_row_exists u d = (Inr (), d')"
      "find_row ap_username u (auth_policy d') = Some (auth_row_of u d)"
      "\<And>w. auth_row_of w d' = auth_row_of w d"
    by (metis ensure_row_exists_run [of u d])
  then show ?thesis
    using assms
    by (simp add: auth_reset_failed_attempts_def fetch_auth_row_def update_auth_row_def eff_simps)
qed

lemma auth_reset_is_Inr: "fst (auth_reset_failed_attempts u d) = Inr ()"
proof -
  obtain d' where "ensure_row_exists u d = (Inr (), d')"
      "find_row ap_username u (auth_policy d') = Some (auth_row_of u d)"
    by (metis ensure_row_exists_run [of u d])
  then show ?thesis
    by (simp add: auth_reset_failed_attempts_def fetch_auth_row_def update_auth_row_def eff_simps)
qed

section \<open>The counter is the history\<close>

text \<open>The calls the login screen makes, and what a run of them leaves for a username.\<close>

datatype auth_event =
    LoginFailed string timestamp timestamp
  | LoginSucceeded string
  | StateRead string timestamp

fun auth_event_run :: "auth_event \<Rightarrow> db \<Rightarrow> db" where
  "auth_event_run (LoginFailed u t t') d = snd (auth_record_failed_attempt t t' u d)"
| "auth_event_run (LoginSucceeded u) d = snd (auth_reset_failed_attempts u d)"
| "auth_event_run (StateRead u t) d = snd (auth_get_state t u d)"

fun auth_events_run :: "auth_event list \<Rightarrow> db \<Rightarrow> db" where
  "auth_events_run [] d = d"
| "auth_events_run (e # es) d = auth_events_run es (auth_event_run e d)"

text \<open>The times of the failures of \<open>u\<close> since its last success, most recent first.\<close>

fun open_failures :: "string \<Rightarrow> auth_event list \<Rightarrow> timestamp list \<Rightarrow> timestamp list" where
  "open_failures u [] acc = acc"
| "open_failures u (LoginFailed w t t' # es) acc =
     open_failures u es (if w = u then t # acc else acc)"
| "open_failures u (LoginSucceeded w # es) acc = open_failures u es (if w = u then [] else acc)"
| "open_failures u (StateRead w t # es) acc = open_failures u es acc"

definition auth_row_matches :: "auth_row \<Rightarrow> timestamp list \<Rightarrow> bool" where
  "auth_row_matches r ts \<longleftrightarrow>
     ap_failed_attempts r = int (length ts)
     \<and> ap_last_attempt_at r = (case ts of [] \<Rightarrow> None | t # _ \<Rightarrow> Some (unix_secs t))"

lemma auth_blank_run:
  assumes "trim u = []"
  shows "snd (auth_record_failed_attempt t t' u d) = d"
    and "snd (auth_reset_failed_attempts u d) = d"
    and "snd (auth_get_state t u d) = d"
  using assms
  by (simp_all add: auth_record_failed_attempt_def auth_reset_failed_attempts_def
      auth_get_state_def eff_simps)

lemma auth_events_match:
  assumes "trim u \<noteq> []" and "auth_row_matches (auth_row_of u d) acc"
  shows "auth_row_matches (auth_row_of u (auth_events_run es d)) (open_failures u es acc)"
  using assms(2)
proof (induction es arbitrary: d acc)
  case Nil
  then show ?case by simp
next
  case (Cons e es)
  have "auth_row_matches (auth_row_of u (auth_event_run e d))
      (open_failures u [e] acc)"
  proof (cases e)
    case (LoginFailed w t t')
    then show ?thesis
      using Cons.prems assms(1)
      by (cases "trim w = []") (auto simp: auth_blank_run auth_record_run auth_row_matches_def)
  next
    case (LoginSucceeded w)
    then show ?thesis
      using Cons.prems assms(1)
      by (cases "trim w = []") (auto simp: auth_blank_run auth_reset_run auth_row_matches_def)
  next
    case (StateRead w t)
    then show ?thesis
      using Cons.prems by (cases "trim w = []") (auto simp: auth_blank_run auth_get_state_run(2))
  qed
  then have "auth_row_matches (auth_row_of u (auth_events_run es (auth_event_run e d)))
      (open_failures u es (open_failures u [e] acc))"
    by (rule Cons.IH)
  then show ?case by (cases e) simp_all
qed

lemma fresh_auth_row_matches: "auth_row_matches (fresh_auth_row u) []"
  by (simp add: auth_row_matches_def fresh_auth_row_def)

section \<open>Delays\<close>

lemma backoff_delay_bounds: "0 \<le> backoff_delay_secs n \<and> backoff_delay_secs n \<le> 30"
  by (simp add: backoff_delay_secs_def Let_def BACKOFF_MAX_SECS_def)

lemma backoff_delay_mono: "m \<le> n \<Longrightarrow> backoff_delay_secs m \<le> backoff_delay_secs n"
proof -
  assume "m \<le> n"
  then have "(2::int) ^ nat (max 0 (min 30 (m - 1))) \<le> 2 ^ nat (max 0 (min 30 (n - 1)))"
    by (intro power_increasing) auto
  then show ?thesis
    using \<open>m \<le> n\<close>
    by (auto simp: backoff_delay_secs_def Let_def BACKOFF_MAX_SECS_def simp del: power_increasing_iff)
qed

lemma remaining_lock_secs_bounds:
  assumes "0 \<le> now_ts - last_ts"
  shows "0 \<le> remaining_lock_secs n (Some last_ts) now_ts"
    and "remaining_lock_secs n (Some last_ts) now_ts \<le> 300"
  using assms backoff_delay_bounds [of n] saturate_i64_nonneg [OF assms]
  by (auto simp: remaining_lock_secs_def Let_def LOCK_WINDOW_SECS_def)

lemma remaining_lock_secs_hard:
  assumes "0 \<le> now_ts - last_ts" "now_ts - last_ts < 2 ^ 63" "MAX_FAILED_ATTEMPTS \<le> n"
  shows "remaining_lock_secs n (Some last_ts) now_ts = max 0 (300 - (now_ts - last_ts))"
proof -
  have "saturate_i64 (now_ts - last_ts) = now_ts - last_ts"
    using assms by simp
  then show ?thesis
    using assms(1,3) backoff_delay_bounds [of n]
    by (auto simp: remaining_lock_secs_def Let_def LOCK_WINDOW_SECS_def)
qed

text \<open>
  C13: The account lock is a function of the history of login attempts alone: after any sequence
  of failures, successes and reads, of any users and in any order, starting from a database that
  has never seen the user, a read of the state at a time when no clock went backwards reports as
  many failed attempts as the user has had since the last success, and it reports a locked
  account exactly when there are at least five of them and the last one is less than 300 seconds
  old.
\<close>

theorem lock_is_history:
  assumes "trim u \<noteq> []" and "find_row ap_username u (auth_policy d) = None"
    and "ts = open_failures u es []"
    and "\<forall>t \<in> set ts. unix_secs t \<le> unix_secs now \<and> unix_secs now - unix_secs t < 2 ^ 63"
  shows "\<exists>s. fst (auth_get_state now u (auth_events_run es d)) = Inr s
    \<and> aps_failed_attempts s = int (length ts)
    \<and> (aps_is_locked s \<longleftrightarrow> 5 \<le> length ts \<and> unix_secs now - unix_secs (hd ts) < 300)"
proof -
  let ?r = "auth_row_of u (auth_events_run es d)"
  have "auth_row_of u d = fresh_auth_row u"
    using assms(2) by (simp add: auth_row_of_def)
  then have m: "auth_row_matches ?r ts"
    using auth_events_match [OF assms(1), of d "[]" es] assms(3) by (simp add: fresh_auth_row_matches)
  have "5 \<le> length ts \<Longrightarrow>
      remaining_lock_secs (int (length ts)) (ap_last_attempt_at ?r) (unix_secs now) =
        max 0 (300 - (unix_secs now - unix_secs (hd ts)))"
    using m assms(4)
    by (cases ts) (auto simp: auth_row_matches_def remaining_lock_secs_hard MAX_FAILED_ATTEMPTS_def)
  then show ?thesis
    using m assms(1)
    by (auto simp: auth_get_state_run aps_is_locked_def MAX_FAILED_ATTEMPTS_def
        auth_row_matches_def)
qed

theorem lock_is_history_witness:
  "\<exists>s. fst (auth_get_state 9000000000 ''bob''
       (auth_events_run [LoginFailed ''bob'' 1000000000 1000000000, LoginFailed ''bob'' 2000000000 0,
          StateRead ''amy'' 7, LoginFailed ''bob'' 3000000000 0, LoginFailed ''bob'' 4000000000 0,
          LoginFailed ''bob'' 5000000000 0] (empty_db ''now''))) = Inr s
     \<and> aps_failed_attempts s = 5 \<and> aps_is_locked s"
proof -
  have "\<exists>s. fst (auth_get_state 9000000000 ''bob''
       (auth_events_run [LoginFailed ''bob'' 1000000000 1000000000, LoginFailed ''bob'' 2000000000 0,
          StateRead ''amy'' 7, LoginFailed ''bob'' 3000000000 0, LoginFailed ''bob'' 4000000000 0,
          LoginFailed ''bob'' 5000000000 0] (empty_db ''now''))) = Inr s
     \<and> aps_failed_attempts s = int (length [5000000000::timestamp, 4000000000, 3000000000, 2000000000, 1000000000])
     \<and> (aps_is_locked s \<longleftrightarrow> 5 \<le> length [5000000000::timestamp, 4000000000, 3000000000, 2000000000, 1000000000]
        \<and> unix_secs 9000000000 - unix_secs (hd [5000000000::timestamp, 4000000000, 3000000000, 2000000000, 1000000000]) < 300)"
    by (rule lock_is_history)
      (simp_all add: empty_db_def unix_secs_def nanos_per_sec_def trim_def trim_with.simps
        white_space_def)
  then show ?thesis by (simp add: unix_secs_def nanos_per_sec_def)
qed

text \<open>
  The waiting time reported for an account, whatever its number of failures, lies between 0
  and 300 seconds once the clock has not gone backwards, and the exponential part of it never
  exceeds 30 seconds and never shrinks when the number of failures grows.
\<close>

theorem lock_delay_bounds:
  assumes "last_ts \<le> now_ts" and "m \<le> n"
  shows "0 \<le> remaining_lock_secs n (Some last_ts) now_ts
    \<and> remaining_lock_secs n (Some last_ts) now_ts \<le> 300
    \<and> backoff_delay_secs m \<le> backoff_delay_secs n \<and> backoff_delay_secs n \<le> 30"
  using assms remaining_lock_secs_bounds [of now_ts last_ts n] backoff_delay_mono [of m n]
    backoff_delay_bounds [of n]
  by auto

theorem lock_delay_bounds_witness: "remaining_lock_secs 9 (Some 10) 20 \<le> 300"
  using lock_delay_bounds [of 10 20 3 9] by simp

section \<open>The schema is kept\<close>

lemma db_ok_auth_policy:
  "db_ok d \<Longrightarrow> distinct (map ap_username x) \<Longrightarrow> db_ok (d\<lparr>auth_policy := x\<rparr>)"
  by (simp add: db_ok_def) (simp add: logs_ok_def)

lemma db_ok_auth_policyD: "db_ok d \<Longrightarrow> distinct (map ap_username (auth_policy d))"
  by (simp add: db_ok_def logs_ok_def)

lemma keeps_ensure_row_exists [inv_intros]: "keeps db_ok (ensure_row_exists u)"
proof (unfold keeps_def, intro allI impI)
  fix d
  assume ok: "db_ok d"
  obtain d' where d': "ensure_row_exists u d = (Inr (), d')" "d' = d\<lparr>auth_policy := auth_policy d'\<rparr>"
      "distinct (map ap_username (auth_policy d'))"
    using db_ok_auth_policyD [OF ok] by (metis ensure_row_exists_run [of u d])
  show "db_ok (snd (ensure_row_exists u d))"
    using db_ok_auth_policy [OF ok d'(3)] d'(1,2) by simp
qed

lemma keeps_update_auth_row [inv_intros]:
  "(\<And>r. ap_username (f r) = ap_username r) \<Longrightarrow> keeps db_ok (update_auth_row u f)"
  by (simp add: keeps_def update_auth_row_def eff_simps db_ok_auth_policy db_ok_auth_policyD
      map_update_where_same)

lemma keeps_fetch_auth_row [inv_intros]: "keeps db_ok (fetch_auth_row u)"
  by (auto simp: fetch_auth_row_def intro!: inv_intros)

lemma keeps_auth_policy [inv_intros]:
  "keeps db_ok (auth_get_state now u)"
  "keeps db_ok (auth_record_failed_attempt now now' u)"
  "keeps db_ok (auth_reset_failed_attempts u)"
  "keeps db_ok (get_auto_lock_delay u)"
  "keeps db_ok (update_auto_lock_delay u mins)"
  unfolding auth_get_state_def auth_record_failed_attempt_def auth_reset_failed_attempts_def
    get_auto_lock_delay_def update_auto_lock_delay_def Let_def
  by (intro inv_intros; simp)+

end
