(* ===== verification/HV_IpLimit.thy ===== *)
theory HV_IpLimit
  imports HV_AuthPolicy
begin

text \<open>
  Throttling of logins by address: repositories/ip_rate_limit_repository.rs over the table
  login_attempts_ip, and services/ip_rate_limit_service.rs, which combines it with the throttling
  by username. An address is its text, \<open>IpAddr::to_string\<close>. The two timestamps of a row are the
  RFC 3339 texts chrono prints and parses, so the record \<open>chrono\<close> is an argument of the
  operations that store or read them.
\<close>

section \<open>Policy and status\<close>

record chrono =
  to_rfc3339 :: "timestamp \<Rightarrow> string"
  parse_rfc3339 :: "string \<Rightarrow> string + timestamp"

text \<open>chrono reads back what it prints, for the instants the application meets.\<close>

definition chrono_ok :: "chrono \<Rightarrow> (timestamp \<Rightarrow> bool) \<Rightarrow> bool" where
  "chrono_ok c P \<longleftrightarrow> (\<forall>t. P t \<longrightarrow> parse_rfc3339 c (to_rfc3339 c t) = Inr t)"

text \<open>An instance for examples: the decimal text of the count of nanoseconds.\<close>

definition decimal_chrono :: chrono where
  "decimal_chrono = \<lparr>to_rfc3339 = (\<lambda>t. show_nat (nat t)), parse_rfc3339 = (\<lambda>s. Inr (read_decimal s))\<rparr>"

lemma decimal_chrono_ok: "chrono_ok decimal_chrono (\<lambda>t. 0 \<le> t)"
  by (simp add: chrono_ok_def decimal_chrono_def read_decimal_show_nat)

record ip_policy =
  pol_max_attempts :: int
  pol_lock_duration_secs :: int
  pol_window_duration_secs :: int

definition default_ip_policy :: ip_policy where
  "default_ip_policy =
     \<lparr>pol_max_attempts = 20, pol_lock_duration_secs = 3600, pol_window_duration_secs = 3600\<rparr>"

record ip_status =
  ips_ip :: string
  ips_attempts :: int
  ips_locked_until :: "timestamp option"

definition ip_is_locked :: "timestamp \<Rightarrow> ip_status \<Rightarrow> bool" where
  "ip_is_locked now s = (case ips_locked_until s of Some l \<Rightarrow> l > now | None \<Rightarrow> False)"

definition lock_remaining_seconds :: "timestamp \<Rightarrow> ip_status \<Rightarrow> int" where
  "lock_remaining_seconds now s =
     (case ips_locked_until s of
        Some l \<Rightarrow> if l > now then unix_secs (l - now) else 0
      | None \<Rightarrow> 0)"

text \<open>\<open>Duration::from_secs(n as u64)\<close>, in nanoseconds.\<close>

definition duration_from_secs :: "int \<Rightarrow> timestamp" where
  "duration_from_secs n = (n mod 2 ^ 64) * nanos_per_sec"

section \<open>The repository\<close>

definition parse_instant :: "chrono \<Rightarrow> string \<Rightarrow> string \<Rightarrow> timestamp result" where
  "parse_instant c what s =
     (case parse_rfc3339 c s of Inl e \<Rightarrow> Inl (Storage (what @ e)) | Inr t \<Rightarrow> Inr t)"

definition parse_locked_until :: "chrono \<Rightarrow> string option \<Rightarrow> timestamp option result" where
  "parse_locked_until c s =
     (case s of None \<Rightarrow> Inr None
      | Some s \<Rightarrow> bindR (parse_instant c ''invalid locked_until format: '' s) (\<lambda>t. Inr (Some t)))"

definition ip_store :: "chrono \<Rightarrow> ip_policy \<Rightarrow> timestamp \<Rightarrow> string \<Rightarrow> int \<Rightarrow> timestamp \<Rightarrow> bool
    \<Rightarrow> (db, ip_status) eff" where
  "ip_store c pol now ip attempts first_attempt_at has_existing =
     (let new_locked_until =
            if attempts \<ge> pol_max_attempts pol
            then Some (now + duration_from_secs (pol_lock_duration_secs pol)) else None;
          row = \<lparr>ir_ip = ip, ir_attempts = attempts,
                 ir_first_attempt_at = to_rfc3339 c first_attempt_at,
                 ir_locked_until = map_option (to_rfc3339 c) new_locked_until\<rparr>
      in bindE (modifyE (\<lambda>d. d\<lparr>login_attempts_ip :=
             if has_existing then update_where (\<lambda>r. ir_ip r = ip) (\<lambda>_. row) (login_attempts_ip d)
             else login_attempts_ip d @ [row]\<rparr>)) (\<lambda>_.
         returnE \<lparr>ips_ip = ip, ips_attempts = attempts, ips_locked_until = new_locked_until\<rparr>))"

definition ip_record_attempt :: "chrono \<Rightarrow> ip_policy \<Rightarrow> timestamp \<Rightarrow> string
    \<Rightarrow> (db, ip_status) eff" where
  "ip_record_attempt c pol now ip =
     (let window_start = now - duration_from_secs (pol_window_duration_secs pol)
      in bindE (getsE (\<lambda>d. find_row ir_ip ip (login_attempts_ip d))) (\<lambda>row_opt.
         case row_opt of
           None \<Rightarrow> ip_store c pol now ip 1 now False
         | Some row \<Rightarrow>
             bindE (liftE (parse_instant c ''invalid first_attempt_at format: ''
                      (ir_first_attempt_at row))) (\<lambda>first_attempt_at.
             bindE (liftE (parse_locked_until c (ir_locked_until row))) (\<lambda>existing_locked_until.
             case existing_locked_until of
               Some locked_until \<Rightarrow>
                 if locked_until > now
                 then returnE \<lparr>ips_ip = ip, ips_attempts = ir_attempts row,
                               ips_locked_until = Some locked_until\<rparr>
                 else if first_attempt_at < window_start then ip_store c pol now ip 1 now True
                 else ip_store c pol now ip (wrap_i32 (ir_attempts row + 1)) first_attempt_at True
             | None \<Rightarrow>
                 if first_attempt_at < window_start then ip_store c pol now ip 1 now True
                 else ip_store c pol now ip (wrap_i32 (ir_attempts row + 1)) first_attempt_at
                        True))))"

definition ip_check_rate_limit :: "chrono \<Rightarrow> string \<Rightarrow> (db, ip_status) eff" where
  "ip_check_rate_limit c ip =
     bindE (getsE (\<lambda>d. find_row ir_ip ip (login_attempts_ip d))) (\<lambda>row_opt.
       case row_opt of
         Some row \<Rightarrow>
           bindE (liftE (parse_locked_until c (ir_locked_until row))) (\<lambda>locked_until.
           returnE \<lparr>ips_ip = ip, ips_attempts = ir_attempts row, ips_locked_until = locked_until\<rparr>)
       | None \<Rightarrow> returnE \<lparr>ips_ip = ip, ips_attempts = 0, ips_locked_until = None\<rparr>)"

definition ip_reset_attempts :: "string \<Rightarrow> (db, unit) eff" where
  "ip_reset_attempts ip = modifyE (\<lambda>d.
     d\<lparr>login_attempts_ip := filter (\<lambda>r. ir_ip r \<noteq> ip) (login_attempts_ip d)\<rparr>)"

text \<open>The comparison is the database's, on the RFC 3339 texts.\<close>

definition ip_expired :: "chrono \<Rightarrow> timestamp \<Rightarrow> ip_row \<Rightarrow> bool" where
  "ip_expired c now r = (case ir_locked_until r of None \<Rightarrow> False | Some l \<Rightarrow> l < to_rfc3339 c now)"

definition ip_cleanup_expired :: "chrono \<Rightarrow> timestamp \<Rightarrow> (db, nat) eff" where
  "ip_cleanup_expired c now =
     bindE (getsE (\<lambda>d. count_where (ip_expired c now) (login_attempts_ip d))) (\<lambda>n.
     bindE (modifyE (\<lambda>d. d\<lparr>login_attempts_ip :=
              filter (\<lambda>r. \<not> ip_expired c now r) (login_attempts_ip d)\<rparr>)) (\<lambda>_.
     returnE n))"

section \<open>The combined service\<close>

record combined_policy =
  user_policy :: auth_policy_state
  ip_policy_status :: ip_status

definition combined_is_locked :: "timestamp \<Rightarrow> combined_policy \<Rightarrow> bool" where
  "combined_is_locked now p \<longleftrightarrow>
     aps_is_locked (user_policy p) \<or> ip_is_locked now (ip_policy_status p)"

definition combined_remaining :: "timestamp \<Rightarrow> combined_policy \<Rightarrow> int" where
  "combined_remaining now p =
     max (aps_remaining_lock_secs (user_policy p)) (lock_remaining_seconds now (ip_policy_status p))"

definition check_combined_rate_limit :: "chrono \<Rightarrow> timestamp \<Rightarrow> string \<Rightarrow> string
    \<Rightarrow> (db, combined_policy) eff" where
  "check_combined_rate_limit c now username ip =
     bindE (auth_get_state now username) (\<lambda>u.
     bindE (ip_check_rate_limit c ip) (\<lambda>i.
     returnE \<lparr>user_policy = u, ip_policy_status = i\<rparr>))"

definition combined_record_failed_attempt :: "chrono \<Rightarrow> ip_policy \<Rightarrow> timestamp \<Rightarrow> timestamp
    \<Rightarrow> timestamp \<Rightarrow> string \<Rightarrow> string \<Rightarrow> (db, combined_policy) eff" where
  "combined_record_failed_attempt c pol now now' now'' username ip =
     bindE (auth_record_failed_attempt now now' username) (\<lambda>u.
     bindE (ip_record_attempt c pol now'' ip) (\<lambda>i.
     returnE \<lparr>user_policy = u, ip_policy_status = i\<rparr>))"

definition reset_on_success :: "string \<Rightarrow> string \<Rightarrow> (db, unit) eff" where
  "reset_on_success username ip =
     bindE (auth_reset_failed_attempts username) (\<lambda>_. ip_reset_attempts ip)"

text \<open>\<open>SimpleIpRateLimitServiceImpl\<close> hands every call to the repository.\<close>

definition check_ip_rate_limit :: "chrono \<Rightarrow> string \<Rightarrow> (db, ip_status) eff" where
  "check_ip_rate_limit c ip = ip_check_rate_limit c ip"

definition record_ip_attempt :: "chrono \<Rightarrow> ip_policy \<Rightarrow> timestamp \<Rightarrow> string
    \<Rightarrow> (db, ip_status) eff" where
  "record_ip_attempt c pol now ip = ip_record_attempt c pol now ip"

definition reset_ip_attempts :: "string \<Rightarrow> (db, unit) eff" where
  "reset_ip_attempts ip = ip_reset_attempts ip"

section \<open>What a limiter promises\<close>

text \<open>
  The contract of a throttling service: a success clears the key's lock, and what happens to
  other keys never matters. \<open>limiter_pair\<close> is a service made of two limiters over one state,
  none of which touches the other's part of it.
\<close>

locale limiter =
  fixes locked :: "'k \<Rightarrow> 't \<Rightarrow> 's \<Rightarrow> bool"
    and fail :: "'k \<Rightarrow> 't \<Rightarrow> 's \<Rightarrow> 's"
    and reset :: "'k \<Rightarrow> 's \<Rightarrow> 's"
  assumes locked_other_fail: "k \<noteq> k' \<Longrightarrow> locked k t (fail k' t' s) = locked k t s"
    and locked_other_reset: "k \<noteq> k' \<Longrightarrow> locked k t (reset k' s) = locked k t s"
    and reset_unlocks: "\<not> locked k t (reset k s)"
begin

lemma locked_others:
  "k \<notin> fst ` set es \<Longrightarrow> locked k t (foldl (\<lambda>s (k', t'). fail k' t' s) s es) = locked k t s"
  by (induction es arbitrary: s) (auto simp: locked_other_fail)

lemma reset_then_others:
  "k \<notin> fst ` set es \<Longrightarrow> \<not> locked k t (foldl (\<lambda>s (k', t'). fail k' t' s) (reset k s) es)"
  by (simp add: locked_others reset_unlocks)

end

locale limiter_pair =
  A: limiter lockedA failA resetA + B: limiter lockedB failB resetB
  for lockedA :: "'a \<Rightarrow> 't \<Rightarrow> 's \<Rightarrow> bool" and failA resetA
    and lockedB :: "'b \<Rightarrow> 't \<Rightarrow> 's \<Rightarrow> bool" and failB resetB +
  assumes A_fail_B: "lockedB b t (failA a t' s) = lockedB b t s"
    and A_reset_B: "lockedB b t (resetA a s) = lockedB b t s"
    and B_fail_A: "lockedA a t (failB b t' s) = lockedA a t s"
    and B_reset_A: "lockedA a t (resetB b s) = lockedA a t s"
begin

lemma pair_other_fail:
  assumes "a \<noteq> a'" and "b \<noteq> b'"
  shows "(lockedA a t (failB b' t' (failA a' t'' s)) \<or> lockedB b t (failB b' t' (failA a' t'' s)))
    = (lockedA a t s \<or> lockedB b t s)"
  using assms by (simp add: A_fail_B B_fail_A A.locked_other_fail B.locked_other_fail)

lemma pair_reset:
  "\<not> lockedA a t (resetB b (resetA a s)) \<and> \<not> lockedB b t (resetB b (resetA a s))"
  by (simp add: B_reset_A A.reset_unlocks B.reset_unlocks)

end

definition auth_locked :: "string \<Rightarrow> timestamp \<Rightarrow> db \<Rightarrow> bool" where
  "auth_locked u t d =
     (case fst (auth_get_state t u d) of Inl _ \<Rightarrow> False | Inr s \<Rightarrow> aps_is_locked s)"

definition ip_locked :: "chrono \<Rightarrow> string \<Rightarrow> timestamp \<Rightarrow> db \<Rightarrow> bool" where
  "ip_locked c ip t d =
     (case fst (ip_check_rate_limit c ip d) of Inl _ \<Rightarrow> False | Inr s \<Rightarrow> ip_is_locked t s)"

definition auth_fail :: "string \<Rightarrow> timestamp \<Rightarrow> db \<Rightarrow> db" where
  "auth_fail u t d = snd (auth_record_failed_attempt t t u d)"

definition auth_success :: "string \<Rightarrow> db \<Rightarrow> db" where
  "auth_success u d = snd (auth_reset_failed_attempts u d)"

definition ip_fail :: "chrono \<Rightarrow> ip_policy \<Rightarrow> string \<Rightarrow> timestamp \<Rightarrow> db \<Rightarrow> db" where
  "ip_fail c pol ip t d = snd (ip_record_attempt c pol t ip d)"

definition ip_success :: "string \<Rightarrow> db \<Rightarrow> db" where
  "ip_success ip d = snd (ip_reset_attempts ip d)"

text \<open>Only the row of the address changes, and only the table of addresses.\<close>

lemma ip_store_run:
  "ip_store c pol now ip n f e d =
    (let l = if n \<ge> pol_max_attempts pol
             then Some (now + duration_from_secs (pol_lock_duration_secs pol)) else None;
         row = \<lparr>ir_ip = ip, ir_attempts = n, ir_first_attempt_at = to_rfc3339 c f,
                ir_locked_until = map_option (to_rfc3339 c) l\<rparr>
     in (Inr \<lparr>ips_ip = ip, ips_attempts = n, ips_locked_until = l\<rparr>,
         d\<lparr>login_attempts_ip := if e then update_where (\<lambda>r. ir_ip r = ip) (\<lambda>_. row) (login_attempts_ip d)
                               else login_attempts_ip d @ [row]\<rparr>))"
  by (simp add: ip_store_def eff_simps Let_def)

lemma find_ip_other:
  assumes "ip \<noteq> ip'" "\<And>r. ir_ip (f r) = ip'"
  shows "find_row ir_ip ip (update_where (\<lambda>r. ir_ip r = ip') f rs) = find_row ir_ip ip rs"
  using assms by (induction rs) auto

lemma ip_record_other:
  assumes "ip \<noteq> ip'"
  shows "find_row ir_ip ip (login_attempts_ip (snd (ip_record_attempt c pol t ip' d))) =
    find_row ir_ip ip (login_attempts_ip d)"
  using assms
  by (auto simp: ip_record_attempt_def eff_simps ip_store_run Let_def find_row_append
      find_ip_other split: option.split sum.split)

lemma ip_record_frame: "\<exists>x. snd (ip_record_attempt c pol t ip d) = d\<lparr>login_attempts_ip := x\<rparr>"
proof -
  have "\<exists>x. d = d\<lparr>login_attempts_ip := x\<rparr>"
    by (rule exI [of _ "login_attempts_ip d"]) simp
  note same = this
  have "\<exists>x. snd (ip_store c pol t ip n f e d) = d\<lparr>login_attempts_ip := x\<rparr>" for n f e
    unfolding ip_store_run Let_def snd_conv by (rule exI, rule refl)
  then show ?thesis
    unfolding ip_record_attempt_def Let_def bindE_run getsE_run liftE_run returnE_run
    using same by (simp split: option.split sum.split)
qed

lemma ip_locked_cong:
  "find_row ir_ip ip (login_attempts_ip d) = find_row ir_ip ip (login_attempts_ip d') \<Longrightarrow>
   ip_locked c ip t d = ip_locked c ip t d'"
  by (simp add: ip_locked_def ip_check_rate_limit_def eff_simps split: option.split sum.split)

lemma auth_locked_iff:
  "auth_locked u t d \<longleftrightarrow> trim u \<noteq> [] \<and>
     aps_is_locked \<lparr>aps_failed_attempts = ap_failed_attempts (auth_row_of u d),
       aps_remaining_lock_secs = remaining_lock_secs (ap_failed_attempts (auth_row_of u d))
         (ap_last_attempt_at (auth_row_of u d)) (unix_secs t)\<rparr>"
proof (cases "trim u = []")
  case True
  then show ?thesis
    by (simp add: auth_locked_def auth_get_state_def eff_simps aps_is_locked_def)
next
  case False
  then show ?thesis by (simp add: auth_locked_def auth_get_state_run)
qed

lemma auth_row_of_frame [simp]: "auth_row_of u (d\<lparr>login_attempts_ip := x\<rparr>) = auth_row_of u d"
  by (simp add: auth_row_of_def)

lemma ensure_row_keeps_ip:
  "login_attempts_ip (snd (ensure_row_exists u d)) = login_attempts_ip d"
  by (simp add: ensure_row_exists_def eff_simps)

lemma auth_ops_keep_ip:
  "login_attempts_ip (snd (auth_get_state t u d)) = login_attempts_ip d"
  "login_attempts_ip (snd (auth_record_failed_attempt t t' u d)) = login_attempts_ip d"
  "login_attempts_ip (snd (auth_reset_failed_attempts u d)) = login_attempts_ip d"
  by (simp_all add: auth_op_defs eff_simps split: sum.split)

text \<open>Both services are limiters, and the combined service is their pair.\<close>

interpretation auth_limiter: limiter auth_locked auth_fail auth_success
proof unfold_locales
  fix k k' :: string and t t' s
  show "k \<noteq> k' \<Longrightarrow> auth_locked k t (auth_fail k' t' s) = auth_locked k t s"
    by (cases "trim k' = []") (auto simp: auth_locked_iff auth_fail_def auth_record_run auth_blank_run)
  show "k \<noteq> k' \<Longrightarrow> auth_locked k t (auth_success k' s) = auth_locked k t s"
    by (cases "trim k' = []") (auto simp: auth_locked_iff auth_success_def auth_reset_run auth_blank_run)
  show "\<not> auth_locked k t (auth_success k s)"
    by (auto simp: auth_locked_iff auth_success_def auth_reset_run aps_is_locked_def
        MAX_FAILED_ATTEMPTS_def)
qed

interpretation ip_limiter: limiter "ip_locked c" "ip_fail c pol" ip_success for c pol
proof unfold_locales
  fix k k' :: string and t t' s
  show "k \<noteq> k' \<Longrightarrow> ip_locked c k t (ip_fail c pol k' t' s) = ip_locked c k t s"
    by (rule ip_locked_cong) (simp add: ip_fail_def ip_record_other)
  show "k \<noteq> k' \<Longrightarrow> ip_locked c k t (ip_success k' s) = ip_locked c k t s"
    by (rule ip_locked_cong)
      (simp add: ip_success_def ip_reset_attempts_def eff_simps find_row_filter_key)
  show "\<not> ip_locked c k t (ip_success k s)"
    by (simp add: ip_locked_def ip_success_def ip_reset_attempts_def ip_check_rate_limit_def
        eff_simps find_row_filter_key ip_is_locked_def)
qed

interpretation combined_limiter: limiter_pair auth_locked auth_fail auth_success
  "ip_locked c" "ip_fail c pol" ip_success for c pol
proof unfold_locales
  fix a b :: string and t t' s
  show "ip_locked c b t (auth_fail a t' s) = ip_locked c b t s"
    by (rule ip_locked_cong) (simp add: auth_fail_def auth_ops_keep_ip)
  show "ip_locked c b t (auth_success a s) = ip_locked c b t s"
    by (rule ip_locked_cong) (simp add: auth_success_def auth_ops_keep_ip)
  show "auth_locked a t (ip_fail c pol b t' s) = auth_locked a t s"
    using ip_record_frame [of c pol t' b s] by (auto simp: auth_locked_iff ip_fail_def)
  show "auth_locked a t (ip_success b s) = auth_locked a t s"
    by (simp add: auth_locked_iff ip_success_def ip_reset_attempts_def eff_simps)
qed

section \<open>The combined service protects a user from others\<close>

lemma auth_record_is_Inr: "\<exists>s. fst (auth_record_failed_attempt t t' u d) = Inr s"
proof (cases "trim u = []")
  case True
  then show ?thesis by (simp add: auth_record_failed_attempt_def eff_simps)
next
  case False
  then show ?thesis
    by (simp add: auth_record_failed_attempt_def ensure_row_exists_def update_auth_row_def eff_simps
        auth_get_state_run)
qed

lemma combined_record_run:
  "snd (combined_record_failed_attempt c pol t t' t'' u ip d) =
     snd (ip_record_attempt c pol t'' ip (snd (auth_record_failed_attempt t t' u d)))"
  using auth_record_is_Inr [of t t' u d]
  by (auto simp: combined_record_failed_attempt_def eff_simps split: sum.split)

lemma auth_record_locked_other:
  "u \<noteq> u' \<Longrightarrow> auth_locked u t (snd (auth_record_failed_attempt t1 t2 u' d)) = auth_locked u t d"
  by (cases "trim u' = []") (auto simp: auth_locked_iff auth_record_run auth_blank_run)

lemma combined_fail_other_user:
  assumes "u \<noteq> u'"
  shows "auth_locked u t (snd (combined_record_failed_attempt c pol t1 t2 t3 u' ip' d)) =
    auth_locked u t d"
proof -
  let ?d = "snd (auth_record_failed_attempt t1 t2 u' d)"
  have "auth_locked u t (ip_fail c pol ip' t3 ?d) = auth_locked u t ?d"
    by (rule combined_limiter.B_fail_A)
  then show ?thesis
    using assms by (simp add: combined_record_run ip_fail_def auth_record_locked_other)
qed

lemma combined_fail_other_ip:
  "ip \<noteq> ip' \<Longrightarrow>
   find_row ir_ip ip (login_attempts_ip
      (snd (combined_record_failed_attempt c pol t1 t2 t3 u' ip' d))) =
   find_row ir_ip ip (login_attempts_ip d)"
  by (simp add: combined_record_run ip_record_other auth_ops_keep_ip)

fun combined_failures :: "chrono \<Rightarrow> ip_policy \<Rightarrow> (string \<times> string \<times> timestamp) list \<Rightarrow> db \<Rightarrow> db" where
  "combined_failures c pol [] d = d"
| "combined_failures c pol ((u, ip, t) # es) d =
     combined_failures c pol es (snd (combined_record_failed_attempt c pol t t t u ip d))"

lemma combined_failures_other:
  assumes "\<forall>(u', ip', t') \<in> set es. u' \<noteq> u \<and> ip' \<noteq> ip"
  shows "auth_locked u t (combined_failures c pol es d) = auth_locked u t d"
    and "find_row ir_ip ip (login_attempts_ip (combined_failures c pol es d)) =
      find_row ir_ip ip (login_attempts_ip d)"
  using assms by (induction es arbitrary: d) (auto simp: combined_fail_other_user combined_fail_other_ip)

lemma auth_get_state_is_Inr: "\<exists>s. fst (auth_get_state t u d) = Inr s \<and> auth_locked u t d = aps_is_locked s"
proof (cases "trim u = []")
  case True
  then show ?thesis by (simp add: auth_locked_def auth_get_state_def eff_simps)
next
  case False
  then show ?thesis by (simp add: auth_get_state_run auth_locked_def)
qed

text \<open>
  C33: After a successful login of a user from an address, no number of failed attempts that
  others make, with other usernames and from other addresses, locks that user at that address:
  the combined check still answers, and answers that the login is not locked.
\<close>

theorem success_is_not_undone_by_others:
  assumes "\<forall>(u', ip', t') \<in> set es. u' \<noteq> u \<and> ip' \<noteq> ip"
  shows "\<exists>p. fst (check_combined_rate_limit c now u ip
      (combined_failures c pol es (snd (reset_on_success u ip d)))) = Inr p
    \<and> \<not> combined_is_locked now p"
proof -
  let ?start = "snd (reset_on_success u ip d)"
  let ?d = "combined_failures c pol es ?start"
  have d0: "?start = ip_success ip (auth_success u d)"
  proof -
    have "fst (auth_reset_failed_attempts u d) = Inr ()" by (rule auth_reset_is_Inr)
    then show ?thesis
      by (simp add: reset_on_success_def eff_simps auth_success_def ip_success_def)
  qed
  have "\<not> auth_locked u now ?start"
    using combined_limiter.pair_reset by (simp add: d0)
  then have a: "\<not> auth_locked u now ?d"
    using assms by (simp add: combined_failures_other)
  obtain s where s: "fst (auth_get_state now u ?d) = Inr s" "\<not> aps_is_locked s"
    using auth_get_state_is_Inr [of now u ?d] a by auto
  have "find_row ir_ip ip (login_attempts_ip ?d) = None"
    using assms by (simp add: combined_failures_other d0 ip_success_def ip_reset_attempts_def
        eff_simps find_row_filter_key)
  then show ?thesis
    using s by (simp add: check_combined_rate_limit_def eff_simps ip_check_rate_limit_def
        auth_ops_keep_ip combined_is_locked_def ip_is_locked_def)
qed

theorem success_is_not_undone_by_others_witness:
  "\<exists>p. fst (check_combined_rate_limit decimal_chrono 10 ''bob'' ''10.0.0.1''
      (combined_failures decimal_chrono default_ip_policy [(''amy'', ''10.0.0.2'', 1), (''eve'', ''10.0.0.3'', 2)]
        (snd (reset_on_success ''bob'' ''10.0.0.1'' (empty_db ''now''))))) = Inr p
    \<and> \<not> combined_is_locked 10 p"
  by (rule success_is_not_undone_by_others) simp

section \<open>The threshold of an address\<close>

text \<open>What the stored row of an address says, once parsed.\<close>

definition ip_row_says :: "chrono \<Rightarrow> string \<Rightarrow> db \<Rightarrow> int \<Rightarrow> timestamp \<Rightarrow> timestamp option \<Rightarrow> bool" where
  "ip_row_says c ip d n f l \<longleftrightarrow>
     (\<exists>r. find_row ir_ip ip (login_attempts_ip d) = Some r \<and> ir_attempts r = n
        \<and> parse_rfc3339 c (ir_first_attempt_at r) = Inr f
        \<and> parse_locked_until c (ir_locked_until r) = Inr l)"

fun ip_attempts :: "chrono \<Rightarrow> ip_policy \<Rightarrow> string \<Rightarrow> timestamp list \<Rightarrow> db \<Rightarrow> db" where
  "ip_attempts c pol ip [] d = d"
| "ip_attempts c pol ip (t # ts) d = ip_attempts c pol ip ts (snd (ip_record_attempt c pol t ip d))"

lemma ip_attempts_append:
  "ip_attempts c pol ip (ts @ us) d = ip_attempts c pol ip us (ip_attempts c pol ip ts d)"
  by (induction ts arbitrary: d) auto

definition lock_at :: "ip_policy \<Rightarrow> int \<Rightarrow> timestamp \<Rightarrow> timestamp option" where
  "lock_at pol n t =
     (if n \<ge> pol_max_attempts pol
      then Some (t + duration_from_secs (pol_lock_duration_secs pol)) else None)"

lemma parse_locked_until_simps [simp]:
  "parse_locked_until c None = Inr None"
  "parse_rfc3339 c s = Inr x \<Longrightarrow> parse_locked_until c (Some s) = Inr (Some x)"
  by (simp_all add: parse_locked_until_def parse_instant_def)

lemma find_ip_updated:
  "find_row ir_ip ip rs \<noteq> None \<Longrightarrow> ir_ip row = ip \<Longrightarrow>
   find_row ir_ip ip (update_where (\<lambda>r. ir_ip r = ip) (\<lambda>_. row) rs) = Some row"
  by (induction rs) auto

lemma ip_first:
  assumes "chrono_ok c P" "P t" "P (t + duration_from_secs (pol_lock_duration_secs pol))"
    and "find_row ir_ip ip (login_attempts_ip d) = None"
  shows "ip_row_says c ip (snd (ip_record_attempt c pol t ip d)) 1 t (lock_at pol 1 t)"
  using assms
  by (auto simp: ip_record_attempt_def eff_simps ip_store_run Let_def ip_row_says_def lock_at_def
      find_row_append chrono_ok_def)

lemma ip_next:
  assumes "chrono_ok c P" "P f" "P (t + duration_from_secs (pol_lock_duration_secs pol))"
    and "ip_row_says c ip d n f None" "0 \<le> n" "n < 2 ^ 31 - 1"
    and "t - duration_from_secs (pol_window_duration_secs pol) \<le> f"
  shows "ip_row_says c ip (snd (ip_record_attempt c pol t ip d)) (n + 1) f (lock_at pol (n + 1) t)"
proof -
  have "wrap_i32 (n + 1) = n + 1" using assms(5,6) by simp
  then show ?thesis
    using assms
    by (auto simp: ip_record_attempt_def eff_simps ip_store_run Let_def ip_row_says_def lock_at_def
        parse_instant_def find_ip_updated chrono_ok_def)
qed

lemma ip_frozen:
  assumes "ip_row_says c ip d n f (Some l)" and "t < l"
  shows "snd (ip_record_attempt c pol t ip d) = d"
  using assms by (auto simp: ip_record_attempt_def eff_simps ip_row_says_def parse_instant_def Let_def)

lemma ip_frozen_run:
  assumes "ip_row_says c ip d n f (Some l)" and "\<forall>t \<in> set ts. t < l"
  shows "ip_attempts c pol ip ts d = d"
  using assms(2) by (induction ts) (simp_all add: ip_frozen [OF assms(1)])

lemma ip_counting:
  assumes "chrono_ok c P" "P f" "\<forall>t \<in> set ts. P (t + duration_from_secs (pol_lock_duration_secs pol))"
    and "ip_row_says c ip d n f None" "0 \<le> n" "ts \<noteq> []"
    and "n + int (length ts) \<le> pol_max_attempts pol" "pol_max_attempts pol < 2 ^ 31"
    and "\<forall>t \<in> set ts. t - duration_from_secs (pol_window_duration_secs pol) \<le> f"
  shows "ip_row_says c ip (ip_attempts c pol ip ts d) (n + int (length ts)) f
    (lock_at pol (n + int (length ts)) (last ts))"
  using assms(3-9)
proof (induction ts arbitrary: d n)
  case Nil
  then show ?case by simp
next
  case (Cons t ts)
  have step: "ip_row_says c ip (snd (ip_record_attempt c pol t ip d)) (n + 1) f
      (lock_at pol (n + 1) t)"
    using Cons.prems assms(1,2) by (intro ip_next [of c P]) auto
  show ?case
  proof (cases "ts = []")
    case True
    then show ?thesis using step by simp
  next
    case False
    then have "n + 1 < pol_max_attempts pol" using Cons.prems by (cases ts) auto
    then have "lock_at pol (n + 1) t = None" by (simp add: lock_at_def)
    then have "ip_row_says c ip (ip_attempts c pol ip ts (snd (ip_record_attempt c pol t ip d)))
        (n + 1 + int (length ts)) f (lock_at pol (n + 1 + int (length ts)) (last ts))"
      using step Cons.prems False by (intro Cons.IH) auto
    then show ?thesis using False by (simp add: algebra_simps)
  qed
qed

text \<open>
  An address is locked by exactly the number of attempts its policy names, and the lock
  cannot be prolonged. For an address without a row and attempts that all fall into the window
  of the first one: after fewer attempts than the maximum the check reports their number and no
  lock; the attempt that reaches the maximum locks the address for the lock duration from its
  own time; and further attempts made before that moment leave the row, hence the end of the
  lock, unchanged.
\<close>

theorem ip_lock_threshold:
  assumes "chrono_ok c P" and "\<forall>t \<in> set ts. P t \<and> P (t + duration_from_secs (pol_lock_duration_secs pol))"
    and "find_row ir_ip ip (login_attempts_ip d) = None" and "ts \<noteq> []"
    and "int (length ts) \<le> pol_max_attempts pol" and "pol_max_attempts pol < 2 ^ 31"
    and "\<forall>t \<in> set ts. t \<le> hd ts + duration_from_secs (pol_window_duration_secs pol)"
    and "int (length ts) < pol_max_attempts pol \<longrightarrow> es = []"
    and "\<forall>t \<in> set es. t < last ts + duration_from_secs (pol_lock_duration_secs pol)"
  shows "fst (ip_check_rate_limit c ip (ip_attempts c pol ip (ts @ es) d)) =
    Inr \<lparr>ips_ip = ip, ips_attempts = int (length ts),
         ips_locked_until = (if int (length ts) = pol_max_attempts pol
           then Some (last ts + duration_from_secs (pol_lock_duration_secs pol)) else None)\<rparr>"
proof -
  obtain t us where ts: "ts = t # us" using assms(4) by (cases ts) auto
  let ?d1 = "snd (ip_record_attempt c pol t ip d)"
  have first: "ip_row_says c ip ?d1 1 t (lock_at pol 1 t)"
    using assms(1-3) ts by (intro ip_first [of c P]) auto
  have all: "ip_row_says c ip (ip_attempts c pol ip ts d) (int (length ts)) t
      (lock_at pol (int (length ts)) (last ts))"
  proof (cases "us = []")
    case True
    then show ?thesis using first ts by simp
  next
    case False
    then have "lock_at pol 1 t = None" using assms(5) ts by (cases us) (auto simp: lock_at_def)
    then have "ip_row_says c ip (ip_attempts c pol ip us ?d1) (1 + int (length us)) t
        (lock_at pol (1 + int (length us)) (last us))"
      using first assms(1,2,5-7) ts False by (intro ip_counting [of c P]) auto
    then show ?thesis using ts False by simp
  qed
  moreover have "ip_attempts c pol ip es (ip_attempts c pol ip ts d) = ip_attempts c pol ip ts d"
  proof (cases "int (length ts) < pol_max_attempts pol")
    case True
    then show ?thesis using assms(8) by simp
  next
    case False
    then show ?thesis
      using all assms(9) by (intro ip_frozen_run) (auto simp: lock_at_def)
  qed
  ultimately show ?thesis
    using assms(5)
    by (auto simp: ip_attempts_append ip_check_rate_limit_def eff_simps ip_row_says_def lock_at_def)
qed

theorem ip_lock_threshold_witness:
  "fst (ip_check_rate_limit decimal_chrono ''10.0.0.1''
     (ip_attempts decimal_chrono \<lparr>pol_max_attempts = 2, pol_lock_duration_secs = 60,
        pol_window_duration_secs = 60\<rparr> ''10.0.0.1'' ([5, 9] @ [11]) (empty_db ''now''))) =
   Inr \<lparr>ips_ip = ''10.0.0.1'', ips_attempts = int (length [5::int, 9]), ips_locked_until =
     (if int (length [5::int, 9]) = pol_max_attempts \<lparr>pol_max_attempts = 2, pol_lock_duration_secs = 60,
        pol_window_duration_secs = 60\<rparr>
      then Some (last [5, 9] + duration_from_secs (pol_lock_duration_secs \<lparr>pol_max_attempts = 2,
        pol_lock_duration_secs = 60, pol_window_duration_secs = 60\<rparr>)) else None)\<rparr>"
  by (rule ip_lock_threshold [OF decimal_chrono_ok])
    (simp_all add: empty_db_def duration_from_secs_def nanos_per_sec_def)

section \<open>The schema is kept\<close>

lemma db_ok_login_attempts:
  "db_ok d \<Longrightarrow> distinct (map ir_ip x) \<Longrightarrow> db_ok (d\<lparr>login_attempts_ip := x\<rparr>)"
  by (simp add: db_ok_def) (simp add: logs_ok_def)

lemma db_ok_login_attemptsD: "db_ok d \<Longrightarrow> distinct (map ir_ip (login_attempts_ip d))"
  by (simp add: db_ok_def logs_ok_def)

lemma distinct_ip_update:
  "distinct (map ir_ip rs) \<Longrightarrow> ir_ip row = ip \<Longrightarrow>
   distinct (map ir_ip (update_where (\<lambda>r. ir_ip r = ip) (\<lambda>_. row) rs))"
  by (simp add: map_update_where_same)

lemma keeps_ip_record [inv_intros]: "keeps db_ok (ip_record_attempt c pol t ip)"
  by (auto simp: keeps_def ip_record_attempt_def eff_simps ip_store_run Let_def db_ok_login_attemptsD
      find_row_None_iff split: option.split sum.split
      intro!: db_ok_login_attempts distinct_ip_update)

lemma keeps_ip_limit [inv_intros]:
  "keeps db_ok (ip_check_rate_limit c ip)"
  "keeps db_ok (ip_reset_attempts ip)"
  "keeps db_ok (ip_cleanup_expired c now)"
proof -
  show "keeps db_ok (ip_check_rate_limit c ip)"
    unfolding ip_check_rate_limit_def by (intro inv_intros)
  show "keeps db_ok (ip_reset_attempts ip)"
    by (simp add: keeps_def ip_reset_attempts_def eff_simps db_ok_login_attempts
        db_ok_login_attemptsD distinct_map_filter_key)
  show "keeps db_ok (ip_cleanup_expired c now)"
    by (simp add: keeps_def ip_cleanup_expired_def eff_simps db_ok_login_attempts
        db_ok_login_attemptsD distinct_map_filter_key)
qed

lemma keeps_combined [inv_intros]:
  "keeps db_ok (check_combined_rate_limit c now u ip)"
  "keeps db_ok (combined_record_failed_attempt c pol now now' now'' u ip)"
  "keeps db_ok (reset_on_success u ip)"
  unfolding check_combined_rate_limit_def combined_record_failed_attempt_def reset_on_success_def
  by (intro inv_intros)+

end
