(* ===== verification/HV_Crypto.thy ===== *)
theory HV_Crypto
  imports HV_Db
begin

text \<open>
  services/crypto_service.rs, and the world its callers act on. The primitives belong to other
  crates and are arguments, the record \<open>crypto_lib\<close>: Argon2id (crate argon2), AES-256-GCM (crate
  aes-gcm) and Unicode lower-casing of the standard library. \<open>crypto_lib_ok\<close> states what their
  documentation promises and the code relies on. The operating system's random bytes are part of
  the world: the answer to the i-th request, which may be an error.
\<close>

section \<open>The world\<close>

record rng =
  rng_error :: "nat \<Rightarrow> string option"
  rng_byte :: "nat \<Rightarrow> nat \<Rightarrow> byte"
  rng_uuid :: "nat \<Rightarrow> uuid"
  rng_pos :: nat

text \<open>
  The memory of the authentication service: the \<open>HashMap\<close> of encoded password envelopes by
  username, each name once, and the shutdown flag.
\<close>

record auth_mem =
  credentials :: "(string \<times> bytes) list"
  shutdown_in_progress :: bool

record world =
  w_db :: db
  w_rng :: rng
  w_auth :: auth_mem

text \<open>A repository call inside a service, and the random bytes and identifiers a service draws.\<close>

definition on_db :: "(db, 'a) eff \<Rightarrow> (world, 'a) eff" where
  "on_db m = (\<lambda>w. case m (w_db w) of (r, d) \<Rightarrow> (r, w\<lparr>w_db := d\<rparr>))"

definition tick :: "world \<Rightarrow> world" where
  "tick w = w\<lparr>w_rng := (w_rng w)\<lparr>rng_pos := rng_pos (w_rng w) + 1\<rparr>\<rparr>"

definition getrandom_fill :: "nat \<Rightarrow> world \<Rightarrow> (string + bytes) \<times> world" where
  "getrandom_fill n w =
     (let r = w_rng w
      in (case rng_error r (rng_pos r) of
            Some e \<Rightarrow> Inl e
          | None \<Rightarrow> Inr (map (rng_byte r (rng_pos r)) [0..<n]), tick w))"

definition fill_or :: "string \<Rightarrow> nat \<Rightarrow> (world, bytes) eff" where
  "fill_or what n w =
     (case getrandom_fill n w of
        (Inl e, w') \<Rightarrow> (Inl (Crypto (what @ e)), w')
      | (Inr bs, w') \<Rightarrow> (Inr bs, w'))"

definition new_v4 :: "(world, uuid) eff" where
  "new_v4 w = (Inr (rng_uuid (w_rng w) (rng_pos (w_rng w))), tick w)"

lemma on_db_run [eff_simps]: "on_db m w = (fst (m (w_db w)), w\<lparr>w_db := snd (m (w_db w))\<rparr>)"
  by (simp add: on_db_def split: prod.split)

lemma on_db_iff:
  "on_db m w = (r, w') \<longleftrightarrow> (\<exists>d. m (w_db w) = (r, d) \<and> w' = w\<lparr>w_db := d\<rparr>)"
  by (cases "m (w_db w)") (auto simp: on_db_def)

lemma tick_frame [simp]: "w_db (tick w) = w_db w" "w_auth (tick w) = w_auth w"
  by (simp_all add: tick_def)

lemma new_v4_run [eff_simps]: "new_v4 w = (Inr (rng_uuid (w_rng w) (rng_pos (w_rng w))), tick w)"
  by (simp add: new_v4_def)

lemma fill_or_Inr:
  "fill_or what n w = (Inr bs, w') \<Longrightarrow>
     length bs = n \<and> w' = tick w"
  by (auto simp: fill_or_def getrandom_fill_def Let_def split: option.splits)

lemma fill_or_frame [simp]:
  "w_db (snd (fill_or what n w)) = w_db w" "w_auth (snd (fill_or what n w)) = w_auth w"
  by (auto simp: fill_or_def getrandom_fill_def Let_def split: option.splits)

text \<open>An invariant of the database, read in the world.\<close>

definition world_ok :: "world \<Rightarrow> bool" where
  "world_ok w \<longleftrightarrow> db_ok (w_db w)"

lemma keeps_on_db [inv_intros]: "keeps db_ok m \<Longrightarrow> keeps world_ok (on_db m)"
  by (simp add: keeps_def world_ok_def on_db_run)

lemma keeps_fill_or [inv_intros]: "keeps world_ok (fill_or what n)"
  by (simp add: keeps_def world_ok_def)

lemma keeps_new_v4 [inv_intros]: "keeps world_ok new_v4"
  by (simp add: keeps_def world_ok_def new_v4_def)

section \<open>Primitives\<close>

definition NONCE_LEN :: nat where "NONCE_LEN = 12"
definition AES_256_KEY_LEN :: nat where "AES_256_KEY_LEN = 32"
definition KDF_SALT_LEN :: nat where "KDF_SALT_LEN = 32"
definition ENVELOPE_VERSION :: byte where "ENVELOPE_VERSION = 1"

lemmas len_defs = NONCE_LEN_def AES_256_KEY_LEN_def KDF_SALT_LEN_def

record kdf_config =
  memory_cost_kib :: "32 word"
  time_cost :: "32 word"
  parallelism :: "32 word"
  output_len :: nat

definition default_kdf_config :: kdf_config where
  "default_kdf_config =
     \<lparr>memory_cost_kib = 64 * 1024, time_cost = 3, parallelism = 1, output_len = AES_256_KEY_LEN\<rparr>"

record crypto_lib =
  argon2_params_error :: "kdf_config \<Rightarrow> string option"
  argon2id :: "kdf_config \<Rightarrow> bytes \<Rightarrow> bytes \<Rightarrow> string + bytes"
  aes_key_error :: "bytes \<Rightarrow> string option"
  aes_gcm_seal :: "bytes \<Rightarrow> bytes \<Rightarrow> bytes \<Rightarrow> bytes option"
  aes_gcm_open :: "bytes \<Rightarrow> bytes \<Rightarrow> bytes \<Rightarrow> bytes option"
  str_to_lowercase :: "string \<Rightarrow> string"

text \<open>
  AES-GCM opens with the key and the nonce what it sealed, and a text that opens carries a tag of
  16 bytes. Argon2id fills its output. Lower-casing acts on ASCII as expected.
\<close>

definition ascii_lower :: "char \<Rightarrow> char" where
  "ascii_lower c = (if 65 \<le> (of_char c :: nat) \<and> of_char c \<le> (90 :: nat)
     then char_of ((of_char c :: nat) + 32) else c)"

definition is_ascii :: "string \<Rightarrow> bool" where
  "is_ascii s \<longleftrightarrow> (\<forall>c \<in> set s. (of_char c :: nat) < 128)"

definition aead_ok :: "crypto_lib \<Rightarrow> bool" where
  "aead_ok L \<longleftrightarrow> (\<forall>k n p c. aes_gcm_seal L k n p = Some c \<longrightarrow>
     aes_gcm_open L k n c = Some p)
   \<and> (\<forall>k n p c. aes_gcm_open L k n c = Some p \<longrightarrow> length c = length p + 16)"

definition kdf_ok :: "crypto_lib \<Rightarrow> bool" where
  "kdf_ok L \<longleftrightarrow> (\<forall>cfg p s k. argon2id L cfg p s = Inr k \<longrightarrow> length k = output_len cfg)"

definition lowercase_ok :: "crypto_lib \<Rightarrow> bool" where
  "lowercase_ok L \<longleftrightarrow> (\<forall>s. is_ascii s \<longrightarrow> str_to_lowercase L s = map ascii_lower s)"

definition crypto_lib_ok :: "crypto_lib \<Rightarrow> bool" where
  "crypto_lib_ok L \<longleftrightarrow> aead_ok L \<and> kdf_ok L \<and> lowercase_ok L"

text \<open>
  An instance for examples, with no secrecy at all: the derived key is the password and the salt
  cut to length, a sealed text is half the key followed by the plaintext.
\<close>

definition toy_lib :: crypto_lib where
  "toy_lib = \<lparr>
     argon2_params_error = (\<lambda>cfg. None),
     argon2id = (\<lambda>cfg p s. Inr (take (output_len cfg) (p @ s @ replicate (output_len cfg) 0))),
     aes_key_error = (\<lambda>k. if length k = 32 then None else Some ''InvalidLength''),
     aes_gcm_seal = (\<lambda>k n p. if length k < 16 then None else Some (take 16 k @ p)),
     aes_gcm_open = (\<lambda>k n c. if 16 \<le> length k \<and> take 16 c = take 16 k then Some (drop 16 c) else None),
     str_to_lowercase = map ascii_lower\<rparr>"

lemma toy_open_length:
  assumes "16 \<le> length k" "take 16 c = take 16 k"
  shows "length c = length (drop 16 c) + 16"
proof -
  have "length (take 16 c) = 16" using assms by simp
  then have "16 \<le> length c" by simp
  then show ?thesis by simp
qed

lemma toy_lib_ok: "crypto_lib_ok toy_lib"
  using toy_open_length
  by (auto simp: crypto_lib_ok_def aead_ok_def kdf_ok_def lowercase_ok_def toy_lib_def
      split: if_splits)

definition toy_rng :: rng where
  "toy_rng = \<lparr>rng_error = (\<lambda>_. None), rng_byte = (\<lambda>i j. of_nat (i + j + 1)), rng_uuid = of_nat,
     rng_pos = 0\<rparr>"

definition empty_world :: "string \<Rightarrow> world" where
  "empty_world clock = \<lparr>w_db = empty_db clock, w_rng = toy_rng,
     w_auth = \<lparr>credentials = [], shutdown_in_progress = False\<rparr>\<rparr>"

lemma empty_world_sel [simp]:
  "w_db (empty_world clock) = empty_db clock"
  "credentials (w_auth (empty_world clock)) = []"
  "\<not> shutdown_in_progress (w_auth (empty_world clock))"
  by (simp_all add: empty_world_def)

section \<open>The service\<close>

record encrypted_payload =
  nonce :: bytes
  ciphertext :: bytes

definition payload_ok :: "encrypted_payload \<Rightarrow> bool" where
  "payload_ok p \<longleftrightarrow> length (nonce p) = NONCE_LEN \<and> ciphertext p \<noteq> []"

definition encode_envelope :: "encrypted_payload \<Rightarrow> bytes" where
  "encode_envelope payload = [ENVELOPE_VERSION] @ nonce payload @ ciphertext payload"

definition decode_envelope :: "bytes \<Rightarrow> encrypted_payload result" where
  "decode_envelope envelope =
     (if length envelope \<le> 1 + NONCE_LEN
      then Inl (Validation ''encrypted envelope is truncated'')
      else if envelope ! 0 \<noteq> ENVELOPE_VERSION
      then Inl (Validation (''unsupported envelope version: '' @ show_nat (unat (envelope ! 0))))
      else Inr \<lparr>nonce = take NONCE_LEN (drop 1 envelope), ciphertext = drop (1 + NONCE_LEN) envelope\<rparr>)"

definition argon2_instance :: "crypto_lib \<Rightarrow> kdf_config \<Rightarrow> kdf_config result" where
  "argon2_instance L cfg =
     (case argon2_params_error L cfg of
        Some err \<Rightarrow> Inl (Crypto (''invalid argon2 params: '' @ err))
      | None \<Rightarrow> Inr cfg)"

definition generate_nonce :: "(world, bytes) eff" where
  "generate_nonce = fill_or ''nonce generation failed: '' NONCE_LEN"

definition generate_kdf_salt :: "(world, bytes) eff" where
  "generate_kdf_salt = fill_or ''salt generation failed: '' KDF_SALT_LEN"

definition derive_key :: "crypto_lib \<Rightarrow> kdf_config \<Rightarrow> string \<Rightarrow> bytes \<Rightarrow> bytes result" where
  "derive_key L cfg password salt =
     (if salt = [] then Inl (Crypto ''salt must not be empty'')
      else bindR (argon2_instance L cfg) (\<lambda>params.
        case argon2id L params (as_bytes password) salt of
          Inl err \<Rightarrow> Inl (Crypto (''argon2id derivation failed: '' @ err))
        | Inr key \<Rightarrow> Inr key))"

definition aes_key :: "crypto_lib \<Rightarrow> bytes \<Rightarrow> bytes result" where
  "aes_key L key =
     (case aes_key_error L key of
        Some err \<Rightarrow> Inl (Crypto (''invalid aes-256 key: '' @ err))
      | None \<Rightarrow> Inr key)"

definition encrypt :: "crypto_lib \<Rightarrow> bytes \<Rightarrow> bytes \<Rightarrow> (world, encrypted_payload) eff" where
  "encrypt L plaintext key =
     bindE (liftE (aes_key L key)) (\<lambda>cipher.
     bindE generate_nonce (\<lambda>n.
     liftE (case aes_gcm_seal L cipher n plaintext of
              None \<Rightarrow> Inl (Crypto ''encryption failed'')
            | Some c \<Rightarrow> Inr \<lparr>nonce = n, ciphertext = c\<rparr>)))"

definition decrypt :: "crypto_lib \<Rightarrow> encrypted_payload \<Rightarrow> bytes \<Rightarrow> bytes result" where
  "decrypt L payload key =
     bindR (aes_key L key) (\<lambda>cipher.
       case aes_gcm_open L cipher (nonce payload) (ciphertext payload) of
         None \<Rightarrow> Inl (Crypto ''decryption failed'')
       | Some plaintext \<Rightarrow> Inr plaintext)"

section \<open>What the service guarantees\<close>

lemma encrypt_decrypt:
  assumes "crypto_lib_ok L" and "encrypt L plaintext key w = (Inr payload, w')"
  shows "decrypt L payload key = Inr plaintext"
  using assms
  by (auto simp: encrypt_def decrypt_def aes_key_def eff_iffs crypto_lib_ok_def aead_ok_def
      split: option.splits)

lemma decrypt_length:
  assumes "crypto_lib_ok L" and "decrypt L payload key = Inr plaintext"
  shows "length (ciphertext payload) = length plaintext + 16"
  using assms
  by (auto simp: decrypt_def aes_key_def bindR_Inr_iff crypto_lib_ok_def aead_ok_def
      split: option.splits)

lemma encrypt_payload:
  assumes "crypto_lib_ok L" and "encrypt L plaintext key w = (Inr payload, w')"
  shows "length (nonce payload) = NONCE_LEN"
    and "length (ciphertext payload) = length plaintext + 16"
    and "w' = tick w"
proof -
  show "length (ciphertext payload) = length plaintext + 16"
    by (rule decrypt_length [OF assms(1) encrypt_decrypt [OF assms]])
  show "length (nonce payload) = NONCE_LEN" "w' = tick w"
    using assms(2) fill_or_Inr
    by (auto simp: encrypt_def generate_nonce_def eff_iffs split: option.splits)
qed

lemma encrypt_payload_ok:
  "crypto_lib_ok L \<Longrightarrow> encrypt L plaintext key w = (Inr payload, w') \<Longrightarrow> payload_ok payload"
  using encrypt_payload [of L plaintext key w payload w'] by (auto simp: payload_ok_def)

lemma encrypt_frame [simp]:
  "w_db (snd (encrypt L plaintext key w)) = w_db w"
  "w_auth (snd (encrypt L plaintext key w)) = w_auth w"
  by (auto simp: encrypt_def generate_nonce_def eff_simps split: sum.split option.split)

lemma salt_Inr: "generate_kdf_salt w = (Inr salt, w') \<Longrightarrow> length salt = KDF_SALT_LEN \<and> w' = tick w"
  unfolding generate_kdf_salt_def by (rule fill_or_Inr)

lemma salt_frame [simp]:
  "w_db (snd (generate_kdf_salt w)) = w_db w" "w_auth (snd (generate_kdf_salt w)) = w_auth w"
  by (simp_all add: generate_kdf_salt_def)

lemma derive_key_length:
  "crypto_lib_ok L \<Longrightarrow> derive_key L cfg password salt = Inr key \<Longrightarrow> length key = output_len cfg"
  by (auto simp: derive_key_def argon2_instance_def crypto_lib_ok_def kdf_ok_def bindR_Inr_iff
      split: if_splits option.splits sum.splits)

lemma keeps_encrypt [inv_intros]: "keeps world_ok (encrypt L plaintext key)"
  by (simp add: keeps_def world_ok_def)

lemma keeps_salt [inv_intros]: "keeps world_ok generate_kdf_salt"
  by (simp add: keeps_def world_ok_def)

text \<open>With the instances for examples every step succeeds.\<close>

definition rng_works :: "world \<Rightarrow> bool" where
  "rng_works w \<longleftrightarrow> rng_error (w_rng w) = (\<lambda>_. None)"

lemma rng_works_tick [simp]: "rng_works (tick w) = rng_works w"
  by (simp add: rng_works_def tick_def)

lemma rng_works_db [simp]: "rng_works (w\<lparr>w_db := d\<rparr>) = rng_works w"
  by (simp add: rng_works_def)

lemma rng_works_auth [simp]: "rng_works (w\<lparr>w_auth := a\<rparr>) = rng_works w"
  by (simp add: rng_works_def)

lemma rng_works_empty [simp]: "rng_works (empty_world clock)"
  by (simp add: rng_works_def empty_world_def toy_rng_def)

lemma fill_or_works:
  assumes "rng_works w"
  obtains bs where "fill_or what n w = (Inr bs, tick w)" "length bs = n"
  using assms that by (simp add: rng_works_def fill_or_def getrandom_fill_def Let_def)

lemma salt_works:
  assumes "rng_works w"
  obtains salt where "generate_kdf_salt w = (Inr salt, tick w)" "length salt = 32" "salt \<noteq> []"
  using fill_or_works [OF assms, of "''salt generation failed: ''" KDF_SALT_LEN]
  by (metis KDF_SALT_LEN_def generate_kdf_salt_def list.size(3) zero_neq_numeral)

lemma toy_derive:
  assumes "salt \<noteq> []"
  obtains k where "derive_key toy_lib default_kdf_config pw salt = Inr k" "length k = 32"
  using assms that
  by (simp add: derive_key_def argon2_instance_def toy_lib_def default_kdf_config_def len_defs)

lemma toy_encrypt:
  assumes "rng_works w" "length key = 32"
  obtains payload where "encrypt toy_lib pt key w = (Inr payload, tick w)"
proof -
  obtain n where "fill_or ''nonce generation failed: '' NONCE_LEN w = (Inr n, tick w)"
    by (rule fill_or_works [OF assms(1)])
  then show ?thesis
    using assms(2) that
    by (simp add: encrypt_def generate_nonce_def aes_key_def eff_simps toy_lib_def)
qed

text \<open>Cryptography draws random bytes and touches nothing else.\<close>

definition stored_state :: "world \<Rightarrow> db \<times> auth_mem" where
  "stored_state w = (w_db w, w_auth w)"

lemma frames_crypto [frame_intros]:
  "frames stored_state (fill_or what n)" "frames stored_state generate_kdf_salt"
  "frames stored_state (encrypt L plaintext key)" "frames stored_state new_v4"
  by (simp_all add: frames_def stored_state_def new_v4_def)

lemma frames_crypto_db [frame_intros]:
  "frames w_db (fill_or what n)" "frames w_db generate_kdf_salt"
  "frames w_db (encrypt L plaintext key)" "frames w_db new_v4"
  by (simp_all add: frames_def new_v4_def)

section \<open>Binary codecs\<close>

text \<open>
  The contract of an encoder and its decoder: the decoder reads back every well-formed value, and
  accepts nothing else. Each envelope format of the code interprets it.
\<close>

locale codec =
  fixes enc :: "'a \<Rightarrow> bytes"
    and dec :: "bytes \<Rightarrow> 'a option"
    and wf :: "'a \<Rightarrow> bool"
  assumes dec_enc: "wf a \<Longrightarrow> dec (enc a) = Some a"
    and dec_sound: "dec bs = Some a \<Longrightarrow> enc a = bs \<and> wf a"
begin

lemma dec_iff: "dec bs = Some a \<longleftrightarrow> bs = enc a \<and> wf a"
  using dec_enc dec_sound by blast

lemma enc_inject: "wf a \<Longrightarrow> wf b \<Longrightarrow> enc a = enc b \<longleftrightarrow> a = b"
  using dec_enc by (metis option.inject)

lemma dec_None_iff: "dec bs = None \<longleftrightarrow> bs \<notin> enc ` Collect wf"
  using dec_enc dec_sound by (cases "dec bs") (fastforce simp: image_iff)+

end

interpretation envelope_codec: codec encode_envelope "\<lambda>bs. ok_of (decode_envelope bs)" payload_ok
proof unfold_locales
  fix p :: encrypted_payload
  assume "payload_ok p"
  then show "ok_of (decode_envelope (encode_envelope p)) = Some p"
    by (simp add: payload_ok_def encode_envelope_def decode_envelope_def)
next
  fix bs and p :: encrypted_payload
  assume "ok_of (decode_envelope bs) = Some p"
  then have len: "length bs > 1 + NONCE_LEN" and hd: "bs ! 0 = ENVELOPE_VERSION"
    and p: "p = \<lparr>nonce = take NONCE_LEN (drop 1 bs), ciphertext = drop (1 + NONCE_LEN) bs\<rparr>"
    by (auto simp: decode_envelope_def split: if_splits)
  obtain v rest where "bs = v # rest" using len by (cases bs) auto
  then show "encode_envelope p = bs \<and> payload_ok p"
    using len hd by (simp add: p encode_envelope_def payload_ok_def)
qed

end
