(* ===== verification/HV_Auth.thy ===== *)
theory HV_Auth
  imports HV_Crypto
begin

text \<open>
  services/auth_service.rs: the password envelope stored in users.password_envelope, in its two
  versions, and the authentication service that keeps the envelopes of all users in memory.
\<close>

section \<open>Password envelopes\<close>

definition LEGACY_ENVELOPE_VERSION :: byte where "LEGACY_ENVELOPE_VERSION = 1"
definition ACCOUNT_KEY_ENVELOPE_VERSION :: byte where "ACCOUNT_KEY_ENVELOPE_VERSION = 2"
definition ENVELOPE_HEADER_LEN :: nat where "ENVELOPE_HEADER_LEN = 5"

lemmas envelope_const_defs = LEGACY_ENVELOPE_VERSION_def ACCOUNT_KEY_ENVELOPE_VERSION_def
  ENVELOPE_HEADER_LEN_def

datatype password_envelope =
    Legacy (env_salt: bytes) (env_master_key: bytes)
  | AccountKey (env_salt: bytes) (env_wrapped: encrypted_payload)

fun is_account_key :: "password_envelope \<Rightarrow> bool" where
  "is_account_key (AccountKey _ _) = True"
| "is_account_key (Legacy _ _) = False"

text \<open>\<open>(n as u16).to_be_bytes()\<close>, which keeps \<open>n\<close> modulo 65536, and \<open>u16::from_be_bytes\<close>.\<close>

definition u16_to_be_bytes :: "nat \<Rightarrow> bytes" where
  "u16_to_be_bytes n = [of_nat (n div 256), of_nat n]"

definition u16_from_be_bytes :: "byte \<Rightarrow> byte \<Rightarrow> nat" where
  "u16_from_be_bytes a b = 256 * unat a + unat b"

definition encode_password_envelope :: "password_envelope \<Rightarrow> bytes" where
  "encode_password_envelope envelope =
     (let (version, salt, body) =
        (case envelope of
           Legacy salt master_key \<Rightarrow> (LEGACY_ENVELOPE_VERSION, salt, master_key)
         | AccountKey salt wrapped \<Rightarrow>
             (ACCOUNT_KEY_ENVELOPE_VERSION, salt, nonce wrapped @ ciphertext wrapped))
      in [version] @ u16_to_be_bytes (length salt) @ u16_to_be_bytes (length body) @ salt @ body)"

definition decode_password_envelope :: "bytes \<Rightarrow> password_envelope result" where
  "decode_password_envelope bs =
     (if length bs < ENVELOPE_HEADER_LEN
      then Inl (Validation ''invalid password envelope: too short'')
      else
        let salt_len = u16_from_be_bytes (bs ! 1) (bs ! 2);
            body_len = u16_from_be_bytes (bs ! 3) (bs ! 4)
        in if salt_len = 0 \<or> body_len = 0
              \<or> length bs \<noteq> ENVELOPE_HEADER_LEN + salt_len + body_len
           then Inl (Validation ''invalid password envelope: malformed payload'')
           else
             let body_start = ENVELOPE_HEADER_LEN + salt_len;
                 salt = take salt_len (drop ENVELOPE_HEADER_LEN bs);
                 body = drop body_start bs
             in if bs ! 0 = LEGACY_ENVELOPE_VERSION then Inr (Legacy salt body)
                else if bs ! 0 = ACCOUNT_KEY_ENVELOPE_VERSION \<and> length body > NONCE_LEN
                then Inr (AccountKey salt
                       \<lparr>nonce = take NONCE_LEN body, ciphertext = drop NONCE_LEN body\<rparr>)
                else if bs ! 0 = ACCOUNT_KEY_ENVELOPE_VERSION
                then Inl (Validation ''invalid password envelope: malformed payload'')
                else Inl (Validation ''invalid password envelope: unsupported version''))"

definition wrap_account_key :: "crypto_lib \<Rightarrow> kdf_config \<Rightarrow> string \<Rightarrow> bytes
    \<Rightarrow> (world, password_envelope) eff" where
  "wrap_account_key L cfg password account_key =
     bindE generate_kdf_salt (\<lambda>salt.
     bindE (liftE (derive_key L cfg password salt)) (\<lambda>kek.
     bindE (encrypt L account_key kek) (\<lambda>wrapped.
     returnE (AccountKey salt wrapped))))"

fun unlock_password_envelope :: "crypto_lib \<Rightarrow> kdf_config \<Rightarrow> password_envelope \<Rightarrow> string
    \<Rightarrow> bytes option result" where
  "unlock_password_envelope L cfg (Legacy salt master_key) password =
     bindR (derive_key L cfg password salt) (\<lambda>derived.
       Inr (if derived = master_key then Some derived else None))"
| "unlock_password_envelope L cfg (AccountKey salt wrapped) password =
     bindR (derive_key L cfg password salt) (\<lambda>kek. Inr (ok_of (decrypt L wrapped kek)))"

section \<open>The service\<close>

definition ensure_not_shutting_down :: "(world, unit) eff" where
  "ensure_not_shutting_down =
     bindE (getsE (\<lambda>w. shutdown_in_progress (w_auth w)))
       (\<lambda>b. liftE (ensure (\<not> b) ShutdownInProgress))"

definition password_to_secret_string :: "bytes \<Rightarrow> string result" where
  "password_to_secret_string password =
     ok_or (from_utf8 password) (Validation ''password must be valid utf-8'')"

definition lookup_envelope :: "string \<Rightarrow> world \<Rightarrow> bytes option" where
  "lookup_envelope username w = map_of (credentials (w_auth w)) username"

definition put_envelope :: "string \<Rightarrow> bytes \<Rightarrow> (world, unit) eff" where
  "put_envelope username bs = modifyE (\<lambda>w. w\<lparr>w_auth := (w_auth w)\<lparr>credentials :=
     (username, bs) # filter (\<lambda>(u, _). u \<noteq> username) (credentials (w_auth w))\<rparr>\<rparr>)"

definition stored_envelope :: "string \<Rightarrow> (world, password_envelope option) eff" where
  "stored_envelope username =
     bindE (getsE (lookup_envelope username)) (\<lambda>stored.
       case stored of
         None \<Rightarrow> returnE None
       | Some bs \<Rightarrow> bindE (liftE (decode_password_envelope bs)) (\<lambda>e. returnE (Some e)))"

definition store_envelope :: "string \<Rightarrow> password_envelope \<Rightarrow> (world, unit) eff" where
  "store_envelope username envelope = put_envelope username (encode_password_envelope envelope)"

definition is_account_key_blob :: "bytes \<Rightarrow> bool" where
  "is_account_key_blob bs \<longleftrightarrow> bs \<noteq> [] \<and> hd bs = ACCOUNT_KEY_ENVELOPE_VERSION"

definition auth_create_user :: "crypto_lib \<Rightarrow> kdf_config \<Rightarrow> string \<Rightarrow> bytes
    \<Rightarrow> (world, unit) eff" where
  "auth_create_user L cfg username password =
     bindE ensure_not_shutting_down (\<lambda>_.
     bindE (liftE (ensure (trim username \<noteq> [])
              (Validation ''username must not be empty''))) (\<lambda>_.
     bindE (getsE (\<lambda>w. credentials (w_auth w))) (\<lambda>creds.
     bindE (liftE (ensure (map_of creds username = None)
              (Conflict ''username already exists''))) (\<lambda>_.
     bindE (liftE (ensure (\<not> list_ex (\<lambda>(_, bs). is_account_key_blob bs) creds)
              SingleAccountVault)) (\<lambda>_.
     bindE (liftE (password_to_secret_string password)) (\<lambda>secret_password.
     bindE generate_kdf_salt (\<lambda>salt.
     bindE (liftE (derive_key L cfg secret_password salt)) (\<lambda>master_key.
     store_envelope username (Legacy salt master_key)))))))))"

definition stored_or_denied :: "string \<Rightarrow> (world, password_envelope) eff" where
  "stored_or_denied username =
     bindE (stored_envelope username)
       (\<lambda>e. liftE (ok_or e (Authorization InvalidCredentials)))"

definition verify_password :: "crypto_lib \<Rightarrow> kdf_config \<Rightarrow> string \<Rightarrow> bytes
    \<Rightarrow> (world, bool) eff" where
  "verify_password L cfg username password =
     bindE ensure_not_shutting_down (\<lambda>_.
     bindE (stored_or_denied username) (\<lambda>envelope.
     bindE (liftE (password_to_secret_string password)) (\<lambda>password.
     bindE (liftE (unlock_password_envelope L cfg envelope password)) (\<lambda>key.
     returnE (key \<noteq> None)))))"

definition change_password :: "crypto_lib \<Rightarrow> kdf_config \<Rightarrow> string \<Rightarrow> bytes \<Rightarrow> bytes
    \<Rightarrow> (world, unit) eff" where
  "change_password L cfg username current_password new_password =
     bindE ensure_not_shutting_down (\<lambda>_.
     bindE (liftE (ensure (current_password \<noteq> new_password)
              (Validation ''new password must be different from current password''))) (\<lambda>_.
     bindE (liftE (password_to_secret_string current_password)) (\<lambda>current_secret.
     bindE (liftE (password_to_secret_string new_password)) (\<lambda>new_secret.
     bindE (stored_or_denied username) (\<lambda>envelope.
     bindE (liftE (unlock_password_envelope L cfg envelope current_secret)) (\<lambda>key_opt.
     bindE (liftE (ok_or key_opt (Authorization InvalidCredentials))) (\<lambda>key.
     bindE (case envelope of
              AccountKey _ _ \<Rightarrow> wrap_account_key L cfg new_secret key
            | Legacy _ _ \<Rightarrow>
                bindE generate_kdf_salt (\<lambda>salt.
                bindE (liftE (derive_key L cfg new_secret salt)) (\<lambda>master_key.
                returnE (Legacy salt master_key)))) (\<lambda>replacement.
     store_envelope username replacement))))))))"

definition derive_key_if_valid :: "crypto_lib \<Rightarrow> kdf_config \<Rightarrow> string \<Rightarrow> bytes
    \<Rightarrow> (world, bytes option) eff" where
  "derive_key_if_valid L cfg username password =
     bindE ensure_not_shutting_down (\<lambda>_.
     bindE (stored_envelope username) (\<lambda>stored.
       case stored of
         None \<Rightarrow> returnE None
       | Some envelope \<Rightarrow>
           bindE (liftE (password_to_secret_string password)) (\<lambda>password.
           liftE (unlock_password_envelope L cfg envelope password))))"

definition upsert_password_envelope :: "string \<Rightarrow> bytes \<Rightarrow> (world, unit) eff" where
  "upsert_password_envelope username envelope =
     bindE ensure_not_shutting_down (\<lambda>_.
     bindE (liftE (ensure (trim username \<noteq> [])
              (Validation ''username must not be empty''))) (\<lambda>_.
     bindE (liftE (decode_password_envelope envelope)) (\<lambda>_.
     put_envelope username envelope)))"

definition get_password_envelope :: "string \<Rightarrow> (world, bytes) eff" where
  "get_password_envelope username =
     bindE ensure_not_shutting_down (\<lambda>_.
     bindE (getsE (lookup_envelope username)) (\<lambda>e.
     liftE (ok_or e (Authorization InvalidCredentials))))"

definition signal_shutdown :: "(world, unit) eff" where
  "signal_shutdown = modifyE (\<lambda>w. w\<lparr>w_auth := (w_auth w)\<lparr>shutdown_in_progress := True\<rparr>\<rparr>)"

section \<open>The envelope format\<close>

lemma u16_roundtrip: "n < 2 ^ 16 \<Longrightarrow> u16_from_be_bytes (of_nat (n div 256)) (of_nat n) = n"
proof -
  assume "n < 2 ^ 16"
  then have "n div 256 < 256" by simp
  then have "unat (of_nat (n div 256) :: byte) = n div 256" by (simp add: unat_of_nat)
  moreover have "unat (of_nat n :: byte) = n mod 256" by (simp add: unat_of_nat)
  ultimately show ?thesis by (simp add: u16_from_be_bytes_def)
qed

lemma u16_bytes_of: "u16_to_be_bytes (u16_from_be_bytes a b) = [a, b]"
proof -
  have b: "unat b < 256" using unsigned_less [of b, where 'a = nat] by simp
  then have "(256 * unat a + unat b) div 256 = unat a" by simp
  moreover have "(of_nat (256 * unat a + unat b) :: byte) = b"
  proof -
    have "unat (of_nat (256 * unat a + unat b) :: byte) = (256 * unat a + unat b) mod 256"
      by (simp only: unat_of_nat) simp
    also have "\<dots> = unat b" using b by simp
    finally show ?thesis by (simp only: word_unat_eq_iff)
  qed
  ultimately show ?thesis
    by (simp only: u16_to_be_bytes_def u16_from_be_bytes_def) simp
qed

lemma u16_from_less: "u16_from_be_bytes a b < 2 ^ 16"
proof -
  have "unat a < 256" "unat b < 256"
    using unsigned_less [of a, where 'a = nat] unsigned_less [of b, where 'a = nat] by simp_all
  then show ?thesis by (simp add: u16_from_be_bytes_def)
qed

text \<open>The values whose lengths fit the two length fields.\<close>

fun envelope_body :: "password_envelope \<Rightarrow> bytes" where
  "envelope_body (Legacy salt master_key) = master_key"
| "envelope_body (AccountKey salt wrapped) = nonce wrapped @ ciphertext wrapped"

fun envelope_version :: "password_envelope \<Rightarrow> byte" where
  "envelope_version (Legacy _ _) = LEGACY_ENVELOPE_VERSION"
| "envelope_version (AccountKey _ _) = ACCOUNT_KEY_ENVELOPE_VERSION"

definition envelope_wf :: "password_envelope \<Rightarrow> bool" where
  "envelope_wf e \<longleftrightarrow>
     env_salt e \<noteq> [] \<and> length (env_salt e) < 2 ^ 16
     \<and> envelope_body e \<noteq> [] \<and> length (envelope_body e) < 2 ^ 16
     \<and> (case e of Legacy _ _ \<Rightarrow> True | AccountKey _ w \<Rightarrow> payload_ok w)"

lemma encode_password_envelope_eq:
  "encode_password_envelope e =
     [envelope_version e] @ u16_to_be_bytes (length (env_salt e))
     @ u16_to_be_bytes (length (envelope_body e)) @ env_salt e @ envelope_body e"
  by (cases e) (simp_all add: encode_password_envelope_def)

lemma decode_parts:
  assumes "u16_from_be_bytes s1 s2 = length salt" "u16_from_be_bytes b1 b2 = length body"
    and "salt \<noteq> []" "body \<noteq> []"
  shows "decode_password_envelope ([v, s1, s2, b1, b2] @ salt @ body) =
    (if v = LEGACY_ENVELOPE_VERSION then Inr (Legacy salt body)
     else if v = ACCOUNT_KEY_ENVELOPE_VERSION \<and> length body > NONCE_LEN
     then Inr (AccountKey salt \<lparr>nonce = take NONCE_LEN body, ciphertext = drop NONCE_LEN body\<rparr>)
     else if v = ACCOUNT_KEY_ENVELOPE_VERSION
     then Inl (Validation ''invalid password envelope: malformed payload'')
     else Inl (Validation ''invalid password envelope: unsupported version''))"
proof -
  let ?bs = "[v, s1, s2, b1, b2] @ salt @ body"
  have "take (length salt) (drop ENVELOPE_HEADER_LEN ?bs) = salt"
    by (simp add: ENVELOPE_HEADER_LEN_def)
  moreover have "drop (ENVELOPE_HEADER_LEN + length salt) ?bs = body"
    by (simp add: ENVELOPE_HEADER_LEN_def drop_5)
  moreover have "\<not> length ?bs < ENVELOPE_HEADER_LEN"
    "length ?bs = ENVELOPE_HEADER_LEN + length salt + length body"
    by (simp_all add: ENVELOPE_HEADER_LEN_def)
  moreover have "?bs ! 0 = v" "?bs ! 1 = s1" "?bs ! 2 = s2" "?bs ! 3 = b1" "?bs ! 4 = b2"
    by simp_all
  moreover have "length salt \<noteq> 0" "length body \<noteq> 0"
    using assms(3,4) by simp_all
  ultimately show ?thesis
    using assms(1,2) by (simp only: decode_password_envelope_def Let_def if_False simp_thms)
qed

lemma decode_encode: "envelope_wf e \<Longrightarrow> decode_password_envelope (encode_password_envelope e) = Inr e"
proof -
  assume wf: "envelope_wf e"
  have dec: "decode_password_envelope ([v, of_nat (length (env_salt e) div 256),
        of_nat (length (env_salt e)), of_nat (length (envelope_body e) div 256),
        of_nat (length (envelope_body e))] @ env_salt e @ envelope_body e) =
      (if v = LEGACY_ENVELOPE_VERSION then Inr (Legacy (env_salt e) (envelope_body e))
       else if v = ACCOUNT_KEY_ENVELOPE_VERSION \<and> length (envelope_body e) > NONCE_LEN
       then Inr (AccountKey (env_salt e) \<lparr>nonce = take NONCE_LEN (envelope_body e),
              ciphertext = drop NONCE_LEN (envelope_body e)\<rparr>)
       else if v = ACCOUNT_KEY_ENVELOPE_VERSION
       then Inl (Validation ''invalid password envelope: malformed payload'')
       else Inl (Validation ''invalid password envelope: unsupported version''))" for v
    using wf by (intro decode_parts u16_roundtrip) (auto simp: envelope_wf_def)
  have enc: "encode_password_envelope e = [envelope_version e, of_nat (length (env_salt e) div 256),
        of_nat (length (env_salt e)), of_nat (length (envelope_body e) div 256),
        of_nat (length (envelope_body e))] @ env_salt e @ envelope_body e"
    by (simp only: encode_password_envelope_eq u16_to_be_bytes_def append.simps)
  show ?thesis
    using wf unfolding enc dec
    by (cases e) (simp_all add: envelope_wf_def payload_ok_def envelope_const_defs)
qed

lemma encode_decode:
  assumes "decode_password_envelope bs = Inr e"
  shows "encode_password_envelope e = bs \<and> envelope_wf e"
proof -
  have "5 \<le> length bs"
    using assms by (simp add: decode_password_envelope_def ENVELOPE_HEADER_LEN_def split: if_splits)
  then obtain v s1 s2 b1 b2 rest where bs: "bs = v # s1 # s2 # b1 # b2 # rest"
    by (rule at_least_5)
  let ?sl = "u16_from_be_bytes s1 s2"
  let ?bl = "u16_from_be_bytes b1 b2"
  let ?salt = "take ?sl rest"
  let ?body = "drop ?sl rest"
  have len: "?sl \<noteq> 0" "?bl \<noteq> 0" "length rest = ?sl + ?bl"
    using assms by (simp_all add: bs decode_password_envelope_def Let_def ENVELOPE_HEADER_LEN_def
        split: if_splits)
  then have parts: "length ?salt = ?sl" "length ?body = ?bl" "?salt \<noteq> []" "?body \<noteq> []"
    by auto
  have "decode_password_envelope ([v, s1, s2, b1, b2] @ ?salt @ ?body) = Inr e"
    using assms bs by simp
  then have e: "if v = LEGACY_ENVELOPE_VERSION then e = Legacy ?salt ?body
      else v = ACCOUNT_KEY_ENVELOPE_VERSION \<and> length ?body > NONCE_LEN
        \<and> e = AccountKey ?salt \<lparr>nonce = take NONCE_LEN ?body, ciphertext = drop NONCE_LEN ?body\<rparr>"
    using decode_parts [OF parts(1) [symmetric] parts(2) [symmetric] parts(3,4), of v]
    by (auto split: if_splits)
  then have fields: "env_salt e = ?salt" "envelope_body e = ?body" "envelope_version e = v"
    by (auto split: if_splits simp del: drop_drop)
  have "payload_ok (env_wrapped e)" if "is_account_key e"
    using e that by (auto simp: payload_ok_def split: if_splits)
  then have "envelope_wf e"
    using parts u16_from_less [of s1 s2] u16_from_less [of b1 b2]
    by (cases e) (simp_all add: envelope_wf_def fields [simplified] flip: fields)
  moreover have "encode_password_envelope e = bs"
    by (simp only: encode_password_envelope_eq fields parts u16_bytes_of bs append.simps
        append_take_drop_id)
  ultimately show ?thesis by simp
qed

interpretation password_codec: codec encode_password_envelope
  "\<lambda>bs. ok_of (decode_password_envelope bs)" envelope_wf
  by unfold_locales (auto simp: decode_encode dest: encode_decode)

text \<open>
  C14: The stored password envelope is decoded exactly when it is the encoding of a well-formed
  envelope, one whose salt and body are not empty and fit the two 16-bit length fields and whose
  account-key body is longer than a nonce, and then that envelope is the result. So every
  well-formed envelope survives storage, no byte string has two readings, and bytes that are
  truncated, padded or carry another version number than those of the two kinds are refused.
\<close>

theorem password_envelope_exact:
  "decode_password_envelope bs = Inr e \<longleftrightarrow> bs = encode_password_envelope e \<and> envelope_wf e"
  using password_codec.dec_iff [of bs e] by simp

lemma decode_version:
  "decode_password_envelope bs = Inr e \<Longrightarrow> is_account_key e = is_account_key_blob bs"
  using encode_decode [of bs e]
  by (cases e) (auto simp: encode_password_envelope_eq is_account_key_blob_def envelope_const_defs)

section \<open>Wrapping and unlocking\<close>

lemma wrap_account_key_Inr:
  assumes "crypto_lib_ok L" "wrap_account_key L cfg password key w = (Inr e, w')"
  obtains salt wrapped where "e = AccountKey salt wrapped" "length salt = 32" "payload_ok wrapped"
    "length (ciphertext wrapped) = length key + 16"
    "unlock_password_envelope L cfg e password = Inr (Some key)"
    "w_auth w' = w_auth w" "w_db w' = w_db w"
proof -
  obtain salt w1 kek wrapped where steps: "generate_kdf_salt w = (Inr salt, w1)"
      "derive_key L cfg password salt = Inr kek" "encrypt L key kek w1 = (Inr wrapped, w')"
      "e = AccountKey salt wrapped"
    using assms(2) by (auto simp: wrap_account_key_def eff_iffs)
  show ?thesis
  proof (rule that [of salt wrapped])
    show "length salt = 32" using salt_Inr [OF steps(1)] by (simp add: len_defs)
    show "payload_ok wrapped" by (rule encrypt_payload_ok [OF assms(1) steps(3)])
    show "length (ciphertext wrapped) = length key + 16"
      by (rule encrypt_payload(2) [OF assms(1) steps(3)])
    show "unlock_password_envelope L cfg e password = Inr (Some key)"
      using encrypt_decrypt [OF assms(1) steps(3)] steps(2,4) by simp
    show "w_auth w' = w_auth w" "w_db w' = w_db w"
      using salt_Inr [OF steps(1)] encrypt_payload(3) [OF assms(1) steps(3)] by simp_all
  qed (rule steps(4))
qed

lemma wrapped_envelope_wf:
  assumes "crypto_lib_ok L" "wrap_account_key L cfg password key w = (Inr e, w')"
    and "length key + 28 < 2 ^ 16"
  shows "envelope_wf e"
proof -
  obtain salt wrapped where "e = AccountKey salt wrapped" "length salt = 32" "payload_ok wrapped"
      "length (ciphertext wrapped) = length key + 16"
    by (rule wrap_account_key_Inr [OF assms(1,2)])
  then show ?thesis
    using assms(3) by (auto simp: envelope_wf_def payload_ok_def len_defs)
qed

lemma toy_wrap:
  assumes "rng_works w"
  obtains e w' where "wrap_account_key toy_lib default_kdf_config password key w = (Inr e, w')"
    "rng_works w'"
proof -
  obtain salt where salt: "generate_kdf_salt w = (Inr salt, tick w)" "salt \<noteq> []"
    by (rule salt_works [OF assms])
  obtain k where k: "derive_key toy_lib default_kdf_config password salt = Inr k" "length k = 32"
    by (rule toy_derive [OF salt(2)])
  obtain p where "encrypt toy_lib key k (tick w) = (Inr p, tick (tick w))"
    using assms k(2) by (metis rng_works_tick toy_encrypt)
  then show ?thesis
    using salt k assms that [of "AccountKey salt p" "tick (tick w)"]
    by (simp add: wrap_account_key_def eff_simps)
qed

text \<open>
  What a password wraps, the same password opens: the account key put under a password is
  returned by unlocking the envelope with that password, also after the envelope went through
  its stored form.
\<close>

theorem wrapped_key_opens:
  assumes "crypto_lib_ok L" and "wrap_account_key L cfg password key w = (Inr e, w')"
    and "length key + 28 < 2 ^ 16"
  shows "bindR (decode_password_envelope (encode_password_envelope e))
      (\<lambda>e'. unlock_password_envelope L cfg e' password) = Inr (Some key)"
  using decode_encode [OF wrapped_envelope_wf [OF assms]]
  by (auto intro: wrap_account_key_Inr [OF assms(1,2)])

theorem wrapped_key_opens_witness:
  "bindR (decode_password_envelope (encode_password_envelope
      (projr (fst (wrap_account_key toy_lib default_kdf_config ''secret'' (replicate 32 7)
        (empty_world ''now''))))))
    (\<lambda>e'. unlock_password_envelope toy_lib default_kdf_config e' ''secret'') =
   Inr (Some (replicate 32 7))"
proof -
  obtain e w' where e: "wrap_account_key toy_lib default_kdf_config ''secret'' (replicate 32 7)
      (empty_world ''now'') = (Inr e, w')"
    by (rule toy_wrap [OF rng_works_empty])
  show ?thesis
    by (simp only: e fst_conv sum.sel) (rule wrapped_key_opens [OF toy_lib_ok e], simp)
qed

section \<open>The service's memory\<close>

lemma lookup_put [simp]:
  "lookup_envelope v (snd (put_envelope u bs w)) = (if v = u then Some bs else lookup_envelope v w)"
proof -
  have "v \<noteq> u \<Longrightarrow> map_of (filter (\<lambda>(x, _). x \<noteq> u) cs) v = map_of cs v" for cs :: "(string \<times> bytes) list"
    by (induction cs) auto
  then show ?thesis
    by (simp add: lookup_envelope_def put_envelope_def eff_simps)
qed

lemma put_envelope_frame [simp]:
  "fst (put_envelope u bs w) = Inr ()" "w_db (snd (put_envelope u bs w)) = w_db w"
  "shutdown_in_progress (w_auth (snd (put_envelope u bs w))) = shutdown_in_progress (w_auth w)"
  by (simp_all add: put_envelope_def eff_simps)

lemma lookup_cong: "w_auth w' = w_auth w \<Longrightarrow> lookup_envelope u w' = lookup_envelope u w"
  by (simp add: lookup_envelope_def)

lemma not_shutting_down_iff:
  "ensure_not_shutting_down w = (Inr x, w') \<longleftrightarrow> \<not> shutdown_in_progress (w_auth w) \<and> w' = w"
  "ensure_not_shutting_down w = (Inl e, w') \<longleftrightarrow>
     shutdown_in_progress (w_auth w) \<and> e = ShutdownInProgress \<and> w' = w"
  by (auto simp: ensure_not_shutting_down_def eff_iffs liftE_def ensure_def)

lemma stored_envelope_run:
  "stored_envelope u w =
     (case lookup_envelope u w of
        None \<Rightarrow> Inr None
      | Some bs \<Rightarrow> bindR (decode_password_envelope bs) (\<lambda>e. Inr (Some e)), w)"
  by (auto simp: stored_envelope_def eff_simps split: option.split sum.split)

lemma stored_or_denied_Inr:
  "stored_or_denied u w = (Inr e, w') \<longleftrightarrow>
     w' = w \<and> (\<exists>bs. lookup_envelope u w = Some bs \<and> decode_password_envelope bs = Inr e)"
  by (auto simp: stored_or_denied_def eff_iffs stored_envelope_run bindR_Inr_iff split: option.splits)

text \<open>The key that a password opens, with no shutdown in progress.\<close>

definition opens :: "crypto_lib \<Rightarrow> kdf_config \<Rightarrow> world \<Rightarrow> string \<Rightarrow> bytes \<Rightarrow> bytes \<Rightarrow> bool" where
  "opens L cfg w u password key \<longleftrightarrow>
     fst (derive_key_if_valid L cfg u password w) = Inr (Some key)"

lemma opens_iff:
  "opens L cfg w u password key \<longleftrightarrow> \<not> shutdown_in_progress (w_auth w) \<and>
     (\<exists>bs e text. lookup_envelope u w = Some bs \<and> decode_password_envelope bs = Inr e
        \<and> password_to_secret_string password = Inr text
        \<and> unlock_password_envelope L cfg e text = Inr (Some key))"
  by (cases "lookup_envelope u w"; cases "shutdown_in_progress (w_auth w)")
    (auto simp: opens_def derive_key_if_valid_def ensure_not_shutting_down_def ensure_def eff_simps
      stored_envelope_run bindR_Inr_iff split: sum.splits)

lemma opens_verify: "opens L cfg w u password key \<Longrightarrow> fst (verify_password L cfg u password w) = Inr True"
  by (auto simp: opens_iff verify_password_def ensure_not_shutting_down_def ensure_def eff_simps
      stored_or_denied_def stored_envelope_run)

lemma unlock_key_length:
  assumes "crypto_lib_ok L" "envelope_wf (AccountKey salt wrapped)"
    and "unlock_password_envelope L cfg (AccountKey salt wrapped) pw = Inr (Some key)"
  shows "length key + 28 < 2 ^ 16"
proof -
  have "\<exists>kek. decrypt L wrapped kek = Inr key"
    using assms(3) by (auto simp: bindR_Inr_iff)
  then have "length (ciphertext wrapped) = length key + 16"
    using decrypt_length [OF assms(1)] by blast
  then show ?thesis
    using assms(2) by (simp add: envelope_wf_def payload_ok_def len_defs)
qed

lemma legacy_envelope:
  assumes "crypto_lib_ok L" "0 < output_len cfg" "output_len cfg < 2 ^ 16"
    and "generate_kdf_salt w = (Inr salt, w1)" "derive_key L cfg password salt = Inr key"
  shows "envelope_wf (Legacy salt key)"
    and "unlock_password_envelope L cfg (Legacy salt key) password = Inr (Some key)"
proof -
  have "length salt = 32" using salt_Inr [OF assms(4)] by (simp add: len_defs)
  moreover have "length key = output_len cfg" by (rule derive_key_length [OF assms(1,5)])
  ultimately show "envelope_wf (Legacy salt key)"
    using assms(2,3) by (auto simp: envelope_wf_def)
  show "unlock_password_envelope L cfg (Legacy salt key) password = Inr (Some key)"
    using assms(5) by simp
qed

lemma opens_after_store:
  assumes "store_envelope u e w1 = (Inr (), w')" "w_auth w1 = w_auth w"
    and "\<not> shutdown_in_progress (w_auth w)" "envelope_wf e"
    and "password_to_secret_string password = Inr text"
    and "unlock_password_envelope L cfg e text = Inr (Some key)"
  shows "opens L cfg w' u password key \<and> (\<forall>v. v \<noteq> u \<longrightarrow> lookup_envelope v w' = lookup_envelope v w)"
proof -
  have w': "w' = snd (put_envelope u (encode_password_envelope e) w1)"
    using assms(1) by (simp add: store_envelope_def)
  then show ?thesis
    using assms decode_encode [OF assms(4)] by (auto simp: opens_iff intro: lookup_cong)
qed

text \<open>
  C2: A password change that succeeds leaves the account openable, and an account key unchanged:
  afterwards the new password opens the account; where the account holds an account key, it
  opens the very key that the old password opened, so every vault key wrapped under it still
  opens; and no other account's credentials changed.
\<close>

theorem change_password_keeps_key:
  assumes "crypto_lib_ok L" and "0 < output_len cfg" and "output_len cfg < 2 ^ 16"
    and "change_password L cfg u cur new w = (Inr (), w')"
  shows "\<exists>key key'. opens L cfg w u cur key \<and> opens L cfg w' u new key'
    \<and> (is_account_key_blob (the (lookup_envelope u w)) \<longrightarrow> key' = key)
    \<and> (\<forall>v. v \<noteq> u \<longrightarrow> lookup_envelope v w' = lookup_envelope v w)"
proof -
  obtain ctext ntext bs e key replacement w1 where steps:
      "\<not> shutdown_in_progress (w_auth w)"
      "password_to_secret_string cur = Inr ctext" "password_to_secret_string new = Inr ntext"
      "lookup_envelope u w = Some bs" "decode_password_envelope bs = Inr e"
      "unlock_password_envelope L cfg e ctext = Inr (Some key)"
      "store_envelope u replacement w1 = (Inr (), w')"
    and rep: "(case e of AccountKey _ _ \<Rightarrow> wrap_account_key L cfg ntext key
       | Legacy _ _ \<Rightarrow> bindE generate_kdf_salt (\<lambda>salt.
           bindE (liftE (derive_key L cfg ntext salt)) (\<lambda>master_key.
           returnE (Legacy salt master_key)))) w = (Inr replacement, w1)"
    using assms(4)
    by (auto simp: change_password_def eff_iffs not_shutting_down_iff stored_or_denied_Inr)
  have old: "opens L cfg w u cur key"
    using steps by (auto simp: opens_iff)
  show ?thesis
  proof (cases e)
    case (AccountKey salt wrapped)
    have wf: "envelope_wf (AccountKey salt wrapped)"
      using encode_decode [OF steps(5)] AccountKey by simp
    have len: "length key + 28 < 2 ^ 16"
      using unlock_key_length [OF assms(1) wf] steps(6) AccountKey by simp
    have wrap: "wrap_account_key L cfg ntext key w = (Inr replacement, w1)"
      using rep AccountKey by simp
    have "w_auth w1 = w_auth w"
      "unlock_password_envelope L cfg replacement ntext = Inr (Some key)"
      by (rule wrap_account_key_Inr [OF assms(1) wrap], assumption)+
    then have "opens L cfg w' u new key \<and> (\<forall>v. v \<noteq> u \<longrightarrow> lookup_envelope v w' = lookup_envelope v w)"
      using opens_after_store steps(1,3,7) wrapped_envelope_wf [OF assms(1) wrap len] by metis
    then show ?thesis using old by blast
  next
    case (Legacy salt mk)
    then obtain salt' key' where new: "generate_kdf_salt w = (Inr salt', w1)"
        "derive_key L cfg ntext salt' = Inr key'" "replacement = Legacy salt' key'"
      using rep by (auto simp: eff_iffs)
    have "w_auth w1 = w_auth w" using salt_Inr [OF new(1)] by simp
    then have "opens L cfg w' u new key' \<and> (\<forall>v. v \<noteq> u \<longrightarrow> lookup_envelope v w' = lookup_envelope v w)"
      using opens_after_store steps(1,3,7) legacy_envelope [OF assms(1-3) new(1,2)] new(3) by metis
    moreover have "\<not> is_account_key_blob bs"
      using decode_version [OF steps(5)] Legacy by simp
    ultimately show ?thesis using old steps(4) by auto
  qed
qed

theorem change_password_keeps_key_witness:
  "\<exists>w w' key key'. change_password toy_lib default_kdf_config ''bob'' [97] [98] w = (Inr (), w')
    \<and> opens toy_lib default_kdf_config w ''bob'' [97] key
    \<and> opens toy_lib default_kdf_config w' ''bob'' [98] key' \<and> key' = key"
proof -
  obtain e w1 where e: "wrap_account_key toy_lib default_kdf_config ''a'' (replicate 32 7)
      (empty_world ''now'') = (Inr e, w1)" "rng_works w1"
    by (rule toy_wrap [OF rng_works_empty])
  obtain salt wrapped where form: "e = AccountKey salt wrapped"
      "unlock_password_envelope toy_lib default_kdf_config e ''a'' = Inr (Some (replicate 32 7))"
      "w_auth w1 = w_auth (empty_world ''now'')"
    by (rule wrap_account_key_Inr [OF toy_lib_ok e(1)])
  have wf: "envelope_wf e" by (rule wrapped_envelope_wf [OF toy_lib_ok e(1)]) simp
  let ?w = "snd (put_envelope ''bob'' (encode_password_envelope e) w1)"
  have up: "\<not> shutdown_in_progress (w_auth ?w)" by (simp add: form(3) empty_world_def)
  have pwds: "password_to_secret_string [97] = Inr ''a''" "password_to_secret_string [98] = Inr ''b''"
    by (simp_all add: password_to_secret_string_def from_utf8_def char_of_def bit_0)
  have stored: "stored_or_denied ''bob'' ?w = (Inr e, ?w)"
    by (simp add: stored_or_denied_Inr decode_encode [OF wf])
  obtain r w2 where "wrap_account_key toy_lib default_kdf_config ''b'' (replicate 32 7) ?w = (Inr r, w2)"
  proof -
    have "rng_works ?w" using e(2) by (simp add: put_envelope_def eff_simps)
    then show ?thesis by (rule toy_wrap) (rule that)
  qed
  then have run: "change_password toy_lib default_kdf_config ''bob'' [97] [98] ?w =
      (Inr (), snd (put_envelope ''bob'' (encode_password_envelope r) w2))"
    using up pwds stored form(1,2)
    by (simp add: change_password_def ensure_not_shutting_down_def eff_simps store_envelope_def
        prod_eq_iff)
  have "is_account_key_blob (the (lookup_envelope ''bob'' ?w))"
    using decode_version [OF decode_encode [OF wf]] by (simp add: form(1))
  then show ?thesis
    using change_password_keeps_key [OF toy_lib_ok _ _ run] run
    by (auto simp: default_kdf_config_def len_defs)
qed

lemma auth_mem_frames [simp]:
  "w_auth (snd (ensure_not_shutting_down w)) = w_auth w"
  "w_auth (snd (stored_envelope u w)) = w_auth w"
  "w_auth (snd (stored_or_denied u w)) = w_auth w"
  "w_auth (snd (wrap_account_key L cfg pw key w)) = w_auth w"
  "w_db (snd (wrap_account_key L cfg pw key w)) = w_db w"
  by (simp_all add: ensure_not_shutting_down_def stored_or_denied_def stored_envelope_run
      wrap_account_key_def eff_simps split: sum.split)

lemma frames_auth [frame_intros]:
  "frames stored_state ensure_not_shutting_down"
  "frames stored_state (stored_envelope u)"
  "frames stored_state (stored_or_denied u)"
  "frames stored_state (wrap_account_key L cfg pw key)"
proof -
  show start: "frames stored_state ensure_not_shutting_down"
    unfolding ensure_not_shutting_down_def by (intro frame_intros)
  show stored: "frames stored_state (stored_envelope u)"
    unfolding stored_envelope_def by (intro frame_intros)
  show "frames stored_state (stored_or_denied u)"
    unfolding stored_or_denied_def by (intro frame_intros stored)
  show "frames stored_state (wrap_account_key L cfg pw key)"
    unfolding wrap_account_key_def by (intro frame_intros)
qed

lemma atomic_store [atomic_intros]:
  "atomic stored_state (put_envelope u bs)" "atomic stored_state (store_envelope u e)"
  unfolding store_envelope_def put_envelope_def by (intro atomic_intros)+

text \<open>
  A failed password change, a failed account creation and a failed import of an envelope
  change no credentials and no database row: whatever step fails (shutdown, a blank name, equal
  passwords, a password that is not text, an unknown user, a wrong password, the random source,
  the key derivation, the cipher), the envelopes of all users and the database are as before.
\<close>

theorem auth_failure_keeps_credentials:
  "atomic stored_state (change_password L cfg u cur new)
   \<and> atomic stored_state (auth_create_user L cfg u pw)
   \<and> atomic stored_state (upsert_password_envelope u bs)"
proof (intro conjI)
  show "atomic stored_state (change_password L cfg u cur new)"
    unfolding change_password_def
    by (intro atomic_intros frame_intros)
      (auto split: password_envelope.split intro!: frame_intros)
  show "atomic stored_state (auth_create_user L cfg u pw)"
    unfolding auth_create_user_def by (intro atomic_intros frame_intros)
  show "atomic stored_state (upsert_password_envelope u bs)"
    unfolding upsert_password_envelope_def by (intro atomic_intros frame_intros)
qed

text \<open>
  An account can be created beside no account that holds an account key: a successful
  creation means that the name was new and not blank and that no stored envelope was of the
  account-key version; it stores one envelope, of the legacy version, which the password opens,
  and changes no other account.
\<close>

theorem create_user_effect:
  assumes "crypto_lib_ok L" and "0 < output_len cfg" and "output_len cfg < 2 ^ 16"
    and "auth_create_user L cfg u password w = (Inr (), w')"
  shows "lookup_envelope u w = None \<and> trim u \<noteq> []
    \<and> (\<forall>(v, bs) \<in> set (credentials (w_auth w)). \<not> is_account_key_blob bs)
    \<and> (\<exists>key. opens L cfg w' u password key)
    \<and> \<not> is_account_key_blob (the (lookup_envelope u w'))
    \<and> (\<forall>v. v \<noteq> u \<longrightarrow> lookup_envelope v w' = lookup_envelope v w)"
proof -
  obtain pwd salt w1 key where steps:
      "\<not> shutdown_in_progress (w_auth w)" "trim u \<noteq> []" "lookup_envelope u w = None"
      "\<not> list_ex (\<lambda>(_, bs). is_account_key_blob bs) (credentials (w_auth w))"
      "password_to_secret_string password = Inr pwd"
      "generate_kdf_salt w = (Inr salt, w1)" "derive_key L cfg pwd salt = Inr key"
      "store_envelope u (Legacy salt key) w1 = (Inr (), w')"
    using assms(4)
    by (auto simp: auth_create_user_def eff_iffs not_shutting_down_iff lookup_envelope_def)
  have leg: "envelope_wf (Legacy salt key)"
      "unlock_password_envelope L cfg (Legacy salt key) pwd = Inr (Some key)"
    by (rule legacy_envelope [OF assms(1-3) steps(6,7)])+
  have "w_auth w1 = w_auth w" using salt_Inr [OF steps(6)] by simp
  then have "opens L cfg w' u password key \<and> (\<forall>v. v \<noteq> u \<longrightarrow> lookup_envelope v w' = lookup_envelope v w)"
    using opens_after_store [OF steps(8) _ steps(1) leg(1) steps(5) leg(2)] by simp
  moreover have "lookup_envelope u w' = Some (encode_password_envelope (Legacy salt key))"
  proof -
    have "w' = snd (put_envelope u (encode_password_envelope (Legacy salt key)) w1)"
      using steps(8) by (simp add: store_envelope_def)
    then show ?thesis by simp
  qed
  moreover have "\<not> is_account_key_blob (encode_password_envelope (Legacy salt key))"
    using decode_version [OF decode_encode [OF leg(1)]] by simp
  ultimately show ?thesis
    using steps(2,3,4) by (auto simp: list_ex_iff)
qed

theorem create_user_effect_witness:
  "\<exists>w'. auth_create_user toy_lib default_kdf_config ''bob'' [97] (empty_world ''now'') = (Inr (), w')
    \<and> (\<exists>key. opens toy_lib default_kdf_config w' ''bob'' [97] key)"
proof -
  obtain salt where salt: "generate_kdf_salt (empty_world ''now'') = (Inr salt, tick (empty_world ''now''))"
      "salt \<noteq> []"
    by (rule salt_works [OF rng_works_empty])
  obtain key where key: "derive_key toy_lib default_kdf_config ''a'' salt = Inr key"
    by (rule toy_derive [OF salt(2)])
  have "trim ''bob'' \<noteq> []"
    by (simp add: trim_def trim_with.simps white_space_def)
  moreover have "ensure_not_shutting_down (empty_world ''now'') = (Inr (), empty_world ''now'')"
    by (simp add: not_shutting_down_iff)
  moreover have "password_to_secret_string [97] = Inr ''a''"
    by (simp add: password_to_secret_string_def from_utf8_def char_of_def bit_0)
  ultimately obtain w' where run: "auth_create_user toy_lib default_kdf_config ''bob'' [97]
      (empty_world ''now'') = (Inr (), w')"
    using salt key
    by (simp add: auth_create_user_def eff_simps store_envelope_def put_envelope_def)
  show ?thesis
    using create_user_effect [OF toy_lib_ok _ _ run] run
    by (auto simp: default_kdf_config_def len_defs)
qed

text \<open>
  Once the shutdown is signalled the service answers every operation with the shutdown
  error and changes nothing, for good.
\<close>

theorem shutdown_closes_service:
  "let w' = snd (signal_shutdown w) in
     auth_create_user L cfg u pw w' = (Inl ShutdownInProgress, w')
     \<and> verify_password L cfg u pw w' = (Inl ShutdownInProgress, w')
     \<and> change_password L cfg u pw pw' w' = (Inl ShutdownInProgress, w')
     \<and> derive_key_if_valid L cfg u pw w' = (Inl ShutdownInProgress, w')
     \<and> upsert_password_envelope u bs w' = (Inl ShutdownInProgress, w')
     \<and> get_password_envelope u w' = (Inl ShutdownInProgress, w')"
proof -
  have "ensure_not_shutting_down (snd (signal_shutdown w)) =
      (Inl ShutdownInProgress, snd (signal_shutdown w))"
    by (simp add: signal_shutdown_def ensure_not_shutting_down_def eff_simps)
  then show ?thesis
    by (simp add: Let_def auth_create_user_def verify_password_def change_password_def
        derive_key_if_valid_def upsert_password_envelope_def get_password_envelope_def bindE_run)
qed

end
