(* ===== verification/HV_UserRepo.thy ===== *)
theory HV_UserRepo
  imports HV_Db
begin

text \<open>
  repositories/user_repository.rs: the table users. A statement that SQLite refuses is the error
  of the violated constraint and changes nothing. Deleting a user runs the cascades of the
  foreign keys declared in the migrations.
\<close>

section \<open>SQL functions\<close>

text \<open>\<open>lower\<close> folds ASCII letters only, and \<open>trim\<close> removes spaces only.\<close>

definition sql_lower :: "string \<Rightarrow> string" where
  "sql_lower s = map (\<lambda>c. if 65 \<le> (of_char c :: nat) \<and> of_char c \<le> (90 :: nat)
     then char_of ((of_char c :: nat) + 32) else c) s"

definition sql_trim :: "string \<Rightarrow> string" where
  "sql_trim s = rev (dropWhile (\<lambda>c. c = CHR '' '') (rev (dropWhile (\<lambda>c. c = CHR '' '') s)))"

definition user_by_id :: "uuid \<Rightarrow> db \<Rightarrow> user_row option" where
  "user_by_id uid d = find_row ur_id uid (users d)"

section \<open>Reading\<close>

text \<open>\<open>COALESCE(NULLIF(preferred_language, ''), 'fr')\<close> and the decoding of a row.\<close>

definition row_to_user :: "user_row \<Rightarrow> user result" where
  "row_to_user u =
     bindR (parse_role (ur_role u)) (\<lambda>role.
     Inr \<lparr>usr_id = ur_id u, usr_username = ur_username u, usr_role = role,
       usr_email = ur_email u, usr_display_name = ur_display_name u,
       usr_preferred_language =
         (if ur_preferred_language u = '''' then ''fr'' else ur_preferred_language u),
       usr_show_passwords_in_edit = (ur_show_passwords_in_edit u \<noteq> 0),
       usr_updated_at = ur_updated_at u\<rparr>)"

definition user_get_by_id :: "uuid \<Rightarrow> (db, user option) eff" where
  "user_get_by_id uid =
     bindE (getsE (user_by_id uid)) (\<lambda>row_opt.
       case row_opt of
         Some row \<Rightarrow> liftE (bindR (row_to_user row) (\<lambda>u. Inr (Some u)))
       | None \<Rightarrow> returnE None)"

definition user_get_by_username :: "string \<Rightarrow> (db, user option) eff" where
  "user_get_by_username username =
     bindE (getsE (\<lambda>d. find_row ur_username username (users d))) (\<lambda>row_opt.
       case row_opt of
         Some row \<Rightarrow> liftE (bindR (row_to_user row) (\<lambda>u. Inr (Some u)))
       | None \<Rightarrow> returnE None)"

text \<open>A column that must be present, not blank, and equal to the identifier up to case.\<close>

definition column_matches :: "string option \<Rightarrow> string \<Rightarrow> bool" where
  "column_matches col i =
     (case col of
        None \<Rightarrow> False
      | Some s \<Rightarrow> sql_trim s \<noteq> [] \<and> sql_lower (sql_trim s) = sql_lower (sql_trim i))"

definition login_matches :: "string \<Rightarrow> user_row list \<Rightarrow> (nat \<times> string) list" where
  "login_matches i us =
     map (\<lambda>u. (1, ur_username u))
       (filter (\<lambda>u. sql_lower (sql_trim (ur_username u)) = sql_lower (sql_trim i)) us)
     @ map (\<lambda>u. (2, ur_username u)) (filter (\<lambda>u. column_matches (ur_email u) i) us)
     @ map (\<lambda>u. (3, ur_username u)) (filter (\<lambda>u. column_matches (ur_display_name u) i) us)"

definition resolve_username_for_login_identifier :: "string \<Rightarrow> (db, string option) eff" where
  "resolve_username_for_login_identifier identifier =
     (let normalized_identifier = trim identifier
      in if normalized_identifier = [] then returnE None
         else getsE (\<lambda>d. case sort_key (\<lambda>m. m) (login_matches normalized_identifier (users d)) of
                [] \<Rightarrow> None
              | m # _ \<Rightarrow> Some (snd m)))"

definition get_user_column :: "(user_row \<Rightarrow> bytes option) \<Rightarrow> uuid \<Rightarrow> (db, bytes option) eff" where
  "get_user_column col uid =
     getsE (\<lambda>d. case user_by_id uid d of Some row \<Rightarrow> col row | None \<Rightarrow> None)"

definition get_password_envelope_by_user_id :: "uuid \<Rightarrow> (db, bytes option) eff" where
  "get_password_envelope_by_user_id = get_user_column ur_password_envelope"

definition repo_get_recovery_key_envelope :: "uuid \<Rightarrow> (db, bytes option) eff" where
  "repo_get_recovery_key_envelope = get_user_column ur_recovery_key_envelope"

definition repo_get_totp_secret :: "uuid \<Rightarrow> (db, bytes option) eff" where
  "repo_get_totp_secret = get_user_column ur_totp_secret"

definition get_recovery_phrase_envelope :: "uuid \<Rightarrow> (db, bytes option) eff" where
  "get_recovery_phrase_envelope = get_user_column ur_recovery_phrase_envelope"

definition get_recovery_verifier :: "uuid \<Rightarrow> (db, bytes option) eff" where
  "get_recovery_verifier = get_user_column ur_recovery_verifier"

definition user_list_all :: "(db, user list) eff" where
  "user_list_all =
     bindE (getsE (\<lambda>d. sort_key ur_username (users d))) (\<lambda>rows. liftE (mapR row_to_user rows))"

definition list_all_password_envelopes :: "(db, (string \<times> bytes) list) eff" where
  "list_all_password_envelopes =
     getsE (\<lambda>d. map (\<lambda>u. (ur_username u, the (ur_password_envelope u)))
       (filter (\<lambda>u. ur_password_envelope u \<noteq> None) (users d)))"

section \<open>Writing\<close>

text \<open>An \<open>UPDATE users SET .. WHERE id = ?\<close> followed by the test of \<open>rows_affected\<close>.\<close>

definition update_user :: "uuid \<Rightarrow> (db \<Rightarrow> user_row \<Rightarrow> user_row) \<Rightarrow> app_error \<Rightarrow> (db, unit) eff" where
  "update_user uid f err =
     bindE (getsE (\<lambda>d. count_where (\<lambda>u. ur_id u = uid) (users d))) (\<lambda>rows_affected.
     bindE (modifyE (\<lambda>d. d\<lparr>users := update_where (\<lambda>u. ur_id u = uid) (f d) (users d)\<rparr>)) (\<lambda>_.
     liftE (ensure (rows_affected \<noteq> 0) err)))"

definition repo_set_recovery_key_envelope :: "uuid \<Rightarrow> bytes \<Rightarrow> (db, unit) eff" where
  "repo_set_recovery_key_envelope uid envelope =
     update_user uid (\<lambda>_ u. u\<lparr>ur_recovery_key_envelope := Some envelope\<rparr>)
       (NotFound ''user not found for recovery key'')"

definition email_taken :: "uuid \<Rightarrow> string option \<Rightarrow> db \<Rightarrow> bool" where
  "email_taken uid email d \<longleftrightarrow>
     email \<noteq> None \<and> uid \<in> set (map ur_id (users d))
     \<and> list_ex (\<lambda>u. ur_id u \<noteq> uid \<and> ur_email u = email) (users d)"

definition profile_change :: "string option \<Rightarrow> string option \<Rightarrow> string option \<Rightarrow> bool option
    \<Rightarrow> db \<Rightarrow> user_row \<Rightarrow> user_row" where
  "profile_change email display_name preferred_language show_passwords_in_edit d u =
     u\<lparr>ur_email := email,
       ur_display_name := display_name,
       ur_preferred_language :=
         (case preferred_language of Some l \<Rightarrow> l | None \<Rightarrow> ur_preferred_language u),
       ur_show_passwords_in_edit :=
         (case show_passwords_in_edit of
            Some v \<Rightarrow> if v then 1 else 0
          | None \<Rightarrow> ur_show_passwords_in_edit u),
       ur_updated_at := Some (db_clock d)\<rparr>"

definition update_user_profile :: "uuid \<Rightarrow> string option \<Rightarrow> string option \<Rightarrow> string option
    \<Rightarrow> bool option \<Rightarrow> (db, unit) eff" where
  "update_user_profile uid email display_name preferred_language show_passwords_in_edit =
     bindE (getsE (email_taken uid email)) (\<lambda>taken.
     if taken then throwE (Database (UniqueViolation ''users.email''))
     else update_user uid
       (profile_change email display_name preferred_language show_passwords_in_edit)
       (Storage ''user not found for profile update''))"

definition update_password_envelope :: "uuid \<Rightarrow> bytes \<Rightarrow> (db, unit) eff" where
  "update_password_envelope uid envelope =
     update_user uid (\<lambda>_ u. u\<lparr>ur_password_envelope := Some envelope\<rparr>)
       (Storage ''user not found for password update'')"

definition update_totp_secret_envelope :: "uuid \<Rightarrow> bytes \<Rightarrow> (db, unit) eff" where
  "update_totp_secret_envelope uid envelope =
     update_user uid (\<lambda>_ u. u\<lparr>ur_totp_secret_envelope := Some envelope\<rparr>)
       (Storage ''user not found for totp update'')"

definition update_show_passwords_in_edit :: "uuid \<Rightarrow> bool \<Rightarrow> (db, unit) eff" where
  "update_show_passwords_in_edit uid v =
     update_user uid
       (\<lambda>d u. u\<lparr>ur_show_passwords_in_edit := (if v then 1 else 0), ur_updated_at := Some (db_clock d)\<rparr>)
       (Storage ''user not found for show_passwords_in_edit update'')"

definition set_recovery_phrase_envelope :: "uuid \<Rightarrow> bytes \<Rightarrow> (db, unit) eff" where
  "set_recovery_phrase_envelope uid envelope =
     update_user uid (\<lambda>_ u. u\<lparr>ur_recovery_phrase_envelope := Some envelope\<rparr>)
       (Storage ''user not found for recovery phrase update'')"

definition set_recovery_verifier :: "uuid \<Rightarrow> bytes \<Rightarrow> (db, unit) eff" where
  "set_recovery_verifier uid verifier =
     update_user uid (\<lambda>_ u. u\<lparr>ur_recovery_verifier := Some verifier\<rparr>)
       (Storage ''user not found for recovery verifier update'')"

definition update_user_role :: "uuid \<Rightarrow> user_role \<Rightarrow> (db, unit) eff" where
  "update_user_role uid role =
     update_user uid (\<lambda>d u. u\<lparr>ur_role := format_role role, ur_updated_at := Some (db_clock d)\<rparr>)
       (NotFound ''user not found for role update'')"

definition new_user_row :: "uuid \<Rightarrow> string \<Rightarrow> user_role \<Rightarrow> user_row" where
  "new_user_row uid username role =
     \<lparr>ur_id = uid, ur_username = username, ur_role = format_role role,
       ur_password_envelope = None, ur_totp_secret_envelope = None, ur_totp_secret = None,
       ur_recovery_phrase_envelope = None, ur_recovery_verifier = None,
       ur_recovery_key_envelope = None, ur_email = None, ur_display_name = None,
       ur_preferred_language = ''fr'', ur_show_passwords_in_edit = 0,
       ur_updated_at = None\<rparr>"

definition create_user_db :: "uuid \<Rightarrow> string \<Rightarrow> user_role \<Rightarrow> (db, unit) eff" where
  "create_user_db uid username role =
     bindE (getsE users) (\<lambda>us.
     if uid \<in> set (map ur_id us) then throwE (Database (UniqueViolation ''users.id''))
     else if username \<in> set (map ur_username us)
     then throwE (Database (UniqueViolation ''users.username''))
     else modifyE (\<lambda>d. d\<lparr>users := users d @ [new_user_row uid username role]\<rparr>))"

text \<open>
  \<open>DELETE FROM users WHERE id = ?\<close>: refused while login_history still refers to the user;
  otherwise it cascades to the vaults the user owns and through them to secrets and shares, to
  the user's shares and memberships, and nulls the references of teams and of the audit log.
\<close>

definition sql_delete_user :: "uuid \<Rightarrow> (db, unit) eff" where
  "sql_delete_user uid =
     bindE (getsE (\<lambda>d. list_ex (\<lambda>h. lh_user_id h = uid) (login_history d))) (\<lambda>referenced.
     if referenced then throwE (Database ForeignKeyViolation)
     else modifyE (\<lambda>d.
       let gone = map vr_id (filter (\<lambda>v. vr_owner_user_id v = uid) (vaults d))
       in d\<lparr>users := filter (\<lambda>u. ur_id u \<noteq> uid) (users d),
            vaults := filter (\<lambda>v. vr_owner_user_id v \<noteq> uid) (vaults d),
            secret_items := filter (\<lambda>s. sr_vault_id s \<notin> set gone) (secret_items d),
            vault_key_shares :=
              filter (\<lambda>s. kr_vault_id s \<notin> set gone \<and> kr_user_id s \<noteq> uid) (vault_key_shares d),
            teams := update_where (\<lambda>t. tr_created_by t = Some uid)
              (\<lambda>t. t\<lparr>tr_created_by := None\<rparr>) (teams d),
            team_members := filter (\<lambda>m. mr_user_id m \<noteq> uid) (team_members d),
            audit_log := update_where (\<lambda>a. ar_actor_user_id a = Some uid)
              (\<lambda>a. a\<lparr>ar_actor_user_id := None\<rparr>) (audit_log d)\<rparr>))"

definition delete_user :: "uuid \<Rightarrow> (db, unit) eff" where
  "delete_user uid =
     bindE (getsE (\<lambda>d. count_where (\<lambda>u. ur_id u = uid) (users d))) (\<lambda>exists.
     if exists = 0 then throwE (NotFound ''user not found for deletion'')
     else transactionE (
       bindE (modifyE (\<lambda>d. d\<lparr>login_history :=
                filter (\<lambda>h. lh_user_id h \<noteq> uid) (login_history d)\<rparr>)) (\<lambda>_.
       bindE (modifyE (\<lambda>d. d\<lparr>auth_policy := filter (\<lambda>p. \<not> (case user_by_id uid d of
                  Some u \<Rightarrow> ap_username p = ur_username u | None \<Rightarrow> False)) (auth_policy d)\<rparr>)) (\<lambda>_.
       sql_delete_user uid))))"

section \<open>What an update does\<close>

lemma update_user_Inr:
  "update_user uid f err d = (Inr x, d') \<longleftrightarrow>
     uid \<in> user_ids d \<and> d' = d\<lparr>users := update_where (\<lambda>u. ur_id u = uid) (f d) (users d)\<rparr>"
  by (auto simp: update_user_def eff_iffs liftE_def user_ids_def)

lemma update_user_Inl: "update_user uid f err d = (Inl e, d') \<Longrightarrow> d' = d \<and> e = err \<and> uid \<notin> user_ids d"
proof -
  assume run: "update_user uid f err d = (Inl e, d')"
  then have e: "e = err" "uid \<notin> user_ids d"
    and d': "d' = d\<lparr>users := update_where (\<lambda>u. ur_id u = uid) (f d) (users d)\<rparr>"
    by (auto simp: update_user_def eff_iffs liftE_def user_ids_def)
  have "update_where (\<lambda>u. ur_id u = uid) (f d) (users d) = users d"
    using e(2) by (intro update_where_none) (auto simp: user_ids_def)
  then show ?thesis using e d' by simp
qed

lemma user_by_id_update:
  "(\<And>u. ur_id (g u) = ur_id u) \<Longrightarrow>
   user_by_id v (d\<lparr>users := update_where (\<lambda>u. ur_id u = uid) g (users d)\<rparr>) =
     (if v = uid then map_option g (user_by_id v d) else user_by_id v d)"
  by (simp add: user_by_id_def find_row_update_key)

lemma user_by_id_in: "uid \<in> user_ids d \<longleftrightarrow> (\<exists>u. user_by_id uid d = Some u)"
  using find_row_None_iff [of ur_id uid "users d"] by (auto simp: user_by_id_def user_ids_def)

section \<open>The schema is kept\<close>

text \<open>An update that leaves the keys of the row alone.\<close>

definition keeps_user_keys :: "(db \<Rightarrow> user_row \<Rightarrow> user_row) \<Rightarrow> bool" where
  "keeps_user_keys f \<longleftrightarrow> (\<forall>d u. ur_id (f d u) = ur_id u \<and> ur_username (f d u) = ur_username u
     \<and> (user_row_ok u \<longrightarrow> user_row_ok (f d u)))"

lemma db_ok_update_user:
  assumes "db_ok d" "keeps_user_keys f"
    and "distinct (filter (\<lambda>e. e \<noteq> None)
      (map ur_email (update_where (\<lambda>u. ur_id u = uid) (f d) (users d))))"
  shows "db_ok (d\<lparr>users := update_where (\<lambda>u. ur_id u = uid) (f d) (users d)\<rparr>)"
proof (rule db_ok_users [OF assms(1)])
  have ids: "map ur_id (update_where (\<lambda>u. ur_id u = uid) (f d) (users d)) = map ur_id (users d)"
    "map ur_username (update_where (\<lambda>u. ur_id u = uid) (f d) (users d)) = map ur_username (users d)"
    using assms(2) by (auto simp: keeps_user_keys_def intro!: map_update_where_same)
  moreover have "list_all user_row_ok (update_where (\<lambda>u. ur_id u = uid) (f d) (users d))"
    using assms(1,2) by (auto simp: db_ok_def users_ok_def keeps_user_keys_def list_all_iff
        set_update_where)
  ultimately show "users_ok (d\<lparr>users := update_where (\<lambda>u. ur_id u = uid) (f d) (users d)\<rparr>)"
    using assms(1,3) by (simp add: db_ok_def users_ok_def)
  show "user_ids d \<subseteq> ur_id ` set (update_where (\<lambda>u. ur_id u = uid) (f d) (users d))"
    using arg_cong [OF ids(1), of set] by (simp add: user_ids_def)
qed

lemma keeps_update_user:
  assumes "keeps_user_keys f" "\<And>d u. ur_email (f d u) = ur_email u"
  shows "keeps db_ok (update_user uid f err)"
proof (unfold keeps_def, intro allI impI)
  fix d
  assume ok: "db_ok d"
  have "map ur_email (update_where (\<lambda>u. ur_id u = uid) (f d) (users d)) = map ur_email (users d)"
    using assms(2) by (intro map_update_where_same) simp
  then have "db_ok (d\<lparr>users := update_where (\<lambda>u. ur_id u = uid) (f d) (users d)\<rparr>)"
    using ok assms(1) by (intro db_ok_update_user) (simp_all add: db_ok_def users_ok_def)
  then show "db_ok (snd (update_user uid f err d))"
    by (simp add: update_user_def eff_simps)
qed

lemma keeps_user_columns [inv_intros]:
  "keeps db_ok (repo_set_recovery_key_envelope uid bs)"
  "keeps db_ok (update_password_envelope uid bs)"
  "keeps db_ok (update_totp_secret_envelope uid bs)"
  "keeps db_ok (update_show_passwords_in_edit uid v)"
  "keeps db_ok (set_recovery_phrase_envelope uid bs)"
  "keeps db_ok (set_recovery_verifier uid bs)"
  "keeps db_ok (update_user_role uid role)"
  unfolding repo_set_recovery_key_envelope_def update_password_envelope_def
    update_totp_secret_envelope_def update_show_passwords_in_edit_def
    set_recovery_phrase_envelope_def set_recovery_verifier_def update_user_role_def
  by (rule keeps_update_user; cases role; simp add: keeps_user_keys_def user_row_ok_def)+

lemma distinct_emails_update:
  assumes "distinct (map ur_id us)" "distinct (filter (\<lambda>e. e \<noteq> None) (map ur_email us))"
    and "\<And>u. u \<in> set us \<Longrightarrow> ur_id u \<noteq> uid \<Longrightarrow> email = None \<or> ur_email u \<noteq> email"
    and "\<And>u. ur_email (f u) = email"
  shows "distinct (filter (\<lambda>e. e \<noteq> None) (map ur_email (update_where (\<lambda>u. ur_id u = uid) f us)))"
  using assms(1-3)
proof (induction us)
  case Nil
  then show ?case by simp
next
  case (Cons u us)
  show ?case
  proof (cases "ur_id u = uid")
    case True
    then have "update_where (\<lambda>u. ur_id u = uid) f us = us"
      using Cons.prems(1) True by (intro update_where_none) (auto simp: image_iff)
    moreover have "email = None \<or> email \<notin> set (map ur_email us)"
    proof -
      have "email = None \<or> ur_email w \<noteq> email" if "w \<in> set us" for w
        using Cons.prems(1,3) True that by (auto simp: image_iff)
      then show ?thesis by auto
    qed
    moreover have "distinct (filter (\<lambda>e. e \<noteq> None) (map ur_email us))"
      using Cons.prems(2) by (simp split: if_splits)
    ultimately show ?thesis
      using True assms(4) by (cases "email = None") simp_all
  next
    case False
    let ?rest = "update_where (\<lambda>u. ur_id u = uid) f us"
    have IH: "distinct (filter (\<lambda>e. e \<noteq> None) (map ur_email ?rest))"
      using Cons.prems by (intro Cons.IH) (simp_all split: if_splits)
    have "ur_email u = None \<or> ur_email u \<notin> set (map ur_email us)"
      using Cons.prems(2) by (simp split: if_splits)
    moreover have "ur_email u = None \<or> ur_email u \<noteq> email"
      using Cons.prems(3) [of u] False by auto
    moreover have "set (map ur_email ?rest) \<subseteq> insert email (set (map ur_email us))"
      by (auto simp: set_update_where assms(4))
    ultimately have "ur_email u = None \<or> ur_email u \<notin> set (map ur_email ?rest)"
      by blast
    then show ?thesis using IH False by (cases "ur_email u") simp_all
  qed
qed

lemma keeps_update_user_profile [inv_intros]: "keeps db_ok (update_user_profile uid e n l s)"
proof (unfold keeps_def, intro allI impI)
  fix d
  assume ok: "db_ok d"
  show "db_ok (snd (update_user_profile uid e n l s d))"
  proof (cases "email_taken uid e d")
    case True
    then show ?thesis using ok by (simp add: update_user_profile_def eff_simps)
  next
    case False
    show ?thesis
    proof (cases "uid \<in> user_ids d")
      case True
      have "e = None \<or> ur_email u \<noteq> e" if "u \<in> set (users d)" "ur_id u \<noteq> uid" for u
        using False True that by (auto simp: email_taken_def list_ex_iff user_ids_def)
      then have "distinct (filter (\<lambda>e. e \<noteq> None)
          (map ur_email (update_where (\<lambda>u. ur_id u = uid) (profile_change e n l s d) (users d))))"
        using ok by (intro distinct_emails_update [of _ _ e])
          (auto simp: db_ok_def users_ok_def profile_change_def)
      moreover have "keeps_user_keys (profile_change e n l s)"
        by (simp add: keeps_user_keys_def profile_change_def user_row_ok_def)
      ultimately show ?thesis
        using db_ok_update_user [OF ok] False
        by (simp add: update_user_profile_def update_user_def eff_simps)
    next
      case out: False
      have "update_where (\<lambda>u. ur_id u = uid) f (users d) = users d" for f
        using out by (intro update_where_none) (auto simp: user_ids_def)
      then show ?thesis
        using ok False by (simp add: update_user_profile_def update_user_def eff_simps)
    qed
  qed
qed

lemma keeps_create_user_db [inv_intros]: "keeps db_ok (create_user_db uid username role)"
proof -
  have "user_row_ok (new_user_row uid username role)"
    by (cases role) (simp_all add: user_row_ok_def new_user_row_def)
  then show ?thesis
    by (auto simp: keeps_def create_user_db_def eff_simps intro!: db_ok_users)
      (auto simp: db_ok_def users_ok_def user_ids_def new_user_row_def)
qed

lemma keeps_user_reads [inv_intros]:
  "keeps db_ok (user_get_by_id uid)"
  "keeps db_ok (user_get_by_username username)"
  "keeps db_ok (resolve_username_for_login_identifier i)"
  "keeps db_ok (get_user_column col uid)"
  "keeps db_ok user_list_all"
  "keeps db_ok list_all_password_envelopes"
  unfolding user_get_by_id_def user_get_by_username_def resolve_username_for_login_identifier_def
    get_user_column_def user_list_all_def list_all_password_envelopes_def Let_def
  by (intro inv_intros)+

section \<open>Deleting a user\<close>

text \<open>What the deletion leaves: the rows that do not depend on the user, in their order.\<close>

definition gone_vaults :: "uuid \<Rightarrow> db \<Rightarrow> uuid set" where
  "gone_vaults uid d = vr_id ` {v \<in> set (vaults d). vr_owner_user_id v = uid}"

definition without_user :: "uuid \<Rightarrow> db \<Rightarrow> db" where
  "without_user uid d = d
     \<lparr>login_history := filter (\<lambda>h. lh_user_id h \<noteq> uid) (login_history d),
      auth_policy := filter (\<lambda>p. \<not> (case user_by_id uid d of
        Some u \<Rightarrow> ap_username p = ur_username u | None \<Rightarrow> False)) (auth_policy d),
      users := filter (\<lambda>u. ur_id u \<noteq> uid) (users d),
      vaults := filter (\<lambda>v. vr_owner_user_id v \<noteq> uid) (vaults d),
      secret_items := filter (\<lambda>s. sr_vault_id s \<notin> gone_vaults uid d) (secret_items d),
      vault_key_shares :=
        filter (\<lambda>s. kr_vault_id s \<notin> gone_vaults uid d \<and> kr_user_id s \<noteq> uid) (vault_key_shares d),
      teams := update_where (\<lambda>t. tr_created_by t = Some uid)
        (\<lambda>t. t\<lparr>tr_created_by := None\<rparr>) (teams d),
      team_members := filter (\<lambda>m. mr_user_id m \<noteq> uid) (team_members d),
      audit_log := update_where (\<lambda>a. ar_actor_user_id a = Some uid)
        (\<lambda>a. a\<lparr>ar_actor_user_id := None\<rparr>) (audit_log d)\<rparr>"

lemma delete_user_run:
  "delete_user uid d =
     (if uid \<in> user_ids d then (Inr (), without_user uid d)
      else (Inl (NotFound ''user not found for deletion''), d))"
proof (cases "uid \<in> user_ids d")
  case True
  then have "count_where (\<lambda>u. ur_id u = uid) (users d) \<noteq> 0"
    by (auto simp: user_ids_def)
  moreover have "set (map vr_id (filter (\<lambda>v. vr_owner_user_id v = uid) (vaults d))) = gone_vaults uid d"
    by (simp add: gone_vaults_def)
  ultimately show ?thesis
    using True
    by (simp add: delete_user_def sql_delete_user_def eff_simps list_ex_iff without_user_def Let_def
        user_by_id_def)
next
  case False
  then have "count_where (\<lambda>u. ur_id u = uid) (users d) = 0"
    by (auto simp: user_ids_def)
  then show ?thesis using False by (simp add: delete_user_def eff_simps)
qed

lemma without_user_sel [simp]:
  "users (without_user uid d) = filter (\<lambda>u. ur_id u \<noteq> uid) (users d)"
  "vaults (without_user uid d) = filter (\<lambda>v. vr_owner_user_id v \<noteq> uid) (vaults d)"
  "secret_items (without_user uid d) =
     filter (\<lambda>s. sr_vault_id s \<notin> gone_vaults uid d) (secret_items d)"
  "vault_key_shares (without_user uid d) =
     filter (\<lambda>s. kr_vault_id s \<notin> gone_vaults uid d \<and> kr_user_id s \<noteq> uid) (vault_key_shares d)"
  "teams (without_user uid d) = update_where (\<lambda>t. tr_created_by t = Some uid)
     (\<lambda>t. t\<lparr>tr_created_by := None\<rparr>) (teams d)"
  "team_members (without_user uid d) = filter (\<lambda>m. mr_user_id m \<noteq> uid) (team_members d)"
  "login_history (without_user uid d) = filter (\<lambda>h. lh_user_id h \<noteq> uid) (login_history d)"
  "login_attempts_ip (without_user uid d) = login_attempts_ip d"
  "audit_log (without_user uid d) = update_where (\<lambda>a. ar_actor_user_id a = Some uid)
     (\<lambda>a. a\<lparr>ar_actor_user_id := None\<rparr>) (audit_log d)"
  by (simp_all add: without_user_def)

lemma without_user_ids:
  "user_ids (without_user uid d) = user_ids d - {uid}"
  "vaults_ok d \<Longrightarrow> vault_ids d - gone_vaults uid d \<subseteq> vault_ids (without_user uid d)"
  "team_ids (without_user uid d) = team_ids d"
proof -
  have "map tr_id (teams (without_user uid d)) = map tr_id (teams d)"
    by (simp add: map_update_where_same)
  then show "team_ids (without_user uid d) = team_ids d"
    by (metis list.set_map team_ids_def)
qed (auto simp: user_ids_def vault_ids_def gone_vaults_def)

lemma without_user_ok:
  assumes "db_ok d"
  shows "db_ok (without_user uid d)"
proof -
  have parts: "users_ok d" "vaults_ok d" "secrets_ok d" "shares_ok d" "teams_ok d" "logs_ok d"
    using assms by (simp_all add: db_ok_def)
  have vids: "v \<in> vault_ids (without_user uid d)" if "v \<in> vault_ids d" "v \<notin> gone_vaults uid d" for v
    using without_user_ids(2) [OF parts(2)] that by blast
  have "users_ok (without_user uid d)"
  proof -
    have "filter P (map g (filter Q xs)) = map g (filter (\<lambda>x. Q x \<and> P (g x)) xs)"
      for P :: "string option \<Rightarrow> bool" and g and Q :: "user_row \<Rightarrow> bool" and xs
      by (induction xs) auto
    then show ?thesis
      using parts(1) distinct_map_filter_key [of ur_email "filter (\<lambda>u. ur_email u \<noteq> None) (users d)"
          "\<lambda>u. ur_id u \<noteq> uid"]
      by (auto simp: users_ok_def list_all_iff distinct_map_filter_key filter_map comp_def conj_commute)
  qed
  moreover have "vaults_ok (without_user uid d)"
    using parts(2) by (auto simp: vaults_ok_def without_user_ids distinct_map_filter_key)
  moreover have "secrets_ok (without_user uid d)"
    using parts(3) by (auto simp: secrets_ok_def vids distinct_map_filter_key)
  moreover have "shares_ok (without_user uid d)"
    using parts(4)
    by (auto simp: shares_ok_def vids without_user_ids distinct_map_filter_key)
  moreover have "teams_ok (without_user uid d)"
    using parts(5)
    by (auto simp: teams_ok_def without_user_ids set_update_where distinct_map_filter_key
        map_update_where_same)
  moreover have "logs_ok (without_user uid d)"
    using parts(6)
    by (auto simp: logs_ok_def without_user_ids set_update_where distinct_map_filter_key
        without_user_def [THEN arg_cong [of _ _ auth_policy]])
  ultimately show ?thesis by (simp add: db_ok_def)
qed

lemma keeps_delete_user [inv_intros]: "keeps db_ok (delete_user uid)"
  by (simp add: keeps_def delete_user_run without_user_ok)



section \<open>Login identifiers\<close>

lemma sort_hd_least:
  assumes "m \<in> set ms"
  obtains n rest where "sort_key (\<lambda>x. x) ms = n # rest" "n \<in> set ms" "n \<le> (m :: nat \<times> string)"
proof (cases "sort_key (\<lambda>x. x) ms")
  case Nil
  then have "set ms = {}" by (metis empty_set set_sort)
  then show ?thesis using assms by simp
next
  case (Cons n rest)
  have "sorted (n # rest)" using sorted_sort_key [of "\<lambda>x. x" ms] Cons by simp
  moreover have "set (n # rest) = set ms" using Cons by (metis set_sort)
  ultimately have "n \<in> set ms" "n \<le> m" using assms by (metis list.set_intros(1), metis set_ConsD order_refl sorted_simps(2))
  then show ?thesis using that [OF Cons] by blast
qed

definition name_matches :: "string \<Rightarrow> user_row \<Rightarrow> bool" where
  "name_matches i u \<longleftrightarrow> sql_lower (sql_trim (ur_username u)) = sql_lower (sql_trim (trim i))"

text \<open>
  Nobody can take over another user's login by choosing an e-mail address or a display name:
  whenever the typed identifier is, up to case and outer blanks, the username of some account,
  the account it resolves to is one with such a username.
\<close>

theorem login_prefers_username:
  assumes "trim i \<noteq> []" and "u \<in> set (users d)" and "name_matches i u"
  shows "\<exists>v. fst (resolve_username_for_login_identifier i d) = Inr (Some (ur_username v))
    \<and> v \<in> set (users d) \<and> name_matches i v"
proof -
  let ?ms = "login_matches (trim i) (users d)"
  have "(1, ur_username u) \<in> set ?ms"
    using assms(2,3) by (auto simp: login_matches_def name_matches_def)
  then obtain n rest where n: "sort_key (\<lambda>x. x) ?ms = n # rest" "n \<in> set ?ms" "n \<le> (1, ur_username u)"
    by (rule sort_hd_least)
  have "fst n \<le> 1" using n(3) by (cases n) (auto simp: less_eq_prod_def)
  then obtain v where "n = (1, ur_username v)" "v \<in> set (users d)" "name_matches i v"
    using n(2) by (auto simp: login_matches_def name_matches_def)
  then show ?thesis
    using n(1) assms(1) by (auto simp: resolve_username_for_login_identifier_def Let_def eff_simps)
qed

theorem login_prefers_username_witness:
  "\<exists>v. fst (resolve_username_for_login_identifier ''BOB ''
        ((empty_db ''now'')\<lparr>users := [(new_user_row 1 ''eve'' User)\<lparr>ur_display_name := Some ''bob''\<rparr>,
           new_user_row 2 ''bob'' User]\<rparr>)) = Inr (Some (ur_username v))
     \<and> v \<in> set (users ((empty_db ''now'')\<lparr>users := [(new_user_row 1 ''eve'' User)\<lparr>ur_display_name := Some ''bob''\<rparr>,
           new_user_row 2 ''bob'' User]\<rparr>)) \<and> name_matches ''BOB '' v"
  by (rule login_prefers_username [where u = "new_user_row 2 ''bob'' User"])
    (simp_all add: name_matches_def new_user_row_def trim_def trim_with.simps white_space_def
      sql_lower_def sql_trim_def char_of_def bit_0)

end
