(* ===== verification/HV_AccountKey.thy ===== *)
theory HV_AccountKey
  imports HV_Auth HV_UserRepo
begin

text \<open>
  services/account_key.rs: the random account key and its copy sealed under the recovery phrase,
  which must open however the phrase is retyped.
\<close>

section \<open>Phrases\<close>

lemma white_space_shorter: "first_strip white_space s = Some r \<Longrightarrow> length r < length s"
  by (rule first_strip_shorter [of white_space]) (simp_all add: white_space_def)

text \<open>\<open>str::split_whitespace\<close>: the maximal runs of characters that are not White_Space.\<close>

function split_ws :: "string \<Rightarrow> string \<Rightarrow> string list" where
  "split_ws word s =
     (case s of
        [] \<Rightarrow> (if word = [] then [] else [rev word])
      | c # cs \<Rightarrow>
          (case first_strip white_space s of
             Some rest \<Rightarrow> (if word = [] then [] else [rev word]) @ split_ws [] rest
           | None \<Rightarrow> split_ws (c # word) cs))"
  by pat_completeness auto
termination
  by (relation "measure (\<lambda>(w, s). length s)")
    (auto dest!: white_space_shorter)

declare split_ws.simps [simp del]

definition split_whitespace :: "string \<Rightarrow> string list" where
  "split_whitespace s = split_ws [] s"

text \<open>\<open>join(" ")\<close>\<close>

fun join_space :: "string list \<Rightarrow> string" where
  "join_space [] = []"
| "join_space [w] = w"
| "join_space (w # v # ws) = w @ '' '' @ join_space (v # ws)"

definition normal_phrase :: "crypto_lib \<Rightarrow> string \<Rightarrow> string" where
  "normal_phrase L phrase = join_space (map (str_to_lowercase L) (split_whitespace phrase))"

section \<open>The account key\<close>

definition ACCOUNT_KEY_LEN :: nat where "ACCOUNT_KEY_LEN = 32"
definition RECOVERY_KEY_ENVELOPE_VERSION :: byte where "RECOVERY_KEY_ENVELOPE_VERSION = 1"
definition RECOVERY_KEY_HEADER_LEN :: nat where
  "RECOVERY_KEY_HEADER_LEN = 1 + KDF_SALT_LEN + NONCE_LEN"
definition RECOVERY_KEK_DOMAIN :: string where
  "RECOVERY_KEK_DOMAIN = ''heelonvault/recovery-key/v1'' @ [char_of (10 :: nat)]"

definition generate_account_key :: "(world, bytes) eff" where
  "generate_account_key = fill_or ''account key generation failed: '' ACCOUNT_KEY_LEN"

definition derive_recovery_kek :: "crypto_lib \<Rightarrow> kdf_config \<Rightarrow> string \<Rightarrow> bytes
    \<Rightarrow> bytes result" where
  "derive_recovery_kek L cfg phrase salt =
     derive_key L cfg (RECOVERY_KEK_DOMAIN @ normal_phrase L phrase) salt"

definition seal_with_recovery_phrase :: "crypto_lib \<Rightarrow> kdf_config \<Rightarrow> string \<Rightarrow> bytes
    \<Rightarrow> (world, bytes) eff" where
  "seal_with_recovery_phrase L cfg phrase account_key =
     bindE generate_kdf_salt (\<lambda>salt.
     bindE (liftE (ensure (length salt = KDF_SALT_LEN)
              (Crypto ''unexpected salt length for the recovery key''))) (\<lambda>_.
     bindE (liftE (derive_recovery_kek L cfg phrase salt)) (\<lambda>kek.
     bindE (encrypt L account_key kek) (\<lambda>payload.
     returnE ([RECOVERY_KEY_ENVELOPE_VERSION] @ salt @ nonce payload @ ciphertext payload)))))"

definition open_with_recovery_phrase :: "crypto_lib \<Rightarrow> kdf_config \<Rightarrow> string \<Rightarrow> bytes
    \<Rightarrow> bytes result" where
  "open_with_recovery_phrase L cfg phrase bs =
     (if length bs \<le> RECOVERY_KEY_HEADER_LEN \<or> bs ! 0 \<noteq> RECOVERY_KEY_ENVELOPE_VERSION
      then Inl (Validation ''recovery key envelope is malformed'')
      else
        let salt = take KDF_SALT_LEN (drop 1 bs);
            payload = \<lparr>nonce = take NONCE_LEN (drop (1 + KDF_SALT_LEN) bs),
                       ciphertext = drop RECOVERY_KEY_HEADER_LEN bs\<rparr>
        in bindR (derive_recovery_kek L cfg phrase salt) (\<lambda>kek. decrypt L payload kek))"

definition ensure_recovery_key :: "crypto_lib \<Rightarrow> kdf_config \<Rightarrow> uuid \<Rightarrow> bytes \<Rightarrow> string
    \<Rightarrow> (world, bool) eff" where
  "ensure_recovery_key L cfg user_id account_key phrase =
     bindE (on_db (repo_get_recovery_key_envelope user_id)) (\<lambda>existing.
     if (case existing of
           None \<Rightarrow> False
         | Some e \<Rightarrow> open_with_recovery_phrase L cfg phrase e = Inr account_key)
     then returnE False
     else
       bindE (seal_with_recovery_phrase L cfg phrase account_key) (\<lambda>envelope.
       bindE (on_db (repo_set_recovery_key_envelope user_id envelope)) (\<lambda>_.
       returnE True)))"

section \<open>Sealing and opening\<close>

lemma open_sealed_bytes:
  assumes "length salt = KDF_SALT_LEN" "payload_ok payload"
  shows "open_with_recovery_phrase L cfg phrase
      ([RECOVERY_KEY_ENVELOPE_VERSION] @ salt @ nonce payload @ ciphertext payload) =
    bindR (derive_recovery_kek L cfg phrase salt) (\<lambda>kek. decrypt L payload kek)"
proof -
  let ?bs = "[RECOVERY_KEY_ENVELOPE_VERSION] @ salt @ nonce payload @ ciphertext payload"
  have "\<not> length ?bs \<le> RECOVERY_KEY_HEADER_LEN" "?bs ! 0 = RECOVERY_KEY_ENVELOPE_VERSION"
    using assms by (simp_all add: RECOVERY_KEY_HEADER_LEN_def payload_ok_def)
  moreover have "take KDF_SALT_LEN (drop 1 ?bs) = salt"
    using assms(1) by simp
  moreover have "take NONCE_LEN (drop (1 + KDF_SALT_LEN) ?bs) = nonce payload"
    using assms by (simp add: payload_ok_def)
  moreover have "drop RECOVERY_KEY_HEADER_LEN ?bs = ciphertext payload"
    using assms by (simp add: RECOVERY_KEY_HEADER_LEN_def payload_ok_def)
  moreover have "\<lparr>nonce = nonce payload, ciphertext = ciphertext payload\<rparr> = payload"
    by simp
  ultimately show ?thesis
    by (simp only: open_with_recovery_phrase_def Let_def simp_thms if_False)
qed

lemma derive_recovery_kek_cong:
  "normal_phrase L p = normal_phrase L q \<Longrightarrow> derive_recovery_kek L cfg p = derive_recovery_kek L cfg q"
  by (simp add: derive_recovery_kek_def fun_eq_iff)

lemma seal_Inr:
  assumes "crypto_lib_ok L" "seal_with_recovery_phrase L cfg phrase key w = (Inr envelope, w')"
    and "normal_phrase L p = normal_phrase L phrase"
  shows "open_with_recovery_phrase L cfg p envelope = Inr key"
    and "stored_state w' = stored_state w"
proof -
  obtain salt w1 kek payload where steps: "generate_kdf_salt w = (Inr salt, w1)"
      "derive_recovery_kek L cfg phrase salt = Inr kek" "encrypt L key kek w1 = (Inr payload, w')"
      "envelope = [RECOVERY_KEY_ENVELOPE_VERSION] @ salt @ nonce payload @ ciphertext payload"
    using assms(2) by (auto simp: seal_with_recovery_phrase_def eff_iffs)
  have "length salt = KDF_SALT_LEN" using salt_Inr [OF steps(1)] by simp
  moreover have "payload_ok payload" by (rule encrypt_payload_ok [OF assms(1) steps(3)])
  ultimately show "open_with_recovery_phrase L cfg p envelope = Inr key"
    using open_sealed_bytes [of salt payload L cfg p] steps(2,4)
      derive_recovery_kek_cong [OF assms(3), of cfg] encrypt_decrypt [OF assms(1) steps(3)]
    by simp
  show "stored_state w' = stored_state w"
    using salt_Inr [OF steps(1)] encrypt_payload(3) [OF assms(1) steps(3)]
    by (simp add: stored_state_def)
qed

section \<open>Retyping\<close>

text \<open>Texts between the words: blanks in the sense of the Unicode property.\<close>

definition word_char :: "char \<Rightarrow> bool" where
  "word_char c \<longleftrightarrow> of_char c < (128 :: nat) \<and> \<not> list_ex (\<lambda>p. p = [of_char c :: nat]) white_space"

definition ascii_blank :: "char \<Rightarrow> bool" where
  "ascii_blank c \<longleftrightarrow> of_char c < (128 :: nat) \<and> list_ex (\<lambda>p. p = [of_char c :: nat]) white_space"

lemma first_strip_word: "word_char c \<Longrightarrow> first_strip white_space (c # s) = None"
  by (auto simp: word_char_def white_space_def)

lemma first_strip_blank: "ascii_blank c \<Longrightarrow> first_strip white_space (c # s) = Some s"
  by (auto simp: ascii_blank_def white_space_def)

lemma split_ws_word: "list_all word_char u \<Longrightarrow> split_ws w (u @ s) = split_ws (rev u @ w) s"
  by (induction u arbitrary: w) (simp_all add: split_ws.simps [of _ "_ # _"] first_strip_word)

lemma split_ws_blanks: "list_all ascii_blank b \<Longrightarrow> split_ws [] (b @ s) = split_ws [] s"
  by (induction b) (simp_all add: split_ws.simps [of _ "_ # _"] first_strip_blank)

lemma split_ws_end: "split_ws w [] = (if w = [] then [] else [rev w])"
  by (simp add: split_ws.simps)

text \<open>
  A phrase typed with blanks between its words, and perhaps after the last one.
\<close>

fun spaced :: "(string \<times> string) list \<Rightarrow> string" where
  "spaced [] = []"
| "spaced ((w, b) # ws) = w @ b @ spaced ws"

fun typed_ok :: "(string \<times> string) list \<Rightarrow> bool" where
  "typed_ok [] = True"
| "typed_ok [(w, b)] = (w \<noteq> [] \<and> list_all word_char w \<and> list_all ascii_blank b)"
| "typed_ok ((w, b) # v # ws) =
     (w \<noteq> [] \<and> list_all word_char w \<and> b \<noteq> [] \<and> list_all ascii_blank b \<and> typed_ok (v # ws))"

lemma split_ws_only_blanks: "list_all ascii_blank b \<Longrightarrow> split_ws [] b = []"
  using split_ws_blanks [of b "[]"] by (simp add: split_ws_end)

lemma split_ws_one:
  assumes "w \<noteq> []" "list_all word_char w" "list_all ascii_blank b" "b = [] \<longrightarrow> s = []"
  shows "split_ws [] (w @ b @ s) = w # split_ws [] s"
proof (cases b)
  case Nil
  then show ?thesis using assms split_ws_word [OF assms(2), of "[]" "[]"] by (simp add: split_ws_end)
next
  case (Cons c b')
  have "split_ws [] (w @ b @ s) = split_ws (rev w) (c # b' @ s)"
    using split_ws_word [OF assms(2), of "[]"] by (simp add: Cons)
  also have "\<dots> = [w] @ split_ws [] (b' @ s)"
    using assms(1,3) Cons by (simp add: split_ws.simps [of _ "_ # _"] first_strip_blank)
  finally show ?thesis using assms(3) Cons by (simp add: split_ws_blanks)
qed

lemma split_spaced: "typed_ok ws \<Longrightarrow> split_ws [] (spaced ws) = map fst ws"
proof (induction ws rule: typed_ok.induct)
  case (2 w b)
  then show ?case using split_ws_one [of w b "[]"] by (simp add: split_ws_end)
next
  case (3 w b v ws)
  then show ?case using split_ws_one [of w b "spaced (v # ws)"] by simp
qed (simp add: split_ws_end)

lemma typed_ok_words: "typed_ok ws \<Longrightarrow> list_all (\<lambda>w. list_all word_char w) (map fst ws)"
  by (induction ws rule: typed_ok.induct) auto

lemma normal_phrase_typed:
  assumes "typed_ok ws" "list_all ascii_blank b"
  shows "normal_phrase L (b @ spaced ws) = join_space (map (str_to_lowercase L) (map fst ws))"
  using split_spaced [OF assms(1)] split_ws_blanks [OF assms(2)]
  by (simp add: normal_phrase_def split_whitespace_def)

text \<open>
  C32: The recovery phrase opens however it is retyped: what was sealed with a phrase is opened
  by every phrase that has the same ASCII words up to upper and lower case, with any blanks
  (spaces, tabs, line breaks) between them and any or none before the first and after the last; and
  sealing changes neither the database nor the credentials.
\<close>

theorem recovery_phrase_retyped:
  assumes "crypto_lib_ok L"
    and "typed_ok ws" and "typed_ok vs" and "list_all ascii_blank b" and "list_all ascii_blank b'"
    and "map (map ascii_lower \<circ> fst) vs = map (map ascii_lower \<circ> fst) ws"
    and "seal_with_recovery_phrase L cfg (b @ spaced ws) key w = (Inr envelope, w')"
  shows "open_with_recovery_phrase L cfg (b' @ spaced vs) envelope = Inr key
    \<and> stored_state w' = stored_state w"
proof -
  have lower: "map (str_to_lowercase L) (map fst us) = map (map ascii_lower \<circ> fst) us"
    if "typed_ok us" for us
    using assms(1) typed_ok_words [OF that]
    by (auto simp: crypto_lib_ok_def lowercase_ok_def is_ascii_def list_all_iff word_char_def)
  have "normal_phrase L (b' @ spaced vs) = normal_phrase L (b @ spaced ws)"
    using assms(2-6) by (simp only: normal_phrase_typed lower)
  then show ?thesis
    using seal_Inr [OF assms(1,7)] by blast
qed

lemma toy_seal:
  assumes "rng_works w"
  obtains envelope w' where
    "seal_with_recovery_phrase toy_lib default_kdf_config phrase key w = (Inr envelope, w')"
    "rng_works w'"
proof -
  obtain salt where salt: "generate_kdf_salt w = (Inr salt, tick w)" "length salt = 32" "salt \<noteq> []"
    by (rule salt_works [OF assms])
  obtain k where k: "derive_key toy_lib default_kdf_config
      (RECOVERY_KEK_DOMAIN @ normal_phrase toy_lib phrase) salt = Inr k" "length k = 32"
    by (rule toy_derive [OF salt(3)])
  obtain p where "encrypt toy_lib key k (tick w) = (Inr p, tick (tick w))"
    using assms k(2) by (metis rng_works_tick toy_encrypt)
  then show ?thesis
    using salt k assms that
    by (simp add: seal_with_recovery_phrase_def derive_recovery_kek_def eff_simps KDF_SALT_LEN_def)
qed

theorem recovery_phrase_retyped_witness:
  "open_with_recovery_phrase toy_lib default_kdf_config
     ([CHR '' ''] @ spaced [(''LEGAL'', [char_of (9::nat)]), (''winner'', [CHR '' ''])])
     (projr (fst (seal_with_recovery_phrase toy_lib default_kdf_config
        ([] @ spaced [(''legal'', [CHR '' '']), (''winner'', [])])
        (replicate 32 7) (empty_world ''now'')))) = Inr (replicate 32 7)"
proof -
  let ?ws = "[(''legal'', [CHR '' '']), (''winner'', [])]"
  let ?vs = "[(''LEGAL'', [char_of (9::nat)]), (''winner'', [CHR '' ''])]"
  obtain envelope w' where run: "seal_with_recovery_phrase toy_lib default_kdf_config
      ([] @ spaced ?ws) (replicate 32 7) (empty_world ''now'') = (Inr envelope, w')"
    by (rule toy_seal [OF rng_works_empty])
  have "typed_ok ?ws" "typed_ok ?vs" "list_all ascii_blank [CHR '' '']"
    by (simp_all add: word_char_def ascii_blank_def white_space_def)
  moreover have "map (map ascii_lower \<circ> fst) ?vs = map (map ascii_lower \<circ> fst) ?ws"
    by (simp add: ascii_lower_def char_of_def bit_0)
  ultimately have "open_with_recovery_phrase toy_lib default_kdf_config ([CHR '' ''] @ spaced ?vs)
      envelope = Inr (replicate 32 7)"
    using recovery_phrase_retyped [OF toy_lib_ok, of ?ws ?vs "[]" "[CHR '' '']"] run by fastforce
  then show ?thesis by (simp only: run fst_conv sum.sel)
qed

section \<open>Keeping the recovery key in step with the phrase\<close>

text \<open>
  Keeping the recovery key in step with the phrase works: when it succeeds, the user's
  stored recovery key opens with that phrase, however retyped, to the account key, and it
  reports a rewrite exactly when the stored envelope did not open so before; when it reports
  none, the database is unchanged.
\<close>

theorem ensure_recovery_key_opens:
  assumes "crypto_lib_ok L" and "ensure_recovery_key L cfg uid key phrase w = (Inr written, w')"
  shows "(\<exists>u e. user_by_id uid (w_db w') = Some u \<and> ur_recovery_key_envelope u = Some e
      \<and> open_with_recovery_phrase L cfg phrase e = Inr key)
    \<and> (written \<longleftrightarrow> \<not> (\<exists>u e. user_by_id uid (w_db w) = Some u \<and> ur_recovery_key_envelope u = Some e
      \<and> open_with_recovery_phrase L cfg phrase e = Inr key))
    \<and> (written \<or> w_db w' = w_db w)"
proof -
  let ?stored = "case user_by_id uid (w_db w) of Some row \<Rightarrow> ur_recovery_key_envelope row | None \<Rightarrow> None"
  let ?good = "case ?stored of None \<Rightarrow> False
    | Some e \<Rightarrow> open_with_recovery_phrase L cfg phrase e = Inr key"
  have good: "?good \<longleftrightarrow> (\<exists>u e. user_by_id uid (w_db w) = Some u \<and> ur_recovery_key_envelope u = Some e
      \<and> open_with_recovery_phrase L cfg phrase e = Inr key)"
    by (auto split: option.split)
  have read: "on_db (repo_get_recovery_key_envelope uid) w = (Inr ?stored, w)"
    by (simp add: repo_get_recovery_key_envelope_def get_user_column_def eff_simps)
  show ?thesis
  proof (cases ?good)
    case True
    then have "w' = w" "written = False"
      using assms(2) read by (simp_all add: ensure_recovery_key_def eff_simps)
    then show ?thesis using True good by blast
  next
    case False
    then obtain envelope w1 where steps:
        "seal_with_recovery_phrase L cfg phrase key w = (Inr envelope, w1)"
        "on_db (repo_set_recovery_key_envelope uid envelope) w1 = (Inr (), w')" "written = True"
      using assms(2) read by (auto simp: ensure_recovery_key_def eff_iffs)
    have opened: "open_with_recovery_phrase L cfg phrase envelope = Inr key"
      "w_db w1 = w_db w"
      using seal_Inr [OF assms(1) steps(1) refl] by (simp_all add: stored_state_def)
    have "uid \<in> user_ids (w_db w1)" and
      "w_db w' = (w_db w1)\<lparr>users := update_where (\<lambda>u. ur_id u = uid)
        (\<lambda>u. u\<lparr>ur_recovery_key_envelope := Some envelope\<rparr>) (users (w_db w1))\<rparr>"
      using steps(2) by (auto simp: on_db_iff repo_set_recovery_key_envelope_def update_user_Inr)
    then have "\<exists>u. user_by_id uid (w_db w') = Some u \<and> ur_recovery_key_envelope u = Some envelope"
      using user_by_id_in [of uid "w_db w1"] by (auto simp: user_by_id_update)
    then show ?thesis using opened(1) steps(3) False good by blast
  qed
qed

theorem ensure_recovery_key_opens_witness:
  "\<exists>w w'. ensure_recovery_key toy_lib default_kdf_config 7 (replicate 32 7) ''legal winner'' w =
      (Inr True, w')
    \<and> (\<exists>u e. user_by_id 7 (w_db w') = Some u \<and> ur_recovery_key_envelope u = Some e
      \<and> open_with_recovery_phrase toy_lib default_kdf_config ''legal winner'' e = Inr (replicate 32 7))"
proof -
  let ?w = "(empty_world ''now'')\<lparr>w_db := (empty_db ''now'')\<lparr>users := [new_user_row 7 ''bob'' User]\<rparr>\<rparr>"
  have "rng_works ?w" by simp
  then obtain envelope w1 where seal: "seal_with_recovery_phrase toy_lib default_kdf_config
      ''legal winner'' (replicate 32 7) ?w = (Inr envelope, w1)"
    by (rule toy_seal)
  have "w_db w1 = w_db ?w"
    using seal_Inr(2) [OF toy_lib_ok seal refl] by (simp add: stored_state_def)
  then obtain w' where run: "ensure_recovery_key toy_lib default_kdf_config 7 (replicate 32 7)
      ''legal winner'' ?w = (Inr True, w')"
    using seal
    by (simp add: ensure_recovery_key_def repo_get_recovery_key_envelope_def get_user_column_def
        eff_simps user_by_id_def new_user_row_def repo_set_recovery_key_envelope_def update_user_def
        count_where_def)
  then show ?thesis
    using ensure_recovery_key_opens [OF toy_lib_ok run] by blast
qed

end
