(* ===== verification/HV_VaultRepo.thy ===== *)
theory HV_VaultRepo
  imports HV_UserRepo
begin

text \<open>
  repositories/vault_repository.rs: the tables vaults and vault_key_shares, the view
  accessible_vaults of migration 0014, and the atomic rotation of everything that is encrypted
  under a user's key. \<open>ORDER BY\<close> is a stable sort by its columns under SQLite's binary collation;
  rows equal in these columns keep the table's order.
\<close>

section \<open>Data\<close>

record vault_envelope_update =
  veu_vault_id :: uuid
  veu_key_envelope :: bytes

record vault_share_envelope_update =
  vsu_vault_id :: uuid
  vsu_user_id :: uuid
  vsu_key_envelope :: bytes

datatype user_envelope_change = Keep | Replace bytes | Clear

record user_key_material_update =
  km_recovery_phrase_envelope :: user_envelope_change
  km_totp_secret :: user_envelope_change
  km_recovery_key_envelope :: user_envelope_change

definition active_vault :: "vault_row \<Rightarrow> bool" where
  "active_vault v \<longleftrightarrow> vr_deleted_at v = None"

definition vault_by_id :: "uuid \<Rightarrow> db \<Rightarrow> vault_row option" where
  "vault_by_id vid d = find_row vr_id vid (vaults d)"

definition share_of :: "uuid \<Rightarrow> uuid \<Rightarrow> db \<Rightarrow> share_row option" where
  "share_of vid uid d = find_row share_key (vid, uid) (vault_key_shares d)"

definition row_to_vault :: "vault_row \<Rightarrow> vault" where
  "row_to_vault v = \<lparr>v_id = vr_id v, v_owner_user_id = vr_owner_user_id v, v_name = vr_name v\<rparr>"

record access_row =
  acc_user_id :: uuid
  acc_vault_id :: uuid
  acc_owner_user_id :: uuid
  acc_name :: string
  acc_vault_key_version :: int
  acc_role :: string
  acc_access_kind :: string

definition access_row_of :: "vault_row \<Rightarrow> uuid \<Rightarrow> string \<Rightarrow> string \<Rightarrow> access_row" where
  "access_row_of v uid role kind =
     \<lparr>acc_user_id = uid, acc_vault_id = vr_id v, acc_owner_user_id = vr_owner_user_id v,
      acc_name = vr_name v, acc_vault_key_version = vr_vault_key_version v, acc_role = role,
      acc_access_kind = kind\<rparr>"

definition share_access_row :: "vault_row \<Rightarrow> share_row \<Rightarrow> access_row" where
  "share_access_row v s = access_row_of v (kr_user_id s) (kr_role s)
     (if kr_granted_via_team s = None then ''direct_share'' else ''team_share'')"

definition accessible_rows :: "db \<Rightarrow> access_row list" where
  "accessible_rows d =
     map (\<lambda>v. access_row_of v (vr_owner_user_id v) ''admin'' ''owner'')
       (filter active_vault (vaults d))
     @ concat (map (\<lambda>v. map (share_access_row v)
         (filter (\<lambda>s. kr_vault_id s = vr_id v \<and> vr_owner_user_id v \<noteq> kr_user_id s)
           (vault_key_shares d)))
       (filter active_vault (vaults d)))"

definition row_to_accessible_vault :: "access_row \<Rightarrow> accessible_vault result" where
  "row_to_accessible_vault row =
     bindR (ok_or (vault_share_role_from_db_str (acc_role row))
              (Storage ''invalid vault share role in storage'')) (\<lambda>role.
     bindR (ok_or (vault_access_kind_from_db_str (acc_access_kind row))
              (Storage ''invalid vault access kind in storage'')) (\<lambda>access_kind.
     Inr \<lparr>av_vault = \<lparr>v_id = acc_vault_id row, v_owner_user_id = acc_owner_user_id row,
            v_name = acc_name row\<rparr>,
          av_role = role, av_access_kind = access_kind,
          av_vault_key_version = acc_vault_key_version row\<rparr>))"

section \<open>Reading\<close>

definition vault_get_by_id :: "uuid \<Rightarrow> (db, vault option) eff" where
  "vault_get_by_id vid =
     getsE (\<lambda>d. map_option row_to_vault
       (find (\<lambda>v. vr_id v = vid \<and> active_vault v) (vaults d)))"

definition list_by_user_id :: "uuid \<Rightarrow> (db, vault list) eff" where
  "list_by_user_id uid =
     getsE (\<lambda>d. map row_to_vault
       (sort_key (\<lambda>v. (vr_sort_order v, sql_lower (vr_name v)))
         (filter (\<lambda>v. vr_owner_user_id v = uid \<and> active_vault v) (vaults d))))"

definition list_owned_vaults :: "uuid \<Rightarrow> (db, vault list) eff" where
  "list_owned_vaults uid = list_by_user_id uid"

definition list_shared_vaults :: "uuid \<Rightarrow> (db, vault list) eff" where
  "list_shared_vaults uid =
     getsE (\<lambda>d. map row_to_vault
       (sort_key vr_name
         (concat (map (\<lambda>v. map (\<lambda>_. v)
             (filter (\<lambda>s. kr_vault_id s = vr_id v \<and> kr_user_id s = uid) (vault_key_shares d)))
           (filter (\<lambda>v. vr_owner_user_id v \<noteq> uid \<and> active_vault v) (vaults d))))))"

definition vault_list_all :: "(db, vault list) eff" where
  "vault_list_all = getsE (\<lambda>d. map row_to_vault (sort_key vr_name (filter active_vault (vaults d))))"

definition get_accessible_vaults :: "uuid \<Rightarrow> (db, accessible_vault list) eff" where
  "get_accessible_vaults uid =
     bindE (getsE (\<lambda>d. sort_key acc_name (filter (\<lambda>r. acc_user_id r = uid) (accessible_rows d))))
       (\<lambda>rows. liftE (mapR row_to_accessible_vault rows))"

definition list_accessible_by_user :: "uuid \<Rightarrow> (db, vault list) eff" where
  "list_accessible_by_user uid =
     bindE (get_accessible_vaults uid) (\<lambda>records. returnE (map av_vault records))"

definition get_vault_with_permission :: "uuid \<Rightarrow> uuid \<Rightarrow> (db, accessible_vault option) eff" where
  "get_vault_with_permission uid vid =
     bindE (getsE (\<lambda>d. find (\<lambda>r. acc_user_id r = uid \<and> acc_vault_id r = vid) (accessible_rows d)))
       (\<lambda>row_opt. case row_opt of
          Some row \<Rightarrow> liftE (bindR (row_to_accessible_vault row) (\<lambda>a. Inr (Some a)))
        | None \<Rightarrow> returnE None)"

definition get_key_share :: "uuid \<Rightarrow> uuid \<Rightarrow> (db, bytes option) eff" where
  "get_key_share vid uid = getsE (\<lambda>d. map_option kr_key_envelope (share_of vid uid d))"

definition list_key_share_user_ids :: "uuid \<Rightarrow> (db, uuid list) eff" where
  "list_key_share_user_ids vid =
     getsE (\<lambda>d. map kr_user_id (filter (\<lambda>s. kr_vault_id s = vid) (vault_key_shares d)))"

definition get_vault_key_envelope :: "uuid \<Rightarrow> (db, bytes option) eff" where
  "get_vault_key_envelope vid =
     getsE (\<lambda>d. case vault_by_id vid d of Some v \<Rightarrow> vr_vault_key_envelope v | None \<Rightarrow> None)"

section \<open>Writing vaults\<close>

definition insert_vault :: "vault \<Rightarrow> bytes option \<Rightarrow> (db, unit) eff" where
  "insert_vault v envelope =
     bindE (getsE (\<lambda>d. d)) (\<lambda>d.
     if v_id v \<in> set (map vr_id (vaults d))
     then throwE (Database (UniqueViolation ''vaults.id''))
     else if v_owner_user_id v \<notin> set (map ur_id (users d))
     then throwE (Database ForeignKeyViolation)
     else modifyE (\<lambda>d. d\<lparr>vaults := vaults d @
       [\<lparr>vr_id = v_id v, vr_owner_user_id = v_owner_user_id v, vr_name = v_name v,
         vr_vault_key_envelope = envelope, vr_vault_key_version = 1, vr_sort_order = 0,
         vr_deleted_at = None\<rparr>]\<rparr>))"

definition repo_create_vault :: "vault \<Rightarrow> (db, unit) eff" where
  "repo_create_vault v = insert_vault v None"

definition create_vault_with_envelope :: "vault \<Rightarrow> bytes \<Rightarrow> (db, unit) eff" where
  "create_vault_with_envelope v envelope = insert_vault v (Some envelope)"

text \<open>An \<open>UPDATE vaults SET .. WHERE ..\<close> with its \<open>rows_affected\<close>.\<close>

definition update_vaults :: "(vault_row \<Rightarrow> bool) \<Rightarrow> (db \<Rightarrow> vault_row \<Rightarrow> vault_row) \<Rightarrow> (db, nat) eff" where
  "update_vaults P f =
     bindE (getsE (\<lambda>d. count_where P (vaults d))) (\<lambda>n.
     bindE (modifyE (\<lambda>d. d\<lparr>vaults := update_where P (f d) (vaults d)\<rparr>)) (\<lambda>_.
     returnE n))"

definition repo_delete_vault :: "uuid \<Rightarrow> (db, unit) eff" where
  "repo_delete_vault vid =
     transactionE (
       bindE (update_vaults (\<lambda>v. vr_id v = vid \<and> active_vault v)
                (\<lambda>d v. v\<lparr>vr_deleted_at := Some (db_clock d)\<rparr>)) (\<lambda>rows_affected.
       if rows_affected = 0 then throwE (NotFound ''vault not found'')
       else modifyE (\<lambda>d. d\<lparr>secret_items :=
         update_where (\<lambda>s. sr_vault_id s = vid \<and> sr_deleted_at s = None)
           (\<lambda>s. s\<lparr>sr_deleted_at := Some (db_clock d)\<rparr>) (secret_items d)\<rparr>)))"

definition update_vault_key_envelope :: "uuid \<Rightarrow> bytes \<Rightarrow> (db, unit) eff" where
  "update_vault_key_envelope vid envelope =
     bindE (update_vaults (\<lambda>v. vr_id v = vid \<and> active_vault v)
              (\<lambda>_ v. v\<lparr>vr_vault_key_envelope := Some envelope,
                       vr_vault_key_version := vr_vault_key_version v + 1\<rparr>)) (\<lambda>rows_affected.
     liftE (ensure (rows_affected \<noteq> 0) (Storage ''vault not found for key update'')))"

definition update_vault_sort_order :: "uuid \<Rightarrow> int \<Rightarrow> (db, unit) eff" where
  "update_vault_sort_order vid sort_order =
     bindE (update_vaults (\<lambda>v. vr_id v = vid \<and> active_vault v)
              (\<lambda>_ v. v\<lparr>vr_sort_order := sort_order\<rparr>)) (\<lambda>_. returnE ())"

section \<open>Writing shares\<close>

definition share_refs_ok :: "share_row \<Rightarrow> db \<Rightarrow> bool" where
  "share_refs_ok s d \<longleftrightarrow>
     kr_vault_id s \<in> set (map vr_id (vaults d)) \<and> kr_user_id s \<in> set (map ur_id (users d))
     \<and> (case kr_granted_via_team s of None \<Rightarrow> True | Some t \<Rightarrow> t \<in> set (map tr_id (teams d)))"

definition insert_key_share :: "uuid \<Rightarrow> uuid \<Rightarrow> bytes \<Rightarrow> uuid option \<Rightarrow> uuid option
    \<Rightarrow> vault_share_role \<Rightarrow> (db, unit) eff" where
  "insert_key_share vid uid key_envelope granted_by granted_via_team role =
     bindE (getsE (\<lambda>d. d)) (\<lambda>d.
     let row = \<lparr>kr_vault_id = vid, kr_user_id = uid, kr_key_envelope = key_envelope,
                kr_granted_by = granted_by, kr_granted_via_team = granted_via_team,
                kr_granted_at = db_clock d, kr_role = vault_share_role_to_db_str role\<rparr>
     in if \<not> share_refs_ok row d then throwE (Database ForeignKeyViolation)
        else modifyE (\<lambda>d. d\<lparr>vault_key_shares :=
          if (vid, uid) \<in> set (map share_key (vault_key_shares d))
          then update_where (\<lambda>s. share_key s = (vid, uid)) (\<lambda>_. row) (vault_key_shares d)
          else vault_key_shares d @ [row]\<rparr>))"

definition update_shares :: "(share_row \<Rightarrow> bool) \<Rightarrow> (db \<Rightarrow> share_row \<Rightarrow> share_row) \<Rightarrow> (db, nat) eff" where
  "update_shares P f =
     bindE (getsE (\<lambda>d. count_where P (vault_key_shares d))) (\<lambda>n.
     bindE (modifyE (\<lambda>d. d\<lparr>vault_key_shares := update_where P (f d) (vault_key_shares d)\<rparr>)) (\<lambda>_.
     returnE n))"

definition delete_shares :: "(share_row \<Rightarrow> bool) \<Rightarrow> (db, nat) eff" where
  "delete_shares P =
     bindE (getsE (\<lambda>d. count_where P (vault_key_shares d))) (\<lambda>n.
     bindE (modifyE (\<lambda>d. d\<lparr>vault_key_shares := filter (\<lambda>s. \<not> P s) (vault_key_shares d)\<rparr>)) (\<lambda>_.
     returnE n))"

definition update_key_share_envelope :: "uuid \<Rightarrow> uuid \<Rightarrow> bytes \<Rightarrow> (db, unit) eff" where
  "update_key_share_envelope vid uid key_envelope =
     bindE (update_shares (\<lambda>s. kr_vault_id s = vid \<and> kr_user_id s = uid)
              (\<lambda>d s. s\<lparr>kr_key_envelope := key_envelope, kr_granted_at := db_clock d\<rparr>))
       (\<lambda>rows_affected. liftE (ensure (rows_affected \<noteq> 0)
          (Storage ''vault key share not found for envelope update'')))"

definition delete_key_share :: "uuid \<Rightarrow> uuid \<Rightarrow> (db, unit) eff" where
  "delete_key_share vid uid =
     bindE (delete_shares (\<lambda>s. kr_vault_id s = vid \<and> kr_user_id s = uid)) (\<lambda>_. returnE ())"

definition delete_all_key_shares :: "uuid \<Rightarrow> (db, unit) eff" where
  "delete_all_key_shares vid = bindE (delete_shares (\<lambda>s. kr_vault_id s = vid)) (\<lambda>_. returnE ())"

definition delete_key_shares_for_user_via_team :: "uuid \<Rightarrow> uuid \<Rightarrow> (db, nat) eff" where
  "delete_key_shares_for_user_via_team uid tid =
     delete_shares (\<lambda>s. kr_user_id s = uid \<and> kr_granted_via_team s = Some tid)"

text \<open>The rotation inserts the shares anew, without a role: the column's default is 'read'.\<close>

definition insert_rotated_share :: "uuid \<Rightarrow> uuid option \<Rightarrow> uuid \<times> bytes \<times> uuid option
    \<Rightarrow> (db, unit) eff" where
  "insert_rotated_share vid actor share =
     (case share of (uid, key_envelope, granted_via_team) \<Rightarrow>
       bindE (getsE (\<lambda>d. d)) (\<lambda>d.
       let row = \<lparr>kr_vault_id = vid, kr_user_id = uid, kr_key_envelope = key_envelope,
                  kr_granted_by = actor, kr_granted_via_team = granted_via_team,
                  kr_granted_at = db_clock d, kr_role = ''read''\<rparr>
       in if (vid, uid) \<in> set (map share_key (vault_key_shares d))
          then throwE (Database (UniqueViolation ''vault_key_shares''))
          else if \<not> share_refs_ok row d then throwE (Database ForeignKeyViolation)
          else modifyE (\<lambda>d. d\<lparr>vault_key_shares := vault_key_shares d @ [row]\<rparr>)))"

definition replace_all_key_shares :: "uuid \<Rightarrow> (uuid \<times> bytes \<times> uuid option) list \<Rightarrow> uuid option
    \<Rightarrow> (db, unit) eff" where
  "replace_all_key_shares vid new_shares rotation_actor_id =
     transactionE (
       bindE (delete_shares (\<lambda>s. kr_vault_id s = vid)) (\<lambda>_.
       forE new_shares (insert_rotated_share vid rotation_actor_id)))"

section \<open>Rotation of a user's key\<close>

definition apply_user_envelope_change :: "(bytes option \<Rightarrow> user_row \<Rightarrow> user_row) \<Rightarrow> uuid
    \<Rightarrow> user_envelope_change \<Rightarrow> (db, unit) eff" where
  "apply_user_envelope_change set_column uid change =
     (case change of
        Keep \<Rightarrow> returnE ()
      | Replace envelope \<Rightarrow> modifyE (\<lambda>d. d\<lparr>users :=
          update_where (\<lambda>u. ur_id u = uid) (set_column (Some envelope)) (users d)\<rparr>)
      | Clear \<Rightarrow> modifyE (\<lambda>d. d\<lparr>users :=
          update_where (\<lambda>u. ur_id u = uid) (set_column None) (users d)\<rparr>))"

definition rotate_owned :: "vault_envelope_update \<Rightarrow> (db, unit) eff" where
  "rotate_owned update =
     bindE (update_vaults (\<lambda>v. vr_id v = veu_vault_id update)
              (\<lambda>_ v. v\<lparr>vr_vault_key_envelope := Some (veu_key_envelope update)\<rparr>))
       (\<lambda>rows_affected. liftE (ensure (rows_affected \<noteq> 0)
          (Storage ''vault not found for owner envelope update'')))"

definition rotate_shared :: "vault_share_envelope_update \<Rightarrow> (db, unit) eff" where
  "rotate_shared update =
     bindE (update_shares (\<lambda>s. kr_vault_id s = vsu_vault_id update \<and> kr_user_id s = vsu_user_id update)
              (\<lambda>_ s. s\<lparr>kr_key_envelope := vsu_key_envelope update\<rparr>))
       (\<lambda>rows_affected. liftE (ensure (rows_affected \<noteq> 0)
          (Storage ''vault key share not found for envelope update'')))"

definition apply_master_key_rotation_atomically :: "uuid \<Rightarrow> bytes \<Rightarrow> vault_envelope_update list
    \<Rightarrow> vault_share_envelope_update list \<Rightarrow> user_key_material_update \<Rightarrow> (db, unit) eff" where
  "apply_master_key_rotation_atomically uid password_envelope owner_updates shared_updates material =
     transactionE (
       bindE (update_user uid (\<lambda>d u. u\<lparr>ur_password_envelope := Some password_envelope,
                ur_updated_at := Some (db_clock d)\<rparr>)
              (NotFound ''user not found for rotation'')) (\<lambda>_.
       bindE (apply_user_envelope_change (\<lambda>x u. u\<lparr>ur_recovery_phrase_envelope := x\<rparr>) uid
              (km_recovery_phrase_envelope material)) (\<lambda>_.
       bindE (apply_user_envelope_change (\<lambda>x u. u\<lparr>ur_totp_secret := x\<rparr>) uid
              (km_totp_secret material)) (\<lambda>_.
       bindE (apply_user_envelope_change (\<lambda>x u. u\<lparr>ur_recovery_key_envelope := x\<rparr>) uid
              (km_recovery_key_envelope material)) (\<lambda>_.
       bindE (forE owner_updates rotate_owned) (\<lambda>_.
       forE shared_updates rotate_shared))))))"

section \<open>The schema is kept\<close>

lemma db_ok_update_vaults:
  assumes "db_ok d" "\<And>v. vr_id (f v) = vr_id v \<and> vr_owner_user_id (f v) = vr_owner_user_id v"
  shows "db_ok (d\<lparr>vaults := update_where P f (vaults d)\<rparr>)"
proof (rule db_ok_vaults [OF assms(1)])
  have ids: "map vr_id (update_where P f (vaults d)) = map vr_id (vaults d)"
    using assms(2) by (simp add: map_update_where_same)
  then show "vaults_ok (d\<lparr>vaults := update_where P f (vaults d)\<rparr>)"
    using assms by (auto simp: db_ok_def vaults_ok_def set_update_where)
  show "vault_ids d \<subseteq> vr_id ` set (update_where P f (vaults d))"
    using ids by (metis list.set_map order_refl vault_ids_def)
qed

lemma keeps_update_vaults [inv_intros]:
  "(\<And>d v. vr_id (f d v) = vr_id v \<and> vr_owner_user_id (f d v) = vr_owner_user_id v) \<Longrightarrow>
   keeps db_ok (update_vaults P f)"
  by (simp add: keeps_def update_vaults_def eff_simps db_ok_update_vaults)

lemma db_ok_update_shares:
  assumes "db_ok d" "\<And>s. share_key (f s) = share_key s \<and> kr_role (f s) = kr_role s
    \<and> kr_granted_via_team (f s) = kr_granted_via_team s"
  shows "db_ok (d\<lparr>vault_key_shares := update_where P f (vault_key_shares d)\<rparr>)"
proof (rule db_ok_shares [OF assms(1)])
  have "map share_key (update_where P f (vault_key_shares d)) = map share_key (vault_key_shares d)"
    using assms(2) by (intro map_update_where_same) simp
  then show "shares_ok (d\<lparr>vault_key_shares := update_where P f (vault_key_shares d)\<rparr>)"
    using assms by (auto simp: db_ok_def shares_ok_def set_update_where share_row_ok_def)
qed

lemma keeps_update_shares [inv_intros]:
  "(\<And>d s. share_key (f d s) = share_key s \<and> kr_role (f d s) = kr_role s
      \<and> kr_granted_via_team (f d s) = kr_granted_via_team s) \<Longrightarrow>
   keeps db_ok (update_shares P f)"
  by (simp add: keeps_def update_shares_def eff_simps db_ok_update_shares)

lemma keeps_delete_shares [inv_intros]: "keeps db_ok (delete_shares P)"
  by (auto simp: keeps_def delete_shares_def eff_simps intro!: db_ok_shares)
    (auto simp: db_ok_def shares_ok_def distinct_map_filter_key)

lemma keeps_insert_vault [inv_intros]: "keeps db_ok (insert_vault v envelope)"
  by (auto simp: keeps_def insert_vault_def eff_simps intro!: db_ok_vaults)
    (auto simp: db_ok_def vaults_ok_def vault_ids_def user_ids_def)

lemma share_role_db_ok: "vault_share_role_to_db_str role \<in> {''read'', ''write'', ''admin''}"
  by (cases role) simp_all

lemma shares_ok_append:
  assumes "shares_ok d" "share_key row \<notin> set (map share_key (vault_key_shares d))"
    and "share_refs_ok row d" "share_row_ok row"
  shows "shares_ok (d\<lparr>vault_key_shares := vault_key_shares d @ [row]\<rparr>)"
  using assms
  by (auto simp: shares_ok_def share_refs_ok_def vault_ids_def user_ids_def team_ids_def
      split: option.splits)

lemma shares_ok_upsert:
  assumes "shares_ok d" "share_refs_ok row d" "share_row_ok row"
  shows "shares_ok (d\<lparr>vault_key_shares :=
    update_where (\<lambda>s. share_key s = share_key row) (\<lambda>_. row) (vault_key_shares d)\<rparr>)"
proof -
  have "map share_key (update_where (\<lambda>s. share_key s = share_key row) (\<lambda>_. row) (vault_key_shares d))
      = map share_key (vault_key_shares d)"
    by (intro map_update_where_same) simp
  then show ?thesis
    using assms
    by (auto simp: shares_ok_def share_refs_ok_def set_update_where vault_ids_def user_ids_def
        team_ids_def split: option.splits)
qed

lemma keeps_insert_key_share [inv_intros]: "keeps db_ok (insert_key_share vid uid e by via role)"
proof (unfold keeps_def, intro allI impI)
  fix d
  assume ok: "db_ok d"
  let ?row = "\<lparr>kr_vault_id = vid, kr_user_id = uid, kr_key_envelope = e, kr_granted_by = by,
    kr_granted_via_team = via, kr_granted_at = db_clock d,
    kr_role = vault_share_role_to_db_str role\<rparr>"
  have row: "share_row_ok ?row"
    using share_role_db_ok [of role] by (simp add: share_row_ok_def)
  show "db_ok (snd (insert_key_share vid uid e by via role d))"
  proof (cases "share_refs_ok ?row d")
    case True
    then show ?thesis
      using ok row shares_ok_append [of d ?row] shares_ok_upsert [of d ?row]
      by (auto simp: insert_key_share_def eff_simps Let_def db_ok_def)
  next
    case False
    then show ?thesis using ok by (simp add: insert_key_share_def eff_simps Let_def)
  qed
qed

lemma keeps_insert_rotated_share [inv_intros]: "keeps db_ok (insert_rotated_share vid actor share)"
proof (unfold keeps_def, intro allI impI)
  fix d
  assume ok: "db_ok d"
  obtain uid e via where share: "share = (uid, e, via)" by (cases share)
  let ?row = "\<lparr>kr_vault_id = vid, kr_user_id = uid, kr_key_envelope = e, kr_granted_by = actor,
    kr_granted_via_team = via, kr_granted_at = db_clock d, kr_role = ''read''\<rparr>"
  have "share_row_ok ?row" by (simp add: share_row_ok_def)
  then show "db_ok (snd (insert_rotated_share vid actor share d))"
    using ok shares_ok_append [of d ?row]
    by (auto simp: insert_rotated_share_def share eff_simps Let_def db_ok_def)
qed

lemma db_ok_trash_secrets:
  assumes "db_ok d"
  shows "db_ok (d\<lparr>secret_items := update_where P (\<lambda>s. s\<lparr>sr_deleted_at := t\<rparr>) (secret_items d)\<rparr>)"
proof (rule db_ok_secrets [OF assms])
  have "map sr_id (update_where P (\<lambda>s. s\<lparr>sr_deleted_at := t\<rparr>) (secret_items d)) = map sr_id (secret_items d)"
    by (intro map_update_where_same) simp
  then show "secrets_ok (d\<lparr>secret_items := update_where P (\<lambda>s. s\<lparr>sr_deleted_at := t\<rparr>) (secret_items d)\<rparr>)"
    using assms by (auto simp: db_ok_def secrets_ok_def set_update_where secret_row_ok_def)
qed

lemma keeps_trash_secrets [inv_intros]:
  "keeps db_ok (modifyE (\<lambda>d. d\<lparr>secret_items :=
     update_where P (\<lambda>s. s\<lparr>sr_deleted_at := t d\<rparr>) (secret_items d)\<rparr>))"
  by (simp add: keeps_def eff_simps db_ok_trash_secrets)

lemma keeps_user_envelope_change [inv_intros]:
  assumes "keeps_user_keys (\<lambda>_. set_column x)" "keeps_user_keys (\<lambda>_. set_column None)"
    and "\<And>x u. ur_email (set_column x u) = ur_email u"
    and "\<And>x. keeps_user_keys (\<lambda>_. set_column x)"
  shows "keeps db_ok (apply_user_envelope_change set_column uid change)"
proof -
  have "db_ok (d\<lparr>users := update_where (\<lambda>u. ur_id u = uid) (set_column x) (users d)\<rparr>)" if "db_ok d" for d x
  proof (rule db_ok_update_user [OF that assms(4) [of x]])
    have "map ur_email (update_where (\<lambda>u. ur_id u = uid) (set_column x) (users d)) = map ur_email (users d)"
      using assms(3) by (intro map_update_where_same) simp
    then show "distinct (filter (\<lambda>e. e \<noteq> None)
        (map ur_email (update_where (\<lambda>u. ur_id u = uid) (set_column x) (users d))))"
      using that by (simp add: db_ok_def users_ok_def)
  qed
  then show ?thesis
    by (cases change) (simp_all add: keeps_def apply_user_envelope_change_def eff_simps)
qed

lemma keeps_vault_repo [inv_intros]:
  "keeps db_ok (repo_create_vault v)"
  "keeps db_ok (create_vault_with_envelope v bs)"
  "keeps db_ok (repo_delete_vault vid)"
  "keeps db_ok (update_vault_key_envelope vid bs)"
  "keeps db_ok (update_vault_sort_order vid n)"
  "keeps db_ok (update_key_share_envelope vid uid bs)"
  "keeps db_ok (delete_key_share vid uid)"
  "keeps db_ok (delete_all_key_shares vid)"
  "keeps db_ok (delete_key_shares_for_user_via_team uid tid)"
  "keeps db_ok (replace_all_key_shares vid shares actor)"
  "keeps db_ok (rotate_owned ou)"
  "keeps db_ok (rotate_shared su)"
  unfolding repo_create_vault_def create_vault_with_envelope_def repo_delete_vault_def
    update_vault_key_envelope_def update_vault_sort_order_def update_key_share_envelope_def
    delete_key_share_def delete_all_key_shares_def delete_key_shares_for_user_via_team_def
    replace_all_key_shares_def rotate_owned_def rotate_shared_def
  by (intro inv_intros; simp)+

lemma keeps_rotation [inv_intros]:
  "keeps db_ok (apply_master_key_rotation_atomically uid e os ss m)"
  unfolding apply_master_key_rotation_atomically_def
  by (intro inv_intros keeps_update_user; simp add: keeps_user_keys_def user_row_ok_def)

lemma keeps_vault_reads [inv_intros]:
  "keeps db_ok (vault_get_by_id vid)"
  "keeps db_ok (list_by_user_id uid)"
  "keeps db_ok (list_shared_vaults uid)"
  "keeps db_ok vault_list_all"
  "keeps db_ok (get_accessible_vaults uid)"
  "keeps db_ok (list_accessible_by_user uid)"
  "keeps db_ok (get_vault_with_permission uid vid)"
  "keeps db_ok (get_key_share vid uid)"
  "keeps db_ok (list_key_share_user_ids vid)"
  "keeps db_ok (get_vault_key_envelope vid)"
  unfolding vault_get_by_id_def list_by_user_id_def list_shared_vaults_def vault_list_all_def
    get_accessible_vaults_def list_accessible_by_user_def get_vault_with_permission_def
    get_key_share_def list_key_share_user_ids_def get_vault_key_envelope_def
  by (intro inv_intros)+

section \<open>Who has access to a vault\<close>

text \<open>
  The specification of the view: an active vault is accessible to its owner, with the
  administration role, and to the holders of its shares, with the role of the share.
\<close>

definition granted_access :: "uuid \<Rightarrow> vault_row \<Rightarrow> db \<Rightarrow> (vault_share_role \<times> vault_access_kind) option" where
  "granted_access uid v d =
     (if \<not> active_vault v then None
      else if vr_owner_user_id v = uid then Some (RoleAdmin, Owner)
      else case share_of (vr_id v) uid d of
        None \<Rightarrow> None
      | Some s \<Rightarrow> map_option (\<lambda>role.
          (role, if kr_granted_via_team s = None then DirectShare else TeamShare))
          (vault_share_role_from_db_str (kr_role s)))"

definition access_to :: "uuid \<Rightarrow> uuid \<Rightarrow> db \<Rightarrow> accessible_vault option" where
  "access_to uid vid d =
     (case vault_by_id vid d of
        None \<Rightarrow> None
      | Some v \<Rightarrow> map_option (\<lambda>(role, kind). \<lparr>av_vault = row_to_vault v, av_role = role,
          av_access_kind = kind, av_vault_key_version = vr_vault_key_version v\<rparr>)
          (granted_access uid v d))"

lemma accessible_rows_set:
  "r \<in> set (accessible_rows d) \<longleftrightarrow>
     (\<exists>v \<in> set (vaults d). active_vault v \<and>
        (r = access_row_of v (vr_owner_user_id v) ''admin'' ''owner'' \<or>
         (\<exists>s \<in> set (vault_key_shares d). kr_vault_id s = vr_id v
            \<and> vr_owner_user_id v \<noteq> kr_user_id s \<and> r = share_access_row v s)))"
  by (auto simp: accessible_rows_def)

lemma vault_by_id_iff:
  "db_ok d \<Longrightarrow> vault_by_id vid d = Some v \<longleftrightarrow> v \<in> set (vaults d) \<and> vr_id v = vid"
  unfolding vault_by_id_def by (rule find_row_iff) (simp add: db_ok_def vaults_ok_def)

lemma share_of_iff:
  "db_ok d \<Longrightarrow> share_of vid uid d = Some s \<longleftrightarrow>
     s \<in> set (vault_key_shares d) \<and> kr_vault_id s = vid \<and> kr_user_id s = uid"
  unfolding share_of_def by (subst find_row_iff) (auto simp: db_ok_def shares_ok_def)

lemma share_row_role:
  "db_ok d \<Longrightarrow> s \<in> set (vault_key_shares d) \<Longrightarrow> \<exists>role. vault_share_role_from_db_str (kr_role s) = Some role"
  by (auto simp: db_ok_def shares_ok_def share_row_ok_def vault_share_role_from_db_str_def)

lemma acc_sel [simp]:
  "acc_user_id (access_row_of v uid role kind) = uid"
  "acc_vault_id (access_row_of v uid role kind) = vr_id v"
  "acc_user_id (share_access_row v s) = kr_user_id s"
  "acc_vault_id (share_access_row v s) = vr_id v"
  by (simp_all add: access_row_of_def share_access_row_def)

lemma accessible_row_cases:
  assumes "db_ok d" "r \<in> set (accessible_rows d)" "acc_user_id r = uid" "acc_vault_id r = vid"
  obtains v where "vault_by_id vid d = Some v" "active_vault v" "vr_owner_user_id v = uid"
      "r = access_row_of v uid ''admin'' ''owner''"
  | v s where "vault_by_id vid d = Some v" "active_vault v" "vr_owner_user_id v \<noteq> uid"
      "share_of vid uid d = Some s" "r = share_access_row v s"
proof -
  obtain v where v: "v \<in> set (vaults d)" "active_vault v"
      "r = access_row_of v (vr_owner_user_id v) ''admin'' ''owner'' \<or>
        (\<exists>s \<in> set (vault_key_shares d). kr_vault_id s = vr_id v
           \<and> vr_owner_user_id v \<noteq> kr_user_id s \<and> r = share_access_row v s)"
    using assms(2) by (auto simp only: accessible_rows_set)
  have "vr_id v = vid" using v(3) assms(4) by auto
  then have vb: "vault_by_id vid d = Some v" using assms(1) v(1) by (simp add: vault_by_id_iff)
  show ?thesis
  proof (cases "r = access_row_of v (vr_owner_user_id v) ''admin'' ''owner''")
    case True
    then show ?thesis using that(1) [OF vb v(2)] assms(3) by simp
  next
    case False
    then obtain s where s: "s \<in> set (vault_key_shares d)" "kr_vault_id s = vr_id v"
        "vr_owner_user_id v \<noteq> kr_user_id s" "r = share_access_row v s"
      using v(3) by blast
    then have "share_of vid uid d = Some s"
      using assms(1,3) \<open>vr_id v = vid\<close> by (simp add: share_of_iff)
    then show ?thesis using that(2) [OF vb v(2)] s assms(3) by simp
  qed
qed

lemma find_accessible_row:
  assumes "db_ok d"
  shows "find (\<lambda>r. acc_user_id r = uid \<and> acc_vault_id r = vid) (accessible_rows d) =
    (case vault_by_id vid d of
       None \<Rightarrow> None
     | Some v \<Rightarrow>
         if \<not> active_vault v then None
         else if vr_owner_user_id v = uid then Some (access_row_of v uid ''admin'' ''owner'')
         else map_option (share_access_row v) (share_of vid uid d))"
    (is "find ?P _ = ?spec")
proof (cases ?spec)
  case None
  have "\<not> ?P r" if "r \<in> set (accessible_rows d)" for r
  proof
    assume "?P r"
    then have "acc_user_id r = uid" "acc_vault_id r = vid" by simp_all
    then show False
      by (rule accessible_row_cases [OF assms that]) (use None in simp_all)
  qed
  then show ?thesis using None by (simp add: find_None_iff)
next
  case (Some r)
  then obtain v where v: "vault_by_id vid d = Some v" "active_vault v"
    and r: "if vr_owner_user_id v = uid then r = access_row_of v uid ''admin'' ''owner''
      else \<exists>s. share_of vid uid d = Some s \<and> r = share_access_row v s"
    by (auto split: option.splits if_splits)
  have mem: "v \<in> set (vaults d)" "vr_id v = vid" using v(1) assms by (simp_all add: vault_by_id_iff)
  have "r \<in> set (accessible_rows d)" "?P r"
    using r v(2) mem assms
    by (auto simp: accessible_rows_set share_of_iff split: if_splits)
  moreover have "r' = r" if "r' \<in> set (accessible_rows d)" "?P r'" for r'
  proof -
    have "acc_user_id r' = uid" "acc_vault_id r' = vid" using that(2) by simp_all
    then show ?thesis
      by (rule accessible_row_cases [OF assms that(1)]) (use v(1) r in auto)
  qed
  ultimately have "find ?P (accessible_rows d) = Some r" by (rule find_unique)
  then show ?thesis using Some by simp
qed

end
