(* ===== verification/HV_VaultAccess.thy ===== *)
theory HV_VaultAccess
  imports HV_VaultRepo
begin

text \<open>
  What the vault repository guarantees: who has access to a vault, what deleting a vault does,
  and that the rotation of a user's key happens wholly or not at all.
\<close>

section \<open>Access\<close>

lemma row_to_accessible_vault_written:
  "row_to_accessible_vault (access_row_of v uid (vault_share_role_to_db_str role) ''owner'') =
     Inr \<lparr>av_vault = row_to_vault v, av_role = role, av_access_kind = Owner,
          av_vault_key_version = vr_vault_key_version v\<rparr>"
  by (simp add: row_to_accessible_vault_def access_row_of_def row_to_vault_def
      vault_access_kind_from_db_str_def)

lemma row_to_accessible_vault_share:
  "vault_share_role_from_db_str (kr_role s) = Some role \<Longrightarrow>
   row_to_accessible_vault (share_access_row v s) =
     Inr \<lparr>av_vault = row_to_vault v, av_role = role,
          av_access_kind = (if kr_granted_via_team s = None then DirectShare else TeamShare),
          av_vault_key_version = vr_vault_key_version v\<rparr>"
  by (simp add: row_to_accessible_vault_def share_access_row_def access_row_of_def row_to_vault_def
      vault_access_kind_from_db_str_def)

lemma get_vault_with_permission_run:
  assumes "db_ok d"
  shows "get_vault_with_permission uid vid d = (Inr (access_to uid vid d), d)"
proof (cases "vault_by_id vid d")
  case None
  then show ?thesis
    using find_accessible_row [OF assms, of uid vid]
    by (simp add: get_vault_with_permission_def eff_simps access_to_def)
next
  case (Some v)
  then have vid: "vr_id v = vid" using assms by (simp add: vault_by_id_iff)
  show ?thesis
  proof (cases "active_vault v \<and> vr_owner_user_id v \<noteq> uid")
    case False
    then show ?thesis
      using find_accessible_row [OF assms, of uid vid] Some
        row_to_accessible_vault_written [of v uid RoleAdmin]
      by (simp add: get_vault_with_permission_def eff_simps access_to_def granted_access_def)
  next
    case True
    show ?thesis
    proof (cases "share_of vid uid d")
      case None
      then show ?thesis
        using find_accessible_row [OF assms, of uid vid] Some True vid
        by (simp add: get_vault_with_permission_def eff_simps access_to_def granted_access_def)
    next
      case share: (Some s)
      then obtain role where role: "vault_share_role_from_db_str (kr_role s) = Some role"
        using share_row_role [OF assms, of s] assms by (auto simp: share_of_iff)
      show ?thesis
        using find_accessible_row [OF assms, of uid vid] Some True vid share role
          row_to_accessible_vault_share [OF role, of v]
        by (simp add: get_vault_with_permission_def eff_simps access_to_def granted_access_def)
    qed
  qed
qed

text \<open>
  C29: A user's permission on a vault is what ownership and shares say: the query answers the
  administration role to the owner of an active vault, the role of the share to the holder of
  one, and nothing to anybody else, for a deleted vault, or for one that does not exist. It never
  fails on a database whose constraints hold and changes nothing.
\<close>

theorem vault_permission_spec:
  assumes "db_ok d"
  shows "get_vault_with_permission uid vid d = (Inr (access_to uid vid d), d)"
  by (rule get_vault_with_permission_run [OF assms])

definition sample_db :: db where
  "sample_db = (empty_db ''now'')
     \<lparr>users := [new_user_row 1 ''amy'' Admin, new_user_row 2 ''bob'' User],
      vaults := [\<lparr>vr_id = 10, vr_owner_user_id = 1, vr_name = ''home'',
        vr_vault_key_envelope = Some [1, 2], vr_vault_key_version = 1, vr_sort_order = 0,
        vr_deleted_at = None\<rparr>],
      vault_key_shares := [\<lparr>kr_vault_id = 10, kr_user_id = 2, kr_key_envelope = [3],
        kr_granted_by = Some 1, kr_granted_via_team = None, kr_granted_at = ''then'',
        kr_role = ''write''\<rparr>]\<rparr>"

lemma sample_db_ok: "db_ok sample_db"
  by (simp add: sample_db_def empty_db_def db_ok_def db_part_defs user_row_ok_def new_user_row_def
      share_row_ok_def)

theorem vault_permission_spec_witness:
  "get_vault_with_permission 2 10 sample_db =
     (Inr (Some \<lparr>av_vault = \<lparr>v_id = 10, v_owner_user_id = 1, v_name = ''home''\<rparr>,
       av_role = RoleWrite, av_access_kind = DirectShare, av_vault_key_version = 1\<rparr>), sample_db)"
  by (subst vault_permission_spec [OF sample_db_ok])
    (simp add: access_to_def granted_access_def sample_db_def empty_db_def vault_by_id_def
      share_of_def active_vault_def row_to_vault_def vault_share_role_from_db_str_def)

section \<open>Deleting a vault\<close>

definition trashed_vault :: "uuid \<Rightarrow> db \<Rightarrow> db" where
  "trashed_vault vid d = d
     \<lparr>vaults := update_where (\<lambda>v. vr_id v = vid \<and> active_vault v)
        (\<lambda>v. v\<lparr>vr_deleted_at := Some (db_clock d)\<rparr>) (vaults d),
      secret_items := update_where (\<lambda>s. sr_vault_id s = vid \<and> sr_deleted_at s = None)
        (\<lambda>s. s\<lparr>sr_deleted_at := Some (db_clock d)\<rparr>) (secret_items d)\<rparr>"

lemma repo_delete_vault_run:
  "repo_delete_vault vid d =
     (if \<exists>v \<in> set (vaults d). vr_id v = vid \<and> active_vault v
      then (Inr (), trashed_vault vid d)
      else (Inl (NotFound ''vault not found''), d))"
  by (auto simp: repo_delete_vault_def update_vaults_def eff_simps trashed_vault_def)

lemma vault_by_id_trashed:
  "vault_by_id v (trashed_vault vid d) =
     (if v = vid then map_option (\<lambda>r. if active_vault r then r\<lparr>vr_deleted_at := Some (db_clock d)\<rparr> else r)
        (vault_by_id v d)
      else vault_by_id v d)"
proof -
  have "find_row vr_id v (update_where (\<lambda>v. vr_id v = vid \<and> active_vault v)
      (\<lambda>v. v\<lparr>vr_deleted_at := Some (db_clock d)\<rparr>) rs) =
    (if v = vid then map_option (\<lambda>r. if active_vault r then r\<lparr>vr_deleted_at := Some (db_clock d)\<rparr> else r)
        (find_row vr_id v rs) else find_row vr_id v rs)" for rs
    by (induction rs) auto
  then show ?thesis by (simp add: vault_by_id_def trashed_vault_def)
qed

lemma granted_access_trashed [simp]:
  "granted_access uid v (trashed_vault vid d) = granted_access uid v d"
  by (simp add: granted_access_def share_of_def trashed_vault_def)

lemma access_to_trashed:
  "access_to uid v (trashed_vault vid d) = (if v = vid then None else access_to uid v d)"
proof (cases "v = vid")
  case True
  then show ?thesis
    by (auto simp: access_to_def vault_by_id_trashed granted_access_def active_vault_def split: option.split)
next
  case False
  then show ?thesis by (cases "vault_by_id v d") (simp_all add: access_to_def vault_by_id_trashed)
qed

lemma access_to_log [simp]: "access_to uid v (d\<lparr>audit_log := rows\<rparr>) = access_to uid v d"
  by (cases "vault_by_id v d") (simp_all add: access_to_def granted_access_def share_of_def vault_by_id_def)

text \<open>
  Deleting an active vault hides it from everybody, its owner and the holders of its shares
  included, and puts every one of its secrets in the trash, while other vaults and their secrets
  are untouched and no row is lost; deleting a vault that is not there or already deleted is an
  error and changes nothing.
\<close>

theorem delete_vault_hides:
  assumes "db_ok d"
  shows "case repo_delete_vault vid d of
     (Inl e, d') \<Rightarrow> e = NotFound ''vault not found'' \<and> d' = d
       \<and> (\<forall>v. vault_by_id vid d = Some v \<longrightarrow> \<not> active_vault v)
   | (Inr _, d') \<Rightarrow> db_ok d' \<and> (\<exists>v. vault_by_id vid d = Some v \<and> active_vault v)
       \<and> (\<forall>uid. access_to uid vid d' = None)
       \<and> (\<forall>uid w. w \<noteq> vid \<longrightarrow> access_to uid w d' = access_to uid w d)
       \<and> (\<forall>s \<in> set (secret_items d'). sr_vault_id s = vid \<longrightarrow> sr_deleted_at s \<noteq> None)
       \<and> filter (\<lambda>s. sr_vault_id s \<noteq> vid) (secret_items d') =
           filter (\<lambda>s. sr_vault_id s \<noteq> vid) (secret_items d)
       \<and> map sr_id (secret_items d') = map sr_id (secret_items d)"
proof (cases "\<exists>v \<in> set (vaults d). vr_id v = vid \<and> active_vault v")
  case False
  then have "repo_delete_vault vid d = (Inl (NotFound ''vault not found''), d)"
    by (simp add: repo_delete_vault_run)
  then show ?thesis using False assms by (auto simp: vault_by_id_iff)
next
  case True
  let ?d = "trashed_vault vid d"
  have run: "repo_delete_vault vid d = (Inr (), ?d)" using True by (simp add: repo_delete_vault_run)
  have ok: "db_ok ?d" using keepsD [OF keeps_vault_repo(3) assms] run by (metis snd_conv)
  have "\<forall>s \<in> set (secret_items ?d). sr_vault_id s = vid \<longrightarrow> sr_deleted_at s \<noteq> None"
    by (simp add: trashed_vault_def set_update_where del: if_image_distrib)
  moreover have "filter (\<lambda>s. sr_vault_id s \<noteq> vid) (update_where (\<lambda>s. sr_vault_id s = vid \<and> sr_deleted_at s = None)
      (\<lambda>s. s\<lparr>sr_deleted_at := t\<rparr>) ss) = filter (\<lambda>s. sr_vault_id s \<noteq> vid) ss" for t ss
    by (induction ss) auto
  then have "filter (\<lambda>s. sr_vault_id s \<noteq> vid) (secret_items ?d) =
      filter (\<lambda>s. sr_vault_id s \<noteq> vid) (secret_items d)"
    by (simp add: trashed_vault_def)
  moreover have "map sr_id (secret_items ?d) = map sr_id (secret_items d)"
    by (simp add: trashed_vault_def map_update_where_same)
  ultimately show ?thesis
    using True ok assms by (simp add: run access_to_trashed) (metis vault_by_id_iff)
qed

theorem delete_vault_hides_witness:
  "(\<exists>d'. repo_delete_vault 10 sample_db = (Inr (), d') \<and> access_to 1 10 d' = None
     \<and> access_to 2 10 d' = None)"
  using delete_vault_hides [OF sample_db_ok, of 10]
  by (auto simp: repo_delete_vault_run sample_db_def empty_db_def active_vault_def
      split: if_splits)

section \<open>Rotation of keys\<close>

text \<open>The table of vaults after an envelope was rewritten for each listed vault.\<close>

definition with_envelopes :: "(uuid \<rightharpoonup> bytes) \<Rightarrow> vault_row \<Rightarrow> vault_row" where
  "with_envelopes m v = (case m (vr_id v) of None \<Rightarrow> v
     | Some e \<Rightarrow> v\<lparr>vr_vault_key_envelope := Some e\<rparr>)"

definition with_share_envelopes :: "(uuid \<times> uuid \<rightharpoonup> bytes) \<Rightarrow> share_row \<Rightarrow> share_row" where
  "with_share_envelopes m s = (case m (share_key s) of None \<Rightarrow> s
     | Some e \<Rightarrow> s\<lparr>kr_key_envelope := e\<rparr>)"

definition owner_map :: "vault_envelope_update list \<Rightarrow> uuid \<rightharpoonup> bytes" where
  "owner_map us = map_of (map (\<lambda>u. (veu_vault_id u, veu_key_envelope u)) (rev us))"

definition share_map :: "vault_share_envelope_update list \<Rightarrow> uuid \<times> uuid \<rightharpoonup> bytes" where
  "share_map us = map_of (map (\<lambda>u. ((vsu_vault_id u, vsu_user_id u), vsu_key_envelope u)) (rev us))"

lemma owner_map_Cons:
  "owner_map (u # us) = [veu_vault_id u \<mapsto> veu_key_envelope u] ++ owner_map us"
  by (simp add: owner_map_def)

lemma share_map_Cons:
  "share_map (u # us) = [(vsu_vault_id u, vsu_user_id u) \<mapsto> vsu_key_envelope u] ++ share_map us"
  by (simp add: share_map_def)

lemma with_envelopes_id [simp]:
  "vr_id (with_envelopes m v) = vr_id v"
  "vr_owner_user_id (with_envelopes m v) = vr_owner_user_id v"
  "vr_deleted_at (with_envelopes m v) = vr_deleted_at v"
  by (simp_all add: with_envelopes_def split: option.split)

lemma with_share_envelopes_id [simp]:
  "kr_vault_id (with_share_envelopes m s) = kr_vault_id s"
  "kr_user_id (with_share_envelopes m s) = kr_user_id s"
  "kr_role (with_share_envelopes m s) = kr_role s"
  "kr_granted_via_team (with_share_envelopes m s) = kr_granted_via_team s"
  by (simp_all add: with_share_envelopes_def split: option.split)

lemma rotate_owned_run:
  "rotate_owned u d =
     (if veu_vault_id u \<in> vault_ids d
      then (Inr (), d\<lparr>vaults := map (with_envelopes [veu_vault_id u \<mapsto> veu_key_envelope u]) (vaults d)\<rparr>)
      else (Inl (Storage ''vault not found for owner envelope update''), d))"
proof -
  have "update_where (\<lambda>v. vr_id v = veu_vault_id u)
      (\<lambda>v. v\<lparr>vr_vault_key_envelope := Some (veu_key_envelope u)\<rparr>) vs =
    map (with_envelopes [veu_vault_id u \<mapsto> veu_key_envelope u]) vs" for vs
    by (induction vs) (auto simp: with_envelopes_def)
  moreover have "map (with_envelopes [veu_vault_id u \<mapsto> veu_key_envelope u]) (vaults d) = vaults d"
    if "veu_vault_id u \<notin> vault_ids d"
    using that by (intro map_idI) (force simp: with_envelopes_def vault_ids_def)
  ultimately show ?thesis
    by (force simp: rotate_owned_def update_vaults_def eff_simps vault_ids_def ensure_def image_iff)
qed

lemma rotate_shared_run:
  "rotate_shared u d =
     (if (vsu_vault_id u, vsu_user_id u) \<in> share_key ` set (vault_key_shares d)
      then (Inr (), d\<lparr>vault_key_shares :=
        map (with_share_envelopes [(vsu_vault_id u, vsu_user_id u) \<mapsto> vsu_key_envelope u]) (vault_key_shares d)\<rparr>)
      else (Inl (Storage ''vault key share not found for envelope update''), d))"
proof -
  have "update_where (\<lambda>s. kr_vault_id s = vsu_vault_id u \<and> kr_user_id s = vsu_user_id u)
      (\<lambda>s. s\<lparr>kr_key_envelope := vsu_key_envelope u\<rparr>) ss =
    map (with_share_envelopes [(vsu_vault_id u, vsu_user_id u) \<mapsto> vsu_key_envelope u]) ss" for ss
    by (induction ss) (auto simp: with_share_envelopes_def)
  moreover have "map (with_share_envelopes [(vsu_vault_id u, vsu_user_id u) \<mapsto> vsu_key_envelope u])
      (vault_key_shares d) = vault_key_shares d"
    if "(vsu_vault_id u, vsu_user_id u) \<notin> share_key ` set (vault_key_shares d)"
    using that by (intro map_idI) (force simp: with_share_envelopes_def)
  ultimately show ?thesis
    by (force simp: rotate_shared_def update_shares_def eff_simps ensure_def image_iff)
qed

lemma with_envelopes_add:
  "with_envelopes m2 (with_envelopes m1 v) = with_envelopes (m1 ++ m2) v"
  by (auto simp: with_envelopes_def map_add_def split: option.split)

lemma with_share_envelopes_add:
  "with_share_envelopes m2 (with_share_envelopes m1 s) = with_share_envelopes (m1 ++ m2) s"
  by (auto simp: with_share_envelopes_def map_add_def split: option.split)

lemma with_envelopes_empty [simp]: "with_envelopes Map.empty = (\<lambda>v. v)"
  by (simp add: with_envelopes_def fun_eq_iff)

lemma with_share_envelopes_empty [simp]: "with_share_envelopes Map.empty = (\<lambda>s. s)"
  by (simp add: with_share_envelopes_def fun_eq_iff)

lemma for_rotate_owned_ok:
  "fst (forE us rotate_owned d) = Inr () \<longleftrightarrow> veu_vault_id ` set us \<subseteq> vault_ids d"
proof (induction us arbitrary: d)
  case (Cons u us)
  let ?d = "d\<lparr>vaults := map (with_envelopes [veu_vault_id u \<mapsto> veu_key_envelope u]) (vaults d)\<rparr>"
  have "vault_ids ?d = vault_ids d" by (simp add: vault_ids_def image_image)
  then show ?case using Cons.IH [of ?d] by (simp add: eff_simps rotate_owned_run [of u d])
qed (simp add: eff_simps)

lemma for_rotate_owned:
  "veu_vault_id ` set us \<subseteq> vault_ids d \<Longrightarrow>
   forE us rotate_owned d = (Inr (), d\<lparr>vaults := map (with_envelopes (owner_map us)) (vaults d)\<rparr>)"
proof (induction us arbitrary: d)
  case (Cons u us)
  let ?d = "d\<lparr>vaults := map (with_envelopes [veu_vault_id u \<mapsto> veu_key_envelope u]) (vaults d)\<rparr>"
  have "vault_ids ?d = vault_ids d" by (simp add: vault_ids_def image_image)
  then show ?case
    using Cons by (simp add: eff_simps rotate_owned_run [of u d] owner_map_Cons with_envelopes_add comp_def)
qed (simp add: eff_simps owner_map_def)

lemma for_rotate_shared_ok:
  "fst (forE us rotate_shared d) = Inr () \<longleftrightarrow>
     (\<lambda>u. (vsu_vault_id u, vsu_user_id u)) ` set us \<subseteq> share_key ` set (vault_key_shares d)"
proof (induction us arbitrary: d)
  case (Cons u us)
  let ?d = "d\<lparr>vault_key_shares := map (with_share_envelopes
    [(vsu_vault_id u, vsu_user_id u) \<mapsto> vsu_key_envelope u]) (vault_key_shares d)\<rparr>"
  show ?case
    using Cons.IH [of ?d] by (simp add: eff_simps rotate_shared_run [of u d] image_image)
qed (simp add: eff_simps)

lemma for_rotate_shared:
  "(\<lambda>u. (vsu_vault_id u, vsu_user_id u)) ` set us \<subseteq> share_key ` set (vault_key_shares d) \<Longrightarrow>
   forE us rotate_shared d =
     (Inr (), d\<lparr>vault_key_shares := map (with_share_envelopes (share_map us)) (vault_key_shares d)\<rparr>)"
proof (induction us arbitrary: d)
  case (Cons u us)
  then show ?case
    by (simp add: eff_simps rotate_shared_run [of u d] share_map_Cons with_share_envelopes_add comp_def
        image_image)
qed (simp add: eff_simps share_map_def)

fun changed :: "user_envelope_change \<Rightarrow> bytes option \<Rightarrow> bytes option" where
  "changed Keep x = x"
| "changed (Replace e) x = Some e"
| "changed Clear x = None"

definition rotated_user :: "bytes \<Rightarrow> user_key_material_update \<Rightarrow> string \<Rightarrow> user_row \<Rightarrow> user_row" where
  "rotated_user e m clock u = u\<lparr>ur_password_envelope := Some e,
     ur_totp_secret := changed (km_totp_secret m) (ur_totp_secret u),
     ur_recovery_phrase_envelope := changed (km_recovery_phrase_envelope m) (ur_recovery_phrase_envelope u),
     ur_recovery_key_envelope := changed (km_recovery_key_envelope m) (ur_recovery_key_envelope u),
     ur_updated_at := Some clock\<rparr>"

definition rotated :: "uuid \<Rightarrow> bytes \<Rightarrow> vault_envelope_update list \<Rightarrow> vault_share_envelope_update list
    \<Rightarrow> user_key_material_update \<Rightarrow> db \<Rightarrow> db" where
  "rotated uid e us ss m d = d
     \<lparr>users := update_where (\<lambda>u. ur_id u = uid) (rotated_user e m (db_clock d)) (users d),
      vaults := map (with_envelopes (owner_map us)) (vaults d),
      vault_key_shares := map (with_share_envelopes (share_map ss)) (vault_key_shares d)\<rparr>"

definition rotation_targets :: "uuid \<Rightarrow> vault_envelope_update list \<Rightarrow> vault_share_envelope_update list
    \<Rightarrow> db \<Rightarrow> bool" where
  "rotation_targets uid us ss d \<longleftrightarrow> uid \<in> user_ids d
     \<and> veu_vault_id ` set us \<subseteq> vault_ids d
     \<and> (\<lambda>s. (vsu_vault_id s, vsu_user_id s)) ` set ss \<subseteq> share_key ` set (vault_key_shares d)"

definition change_column :: "(bytes option \<Rightarrow> user_row \<Rightarrow> user_row) \<Rightarrow> user_envelope_change
    \<Rightarrow> user_row \<Rightarrow> user_row" where
  "change_column set_column change u =
     (case change of Keep \<Rightarrow> u | Replace e \<Rightarrow> set_column (Some e) u | Clear \<Rightarrow> set_column None u)"

lemma change_column_simps:
  "change_column set_column Keep = (\<lambda>u. u)"
  "change_column set_column (Replace e) = set_column (Some e)"
  "change_column set_column Clear = set_column None"
  by (simp_all add: change_column_def fun_eq_iff)

lemma apply_user_envelope_change_run:
  "apply_user_envelope_change set_column uid change d =
     (Inr (), d\<lparr>users := update_where (\<lambda>u. ur_id u = uid) (change_column set_column change) (users d)\<rparr>)"
proof -
  have "update_where P (\<lambda>u. u) rs = rs" for P and rs :: "user_row list"
    by (induction rs) auto
  then show ?thesis
    by (cases change) (simp_all add: apply_user_envelope_change_def change_column_simps eff_simps)
qed

lemma update_where_twice:
  "(\<And>r. P (g r) = P r) \<Longrightarrow> update_where P f (update_where P g rs) = update_where P (\<lambda>r. f (g r)) rs"
  by (induction rs) auto

lemma rotated_user_columns:
  "change_column (\<lambda>x u. u\<lparr>ur_recovery_key_envelope := x\<rparr>) (km_recovery_key_envelope m)
    (change_column (\<lambda>x u. u\<lparr>ur_totp_secret := x\<rparr>) (km_totp_secret m)
     (change_column (\<lambda>x u. u\<lparr>ur_recovery_phrase_envelope := x\<rparr>) (km_recovery_phrase_envelope m)
      (u\<lparr>ur_password_envelope := Some e, ur_updated_at := Some clock\<rparr>))) = rotated_user e m clock u"
  by (simp add: change_column_def rotated_user_def split: user_envelope_change.split)

lemma change_column_id:
  "(\<And>x. ur_id (set_column x u) = ur_id u) \<Longrightarrow> ur_id (change_column set_column change u) = ur_id u"
  by (simp add: change_column_def split: user_envelope_change.split)

lemma rotation_run:
  "case apply_master_key_rotation_atomically uid e us ss m d of
     (Inr _, d') \<Rightarrow> rotation_targets uid us ss d \<and> d' = rotated uid e us ss m d
   | (Inl _, d') \<Rightarrow> \<not> rotation_targets uid us ss d \<and> d' = d"
proof -
  let ?f = "\<lambda>d u. u\<lparr>ur_password_envelope := Some e, ur_updated_at := Some (db_clock d)\<rparr>"
  let ?err = "NotFound ''user not found for rotation''"
  let ?us = "update_where (\<lambda>u. ur_id u = uid) (rotated_user e m (db_clock d)) (users d)"
  let ?rest = "bindE (forE us rotate_owned) (\<lambda>_. forE ss rotate_shared)"
  have run: "apply_master_key_rotation_atomically uid e us ss m d =
      transactionE (\<lambda>d. if uid \<in> user_ids d then ?rest (d\<lparr>users := ?us\<rparr>) else (Inl ?err, d)) d"
  proof (cases "uid \<in> user_ids d")
    case True
    then have "update_user uid ?f ?err d =
        (Inr (), d\<lparr>users := update_where (\<lambda>u. ur_id u = uid) (?f d) (users d)\<rparr>)"
      by (simp add: update_user_Inr)
    then have "bindE (update_user uid ?f ?err) (\<lambda>_.
         bindE (apply_user_envelope_change (\<lambda>x u. u\<lparr>ur_recovery_phrase_envelope := x\<rparr>) uid
           (km_recovery_phrase_envelope m)) (\<lambda>_.
         bindE (apply_user_envelope_change (\<lambda>x u. u\<lparr>ur_totp_secret := x\<rparr>) uid (km_totp_secret m)) (\<lambda>_.
         bindE (apply_user_envelope_change (\<lambda>x u. u\<lparr>ur_recovery_key_envelope := x\<rparr>) uid
           (km_recovery_key_envelope m)) (\<lambda>_. ?rest)))) d = ?rest (d\<lparr>users := ?us\<rparr>)"
      by (simp add: bindE_run [of "update_user uid ?f ?err"]
          bindE_run [of "apply_user_envelope_change _ _ _"] apply_user_envelope_change_run
          update_where_twice change_column_id rotated_user_columns)
    then show ?thesis
      using True by (simp only: apply_master_key_rotation_atomically_def transactionE_run if_True)
  next
    case False
    then have "update_user uid ?f ?err d = (Inl ?err, d)"
      by (cases "update_user uid ?f ?err d"; cases "fst (update_user uid ?f ?err d)")
        (auto simp: update_user_Inr dest: update_user_Inl)
    then show ?thesis
      using False by (simp add: apply_master_key_rotation_atomically_def transactionE_run bindE_run)
  qed
  have ids: "vault_ids (d\<lparr>users := ?us\<rparr>) = vault_ids d" by simp
  show ?thesis
  proof (cases "rotation_targets uid us ss d")
    case True
    then show ?thesis
      by (simp add: run transactionE_run bindE_run rotation_targets_def for_rotate_owned
          for_rotate_shared rotated_def)
  next
    case False
    then show ?thesis
      using for_rotate_owned_ok [of us "d\<lparr>users := ?us\<rparr>"] for_rotate_owned [of us "d\<lparr>users := ?us\<rparr>"]
        for_rotate_shared_ok [of ss "d\<lparr>users := ?us, vaults := map (with_envelopes (owner_map us)) (vaults d)\<rparr>"]
      by (auto simp: run transactionE_run bindE_run rotation_targets_def split: sum.splits)
  qed
qed

text \<open>
  C31: The rotation of a user's key is all or nothing. It succeeds exactly when the user, every
  listed vault and every listed share exist; then the user's password envelope is the new one, the
  three other envelopes are kept, replaced or cleared as asked, each listed vault or share holds
  the last envelope listed for it, and every other row is as before. Otherwise the database is
  exactly what it was.
\<close>

theorem rotation_all_or_nothing:
  "case apply_master_key_rotation_atomically uid e us ss m d of
     (Inr _, d') \<Rightarrow> rotation_targets uid us ss d \<and> d' = rotated uid e us ss m d
   | (Inl _, d') \<Rightarrow> \<not> rotation_targets uid us ss d \<and> d' = d"
  by (rule rotation_run)

fun rotated_share_row :: "uuid \<Rightarrow> uuid option \<Rightarrow> string \<Rightarrow> uuid \<times> bytes \<times> uuid option \<Rightarrow> share_row" where
  "rotated_share_row vid actor clock (uid, e, via) =
     \<lparr>kr_vault_id = vid, kr_user_id = uid, kr_key_envelope = e, kr_granted_by = actor,
      kr_granted_via_team = via, kr_granted_at = clock, kr_role = ''read''\<rparr>"

lemma insert_rotated_share_Inr:
  "insert_rotated_share vid actor share d = (Inr x, d') \<Longrightarrow>
   d' = d\<lparr>vault_key_shares := vault_key_shares d @ [rotated_share_row vid actor (db_clock d) share]\<rparr>"
  by (cases share) (auto simp: insert_rotated_share_def eff_simps Let_def split: if_splits)

lemma for_insert_rotated_share_Inr:
  "forE shares (insert_rotated_share vid actor) d = (Inr x, d') \<Longrightarrow>
   d' = d\<lparr>vault_key_shares := vault_key_shares d @ map (rotated_share_row vid actor (db_clock d)) shares\<rparr>"
proof (induction shares arbitrary: d)
  case (Cons s shares)
  then obtain x1 d1 where "insert_rotated_share vid actor s d = (Inr x1, d1)"
      "forE shares (insert_rotated_share vid actor) d1 = (Inr x, d')"
    by (auto simp: bindE_Inr_iff)
  then have "d1 = d\<lparr>vault_key_shares := vault_key_shares d @ [rotated_share_row vid actor (db_clock d) s]\<rparr>"
      "d' = d1\<lparr>vault_key_shares := vault_key_shares d1
         @ map (rotated_share_row vid actor (db_clock d1)) shares\<rparr>"
    by (auto dest: insert_rotated_share_Inr intro: Cons.IH)
  then show ?case by simp
qed (simp add: returnE_def)

lemma rotated_share_row_sel [simp]:
  "kr_vault_id (rotated_share_row vid actor c s) = vid"
  "kr_role (rotated_share_row vid actor c s) = ''read''"
  by (cases s; simp)+

declare rotated_share_row.simps [simp del]

text \<open>
  Rotating the shares of a vault replaces all of them at once: on an error no share changes,
  and on success the vault's shares are the given ones, in their order, granted by the rotating
  user, each with the role read, whatever role it had before; the shares of other vaults stay.
\<close>

theorem share_rotation_downgrades:
  assumes "replace_all_key_shares vid shares actor d = (r, d')"
  shows "(case r of Inl _ \<Rightarrow> d' = d
     | Inr _ \<Rightarrow>
         filter (\<lambda>s. kr_vault_id s = vid) (vault_key_shares d') =
           map (rotated_share_row vid actor (db_clock d)) shares
         \<and> (\<forall>s \<in> set (vault_key_shares d'). kr_vault_id s = vid \<longrightarrow> kr_role s = ''read'')
         \<and> filter (\<lambda>s. kr_vault_id s \<noteq> vid) (vault_key_shares d') =
           filter (\<lambda>s. kr_vault_id s \<noteq> vid) (vault_key_shares d))"
proof (cases r)
  case (Inl e)
  then show ?thesis using assms by (auto simp: replace_all_key_shares_def dest: transactionE_Inl_state)
next
  case (Inr x)
  have "d' = d\<lparr>vault_key_shares := filter (\<lambda>s. kr_vault_id s \<noteq> vid) (vault_key_shares d)
      @ map (rotated_share_row vid actor (db_clock d)) shares\<rparr>"
    using assms unfolding Inr replace_all_key_shares_def transactionE_Inr_iff delete_shares_def
    by (auto simp: eff_iffs dest!: for_insert_rotated_share_Inr)
  then show ?thesis by (simp add: Inr ball_Un filter_map comp_def)
qed

theorem share_rotation_downgrades_witness:
  "map kr_role (vault_key_shares sample_db) = [''write'']
   \<and> map kr_role (filter (\<lambda>s. kr_vault_id s = 10)
        (vault_key_shares (snd (replace_all_key_shares 10 [(2, [9], None)] (Some 1) sample_db)))) = [''read'']"
proof -
  let ?run = "replace_all_key_shares 10 [(2, [9], None)] (Some 1) sample_db"
  have ok: "fst ?run = Inr ()"
    by (simp add: replace_all_key_shares_def delete_shares_def insert_rotated_share_def eff_simps
        Let_def sample_db_def empty_db_def share_refs_ok_def new_user_row_def)
  then have run: "?run = (Inr (), snd ?run)" by (cases ?run) simp
  show ?thesis
    using share_rotation_downgrades [OF run] by (simp add: sample_db_def)
qed

end
