(* ===== verification/HV_SecretRepo.thy ===== *)
theory HV_SecretRepo
  imports HV_VaultAccess
begin

text \<open>
  repositories/secret_repository.rs: the table secret_items with its trash. A secret is active
  while \<open>deleted_at\<close> is NULL. Identifiers are compared by SQLite as texts; the text of a UUID
  orders as its 128-bit value does, so \<open>ORDER BY .. id DESC\<close> is a sort by the identifier.
\<close>

section \<open>Rows and items\<close>

definition decode_u32 :: "string \<Rightarrow> int \<Rightarrow> 32 word result" where
  "decode_u32 column n =
     (if 0 \<le> n \<and> n < 2 ^ 32 then Inr (word_of_int n) else Inl (Database (ColumnDecode column)))"

definition row_to_secret_item :: "secret_row \<Rightarrow> secret_item result" where
  "row_to_secret_item row =
     bindR (decode_u32 ''usage_count'' (sr_usage_count row)) (\<lambda>usage_count.
     bindR (parse_secret_type_db (sr_secret_type row)) (\<lambda>secret_type.
     bindR (parse_blob_storage_db (sr_blob_storage row)) (\<lambda>blob_storage.
     bindR (case blob_storage of
         Inline \<Rightarrow> ok_or (sr_secret_blob row) (Storage ''missing inline secret_blob in storage'')
       | File \<Rightarrow> ok_or (sr_file_blob_ref row) (Storage ''missing file blob reference in storage''))
       (\<lambda>secret_blob_bytes.
     Inr \<lparr>si_id = sr_id row, si_vault_id = sr_vault_id row, si_secret_type = secret_type,
          si_title = sr_title row, si_metadata_json = sr_metadata_json row, si_tags = sr_tags row,
          si_expires_at = sr_expires_at row, si_created_at = Some (sr_created_at row),
          si_modified_at = Some (sr_modified_at row), si_usage_count = usage_count,
          si_blob_storage = blob_storage, si_secret_blob = secret_blob_bytes,
          si_deleted_at = sr_deleted_at row\<rparr>))))"

definition active_secret :: "secret_row \<Rightarrow> bool" where
  "active_secret s \<longleftrightarrow> sr_deleted_at s = None"

definition secret_by_id :: "uuid \<Rightarrow> db \<Rightarrow> secret_row option" where
  "secret_by_id sid d = find_row sr_id sid (secret_items d)"

section \<open>Reading\<close>

definition secret_get_by_id :: "uuid \<Rightarrow> (db, secret_item option) eff" where
  "secret_get_by_id sid =
     bindE (getsE (\<lambda>d. find (\<lambda>s. sr_id s = sid \<and> active_secret s) (secret_items d))) (\<lambda>row_opt.
     case row_opt of
       Some row \<Rightarrow> liftE (bindR (row_to_secret_item row) (\<lambda>item. Inr (Some item)))
     | None \<Rightarrow> returnE None)"

definition column_text :: "string option \<Rightarrow> string" where
  "column_text x = (case x of None \<Rightarrow> [] | Some t \<Rightarrow> t)"

definition secrets_desc :: "(secret_row \<Rightarrow> string) \<Rightarrow> secret_row list \<Rightarrow> secret_row list" where
  "secrets_desc column rows = rev (sort_key (\<lambda>s. (column s, sr_id s)) rows)"

definition list_by_vault_id :: "uuid \<Rightarrow> (db, secret_item list) eff" where
  "list_by_vault_id vid =
     bindE (getsE (\<lambda>d. secrets_desc sr_created_at
       (filter (\<lambda>s. sr_vault_id s = vid \<and> active_secret s) (secret_items d)))) (\<lambda>rows.
     liftE (mapR row_to_secret_item rows))"

definition list_trash_by_vault_id :: "uuid \<Rightarrow> (db, secret_item list) eff" where
  "list_trash_by_vault_id vid =
     bindE (getsE (\<lambda>d. secrets_desc (\<lambda>s. column_text (sr_deleted_at s))
       (filter (\<lambda>s. sr_vault_id s = vid \<and> \<not> active_secret s) (secret_items d)))) (\<lambda>rows.
     liftE (mapR row_to_secret_item rows))"

definition list_all_trash_by_owner_id :: "uuid \<Rightarrow> (db, secret_item list) eff" where
  "list_all_trash_by_owner_id owner =
     bindE (getsE (\<lambda>d. secrets_desc (\<lambda>s. column_text (sr_deleted_at s))
       (concat (map (\<lambda>s. map (\<lambda>_. s)
           (filter (\<lambda>v. vr_id v = sr_vault_id s \<and> vr_owner_user_id v = owner) (vaults d)))
         (filter (\<lambda>s. \<not> active_secret s) (secret_items d)))))) (\<lambda>rows.
     liftE (mapR row_to_secret_item rows))"

section \<open>Writing\<close>

definition new_secret_row :: "secret_item \<Rightarrow> bytes \<Rightarrow> string \<Rightarrow> secret_row" where
  "new_secret_row item blob clock =
     \<lparr>sr_id = si_id item, sr_vault_id = si_vault_id item,
      sr_secret_type = to_secret_type_db (si_secret_type item),
      sr_title = si_title item, sr_metadata_json = si_metadata_json item,
      sr_secret_blob = (if si_blob_storage item = Inline then Some blob else None),
      sr_file_blob_ref = (if si_blob_storage item = File then Some blob else None),
      sr_blob_storage = to_blob_storage_db (si_blob_storage item),
      sr_tags = si_tags item, sr_expires_at = si_expires_at item,
      sr_created_at = clock, sr_modified_at = clock, sr_usage_count = 0, sr_deleted_at = None\<rparr>"

definition insert_secret_blob :: "secret_item \<Rightarrow> bytes \<Rightarrow> (db, unit) eff" where
  "insert_secret_blob item encrypted_secret_blob =
     bindE (getsE (\<lambda>d. d)) (\<lambda>d.
     if si_id item \<in> set (map sr_id (secret_items d))
     then throwE (Database (UniqueViolation ''secret_items.id''))
     else if si_vault_id item \<notin> set (map vr_id (vaults d))
     then throwE (Database ForeignKeyViolation)
     else modifyE (\<lambda>d. d\<lparr>secret_items :=
       secret_items d @ [new_secret_row item encrypted_secret_blob (db_clock d)]\<rparr>))"

text \<open>An \<open>UPDATE secret_items SET .. WHERE ..\<close> and a \<open>DELETE\<close> with their \<open>rows_affected\<close>.\<close>

definition update_secrets :: "(secret_row \<Rightarrow> bool) \<Rightarrow> (db \<Rightarrow> secret_row \<Rightarrow> secret_row) \<Rightarrow> (db, nat) eff" where
  "update_secrets P f =
     bindE (getsE (\<lambda>d. count_where P (secret_items d))) (\<lambda>n.
     bindE (modifyE (\<lambda>d. d\<lparr>secret_items := update_where P (f d) (secret_items d)\<rparr>)) (\<lambda>_.
     returnE n))"

definition delete_secrets :: "(secret_row \<Rightarrow> bool) \<Rightarrow> (db, nat) eff" where
  "delete_secrets P =
     bindE (getsE (\<lambda>d. count_where P (secret_items d))) (\<lambda>n.
     bindE (modifyE (\<lambda>d. d\<lparr>secret_items := filter (\<lambda>s. \<not> P s) (secret_items d)\<rparr>)) (\<lambda>_.
     returnE n))"

definition update_secret_metadata :: "uuid \<Rightarrow> string option \<Rightarrow> string option \<Rightarrow> string option
    \<Rightarrow> string option \<Rightarrow> (db, unit) eff" where
  "update_secret_metadata sid title metadata_json tags expires_at =
     bindE (update_secrets (\<lambda>s. sr_id s = sid \<and> active_secret s)
       (\<lambda>_ s. s\<lparr>sr_title := title, sr_metadata_json := metadata_json, sr_tags := tags,
                sr_expires_at := expires_at\<rparr>)) (\<lambda>rows_affected.
     liftE (ensure (rows_affected \<noteq> 0) (Storage ''secret not found for metadata update'')))"

fun put_blob :: "blob_storage \<Rightarrow> bytes \<Rightarrow> secret_row \<Rightarrow> secret_row" where
  "put_blob Inline blob s = s\<lparr>sr_secret_blob := Some blob, sr_file_blob_ref := None\<rparr>"
| "put_blob File blob s = s\<lparr>sr_secret_blob := None, sr_file_blob_ref := Some blob\<rparr>"

definition select_blob_storage :: "uuid \<Rightarrow> app_error \<Rightarrow> (db, blob_storage) eff" where
  "select_blob_storage sid err =
     bindE (getsE (\<lambda>d. find (\<lambda>s. sr_id s = sid \<and> active_secret s) (secret_items d))) (\<lambda>row_opt.
     bindE (liftE (ok_or row_opt err)) (\<lambda>row.
     liftE (parse_blob_storage_db (sr_blob_storage row))))"

definition update_secret_blob :: "uuid \<Rightarrow> bytes \<Rightarrow> (db, unit) eff" where
  "update_secret_blob sid encrypted_secret_blob =
     bindE (select_blob_storage sid (Storage ''secret not found for blob update'')) (\<lambda>blob_storage.
     bindE (update_secrets (\<lambda>s. sr_id s = sid \<and> active_secret s)
       (\<lambda>_ s. put_blob blob_storage encrypted_secret_blob s)) (\<lambda>rows_affected.
     liftE (ensure (rows_affected \<noteq> 0) (Storage ''secret not found for blob update''))))"

definition move_secret_to_vault :: "uuid \<Rightarrow> uuid \<Rightarrow> bytes \<Rightarrow> (db, unit) eff" where
  "move_secret_to_vault sid target_vault_id encrypted_secret_blob =
     bindE (select_blob_storage sid (Storage ''secret not found for move'')) (\<lambda>blob_storage.
     bindE (getsE (\<lambda>d. target_vault_id \<in> set (map vr_id (vaults d)))) (\<lambda>target_exists.
     if \<not> target_exists then throwE (Database ForeignKeyViolation)
     else
     bindE (update_secrets (\<lambda>s. sr_id s = sid \<and> active_secret s)
       (\<lambda>_ s. (put_blob blob_storage encrypted_secret_blob s)\<lparr>sr_vault_id := target_vault_id\<rparr>))
       (\<lambda>rows_affected.
     liftE (ensure (rows_affected \<noteq> 0) (Storage ''secret not found for move'')))))"

definition increment_usage_count :: "uuid \<Rightarrow> (db, unit) eff" where
  "increment_usage_count sid =
     bindE (update_secrets (\<lambda>s. sr_id s = sid \<and> active_secret s)
       (\<lambda>d s. s\<lparr>sr_modified_at := db_clock d, sr_usage_count := sr_usage_count s + 1\<rparr>))
       (\<lambda>rows_affected.
     liftE (ensure (rows_affected \<noteq> 0) (Storage ''secret not found for usage count increment'')))"

definition repo_soft_delete :: "uuid \<Rightarrow> (db, unit) eff" where
  "repo_soft_delete sid =
     bindE (update_secrets (\<lambda>s. sr_id s = sid \<and> active_secret s)
       (\<lambda>d s. s\<lparr>sr_deleted_at := Some (db_clock d)\<rparr>)) (\<lambda>rows_affected.
     liftE (ensure (rows_affected \<noteq> 0) (Storage ''secret not found for delete'')))"

definition repo_restore_secret :: "uuid \<Rightarrow> uuid \<Rightarrow> (db, unit) eff" where
  "repo_restore_secret sid vid =
     transactionE (
       bindE (getsE (\<lambda>d. map_option vr_deleted_at (vault_by_id vid d))) (\<lambda>row.
       bindE (liftE (ok_or row (Storage ''vault not found for restore''))) (\<lambda>vault_deleted_at.
       bindE (if vault_deleted_at \<noteq> None
              then bindE (update_vaults (\<lambda>v. vr_id v = vid \<and> \<not> active_vault v)
                     (\<lambda>_ v. v\<lparr>vr_deleted_at := None\<rparr>)) (\<lambda>_. returnE ())
              else returnE ()) (\<lambda>_.
       bindE (update_secrets (\<lambda>s. sr_id s = sid \<and> sr_vault_id s = vid \<and> \<not> active_secret s)
                (\<lambda>_ s. s\<lparr>sr_deleted_at := None\<rparr>)) (\<lambda>rows_affected.
       liftE (ensure (rows_affected \<noteq> 0) (Storage ''secret not found in trash'')))))))"

definition repo_permanent_delete :: "uuid \<Rightarrow> uuid \<Rightarrow> (db, unit) eff" where
  "repo_permanent_delete sid vid =
     bindE (delete_secrets (\<lambda>s. sr_id s = sid \<and> sr_vault_id s = vid \<and> \<not> active_secret s))
       (\<lambda>rows_affected.
     liftE (ensure (rows_affected \<noteq> 0) (Storage ''secret not found for permanent delete'')))"

definition repo_empty_trash :: "uuid \<Rightarrow> (db, nat) eff" where
  "repo_empty_trash vid = delete_secrets (\<lambda>s. sr_vault_id s = vid \<and> \<not> active_secret s)"

section \<open>The schema is kept\<close>

lemma keeps_update_secrets:
  assumes "\<And>d s. sr_id (f d s) = sr_id s"
    and "\<And>d s. db_ok d \<Longrightarrow> s \<in> set (secret_items d) \<Longrightarrow> P s \<Longrightarrow>
      sr_vault_id (f d s) \<in> vault_ids d \<and> secret_row_ok (f d s)"
  shows "keeps db_ok (update_secrets P f)"
proof (unfold keeps_def, intro allI impI)
  fix d
  assume ok: "db_ok d"
  have "map sr_id (update_where P (f d) (secret_items d)) = map sr_id (secret_items d)"
    using assms(1) by (intro map_update_where_same) simp
  moreover have "secrets_ok d" using ok by (simp add: db_ok_def)
  ultimately have "secrets_ok (d\<lparr>secret_items := update_where P (f d) (secret_items d)\<rparr>)"
    using assms(2) [OF ok] by (auto simp: secrets_ok_def set_update_where)
  then show "db_ok (snd (update_secrets P f d))"
    using ok by (simp add: update_secrets_def eff_simps db_ok_secrets)
qed

lemma secrets_row_ok: "db_ok d \<Longrightarrow> s \<in> set (secret_items d) \<Longrightarrow> secret_row_ok s"
  by (simp add: db_ok_def secrets_ok_def)

lemma secrets_vault_ok: "db_ok d \<Longrightarrow> s \<in> set (secret_items d) \<Longrightarrow> sr_vault_id s \<in> vault_ids d"
  by (simp add: db_ok_def secrets_ok_def)

lemma keeps_touch_secrets [inv_intros]:
  assumes "\<And>d s. sr_id (f d s) = sr_id s \<and> sr_vault_id (f d s) = sr_vault_id s"
    and "\<And>d s. secret_row_ok s \<Longrightarrow> secret_row_ok (f d s)"
  shows "keeps db_ok (update_secrets P f)"
  using assms by (intro keeps_update_secrets) (simp_all add: secrets_vault_ok secrets_row_ok assms(2))

lemma keeps_delete_secrets [inv_intros]: "keeps db_ok (delete_secrets P)"
  by (auto simp: keeps_def delete_secrets_def eff_simps intro!: db_ok_secrets)
    (auto simp: db_ok_def secrets_ok_def distinct_map_filter_key)

lemma new_secret_row_ok: "secret_row_ok (new_secret_row item blob clock)"
  by (cases "si_secret_type item"; cases "si_blob_storage item")
    (simp_all add: secret_row_ok_def new_secret_row_def)

lemma keeps_insert_secret_blob [inv_intros]: "keeps db_ok (insert_secret_blob item blob)"
  by (auto simp: keeps_def insert_secret_blob_def eff_simps new_secret_row_ok intro!: db_ok_secrets)
    (auto simp: db_ok_def secrets_ok_def new_secret_row_ok vault_ids_def, simp_all add: new_secret_row_def)

lemma update_secrets_run:
  "update_secrets P f d = (Inr (count_where P (secret_items d)),
     d\<lparr>secret_items := update_where P (f d) (secret_items d)\<rparr>)"
  by (simp add: update_secrets_def eff_simps)

lemma delete_secrets_run:
  "delete_secrets P d = (Inr (count_where P (secret_items d)),
     d\<lparr>secret_items := filter (\<lambda>s. \<not> P s) (secret_items d)\<rparr>)"
  by (simp add: delete_secrets_def eff_simps)

lemma put_blob_sel [simp]:
  "sr_id (put_blob b blob s) = sr_id s"
  "sr_vault_id (put_blob b blob s) = sr_vault_id s"
  "sr_deleted_at (put_blob b blob s) = sr_deleted_at s"
  "sr_secret_type (put_blob b blob s) = sr_secret_type s"
  "sr_blob_storage (put_blob b blob s) = sr_blob_storage s"
  "sr_usage_count (put_blob b blob s) = sr_usage_count s"
  by (cases b; simp)+

lemma put_blob_ok:
  "parse_blob_storage_db (sr_blob_storage s) = Inr b \<Longrightarrow> secret_row_ok s \<Longrightarrow> secret_row_ok (put_blob b blob s)"
  by (cases b) (auto simp: secret_row_ok_def parse_blob_storage_db_def split: if_splits)

text \<open>The active row of an identifier, if there is one.\<close>

definition live_secret :: "uuid \<Rightarrow> db \<Rightarrow> secret_row option" where
  "live_secret sid d = (case secret_by_id sid d of
     None \<Rightarrow> None | Some s \<Rightarrow> if active_secret s then Some s else None)"

lemma secret_by_id_iff:
  "db_ok d \<Longrightarrow> secret_by_id sid d = Some s \<longleftrightarrow> s \<in> set (secret_items d) \<and> sr_id s = sid"
  unfolding secret_by_id_def by (rule find_row_iff) (simp add: db_ok_def secrets_ok_def)

lemma live_secret_iff:
  "db_ok d \<Longrightarrow> live_secret sid d = Some s \<longleftrightarrow>
     s \<in> set (secret_items d) \<and> sr_id s = sid \<and> active_secret s"
  by (auto simp: live_secret_def secret_by_id_iff split: option.splits)
    (metis option.distinct(1) option.inject secret_by_id_iff)+

lemma find_live_secret:
  assumes "db_ok d"
  shows "find (\<lambda>s. sr_id s = sid \<and> active_secret s) (secret_items d) = live_secret sid d"
proof (cases "live_secret sid d")
  case None
  then have "\<not> (sr_id s = sid \<and> active_secret s)" if "s \<in> set (secret_items d)" for s
    using live_secret_iff [OF assms, of sid s] that by simp
  then show ?thesis using None by (simp add: find_None_iff)
next
  case (Some s)
  then have s: "s \<in> set (secret_items d)" "sr_id s = sid" "active_secret s"
    using assms by (simp_all add: live_secret_iff)
  have "find (\<lambda>s. sr_id s = sid \<and> active_secret s) (secret_items d) = Some s"
  proof (rule find_unique)
    fix r'
    assume "r' \<in> set (secret_items d)" "sr_id r' = sid \<and> active_secret r'"
    then have "live_secret sid d = Some r'" using assms by (simp add: live_secret_iff)
    then show "r' = s" using Some by simp
  qed (use s in simp_all)
  then show ?thesis using Some by simp
qed

lemma count_live_secret:
  assumes "db_ok d"
  shows "0 < count_where (\<lambda>s. sr_id s = sid \<and> active_secret s) (secret_items d) \<longleftrightarrow>
    live_secret sid d \<noteq> None"
  using live_secret_iff [OF assms, of sid] by auto

lemma select_blob_storage_run:
  assumes "db_ok d"
  shows "select_blob_storage sid err d = (case live_secret sid d of
      None \<Rightarrow> (Inl err, d)
    | Some s \<Rightarrow> (parse_blob_storage_db (sr_blob_storage s), d))"
  using assms
  by (simp add: select_blob_storage_def eff_simps find_live_secret split: option.split)

lemma live_storage_ok:
  "db_ok d \<Longrightarrow> live_secret sid d = Some s \<Longrightarrow> \<exists>b. parse_blob_storage_db (sr_blob_storage s) = Inr b"
  using secrets_row_ok [of d s]
  by (auto simp: live_secret_iff secret_row_ok_def parse_blob_storage_db_def)

lemma keeps_blob_writes [inv_intros]:
  "keeps db_ok (update_secret_blob sid blob)"
  "keeps db_ok (move_secret_to_vault sid vid blob)"
proof -
  have "db_ok (d\<lparr>secret_items := update_where (\<lambda>s. sr_id s = sid \<and> active_secret s)
      (\<lambda>s. f (put_blob b blob s)) (secret_items d)\<rparr>)"
    if ok: "db_ok d" and "live_secret sid d = Some s" "parse_blob_storage_db (sr_blob_storage s) = Inr b"
      and f: "\<And>s. sr_id (f s) = sr_id s" "\<And>s. secret_row_ok (f s) = secret_row_ok s"
      "\<And>s. sr_vault_id s \<in> vault_ids d \<Longrightarrow> sr_vault_id (f s) \<in> vault_ids d"
    for d s b and f :: "secret_row \<Rightarrow> secret_row"
  proof (rule db_ok_secrets [OF ok])
    have "map sr_id (update_where (\<lambda>s. sr_id s = sid \<and> active_secret s) (\<lambda>s. f (put_blob b blob s))
        (secret_items d)) = map sr_id (secret_items d)"
      using f(1) by (intro map_update_where_same) simp
    moreover have "r = s" if "r \<in> set (secret_items d)" "sr_id r = sid" "active_secret r" for r
      using that \<open>live_secret sid d = Some s\<close> live_secret_iff [OF ok, of sid r] by simp
    ultimately show "secrets_ok (d\<lparr>secret_items := update_where (\<lambda>s. sr_id s = sid \<and> active_secret s)
        (\<lambda>s. f (put_blob b blob s)) (secret_items d)\<rparr>)"
      using ok f(2,3) that(3) by (auto simp: db_ok_def secrets_ok_def set_update_where put_blob_ok)
  qed
  note upd = this
  show "keeps db_ok (update_secret_blob sid blob)"
    using upd [where f = "\<lambda>s. s"]
    by (auto simp: keeps_def update_secret_blob_def bindE_run select_blob_storage_run
        update_secrets_run liftE_run split: option.split sum.split)
  show "keeps db_ok (move_secret_to_vault sid vid blob)"
    using upd [where f = "\<lambda>s. s\<lparr>sr_vault_id := vid\<rparr>"]
    by (auto simp: keeps_def move_secret_to_vault_def bindE_run select_blob_storage_run getsE_run throwE_run
        update_secrets_run liftE_run secret_row_ok_def vault_ids_def split: option.split sum.split)
qed

lemma keeps_secret_repo [inv_intros]:
  "keeps db_ok (update_secret_metadata sid t m g e)"
  "keeps db_ok (increment_usage_count sid)"
  "keeps db_ok (repo_soft_delete sid)"
  "keeps db_ok (repo_restore_secret sid vid)"
  "keeps db_ok (repo_permanent_delete sid vid)"
  "keeps db_ok (repo_empty_trash vid)"
  unfolding update_secret_metadata_def increment_usage_count_def repo_soft_delete_def
    repo_restore_secret_def repo_permanent_delete_def repo_empty_trash_def
  by (intro inv_intros; simp add: secret_row_ok_def)+

lemma keeps_secret_reads [inv_intros]:
  "keeps db_ok (secret_get_by_id sid)"
  "keeps db_ok (list_by_vault_id vid)"
  "keeps db_ok (list_trash_by_vault_id vid)"
  "keeps db_ok (list_all_trash_by_owner_id owner)"
  unfolding secret_get_by_id_def list_by_vault_id_def list_trash_by_vault_id_def
    list_all_trash_by_owner_id_def
  by (intro inv_intros)+

section \<open>What is stored is read back\<close>

text \<open>The item a row stands for, when its columns decode.\<close>

definition item_of_row :: "secret_row \<Rightarrow> secret_item" where
  "item_of_row s =
     \<lparr>si_id = sr_id s, si_vault_id = sr_vault_id s,
      si_secret_type = (case parse_secret_type_db (sr_secret_type s) of Inr t \<Rightarrow> t | Inl _ \<Rightarrow> Password),
      si_title = sr_title s, si_metadata_json = sr_metadata_json s, si_tags = sr_tags s,
      si_expires_at = sr_expires_at s, si_created_at = Some (sr_created_at s),
      si_modified_at = Some (sr_modified_at s), si_usage_count = word_of_int (sr_usage_count s),
      si_blob_storage = (if sr_blob_storage s = ''inline'' then Inline else File),
      si_secret_blob = (if sr_blob_storage s = ''inline'' then the (sr_secret_blob s)
                        else the (sr_file_blob_ref s)),
      si_deleted_at = sr_deleted_at s\<rparr>"

definition counted :: "secret_row \<Rightarrow> bool" where
  "counted s \<longleftrightarrow> 0 \<le> sr_usage_count s \<and> sr_usage_count s < 2 ^ 32"

lemma row_to_secret_item_ok:
  "secret_row_ok s \<Longrightarrow> row_to_secret_item s =
     (if counted s then Inr (item_of_row s) else Inl (Database (ColumnDecode ''usage_count'')))"
  by (auto simp: row_to_secret_item_def secret_row_ok_def decode_u32_def counted_def item_of_row_def
      parse_secret_type_db_def parse_blob_storage_db_def)

lemma counted_new: "counted (new_secret_row item blob clock)"
  by (simp add: counted_def new_secret_row_def)

lemma item_of_new_row:
  "item_of_row (new_secret_row item blob clock) = item
     \<lparr>si_created_at := Some clock, si_modified_at := Some clock, si_usage_count := 0,
      si_secret_blob := blob, si_deleted_at := None\<rparr>"
  by (cases "si_blob_storage item") (simp_all add: item_of_row_def new_secret_row_def)

lemma secret_get_by_id_run:
  assumes "db_ok d"
  shows "secret_get_by_id sid d = (case live_secret sid d of
      None \<Rightarrow> (Inr None, d)
    | Some s \<Rightarrow> (if counted s then Inr (Some (item_of_row s))
        else Inl (Database (ColumnDecode ''usage_count'')), d))"
proof (cases "live_secret sid d")
  case None
  then show ?thesis using assms by (simp add: secret_get_by_id_def eff_simps find_live_secret)
next
  case (Some s)
  then have "secret_row_ok s" using assms by (simp add: live_secret_iff secrets_row_ok)
  then show ?thesis
    using assms Some by (simp add: secret_get_by_id_def eff_simps find_live_secret row_to_secret_item_ok)
qed

lemma secret_by_id_append:
  "secret_by_id k (d\<lparr>secret_items := secret_items d @ [s]\<rparr>) =
     (case secret_by_id k d of Some r \<Rightarrow> Some r | None \<Rightarrow> if sr_id s = k then Some s else None)"
  by (simp add: secret_by_id_def find_row_append split: option.split)

text \<open>
  A secret that was inserted is read back as it was given, with the encrypted blob in the
  storage its kind names, a usage count of zero and the time of the insertion as its dates; every
  other secret reads as before. An insertion under an identifier in use, or into a vault that
  does not exist, is an error and changes nothing.
\<close>

theorem insert_secret_reads_back:
  assumes "db_ok d"
  shows "case insert_secret_blob item blob d of
     (Inr _, d') \<Rightarrow> db_ok d' \<and> secret_by_id (si_id item) d = None \<and> si_vault_id item \<in> vault_ids d
       \<and> secret_get_by_id (si_id item) d' = (Inr (Some (item
           \<lparr>si_created_at := Some (db_clock d), si_modified_at := Some (db_clock d),
            si_usage_count := 0, si_secret_blob := blob, si_deleted_at := None\<rparr>)), d')
       \<and> (\<forall>k. k \<noteq> si_id item \<longrightarrow> fst (secret_get_by_id k d') = fst (secret_get_by_id k d))
   | (Inl _, d') \<Rightarrow> d' = d
       \<and> (secret_by_id (si_id item) d \<noteq> None \<or> si_vault_id item \<notin> vault_ids d)"
proof (cases "si_id item \<in> sr_id ` set (secret_items d) \<or> si_vault_id item \<notin> vault_ids d")
  case True
  then show ?thesis
    using find_row_None_iff [of sr_id "si_id item" "secret_items d"]
    by (auto simp: insert_secret_blob_def eff_simps secret_by_id_def vault_ids_def)
next
  case False
  let ?s = "new_secret_row item blob (db_clock d)"
  let ?d = "d\<lparr>secret_items := secret_items d @ [?s]\<rparr>"
  have run: "insert_secret_blob item blob d = (Inr (), ?d)"
    using False by (simp add: insert_secret_blob_def eff_simps vault_ids_def)
  have ok: "db_ok ?d" using keepsD [OF keeps_insert_secret_blob assms] run by (metis snd_conv)
  have none: "secret_by_id (si_id item) d = None"
    using False by (simp add: secret_by_id_def find_row_None_iff)
  have id: "sr_id ?s = si_id item" "active_secret ?s"
    by (simp_all add: new_secret_row_def active_secret_def)
  have "live_secret (si_id item) ?d = Some ?s"
    using none id by (simp add: live_secret_def secret_by_id_append)
  moreover have "live_secret k ?d = live_secret k d" if "k \<noteq> si_id item" for k
    using that id by (auto simp: live_secret_def secret_by_id_append split: option.split)
  ultimately show ?thesis
    using False ok none assms
    by (auto simp: run secret_get_by_id_run item_of_new_row counted_new split: option.split)
qed

definition vault_db :: db where
  "vault_db = (empty_db ''now'')
     \<lparr>users := [new_user_row 1 ''amy'' Admin],
      vaults := [\<lparr>vr_id = 10, vr_owner_user_id = 1, vr_name = ''home'',
        vr_vault_key_envelope = Some [1, 2], vr_vault_key_version = 1, vr_sort_order = 0,
        vr_deleted_at = None\<rparr>],
      secret_items := [\<lparr>sr_id = 20, sr_vault_id = 10, sr_secret_type = ''password'',
        sr_title = Some ''mail'', sr_metadata_json = None, sr_secret_blob = Some [7],
        sr_file_blob_ref = None, sr_blob_storage = ''inline'', sr_tags = None, sr_expires_at = None,
        sr_created_at = ''then'', sr_modified_at = ''then'', sr_usage_count = 3, sr_deleted_at = None\<rparr>]\<rparr>"

lemma vault_db_ok: "db_ok vault_db"
  by (simp add: vault_db_def empty_db_def db_ok_def db_part_defs user_row_ok_def new_user_row_def
      secret_row_ok_def)

definition sample_item :: secret_item where
  "sample_item = \<lparr>si_id = 21, si_vault_id = 10, si_secret_type = SshKey, si_title = Some ''key'',
     si_metadata_json = None, si_tags = None, si_expires_at = None, si_created_at = None,
     si_modified_at = None, si_usage_count = 9, si_blob_storage = File, si_secret_blob = [],
     si_deleted_at = None\<rparr>"

theorem insert_secret_reads_back_witness:
  "\<exists>d'. insert_secret_blob sample_item [5, 6] vault_db = (Inr (), d')
     \<and> secret_get_by_id 21 d' = (Inr (Some (sample_item
         \<lparr>si_created_at := Some ''now'', si_modified_at := Some ''now'',
          si_usage_count := 0, si_secret_blob := [5, 6], si_deleted_at := None\<rparr>)), d')"
proof -
  have "fst (insert_secret_blob sample_item [5, 6] vault_db) = Inr ()"
    by (simp add: insert_secret_blob_def eff_simps vault_db_def empty_db_def sample_item_def)
  then obtain d' where run: "insert_secret_blob sample_item [5, 6] vault_db = (Inr (), d')"
    by (cases "insert_secret_blob sample_item [5, 6] vault_db") simp
  then show ?thesis
    using insert_secret_reads_back [OF vault_db_ok, of sample_item "[5, 6]"]
    by (simp add: run sample_item_def vault_db_def empty_db_def)
qed

section \<open>The trash\<close>

text \<open>
  The abstract life of one secret: there is none, or it is live, or it lies in the trash. The
  operations of the repository move one secret along these states and no other.
\<close>

datatype secret_state = NoSecret | Live secret_row | Trashed secret_row

definition secret_state :: "uuid \<Rightarrow> db \<Rightarrow> secret_state" where
  "secret_state sid d = (case secret_by_id sid d of
     None \<Rightarrow> NoSecret | Some s \<Rightarrow> if active_secret s then Live s else Trashed s)"

lemma secret_by_id_update_where:
  "(\<And>s. sr_id (f s) = sr_id s) \<Longrightarrow>
   secret_by_id k (d\<lparr>secret_items := update_where (\<lambda>s. sr_id s = sid \<and> Q s) f (secret_items d)\<rparr>) =
     (if k = sid then map_option (\<lambda>s. if Q s then f s else s) (secret_by_id k d) else secret_by_id k d)"
proof -
  assume id: "\<And>s. sr_id (f s) = sr_id s"
  have "find_row sr_id k (update_where (\<lambda>s. sr_id s = sid \<and> Q s) f rs) =
    (if k = sid then map_option (\<lambda>s. if Q s then f s else s) (find_row sr_id k rs) else find_row sr_id k rs)"
    for rs
    by (induction rs) (auto simp: id)
  then show ?thesis by (simp add: secret_by_id_def)
qed

lemma secret_by_id_filter:
  assumes "db_ok d"
  shows "secret_by_id k (d\<lparr>secret_items := filter (\<lambda>s. \<not> (sr_id s = sid \<and> Q s)) (secret_items d)\<rparr>) =
     (if k = sid then (case secret_by_id k d of None \<Rightarrow> None | Some s \<Rightarrow> if Q s then None else Some s)
      else secret_by_id k d)"
proof -
  have "find_row sr_id k (filter (\<lambda>s. \<not> (sr_id s = sid \<and> Q s)) rs) =
    (if k = sid then (case find_row sr_id k rs of None \<Rightarrow> None | Some s \<Rightarrow> if Q s then None else Some s)
     else find_row sr_id k rs)" if "distinct (map sr_id rs)" for rs
    using that by (induction rs) (auto simp: find_row_None_iff image_iff split: option.split)
  then show ?thesis using assms by (simp add: secret_by_id_def db_ok_def secrets_ok_def)
qed

lemma count_secret:
  assumes "db_ok d"
  shows "0 < count_where (\<lambda>s. sr_id s = sid \<and> Q s) (secret_items d) \<longleftrightarrow>
    (\<exists>s. secret_by_id sid d = Some s \<and> Q s)"
  using secret_by_id_iff [OF assms, of sid] by auto

lemma update_secret_run:
  assumes "db_ok d"
  shows "bindE (update_secrets (\<lambda>s. sr_id s = sid \<and> Q s) f)
      (\<lambda>n. liftE (ensure (0 < n) err)) d =
    (if \<exists>s. secret_by_id sid d = Some s \<and> Q s
     then (Inr (), d\<lparr>secret_items := update_where (\<lambda>s. sr_id s = sid \<and> Q s) (f d) (secret_items d)\<rparr>)
     else (Inl err, d))"
proof -
  have "update_where (\<lambda>s. sr_id s = sid \<and> Q s) (f d) (secret_items d) = secret_items d"
    if "\<not> (\<exists>s. secret_by_id sid d = Some s \<and> Q s)"
    using that secret_by_id_iff [OF assms] by (intro update_where_none) blast
  then show ?thesis
    using count_secret [OF assms, of sid Q] by (auto simp: bindE_run update_secrets_run liftE_run ensure_def)
qed

lemma delete_secret_run:
  assumes "db_ok d"
  shows "bindE (delete_secrets (\<lambda>s. sr_id s = sid \<and> Q s)) (\<lambda>n. liftE (ensure (0 < n) err)) d =
    (if \<exists>s. secret_by_id sid d = Some s \<and> Q s
     then (Inr (), d\<lparr>secret_items := filter (\<lambda>s. \<not> (sr_id s = sid \<and> Q s)) (secret_items d)\<rparr>)
     else (Inl err, d))"
proof -
  have "filter (\<lambda>s. \<not> (sr_id s = sid \<and> Q s)) (secret_items d) = secret_items d"
    if "\<not> (\<exists>s. secret_by_id sid d = Some s \<and> Q s)"
    using that secret_by_id_iff [OF assms] by (intro filter_True) blast
  then show ?thesis
    using count_secret [OF assms, of sid Q] by (auto simp: bindE_run delete_secrets_run liftE_run ensure_def)
qed

definition restored_vault :: "uuid \<Rightarrow> db \<Rightarrow> db" where
  "restored_vault vid d = d\<lparr>vaults := update_where (\<lambda>v. vr_id v = vid \<and> \<not> active_vault v)
     (\<lambda>v. v\<lparr>vr_deleted_at := None\<rparr>) (vaults d)\<rparr>"

lemma restored_vault_frame [simp]:
  "secret_by_id k (restored_vault vid d) = secret_by_id k d"
  "secret_items (restored_vault vid d) = secret_items d"
  by (simp_all add: restored_vault_def secret_by_id_def)

lemma restored_vault_ok: "db_ok d \<Longrightarrow> db_ok (restored_vault vid d)"
  unfolding restored_vault_def by (rule db_ok_update_vaults) simp_all

lemma restored_vault_active:
  "db_ok d \<Longrightarrow> vault_by_id vid d = Some v \<Longrightarrow> active_vault v \<Longrightarrow> restored_vault vid d = d"
  unfolding restored_vault_def
  by (subst update_where_none) (metis vault_by_id_iff option.inject, simp)

lemma repo_restore_run:
  assumes "db_ok d"
  shows "repo_restore_secret sid vid d =
    (if vid \<notin> vault_ids d then (Inl (Storage ''vault not found for restore''), d)
     else if \<exists>s. secret_by_id sid d = Some s \<and> sr_vault_id s = vid \<and> \<not> active_secret s
     then (Inr (), (restored_vault vid d)\<lparr>secret_items :=
        update_where (\<lambda>s. sr_id s = sid \<and> sr_vault_id s = vid \<and> \<not> active_secret s)
          (\<lambda>s. s\<lparr>sr_deleted_at := None\<rparr>) (secret_items d)\<rparr>)
     else (Inl (Storage ''secret not found in trash''), d))"
proof (cases "vault_by_id vid d")
  case None
  then have "vid \<notin> vault_ids d" by (simp add: vault_by_id_def find_row_None_iff vault_ids_def)
  then show ?thesis using None by (simp add: repo_restore_secret_def eff_simps)
next
  case (Some v)
  then have vid: "vid \<in> vault_ids d" using assms by (auto simp: vault_by_id_iff vault_ids_def)
  have step: "(if vr_deleted_at v \<noteq> None
      then bindE (update_vaults (\<lambda>v. vr_id v = vid \<and> \<not> active_vault v) (\<lambda>_ v. v\<lparr>vr_deleted_at := None\<rparr>))
        (\<lambda>_. returnE ()) else returnE ()) d = (Inr (), restored_vault vid d)"
    using restored_vault_active [OF assms Some]
    by (auto simp: bindE_run update_vaults_def getsE_run modifyE_run returnE_run restored_vault_def
        active_vault_def)
  show ?thesis
    using vid update_secret_run [OF restored_vault_ok [OF assms], of sid
        "\<lambda>s. sr_vault_id s = vid \<and> \<not> active_secret s" "\<lambda>_ s. s\<lparr>sr_deleted_at := None\<rparr>"
        "Storage ''secret not found in trash''" vid]
    by (simp add: repo_restore_secret_def transactionE_run getsE_run liftE_run Some
        bindE_run [of "getsE _"] bindE_run [of "liftE (Inr _)"]
        bindE_run [of "if _ then _ else _"] step del: not_None_eq) blast
qed

datatype trash_op = SoftDelete | Restore uuid | PermanentDelete uuid

fun trash_run :: "trash_op \<Rightarrow> uuid \<Rightarrow> (db, unit) eff" where
  "trash_run SoftDelete sid = repo_soft_delete sid"
| "trash_run (Restore vid) sid = repo_restore_secret sid vid"
| "trash_run (PermanentDelete vid) sid = repo_permanent_delete sid vid"

fun trash_spec :: "trash_op \<Rightarrow> string \<Rightarrow> secret_state \<Rightarrow> secret_state option" where
  "trash_spec SoftDelete clock (Live s) = Some (Trashed (s\<lparr>sr_deleted_at := Some clock\<rparr>))"
| "trash_spec (Restore vid) clock (Trashed s) =
     (if sr_vault_id s = vid then Some (Live (s\<lparr>sr_deleted_at := None\<rparr>)) else None)"
| "trash_spec (PermanentDelete vid) clock (Trashed s) =
     (if sr_vault_id s = vid then Some NoSecret else None)"
| "trash_spec _ _ _ = None"

lemma secret_state_cases:
  "secret_state sid d = NoSecret \<longleftrightarrow> secret_by_id sid d = None"
  "secret_state sid d = Live s \<longleftrightarrow> secret_by_id sid d = Some s \<and> active_secret s"
  "secret_state sid d = Trashed s \<longleftrightarrow> secret_by_id sid d = Some s \<and> \<not> active_secret s"
  by (auto simp: secret_state_def split: option.splits)

lemma active_secret_update [simp]:
  "active_secret (s\<lparr>sr_deleted_at := None\<rparr>)"
  "\<not> active_secret (s\<lparr>sr_deleted_at := Some t\<rparr>)"
  by (simp_all add: active_secret_def)

lemma secret_state_vaults: "secret_state k (d\<lparr>vaults := vs\<rparr>) = secret_state k d"
  by (simp add: secret_state_def secret_by_id_def)

text \<open>
  C30: The trash of the repository implements the abstract life of a secret: only a live secret can
  be put in the trash, and only a secret in the trash, named with its own vault, can be restored
  or destroyed. An operation that the abstract life does not allow is an error and changes
  nothing; no operation touches another secret.
\<close>

theorem trash_implements_life:
  assumes "db_ok d"
  shows "case trash_run op sid d of
     (Inr _, d') \<Rightarrow> db_ok d'
       \<and> trash_spec op (db_clock d) (secret_state sid d) = Some (secret_state sid d')
       \<and> (\<forall>k. k \<noteq> sid \<longrightarrow> secret_state k d' = secret_state k d)
   | (Inl _, d') \<Rightarrow> d' = d \<and> trash_spec op (db_clock d) (secret_state sid d) = None"
proof (cases op)
  case SoftDelete
  have "keeps db_ok (trash_run op sid)" by (simp add: SoftDelete keeps_secret_repo)
  then have ok: "db_ok (snd (trash_run op sid d))" using assms by (rule keepsD)
  show ?thesis
    using ok
    by (cases "secret_state sid d")
      (auto simp: SoftDelete secret_state_cases repo_soft_delete_def update_secret_run [OF assms]
        secret_by_id_update_where secret_state_def split: option.splits if_splits)
next
  case (Restore vid)
  have "keeps db_ok (trash_run op sid)" by (simp add: Restore keeps_secret_repo)
  then have ok: "db_ok (snd (trash_run op sid d))" using assms by (rule keepsD)
  have vid: "sr_vault_id s \<in> vault_ids d" if "secret_by_id sid d = Some s" for s
    using that assms by (simp add: secret_by_id_iff secrets_vault_ok)
  have frame: "secret_by_id k ((restored_vault vid d)\<lparr>secret_items := ss\<rparr>) =
      secret_by_id k (d\<lparr>secret_items := ss\<rparr>)" for k ss
    by (simp add: secret_by_id_def)
  show ?thesis
    using ok vid
    by (cases "secret_state sid d")
      (auto simp: Restore secret_state_cases repo_restore_run [OF assms] frame
        secret_by_id_update_where secret_state_def split: option.splits if_splits)
next
  case (PermanentDelete vid)
  have "keeps db_ok (trash_run op sid)" by (simp add: PermanentDelete keeps_secret_repo)
  then have ok: "db_ok (snd (trash_run op sid d))" using assms by (rule keepsD)
  define d1 where "d1 = d\<lparr>secret_items := filter
    (\<lambda>s. \<not> (sr_id s = sid \<and> sr_vault_id s = vid \<and> \<not> active_secret s)) (secret_items d)\<rparr>"
  have run: "repo_permanent_delete sid vid d =
      (if \<exists>s. secret_by_id sid d = Some s \<and> sr_vault_id s = vid \<and> \<not> active_secret s
       then (Inr (), d1) else (Inl (Storage ''secret not found for permanent delete''), d))"
    unfolding repo_permanent_delete_def neq0_conv d1_def by (rule delete_secret_run [OF assms])
  have "secret_by_id k d1 = (if k = sid then (case secret_by_id k d of None \<Rightarrow> None
      | Some s \<Rightarrow> if sr_vault_id s = vid \<and> \<not> active_secret s then None else Some s)
      else secret_by_id k d)" for k
    unfolding d1_def by (rule secret_by_id_filter [OF assms])
  then show ?thesis
    using ok
    by (cases "secret_state sid d")
      (auto simp: PermanentDelete run secret_state_def split: option.splits if_splits)
qed

theorem trash_implements_life_witness:
  "\<exists>d'. trash_run SoftDelete 20 vault_db = (Inr (), d')
     \<and> secret_state 20 d' \<noteq> secret_state 20 vault_db"
proof -
  have "fst (trash_run SoftDelete 20 vault_db) = Inr ()"
    by (simp add: repo_soft_delete_def eff_simps update_secrets_def vault_db_def empty_db_def
        active_secret_def ensure_def)
  then obtain d' where run: "trash_run SoftDelete 20 vault_db = (Inr (), d')"
    by (cases "trash_run SoftDelete 20 vault_db") simp
  have "secret_state 20 vault_db = Live (hd (secret_items vault_db))"
    by (simp add: vault_db_def secret_state_def secret_by_id_def active_secret_def)
  then show ?thesis
    using trash_implements_life [OF vault_db_ok, of SoftDelete 20] run by auto
qed

text \<open>
  Putting a secret of an active vault in the trash and restoring it gives back exactly the
  database there was, the encrypted content, the metadata, the dates and the counter included.
\<close>

theorem delete_restore_identity:
  assumes "db_ok d" "live_secret sid d = Some s"
    and "vault_by_id (sr_vault_id s) d = Some v" "active_vault v"
  shows "bindE (repo_soft_delete sid) (\<lambda>_. repo_restore_secret sid (sr_vault_id s)) d = (Inr (), d)"
proof -
  let ?P = "\<lambda>s. sr_id s = sid \<and> active_secret s"
  let ?Q = "\<lambda>r. sr_id r = sid \<and> sr_vault_id r = sr_vault_id s \<and> \<not> active_secret r"
  let ?trash = "\<lambda>r. r\<lparr>sr_deleted_at := Some (db_clock d)\<rparr>"
  let ?untrash = "\<lambda>r. r\<lparr>sr_deleted_at := None\<rparr>"
  let ?d1 = "d\<lparr>secret_items := update_where ?P ?trash (secret_items d)\<rparr>"
  have s: "s \<in> set (secret_items d)" "sr_id s = sid" "active_secret s"
    using assms(1,2) by (simp_all add: live_secret_iff)
  then have sel: "secret_by_id sid d = Some s" using assms(1) by (simp add: secret_by_id_iff)
  then have del: "repo_soft_delete sid d = (Inr (), ?d1)"
    using s(3) by (simp add: repo_soft_delete_def update_secret_run [OF assms(1)])
  have ok1: "db_ok ?d1" using keepsD [OF keeps_secret_repo(3) assms(1), of sid] del by simp
  have vid: "sr_vault_id s \<in> vault_ids ?d1" using assms(1) s by (simp add: secrets_vault_ok)
  have v1: "vault_by_id (sr_vault_id s) ?d1 = Some v" using assms(3) by (simp add: vault_by_id_def)
  have same: "r = s" if "r \<in> set (secret_items d)" "sr_id r = sid" for r
    using that sel secret_by_id_iff [OF assms(1)] by (metis option.inject)
  have "update_where ?Q ?untrash (update_where ?P ?trash (secret_items d)) = secret_items d"
    unfolding update_where_def map_map comp_def
    using s(3) by (intro map_idI) (auto dest: same simp: active_secret_def)
  moreover have "\<exists>r. secret_by_id sid ?d1 = Some r \<and> sr_vault_id r = sr_vault_id s \<and> \<not> active_secret r"
    using sel s(3) by (simp add: secret_by_id_update_where)
  ultimately have "repo_restore_secret sid (sr_vault_id s) ?d1 = (Inr (), d)"
    using vid repo_restore_run [OF ok1, of sid "sr_vault_id s"]
      restored_vault_active [OF ok1 v1 assms(4)] by simp
  then show ?thesis by (simp add: bindE_run del)
qed

theorem delete_restore_identity_witness:
  "bindE (repo_soft_delete 20) (\<lambda>_. repo_restore_secret 20 10) vault_db = (Inr (), vault_db)"
proof -
  have "sr_vault_id (hd (secret_items vault_db)) = 10" by (simp add: vault_db_def)
  then show ?thesis
    using delete_restore_identity [OF vault_db_ok, of 20 "hd (secret_items vault_db)" "hd (vaults vault_db)"]
    by (simp add: live_secret_def secret_by_id_def vault_by_id_def vault_db_def active_secret_def
        active_vault_def)
qed

section \<open>Listings\<close>

lemma secrets_desc_set [simp]: "set (secrets_desc c rows) = set rows"
  by (simp add: secrets_desc_def)

lemma secrets_desc_distinct: "distinct (map sr_id rows) \<Longrightarrow> distinct (map sr_id (secrets_desc c rows))"
  by (simp add: secrets_desc_def distinct_map)

lemma secrets_desc_sorted: "sorted (rev (map c (secrets_desc c rows)))"
proof -
  have "sorted (map (\<lambda>s. (c s, sr_id s)) (sort_key (\<lambda>s. (c s, sr_id s)) rows))"
    by (rule sorted_sort_key)
  then have "sorted (map fst (map (\<lambda>s. (c s, sr_id s)) (sort_key (\<lambda>s. (c s, sr_id s)) rows)))"
    by (rule sorted_map_mono) (auto simp: mono_on_def less_eq_prod_def)
  then show ?thesis by (simp add: secrets_desc_def rev_map comp_def)
qed

text \<open>
  The list of a vault is exactly its live secrets, each once and as it is read on its own,
  the newest first.
\<close>

theorem vault_list_is_live_secrets:
  assumes "db_ok d" "\<forall>s \<in> set (secret_items d). counted s"
  shows "\<exists>items. list_by_vault_id vid d = (Inr items, d)
    \<and> distinct (map si_id items)
    \<and> (\<forall>item. item \<in> set items \<longleftrightarrow>
          si_vault_id item = vid \<and> secret_get_by_id (si_id item) d = (Inr (Some item), d))
    \<and> sorted (rev (map (\<lambda>i. column_text (si_created_at i)) items))"
proof -
  let ?live = "filter (\<lambda>s. sr_vault_id s = vid \<and> active_secret s) (secret_items d)"
  let ?rows = "secrets_desc sr_created_at ?live"
  have "mapR row_to_secret_item ?rows = Inr (map item_of_row ?rows)"
    using assms by (intro mapR_total) (simp add: row_to_secret_item_ok secrets_row_ok)
  then have run: "list_by_vault_id vid d = (Inr (map item_of_row ?rows), d)"
    by (simp add: list_by_vault_id_def eff_simps)
  have ids: "map si_id (map item_of_row ?rows) = map sr_id ?rows"
    and dates: "map (\<lambda>i. column_text (si_created_at i)) (map item_of_row ?rows) = map sr_created_at ?rows"
    by (simp_all add: item_of_row_def column_text_def)
  have "distinct (map sr_id ?live)"
    using assms(1) by (simp add: db_ok_def secrets_ok_def distinct_map_filter_key)
  then have "distinct (map sr_id ?rows)" by (rule secrets_desc_distinct)
  moreover have "item \<in> set (map item_of_row ?rows) \<longleftrightarrow>
      si_vault_id item = vid \<and> secret_get_by_id (si_id item) d = (Inr (Some item), d)" for item
  proof
    assume "item \<in> set (map item_of_row ?rows)"
    then obtain s where s: "s \<in> set (secret_items d)" "sr_vault_id s = vid" "active_secret s"
        "item = item_of_row s" by auto
    then have "live_secret (sr_id s) d = Some s" using assms(1) by (simp add: live_secret_iff)
    then have "secret_get_by_id (sr_id s) d = (Inr (Some item), d)"
      using assms s by (simp add: secret_get_by_id_run)
    then show "si_vault_id item = vid \<and> secret_get_by_id (si_id item) d = (Inr (Some item), d)"
      using s by (simp add: item_of_row_def)
  next
    assume item: "si_vault_id item = vid \<and> secret_get_by_id (si_id item) d = (Inr (Some item), d)"
    then obtain s where "live_secret (si_id item) d = Some s" "item = item_of_row s"
      using assms(1) by (auto simp: secret_get_by_id_run split: option.splits if_splits)
    then show "item \<in> set (map item_of_row ?rows)"
      using item assms(1) by (force simp: live_secret_iff item_of_row_def)
  qed
  ultimately show ?thesis
    using secrets_desc_sorted [of sr_created_at ?live]
    by (intro exI [of _ "map item_of_row ?rows"] conjI) (simp_all only: run ids dates, blast)
qed

theorem vault_list_is_live_secrets_witness:
  "\<exists>item. list_by_vault_id 10 vault_db = (Inr [item], vault_db) \<and> si_id item = 20"
proof -
  have "\<forall>s \<in> set (secret_items vault_db). counted s" by (simp add: vault_db_def counted_def)
  then obtain items where items: "list_by_vault_id 10 vault_db = (Inr items, vault_db)"
      "distinct (map si_id items)" "\<And>item. item \<in> set items \<longleftrightarrow> si_vault_id item = 10
        \<and> secret_get_by_id (si_id item) vault_db = (Inr (Some item), vault_db)"
    using vault_list_is_live_secrets [OF vault_db_ok, of 10] by blast
  let ?item = "item_of_row (hd (secret_items vault_db))"
  have live: "live_secret k vault_db = (if k = 20 then Some (hd (secret_items vault_db)) else None)" for k
    by (simp add: live_secret_def secret_by_id_def vault_db_def active_secret_def)
  have item: "si_id ?item = 20" "si_vault_id ?item = 10" "counted (hd (secret_items vault_db))"
    by (simp_all add: item_of_row_def vault_db_def counted_def)
  have one: "item \<in> set items \<longleftrightarrow> item = ?item" for item
    using item by (auto simp: items(3) secret_get_by_id_run [OF vault_db_ok] live split: if_splits)
  then have "set items = {?item}" by blast
  moreover have "distinct items" using items(2) by (simp add: distinct_map)
  ultimately have "length items = 1" by (metis distinct_card is_singletonI is_singleton_altdef)
  then have "items = [?item]" using \<open>set items = {?item}\<close> by (cases items) auto
  then show ?thesis using items(1) item by blast
qed

end
