(* ===== verification/HV_TeamRepo.thy ===== *)
theory HV_TeamRepo
  imports HV_VaultAccess
begin

text \<open>
  repositories/team_repository.rs: the tables teams and team_members. Deleting a team deletes its memberships and, by the foreign key of
  vault_key_shares, empties \<open>granted_via_team\<close> of the shares that were granted through it.
\<close>

section \<open>Teams\<close>

definition row_to_team :: "team_row \<Rightarrow> team" where
  "row_to_team t = \<lparr>tm_id = tr_id t, tm_name = tr_name t, tm_created_by = tr_created_by t,
     tm_created_at = tr_created_at t\<rparr>"

definition team_by_id :: "uuid \<Rightarrow> db \<Rightarrow> team_row option" where
  "team_by_id tid d = find_row tr_id tid (teams d)"

definition repo_create_team :: "uuid \<Rightarrow> string \<Rightarrow> uuid option \<Rightarrow> (db, team) eff" where
  "repo_create_team tid name created_by =
     bindE (liftE (ensure (trim name \<noteq> []) (Validation ''team name must not be empty''))) (\<lambda>_.
     bindE (getsE (\<lambda>d. d)) (\<lambda>d.
     bindE (if tid \<in> set (map tr_id (teams d)) then throwE (Database (UniqueViolation ''teams.id''))
            else if name \<in> set (map tr_name (teams d)) then throwE (Database (UniqueViolation ''teams.name''))
            else if \<not> set_option created_by \<subseteq> set (map ur_id (users d))
            then throwE (Database ForeignKeyViolation)
            else modifyE (\<lambda>d. d\<lparr>teams := teams d @
              [\<lparr>tr_id = tid, tr_name = name, tr_created_by = created_by, tr_created_at = db_clock d\<rparr>]\<rparr>))
       (\<lambda>_.
     bindE (getsE (team_by_id tid)) (\<lambda>row.
     liftE (bindR (ok_or row (Database RowNotFound)) (\<lambda>row. Inr (row_to_team row)))))))"

definition team_get_by_id :: "uuid \<Rightarrow> (db, team option) eff" where
  "team_get_by_id tid = getsE (\<lambda>d. map_option row_to_team (team_by_id tid d))"

definition team_list_all :: "(db, team list) eff" where
  "team_list_all = getsE (\<lambda>d. map row_to_team (sort_key tr_name (teams d)))"

definition list_for_user :: "uuid \<Rightarrow> (db, team list) eff" where
  "list_for_user uid =
     getsE (\<lambda>d. map row_to_team (sort_key tr_name
       (concat (map (\<lambda>t. map (\<lambda>_. t)
         (filter (\<lambda>m. mr_team_id m = tr_id t \<and> mr_user_id m = uid) (team_members d))) (teams d)))))"

definition repo_delete_team :: "uuid \<Rightarrow> (db, unit) eff" where
  "repo_delete_team tid =
     bindE (getsE (\<lambda>d. count_where (\<lambda>t. tr_id t = tid) (teams d))) (\<lambda>rows_affected.
     bindE (modifyE (\<lambda>d. d
       \<lparr>vault_key_shares := update_where (\<lambda>s. kr_granted_via_team s = Some tid)
          (\<lambda>s. s\<lparr>kr_granted_via_team := None\<rparr>) (vault_key_shares d),
        teams := filter (\<lambda>t. tr_id t \<noteq> tid) (teams d),
        team_members := filter (\<lambda>m. mr_team_id m \<noteq> tid) (team_members d)\<rparr>)) (\<lambda>_.
     liftE (ensure (rows_affected \<noteq> 0) (NotFound ''team not found for deletion''))))"

section \<open>Members\<close>

definition member_of :: "uuid \<Rightarrow> uuid \<Rightarrow> db \<Rightarrow> member_row option" where
  "member_of tid uid d = find_row member_key (tid, uid) (team_members d)"

definition repo_add_member :: "uuid \<Rightarrow> uuid \<Rightarrow> team_member_role \<Rightarrow> (db, unit) eff" where
  "repo_add_member tid uid role =
     bindE (getsE (\<lambda>d. d)) (\<lambda>d.
     if (tid, uid) \<in> set (map member_key (team_members d))
     then modifyE (\<lambda>d. d\<lparr>team_members := update_where (\<lambda>m. member_key m = (tid, uid))
       (\<lambda>m. m\<lparr>mr_role := team_member_role_to_db_str role\<rparr>) (team_members d)\<rparr>)
     else if tid \<notin> set (map tr_id (teams d)) \<or> uid \<notin> set (map ur_id (users d))
     then throwE (Database ForeignKeyViolation)
     else modifyE (\<lambda>d. d\<lparr>team_members := team_members d @
       [\<lparr>mr_team_id = tid, mr_user_id = uid, mr_role = team_member_role_to_db_str role,
         mr_joined_at = db_clock d\<rparr>]\<rparr>))"

definition repo_remove_member :: "uuid \<Rightarrow> uuid \<Rightarrow> (db, unit) eff" where
  "repo_remove_member tid uid =
     bindE (getsE (\<lambda>d. count_where (\<lambda>m. mr_team_id m = tid \<and> mr_user_id m = uid) (team_members d)))
       (\<lambda>rows_affected.
     bindE (modifyE (\<lambda>d. d\<lparr>team_members :=
       filter (\<lambda>m. \<not> (mr_team_id m = tid \<and> mr_user_id m = uid)) (team_members d)\<rparr>)) (\<lambda>_.
     liftE (ensure (rows_affected \<noteq> 0) (NotFound ''team membership not found for removal''))))"

definition row_to_member :: "member_row \<Rightarrow> team_member result" where
  "row_to_member m =
     bindR (parse_member_role (mr_role m)) (\<lambda>role.
     Inr \<lparr>mem_team_id = mr_team_id m, mem_user_id = mr_user_id m, mem_role = role,
          mem_joined_at = mr_joined_at m\<rparr>)"

definition list_members :: "uuid \<Rightarrow> (db, team_member list) eff" where
  "list_members tid =
     bindE (getsE (\<lambda>d. sort_key mr_joined_at (filter (\<lambda>m. mr_team_id m = tid) (team_members d)))) (\<lambda>rows.
     liftE (mapR row_to_member rows))"

definition get_member_role :: "uuid \<Rightarrow> uuid \<Rightarrow> (db, team_member_role option) eff" where
  "get_member_role tid uid =
     bindE (getsE (member_of tid uid)) (\<lambda>row_opt.
     case row_opt of
       Some row \<Rightarrow> liftE (bindR (parse_member_role (mr_role row)) (\<lambda>role. Inr (Some role)))
     | None \<Rightarrow> returnE None)"

definition list_member_user_ids :: "uuid \<Rightarrow> (db, uuid list) eff" where
  "list_member_user_ids tid =
     getsE (\<lambda>d. map mr_user_id (filter (\<lambda>m. mr_team_id m = tid) (team_members d)))"

definition list_team_ids_for_user :: "uuid \<Rightarrow> (db, uuid list) eff" where
  "list_team_ids_for_user uid =
     getsE (\<lambda>d. map mr_team_id (filter (\<lambda>m. mr_user_id m = uid) (team_members d)))"

section \<open>The schema is kept\<close>

lemma teams_okD:
  assumes "db_ok d"
  shows "distinct (map tr_id (teams d))" "distinct (map tr_name (teams d))"
    "distinct (map member_key (team_members d))"
    "\<And>m. m \<in> set (team_members d) \<Longrightarrow> member_row_ok m \<and> mr_team_id m \<in> team_ids d \<and> mr_user_id m \<in> user_ids d"
  using assms by (simp_all add: db_ok_def teams_ok_def)

lemma keeps_repo_create_team [inv_intros]: "keeps db_ok (repo_create_team tid name by)"
  by (auto simp: keeps_def repo_create_team_def eff_simps db_ok_def shares_ok_def teams_ok_def
      team_ids_def user_ids_def ensure_def logs_ok_def users_ok_def)

lemma keeps_repo_delete_team [inv_intros]: "keeps db_ok (repo_delete_team tid)"
proof (unfold keeps_def, intro allI impI)
  fix d
  assume ok: "db_ok d"
  let ?ks = "update_where (\<lambda>s. kr_granted_via_team s = Some tid) (\<lambda>s. s\<lparr>kr_granted_via_team := None\<rparr>)
      (vault_key_shares d)"
  let ?d = "d\<lparr>vault_key_shares := ?ks, teams := filter (\<lambda>t. tr_id t \<noteq> tid) (teams d),
      team_members := filter (\<lambda>m. mr_team_id m \<noteq> tid) (team_members d)\<rparr>"
  have keys: "map share_key ?ks = map share_key (vault_key_shares d)"
    by (intro map_update_where_same) simp
  have "shares_ok ?d"
    using ok keys unfolding db_ok_def shares_ok_def
    by (auto simp: set_update_where share_row_ok_def team_ids_def vault_ids_def user_ids_def)
  moreover have "teams_ok ?d"
    using ok by (auto simp: db_ok_def teams_ok_def distinct_map_filter_key team_ids_def user_ids_def)
  ultimately have "db_ok ?d"
    using ok by (simp add: db_ok_def users_ok_def vaults_ok_def secrets_ok_def logs_ok_def
        user_ids_def vault_ids_def)
  then show "db_ok (snd (repo_delete_team tid d))" by (simp add: repo_delete_team_def eff_simps)
qed

lemma db_ok_members:
  assumes "db_ok d" "distinct (map member_key ms)"
    and "\<And>m. m \<in> set ms \<Longrightarrow> member_row_ok m \<and> mr_team_id m \<in> team_ids d \<and> mr_user_id m \<in> user_ids d"
  shows "db_ok (d\<lparr>team_members := ms\<rparr>)"
  using assms
  by (auto simp: db_ok_def teams_ok_def users_ok_def vaults_ok_def logs_ok_def user_ids_def team_ids_def)

lemma keeps_repo_add_member [inv_intros]: "keeps db_ok (repo_add_member tid uid role)"
proof (unfold keeps_def, intro allI impI)
  fix d
  assume ok: "db_ok d"
  have role: "team_member_role_to_db_str role \<in> {''member'', ''leader''}" by (cases role) simp_all
  have "map member_key (update_where (\<lambda>m. member_key m = (tid, uid))
      (\<lambda>m. m\<lparr>mr_role := team_member_role_to_db_str role\<rparr>) (team_members d)) = map member_key (team_members d)"
    by (intro map_update_where_same) simp
  then have upd: "db_ok (d\<lparr>team_members := update_where (\<lambda>m. member_key m = (tid, uid))
      (\<lambda>m. m\<lparr>mr_role := team_member_role_to_db_str role\<rparr>) (team_members d)\<rparr>)"
    using teams_okD [OF ok] role
    by (intro db_ok_members [OF ok]) (auto simp: set_update_where member_row_ok_def)
  have ins: "db_ok (d\<lparr>team_members := team_members d @ [\<lparr>mr_team_id = tid, mr_user_id = uid,
      mr_role = team_member_role_to_db_str role, mr_joined_at = db_clock d\<rparr>]\<rparr>)"
    if "(tid, uid) \<notin> set (map member_key (team_members d))" "tid \<in> team_ids d" "uid \<in> user_ids d"
    using teams_okD [OF ok] role that
    by (intro db_ok_members [OF ok]) (auto simp: member_row_ok_def)
  show "db_ok (snd (repo_add_member tid uid role d))"
    using upd ins ok by (auto simp: repo_add_member_def eff_simps team_ids_def user_ids_def)
qed

lemma keeps_repo_remove_member [inv_intros]: "keeps db_ok (repo_remove_member tid uid)"
  by (auto simp: keeps_def repo_remove_member_def eff_simps distinct_map_filter_key
      dest: teams_okD(4) intro!: db_ok_members intro: teams_okD(3) distinct_map_filter_key)

section \<open>Membership\<close>

lemma member_of_iff:
  "db_ok d \<Longrightarrow> member_of tid uid d = Some m \<longleftrightarrow>
     m \<in> set (team_members d) \<and> mr_team_id m = tid \<and> mr_user_id m = uid"
  unfolding member_of_def by (subst find_row_iff) (auto simp: db_ok_def teams_ok_def)

lemma member_role_ok:
  assumes "db_ok d" "member_of tid uid d = Some m"
  shows "\<exists>role. mr_role m = team_member_role_to_db_str role"
proof -
  have "mr_role m = team_member_role_to_db_str Member \<or> mr_role m = team_member_role_to_db_str Leader"
    using assms by (auto simp: member_of_iff member_row_ok_def dest: teams_okD(4))
  then show ?thesis by blast
qed

text \<open>The role a user has in a team, as the abstract view of the table.\<close>

definition role_in :: "uuid \<Rightarrow> uuid \<Rightarrow> db \<Rightarrow> team_member_role option" where
  "role_in tid uid d = (case member_of tid uid d of
     None \<Rightarrow> None | Some m \<Rightarrow> ok_of (parse_member_role (mr_role m)))"

lemma role_in_None: "db_ok d \<Longrightarrow> role_in tid uid d = None \<longleftrightarrow> member_of tid uid d = None"
  using member_role_ok [of d tid uid] by (cases "member_of tid uid d") (auto simp: role_in_def)

lemma get_member_role_run:
  assumes "db_ok d"
  shows "get_member_role tid uid d = (Inr (role_in tid uid d), d)"
proof (cases "member_of tid uid d")
  case None
  then show ?thesis by (simp add: get_member_role_def role_in_def eff_simps)
next
  case (Some m)
  then obtain role where "mr_role m = team_member_role_to_db_str role"
    using member_role_ok [OF assms] by blast
  then show ?thesis using Some by (simp add: get_member_role_def role_in_def eff_simps)
qed

lemma find_member_append:
  "find_row member_key k (ms @ [m]) = (case find_row member_key k ms of Some r \<Rightarrow> Some r
     | None \<Rightarrow> if member_key m = k then Some m else None)"
  by (simp add: find_row_append split: option.split)

lemma find_member_filter:
  "find_row member_key k (filter (\<lambda>m. \<not> (mr_team_id m = tid \<and> mr_user_id m = uid)) ms) =
     (if k = (tid, uid) then None else find_row member_key k ms)"
  by (induction ms) auto

text \<open>
  The membership table is a map from a team and a user to a role. Adding a member sets the
  role, also of someone who is a member already, and fails only for a team or a user that does
  not exist; removing a member clears it, and fails only when there was none. Nobody else's role
  changes, and a failed operation changes nothing.
\<close>

theorem membership_is_a_map:
  assumes "db_ok d"
  shows "(case repo_add_member tid uid role d of
       (Inr _, d') \<Rightarrow> db_ok d' \<and> role_in tid uid d' = Some role
         \<and> (\<forall>t u. (t, u) \<noteq> (tid, uid) \<longrightarrow> role_in t u d' = role_in t u d)
     | (Inl _, d') \<Rightarrow> d' = d \<and> (tid \<notin> team_ids d \<or> uid \<notin> user_ids d))
   \<and> (case repo_remove_member tid uid d of
       (Inr _, d') \<Rightarrow> db_ok d' \<and> role_in tid uid d \<noteq> None \<and> role_in tid uid d' = None
         \<and> (\<forall>t u. (t, u) \<noteq> (tid, uid) \<longrightarrow> role_in t u d' = role_in t u d)
     | (Inl _, d') \<Rightarrow> d' = d \<and> role_in tid uid d = None)"
proof
  have ok: "db_ok (snd (repo_add_member tid uid role d))" "db_ok (snd (repo_remove_member tid uid d))"
    by (rule keepsD [OF keeps_repo_add_member assms], rule keepsD [OF keeps_repo_remove_member assms])
  have upd: "find_row member_key k (update_where (\<lambda>m. mr_team_id m = tid \<and> mr_user_id m = uid)
        (\<lambda>m. m\<lparr>mr_role := r\<rparr>) ms) =
      (if k = (tid, uid) then map_option (\<lambda>m. m\<lparr>mr_role := r\<rparr>) (find_row member_key k ms)
       else find_row member_key k ms)" for k r ms
    by (induction ms) auto
  have mem: "(tid, uid) \<in> set (map member_key (team_members d)) \<longleftrightarrow> member_of tid uid d \<noteq> None"
    by (simp add: member_of_def find_row_None_iff)
  show "case repo_add_member tid uid role d of
       (Inr _, d') \<Rightarrow> db_ok d' \<and> role_in tid uid d' = Some role
         \<and> (\<forall>t u. (t, u) \<noteq> (tid, uid) \<longrightarrow> role_in t u d' = role_in t u d)
     | (Inl _, d') \<Rightarrow> d' = d \<and> (tid \<notin> team_ids d \<or> uid \<notin> user_ids d)"
  proof (cases "(tid, uid) \<in> set (map member_key (team_members d))")
    case True
    then obtain m where m: "find_row member_key (tid, uid) (team_members d) = Some m"
      using mem by (auto simp: member_of_def)
    have "repo_add_member tid uid role d = (Inr (), d\<lparr>team_members :=
        update_where (\<lambda>m. mr_team_id m = tid \<and> mr_user_id m = uid)
          (\<lambda>m. m\<lparr>mr_role := team_member_role_to_db_str role\<rparr>) (team_members d)\<rparr>)"
      using True by (simp add: repo_add_member_def eff_simps)
    then show ?thesis using ok(1) by (simp add: role_in_def member_of_def upd m)
  next
    case False
    then show ?thesis
      using ok(1) mem
      by (auto simp: repo_add_member_def eff_simps role_in_def member_of_def find_member_append
          team_ids_def user_ids_def split: option.splits)
  qed
  have gone: "count_where (\<lambda>m. mr_team_id m = tid \<and> mr_user_id m = uid) (team_members d) = 0 \<longleftrightarrow>
      role_in tid uid d = None"
    by (auto simp: role_in_None [OF assms] member_of_def find_row_None_iff)
  then have none: "filter (\<lambda>m. \<not> (mr_team_id m = tid \<and> mr_user_id m = uid)) (team_members d) = team_members d"
    if "role_in tid uid d = None"
    using that by (intro filter_True) simp
  show "case repo_remove_member tid uid d of
       (Inr _, d') \<Rightarrow> db_ok d' \<and> role_in tid uid d \<noteq> None \<and> role_in tid uid d' = None
         \<and> (\<forall>t u. (t, u) \<noteq> (tid, uid) \<longrightarrow> role_in t u d' = role_in t u d)
     | (Inl _, d') \<Rightarrow> d' = d \<and> role_in tid uid d = None"
    using ok(2) gone none
    by (cases "role_in tid uid d = None")
      (simp_all add: repo_remove_member_def eff_simps role_in_def member_of_def find_member_filter
        del: not_None_eq count_where_eq_0 count_where_pos de_Morgan_conj)
qed

definition team_db :: db where
  "team_db = (empty_db ''now'')
     \<lparr>users := [new_user_row 1 ''amy'' Admin, new_user_row 2 ''bob'' User],
      vaults := [\<lparr>vr_id = 10, vr_owner_user_id = 1, vr_name = ''home'',
        vr_vault_key_envelope = Some [1, 2], vr_vault_key_version = 1, vr_sort_order = 0,
        vr_deleted_at = None\<rparr>],
      vault_key_shares := [\<lparr>kr_vault_id = 10, kr_user_id = 2, kr_key_envelope = [3],
        kr_granted_by = Some 1, kr_granted_via_team = Some 30, kr_granted_at = ''then'',
        kr_role = ''write''\<rparr>],
      teams := [\<lparr>tr_id = 30, tr_name = ''lab'', tr_created_by = Some 1, tr_created_at = ''then''\<rparr>],
      team_members := [\<lparr>mr_team_id = 30, mr_user_id = 2, mr_role = ''member'', mr_joined_at = ''then''\<rparr>]\<rparr>"

lemma team_db_ok: "db_ok team_db"
  by (simp add: team_db_def empty_db_def db_ok_def db_part_defs user_row_ok_def new_user_row_def
      share_row_ok_def member_row_ok_def)

theorem membership_is_a_map_witness:
  "role_in 30 2 team_db = Some Member \<and> role_in 30 2 (snd (repo_add_member 30 2 Leader team_db)) = Some Leader"
proof -
  have "fst (repo_add_member 30 2 Leader team_db) = Inr ()"
    by (simp add: repo_add_member_def eff_simps team_db_def empty_db_def)
  then have "repo_add_member 30 2 Leader team_db = (Inr (), snd (repo_add_member 30 2 Leader team_db))"
    by (cases "repo_add_member 30 2 Leader team_db") simp
  then have "role_in 30 2 (snd (repo_add_member 30 2 Leader team_db)) = Some Leader"
    using membership_is_a_map [OF team_db_ok, of 30 2 Leader] by (auto split: prod.splits)
  then show ?thesis
    by (simp add: role_in_def member_of_def team_db_def parse_member_role_def
        team_member_role_from_db_str_def)
qed

section \<open>Deleting a team\<close>

text \<open>
  Deleting a team ends every membership in it and touches no other team, but it revokes no
  access: every user keeps every vault with the same role and key version, and a share that had
  come through the team becomes a direct share.
\<close>

theorem delete_team_keeps_access:
  assumes "db_ok d" "repo_delete_team tid d = (Inr x, d')"
  shows "db_ok d' \<and> team_by_id tid d' = None
    \<and> (\<forall>uid. role_in tid uid d' = None)
    \<and> (\<forall>t uid. t \<noteq> tid \<longrightarrow> role_in t uid d' = role_in t uid d)
    \<and> (\<forall>uid vid. access_to uid vid d' = map_option (\<lambda>a.
          if vr_owner_user_id (the (vault_by_id vid d)) \<noteq> uid
             \<and> kr_granted_via_team (the (share_of vid uid d)) = Some tid
          then a\<lparr>av_access_kind := DirectShare\<rparr> else a) (access_to uid vid d))"
proof -
  let ?ks = "update_where (\<lambda>s. kr_granted_via_team s = Some tid) (\<lambda>s. s\<lparr>kr_granted_via_team := None\<rparr>)"
  have d': "d' = d\<lparr>vault_key_shares := ?ks (vault_key_shares d),
      teams := filter (\<lambda>t. tr_id t \<noteq> tid) (teams d),
      team_members := filter (\<lambda>m. mr_team_id m \<noteq> tid) (team_members d)\<rparr>"
    using assms(2) by (auto simp: repo_delete_team_def eff_iffs)
  have ok: "db_ok d'" using keepsD [OF keeps_repo_delete_team assms(1), of tid] assms(2) by simp
  have "find_row tr_id tid (filter (\<lambda>t. tr_id t \<noteq> tid) ts) = None" for ts
    by (induction ts) auto
  then have gone: "team_by_id tid d' = None" by (simp add: d' team_by_id_def)
  have "find_row member_key (t, u) (filter (\<lambda>m. mr_team_id m \<noteq> tid) ms) =
      (if t = tid then None else find_row member_key (t, u) ms)" for t u ms
    by (induction ms) auto
  then have roles: "role_in t u d' = (if t = tid then None else role_in t u d)" for t u
    by (simp add: d' role_in_def member_of_def)
  have share: "share_of vid uid d' = map_option
      (\<lambda>s. if kr_granted_via_team s = Some tid then s\<lparr>kr_granted_via_team := None\<rparr> else s)
      (share_of vid uid d)" for vid uid
  proof -
    have "find_row share_key k (?ks ss) = map_option
        (\<lambda>s. if kr_granted_via_team s = Some tid then s\<lparr>kr_granted_via_team := None\<rparr> else s)
        (find_row share_key k ss)" for k ss
      by (induction ss) auto
    then show ?thesis by (simp add: d' share_of_def)
  qed
  have vault: "vault_by_id vid d' = vault_by_id vid d" for vid by (simp add: d' vault_by_id_def)
  have "access_to uid vid d' = map_option (\<lambda>a.
      if vr_owner_user_id (the (vault_by_id vid d)) \<noteq> uid
         \<and> kr_granted_via_team (the (share_of vid uid d)) = Some tid
      then a\<lparr>av_access_kind := DirectShare\<rparr> else a) (access_to uid vid d)" for uid vid
  proof (cases "vault_by_id vid d")
    case (Some v)
    then have "vr_id v = vid" using assms(1) by (simp add: vault_by_id_iff)
    then show ?thesis
      using Some
      by (cases "share_of vid uid d";
          cases "vault_share_role_from_db_str (kr_role (the (share_of vid uid d)))")
        (auto simp: access_to_def granted_access_def share vault split: option.splits)
  qed (simp add: access_to_def vault)
  then show ?thesis using ok gone roles by simp
qed

theorem delete_team_keeps_access_witness:
  "map_option av_role (access_to 2 10 (snd (repo_delete_team 30 team_db))) = Some RoleWrite
   \<and> role_in 30 2 (snd (repo_delete_team 30 team_db)) = None"
proof -
  have "fst (repo_delete_team 30 team_db) = Inr ()"
    by (simp add: repo_delete_team_def eff_simps team_db_def empty_db_def)
  then have "repo_delete_team 30 team_db = (Inr (), snd (repo_delete_team 30 team_db))"
    by (cases "repo_delete_team 30 team_db") simp
  note del = delete_team_keeps_access [OF team_db_ok this]
  have "map_option av_role (access_to 2 10 team_db) = Some RoleWrite"
    by (simp add: access_to_def granted_access_def vault_by_id_def share_of_def team_db_def
        active_vault_def vault_share_role_from_db_str_def)
  then show ?thesis using del by (auto simp: option.map_comp comp_def if_distrib cong: if_cong)
qed

end
