(* ===== verification/HV_Audit.thy ===== *)
theory HV_Audit
  imports HV_SecretRepo HV_AccountKey
begin

text \<open>
  The audit trail: repositories/audit_log_repository.rs, the interface \<open>AuditLogService\<close> of
  services/audit_log_service.rs that the other services call, with its community implementation,
  services/audit_service.rs, and services/login_history_service.rs.

  Which implementation of the interface runs depends on the edition, so it is an argument of the
  services, the record \<open>audit_svc\<close>; it also carries the text of an identifier, which is
  \<open>Uuid::to_string\<close> of the crate uuid.
\<close>

section \<open>The table audit_log\<close>

definition row_to_entry :: "audit_row \<Rightarrow> audit_log_entry" where
  "row_to_entry r =
     \<lparr>al_id = ar_id r, al_actor_user_id = ar_actor_user_id r, al_action = ar_action r,
      al_target_type = ar_target_type r, al_target_id = ar_target_id r, al_detail = ar_detail r,
      al_performed_at = ar_performed_at r\<rparr>"

text \<open>\<open>AUTOINCREMENT\<close>: no operation of the program deletes an audit row.\<close>

definition next_audit_id :: "db \<Rightarrow> int" where
  "next_audit_id d = 1 + fold (\<lambda>r m. max (ar_id r) m) (audit_log d) 0"

definition insert_audit :: "uuid option \<Rightarrow> string \<Rightarrow> string option \<Rightarrow> string option \<Rightarrow> string option
    \<Rightarrow> (db, unit) eff" where
  "insert_audit actor action target_type target_id detail =
     bindE (getsE (\<lambda>d. d)) (\<lambda>d.
     if \<not> set_option actor \<subseteq> set (map ur_id (users d)) then throwE (Database ForeignKeyViolation)
     else modifyE (\<lambda>d. d\<lparr>audit_log := audit_log d @
       [\<lparr>ar_id = next_audit_id d, ar_actor_user_id = actor, ar_action = action,
         ar_target_type = target_type, ar_target_id = target_id, ar_detail = detail,
         ar_performed_at = db_clock d\<rparr>]\<rparr>))"

definition audit_append :: "uuid option \<Rightarrow> audit_action \<Rightarrow> string option \<Rightarrow> string option \<Rightarrow> string option
    \<Rightarrow> (db, unit) eff" where
  "audit_append actor action = insert_audit actor (audit_action_to_db_str action)"

text \<open>\<open>ORDER BY column DESC LIMIT n\<close>; rows of the same second keep the table's order.\<close>

definition newest_first :: "('r \<Rightarrow> string) \<Rightarrow> nat \<Rightarrow> 'r list \<Rightarrow> 'r list" where
  "newest_first column n rows = take n (rev (sort_key column (rev rows)))"

definition audit_list_recent :: "32 word \<Rightarrow> (db, audit_log_entry list) eff" where
  "audit_list_recent limit =
     getsE (\<lambda>d. map row_to_entry (newest_first ar_performed_at (unat limit) (audit_log d)))"

definition list_for_actor :: "uuid \<Rightarrow> 32 word \<Rightarrow> (db, audit_log_entry list) eff" where
  "list_for_actor actor limit =
     getsE (\<lambda>d. map row_to_entry (newest_first ar_performed_at (unat limit)
       (filter (\<lambda>r. ar_actor_user_id r = Some actor) (audit_log d))))"

definition audit_list_for_target :: "string \<Rightarrow> string \<Rightarrow> 32 word \<Rightarrow> (db, audit_log_entry list) eff" where
  "audit_list_for_target target_type target_id limit =
     getsE (\<lambda>d. map row_to_entry (newest_first ar_performed_at (unat limit)
       (filter (\<lambda>r. ar_target_type r = Some target_type \<and> ar_target_id r = Some target_id)
         (audit_log d))))"

section \<open>The interface of the services\<close>

record audit_svc =
  record_event :: "uuid option \<Rightarrow> audit_action \<Rightarrow> string option \<Rightarrow> string option \<Rightarrow> string option
    \<Rightarrow> (world, unit) eff"
  uuid_to_string :: "uuid \<Rightarrow> string"

definition no_op_record_event :: "uuid option \<Rightarrow> audit_action \<Rightarrow> string option \<Rightarrow> string option
    \<Rightarrow> string option \<Rightarrow> (world, unit) eff" where
  "no_op_record_event _ _ _ _ _ = returnE ()"

definition no_op_list :: "(world, audit_log_entry list) eff" where
  "no_op_list = returnE []"

text \<open>\<open>record_event(..).await.ok()\<close>: whatever it answers, the caller goes on.\<close>

definition ignoring_errors :: "('s, 'a) eff \<Rightarrow> ('s, unit) eff" where
  "ignoring_errors m = bindE (attemptE m) (\<lambda>_. returnE ())"

text \<open>
  What the services rely on: recording an event writes the table audit_log and nothing else,
  whether it succeeds or not.
\<close>

definition audit_only :: "(world, unit) eff \<Rightarrow> bool" where
  "audit_only m \<longleftrightarrow> (\<forall>w. (\<exists>rows. snd (m w) = w\<lparr>w_db := (w_db w)\<lparr>audit_log := rows\<rparr>\<rparr>)
     \<and> (world_ok w \<longrightarrow> world_ok (snd (m w))))"

locale audit_writer =
  fixes put_event :: "uuid option \<Rightarrow> audit_action \<Rightarrow> string option \<Rightarrow> string option \<Rightarrow> string option
    \<Rightarrow> (world, unit) eff"
  assumes writes_log: "audit_only (put_event actor action target_type target_id detail)"
begin

lemma keeps_write: "keeps world_ok (put_event actor action target_type target_id detail)"
  using writes_log by (simp add: audit_only_def keeps_def)

lemma write_frame:
  assumes "\<And>d rows. V (d\<lparr>audit_log := rows\<rparr>) = V d"
  shows "V (w_db (snd (put_event actor action target_type target_id detail w))) = V (w_db w)"
proof -
  obtain rows where "snd (put_event actor action target_type target_id detail w) =
      w\<lparr>w_db := (w_db w)\<lparr>audit_log := rows\<rparr>\<rparr>"
    using writes_log unfolding audit_only_def by blast
  then show ?thesis by (simp add: assms)
qed

lemma write_memory:
  "w_auth (snd (put_event actor action target_type target_id detail w)) = w_auth w"
  "w_rng (snd (put_event actor action target_type target_id detail w)) = w_rng w"
proof -
  obtain rows where "snd (put_event actor action target_type target_id detail w) =
      w\<lparr>w_db := (w_db w)\<lparr>audit_log := rows\<rparr>\<rparr>"
    using writes_log unfolding audit_only_def by blast
  then show "w_auth (snd (put_event actor action target_type target_id detail w)) = w_auth w"
    "w_rng (snd (put_event actor action target_type target_id detail w)) = w_rng w" by simp_all
qed

end

definition audit_ok :: "audit_svc \<Rightarrow> bool" where
  "audit_ok A \<longleftrightarrow> audit_writer (record_event A)"

lemma keeps_insert_audit [inv_intros]: "keeps db_ok (insert_audit actor action tt ti detail)"
  by (auto simp: keeps_def insert_audit_def eff_simps db_ok_def logs_ok_def teams_ok_def shares_ok_def
      user_ids_def vault_ids_def team_ids_def users_ok_def vaults_ok_def secrets_ok_def)

lemma keeps_audit_append [inv_intros]: "keeps db_ok (audit_append actor action tt ti detail)"
  unfolding audit_append_def by (rule keeps_insert_audit)

interpretation no_op: audit_writer no_op_record_event
proof
  have "w = w\<lparr>w_db := (w_db w)\<lparr>audit_log := audit_log (w_db w)\<rparr>\<rparr>" for w :: world by simp
  then show "audit_only (no_op_record_event actor action tt ti detail)" for actor action tt ti detail
    unfolding audit_only_def no_op_record_event_def returnE_run snd_conv by metis
qed

interpretation repo_audit: audit_writer "\<lambda>actor action tt ti detail. on_db (audit_append actor action tt ti detail)"
proof
  show "audit_only (on_db (audit_append actor action tt ti detail))" for actor action tt ti detail
  proof -
    have "\<exists>rows. snd (audit_append actor action tt ti detail d) = d\<lparr>audit_log := rows\<rparr>" for d
      by (auto simp: audit_append_def insert_audit_def eff_simps intro: exI [of _ "audit_log d"])
    moreover have "world_ok w \<longrightarrow> world_ok (snd (on_db (audit_append actor action tt ti detail) w))" for w
      using keeps_on_db [OF keeps_audit_append] by (simp add: keeps_def)
    ultimately show ?thesis unfolding audit_only_def on_db_run snd_conv by metis
  qed
qed

definition community_audit :: "(uuid \<Rightarrow> string) \<Rightarrow> audit_svc" where
  "community_audit U = \<lparr>record_event = no_op_record_event, uuid_to_string = U\<rparr>"

definition logging_audit :: "(uuid \<Rightarrow> string) \<Rightarrow> audit_svc" where
  "logging_audit U = \<lparr>record_event = (\<lambda>actor action tt ti detail. on_db (audit_append actor action tt ti detail)),
     uuid_to_string = U\<rparr>"

lemma audit_ok_instances [simp]: "audit_ok (community_audit U)" "audit_ok (logging_audit U)"
  by (simp_all add: audit_ok_def community_audit_def logging_audit_def
      no_op.audit_writer_axioms repo_audit.audit_writer_axioms)

section \<open>The compliance log\<close>

datatype audit_severity = Info | Warn | Critical

fun audit_severity_as_str :: "audit_severity \<Rightarrow> string" where
  "audit_severity_as_str Info = ''INFO''"
| "audit_severity_as_str Warn = ''WARN''"
| "audit_severity_as_str Critical = ''CRITICAL''"

datatype compliance_action =
    BootstrapInit | BootstrapInitSuccess | BootstrapInitFailure
  | AuthLogin | AuthLoginSuccess | AuthLoginFailure | AuthLogout
  | RbacPermissionChange | RbacRoleAssignment | RbacRoleRevocation
  | SecretView | SecretCreate | SecretUpdate | SecretDelete
  | LicenseCheck | LicenseCheckSuccess | LicenseCheckFailure

fun compliance_action_as_str :: "compliance_action \<Rightarrow> string" where
  "compliance_action_as_str BootstrapInit = ''bootstrap.init''"
| "compliance_action_as_str BootstrapInitSuccess = ''bootstrap.init.success''"
| "compliance_action_as_str BootstrapInitFailure = ''bootstrap.init.failure''"
| "compliance_action_as_str AuthLogin = ''auth.login''"
| "compliance_action_as_str AuthLoginSuccess = ''auth.login.success''"
| "compliance_action_as_str AuthLoginFailure = ''auth.login.failure''"
| "compliance_action_as_str AuthLogout = ''auth.logout''"
| "compliance_action_as_str RbacPermissionChange = ''rbac.permission.change''"
| "compliance_action_as_str RbacRoleAssignment = ''rbac.role.assignment''"
| "compliance_action_as_str RbacRoleRevocation = ''rbac.role.revocation''"
| "compliance_action_as_str SecretView = ''secret.view''"
| "compliance_action_as_str SecretCreate = ''secret.create''"
| "compliance_action_as_str SecretUpdate = ''secret.update''"
| "compliance_action_as_str SecretDelete = ''secret.delete''"
| "compliance_action_as_str LicenseCheck = ''license.check''"
| "compliance_action_as_str LicenseCheckSuccess = ''license.check.success''"
| "compliance_action_as_str LicenseCheckFailure = ''license.check.failure''"

definition severity :: "compliance_action \<Rightarrow> audit_severity" where
  "severity a =
     (case a of
        RbacPermissionChange \<Rightarrow> Critical | RbacRoleAssignment \<Rightarrow> Critical
      | RbacRoleRevocation \<Rightarrow> Critical | AuthLoginFailure \<Rightarrow> Critical
      | BootstrapInitFailure \<Rightarrow> Critical
      | SecretDelete \<Rightarrow> Warn | AuthLogout \<Rightarrow> Warn
      | _ \<Rightarrow> Info)"

definition log_sync :: "uuid option \<Rightarrow> compliance_action \<Rightarrow> string option \<Rightarrow> string option \<Rightarrow> string option
    \<Rightarrow> (db, unit) eff" where
  "log_sync actor action = insert_audit actor (compliance_action_as_str action)"

text \<open>The background task of \<open>log_async\<close>, at the moment it runs: a failure is only logged.\<close>

definition log_async :: "uuid option \<Rightarrow> compliance_action \<Rightarrow> string option \<Rightarrow> string option \<Rightarrow> string option
    \<Rightarrow> (db, unit) eff" where
  "log_async actor action target_type target_id detail =
     ignoring_errors (insert_audit actor (compliance_action_as_str action) target_type target_id detail)"

definition log_bootstrap_success :: "string \<Rightarrow> (db, unit) eff" where
  "log_bootstrap_success username =
     log_async None BootstrapInitSuccess (Some ''user'') (Some username)
       (Some ''First admin account initialized'')"

definition log_bootstrap_failure :: "string \<Rightarrow> (db, unit) eff" where
  "log_bootstrap_failure reason =
     log_async None BootstrapInitFailure (Some ''bootstrap'') None (Some reason)"

definition log_login_success :: "uuid \<Rightarrow> string \<Rightarrow> (db, unit) eff" where
  "log_login_success uid username =
     log_async (Some uid) AuthLoginSuccess (Some ''user'') (Some username)
       (Some (''Login successful for user '' @ username))"

definition log_login_failure :: "string \<Rightarrow> string \<Rightarrow> (db, unit) eff" where
  "log_login_failure username reason =
     log_async None AuthLoginFailure (Some ''user'') (Some username)
       (Some (''Login failed: '' @ reason))"

definition log_secret_view :: "(uuid \<Rightarrow> string) \<Rightarrow> uuid \<Rightarrow> uuid \<Rightarrow> string \<Rightarrow> (db, unit) eff" where
  "log_secret_view U uid sid secret_title =
     log_async (Some uid) SecretView (Some ''secret'') (Some (U sid))
       (Some (''Viewed secret: '' @ secret_title))"

definition log_license_check_success :: "(db, unit) eff" where
  "log_license_check_success =
     log_async None LicenseCheckSuccess (Some ''license'') None
       (Some ''License validation passed at startup'')"

definition log_license_check_failure :: "string \<Rightarrow> (db, unit) eff" where
  "log_license_check_failure reason =
     log_async None LicenseCheckFailure (Some ''license'') None (Some reason)"

lemma keeps_ignoring_errors [inv_intros]: "keeps I m \<Longrightarrow> keeps I (ignoring_errors m)"
  unfolding ignoring_errors_def by (intro inv_intros)

lemma keeps_compliance_log [inv_intros]:
  "keeps db_ok (log_sync actor action tt ti detail)"
  "keeps db_ok (log_async actor action tt ti detail)"
  unfolding log_sync_def log_async_def by (intro inv_intros)+

lemma compliance_action_as_str_inject:
  "compliance_action_as_str a = compliance_action_as_str b \<longleftrightarrow> a = b"
  by (cases a; cases b) simp_all

section \<open>Login history\<close>

record login_history_entry =
  le_login_at :: string
  le_ip_address :: "string option"
  le_device_info :: "string option"

definition record_successful_login :: "uuid \<Rightarrow> string option \<Rightarrow> string option \<Rightarrow> (db, unit) eff" where
  "record_successful_login uid ip_address device_info =
     bindE (getsE (\<lambda>d. d)) (\<lambda>d.
     if uid \<notin> set (map ur_id (users d)) then throwE (Database ForeignKeyViolation)
     else modifyE (\<lambda>d. d\<lparr>login_history := login_history d @
       [\<lparr>lh_user_id = uid, lh_login_at = db_clock d, lh_ip_address = ip_address,
         lh_device_info = device_info\<rparr>]\<rparr>))"

definition list_recent_logins :: "uuid \<Rightarrow> int \<Rightarrow> (db, login_history_entry list) eff" where
  "list_recent_logins uid limit =
     (let safe_limit = max 1 (min 50 limit)
      in getsE (\<lambda>d. map (\<lambda>r. \<lparr>le_login_at = lh_login_at r, le_ip_address = lh_ip_address r,
             le_device_info = lh_device_info r\<rparr>)
           (newest_first lh_login_at (nat safe_limit)
             (filter (\<lambda>r. lh_user_id r = uid) (login_history d)))))"

lemma keeps_login_history [inv_intros]: "keeps db_ok (record_successful_login uid ip dev)"
  by (auto simp: keeps_def record_successful_login_def eff_simps db_ok_def logs_ok_def teams_ok_def
      shares_ok_def user_ids_def vault_ids_def team_ids_def users_ok_def vaults_ok_def secrets_ok_def)

section \<open>What the listings return\<close>

lemma newest_first_sublist: "set (newest_first c n rows) \<subseteq> set rows"
  by (auto simp: newest_first_def dest: in_set_takeD)

lemma newest_first_length: "length (newest_first c n rows) = min n (length rows)"
  by (simp add: newest_first_def)

lemma newest_first_sorted: "sorted (rev (map c (newest_first c n rows)))"
proof -
  have "sorted (map c (sort_key c (rev rows)))" by (rule sorted_sort_key)
  moreover have "rev (map c (newest_first c n rows)) = drop (length rows - n) (map c (sort_key c (rev rows)))"
    by (simp add: newest_first_def take_rev rev_map drop_map [symmetric] take_map [symmetric])
  ultimately show ?thesis by (simp add: sorted_wrt_drop)
qed

lemma newest_first_top:
  assumes "r \<in> set (newest_first c n rows)" "r' \<in> set rows" "c r < c r'"
  shows "r' \<in> set (newest_first c n rows)"
proof -
  let ?s = "rev (sort_key c (rev rows))"
  have sorted: "sorted_wrt (\<lambda>x y. c y \<le> c x) ?s"
    using sorted_sort_key [of c "rev rows"] by (simp add: sorted_wrt_rev sorted_map)
  obtain i where i: "i < length ?s" "i < n" "?s ! i = r"
    using assms(1) by (auto simp: newest_first_def in_set_conv_nth)
  obtain j where j: "j < length ?s" "?s ! j = r'"
    using assms(2) by (metis in_set_conv_nth set_rev set_sort)
  have "j < i"
  proof (rule ccontr)
    assume "\<not> j < i"
    then have "c r' \<le> c r"
      using sorted_wrt_nth_less [OF sorted, of i j] i j by (cases "i = j") auto
    then show False using assms(3) by simp
  qed
  then have "take n ?s ! j = r'" "j < length (take n ?s)" using i j by simp_all
  then show ?thesis unfolding newest_first_def by (metis nth_mem)
qed

text \<open>
  The login history shown for a user holds only this user's logins, the newest first, at most
  fifty whatever is asked for and at least one when there is one; a login that is left out is not
  newer than one that is shown.
\<close>

theorem recent_logins_bounded:
  "\<exists>entries shown. list_recent_logins uid limit d = (Inr entries, d)
     \<and> entries = map (\<lambda>r. \<lparr>le_login_at = lh_login_at r, le_ip_address = lh_ip_address r,
         le_device_info = lh_device_info r\<rparr>) shown
     \<and> length shown = min (nat (max 1 (min 50 limit))) (length (filter (\<lambda>r. lh_user_id r = uid) (login_history d)))
     \<and> length shown \<le> 50
     \<and> set shown \<subseteq> {r \<in> set (login_history d). lh_user_id r = uid}
     \<and> sorted (rev (map lh_login_at shown))
     \<and> list_all (\<lambda>r'. list_all (\<lambda>r. r' \<in> set shown \<or> lh_login_at r' \<le> lh_login_at r) shown)
         (filter (\<lambda>r. lh_user_id r = uid) (login_history d))"
proof -
  let ?rows = "filter (\<lambda>r. lh_user_id r = uid) (login_history d)"
  let ?shown = "newest_first lh_login_at (nat (max 1 (min 50 limit))) ?rows"
  have "nat (max 1 (min 50 limit)) \<le> 50" by simp
  then have "length ?shown \<le> 50" unfolding newest_first_length by (rule min.coboundedI1)
  moreover have "set ?shown \<subseteq> {r \<in> set (login_history d). lh_user_id r = uid}"
    using newest_first_sublist by fastforce
  moreover have "list_all (\<lambda>r'. list_all (\<lambda>r. r' \<in> set ?shown \<or> lh_login_at r' \<le> lh_login_at r) ?shown) ?rows"
    unfolding list_all_iff using newest_first_top by (metis leI)
  ultimately show ?thesis
    using newest_first_sorted [of lh_login_at _ ?rows] newest_first_length [of lh_login_at _ ?rows]
    by (intro exI [of _ ?shown] exI) (simp add: list_recent_logins_def eff_simps)
qed

text \<open>
  The audit trail only grows: recording an event keeps every entry there was, in its place,
  and adds one at the end under a number no entry has; when the actor is not an account the
  event is refused and the trail stays as it was.
\<close>

theorem audit_trail_grows:
  "case audit_append actor action tt ti detail d of
     (Inr _, d') \<Rightarrow> set_option actor \<subseteq> user_ids d
       \<and> (\<exists>e. d' = d\<lparr>audit_log := audit_log d @ [e]\<rparr> \<and> ar_id e \<notin> ar_id ` set (audit_log d)
            \<and> ar_actor_user_id e = actor \<and> ar_action e = audit_action_to_db_str action
            \<and> ar_performed_at e = db_clock d)
   | (Inl _, d') \<Rightarrow> d' = d \<and> \<not> set_option actor \<subseteq> user_ids d"
proof -
  have mono: "m \<le> fold (\<lambda>r m. max (ar_id r) m) rs m" for m rs
    by (induction rs arbitrary: m) (auto intro: order_trans [OF max.cobounded2])
  have le: "ar_id r \<le> fold (\<lambda>r m. max (ar_id r) m) rs m" if "r \<in> set rs" for r rs m
    using that by (induction rs arbitrary: m) (auto intro: order_trans [OF max.cobounded1 mono])
  have "next_audit_id d \<notin> ar_id ` set (audit_log d)"
    using le [of _ "audit_log d" 0] by (force simp: next_audit_id_def)
  then show ?thesis
    by (auto simp: audit_append_def insert_audit_def eff_simps user_ids_def)
qed

end
