(* ===== verification/HV_VaultService.thy ===== *)
theory HV_VaultService
  imports HV_Audit HV_Access
begin

text \<open>
  services/vault_service.rs: creating, opening, listing and deleting vaults on behalf of a user.
  A vault key is stored encrypted, once under its owner's key in the table vaults and once per
  share under the recipient's key.
\<close>

section \<open>Vault key envelopes\<close>

definition VAULT_KEY_LEN :: nat where "VAULT_KEY_LEN = 32"

definition serialize_vault_key_envelope :: "encrypted_payload \<Rightarrow> bytes" where
  "serialize_vault_key_envelope payload = nonce payload @ ciphertext payload"

definition deserialize_vault_key_envelope :: "bytes \<Rightarrow> encrypted_payload result" where
  "deserialize_vault_key_envelope bs =
     (if length bs < NONCE_LEN then Inl (Storage ''vault key envelope is invalid'')
      else Inr \<lparr>nonce = take NONCE_LEN bs, ciphertext = drop NONCE_LEN bs\<rparr>)"

definition generate_vault_key :: "(world, bytes) eff" where
  "generate_vault_key = fill_or ''vault key generation failed: '' VAULT_KEY_LEN"

section \<open>Operations\<close>

definition quote :: string where "quote = [CHR 0x22]"

definition existing_user :: "uuid \<Rightarrow> string \<Rightarrow> (world, user) eff" where
  "existing_user uid missing =
     bindE (on_db (user_get_by_id uid)) (\<lambda>u. liftE (ok_or u (NotFound missing)))"

definition create_vault :: "audit_svc \<Rightarrow> crypto_lib \<Rightarrow> uuid \<Rightarrow> string \<Rightarrow> bytes \<Rightarrow> (world, vault) eff" where
  "create_vault A L owner_user_id name master_key =
     bindE (liftE (ensure (trim name \<noteq> []) (Validation ''vault name must not be empty''))) (\<lambda>_.
     bindE (existing_user owner_user_id ''owner user not found'') (\<lambda>owner.
     bindE (liftE (check_permission owner VaultCreate Global)) (\<lambda>_.
     bindE new_v4 (\<lambda>vid.
     let vault = \<lparr>v_id = vid, v_owner_user_id = owner_user_id, v_name = name\<rparr> in
     bindE generate_vault_key (\<lambda>vault_key.
     bindE (encrypt L vault_key master_key) (\<lambda>payload.
     bindE (on_db (create_vault_with_envelope vault (serialize_vault_key_envelope payload))) (\<lambda>_.
     bindE (record_event A (Some owner_user_id) VaultCreated (Some ''vault'')
              (Some (uuid_to_string A (v_id vault)))
              (Some (''{'' @ quote @ ''name'' @ quote @ '':'' @ quote @ v_name vault @ quote @ ''}''))) (\<lambda>_.
     returnE vault))))))))"

definition permission_resource :: "uuid \<Rightarrow> accessible_vault \<Rightarrow> resource" where
  "permission_resource requester permission =
     Vault \<lparr>is_owner = (v_owner_user_id (av_vault permission) = requester),
            has_direct_share = (av_access_kind permission = DirectShare),
            has_team_share = (av_access_kind permission = TeamShare),
            share_role = Some (av_role permission)\<rparr>"

definition required_permission :: "uuid \<Rightarrow> uuid \<Rightarrow> (world, accessible_vault) eff" where
  "required_permission requester vid =
     bindE (on_db (get_vault_with_permission requester vid)) (\<lambda>p.
     liftE (ok_or p (Authorization VaultAccessDenied)))"

definition open_vault_for_user :: "audit_svc \<Rightarrow> crypto_lib \<Rightarrow> uuid \<Rightarrow> uuid \<Rightarrow> bytes \<Rightarrow> (world, bytes) eff" where
  "open_vault_for_user A L requester_id vid master_key =
     bindE (existing_user requester_id ''requester user not found'') (\<lambda>requester.
     bindE (required_permission requester_id vid) (\<lambda>permission.
     bindE (liftE (check_permission requester VaultOpen (permission_resource requester_id permission))) (\<lambda>_.
     bindE (if v_owner_user_id (av_vault permission) = requester_id
            then bindE (on_db (get_vault_key_envelope vid)) (\<lambda>e.
              liftE (ok_or e (Storage ''missing owner vault key envelope'')))
            else bindE (on_db (get_key_share vid requester_id)) (\<lambda>e.
              liftE (ok_or e (Authorization VaultAccessDenied)))) (\<lambda>envelope.
     bindE (liftE (deserialize_vault_key_envelope envelope)) (\<lambda>payload.
     bindE (liftE (decrypt L payload master_key)) (\<lambda>vault_key.
     bindE (record_event A (Some requester_id) VaultOpened (Some ''vault'')
              (Some (uuid_to_string A vid)) None) (\<lambda>_.
     returnE vault_key)))))))"

definition open_vault :: "audit_svc \<Rightarrow> crypto_lib \<Rightarrow> uuid \<Rightarrow> bytes \<Rightarrow> (world, bytes) eff" where
  "open_vault A L vid master_key =
     bindE (on_db (vault_get_by_id vid)) (\<lambda>v.
     bindE (liftE (ok_or v (NotFound ''vault not found''))) (\<lambda>vault.
     open_vault_for_user A L (v_owner_user_id vault) vid master_key))"

definition listing_user :: "uuid \<Rightarrow> (world, unit) eff" where
  "listing_user uid =
     bindE (existing_user uid ''user not found'') (\<lambda>user.
     liftE (check_permission user VaultList Global))"

definition list_user_vaults :: "uuid \<Rightarrow> (world, vault list) eff" where
  "list_user_vaults uid =
     bindE (listing_user uid) (\<lambda>_.
     bindE (on_db (get_accessible_vaults uid)) (\<lambda>records. returnE (map av_vault records)))"

definition get_vault_access_for_user :: "uuid \<Rightarrow> uuid \<Rightarrow> (world, accessible_vault option) eff" where
  "get_vault_access_for_user uid vid =
     bindE (listing_user uid) (\<lambda>_. on_db (get_vault_with_permission uid vid))"

definition service_list_owned_vaults :: "uuid \<Rightarrow> (world, vault list) eff" where
  "service_list_owned_vaults uid = bindE (listing_user uid) (\<lambda>_. on_db (list_owned_vaults uid))"

definition service_list_shared_vaults :: "uuid \<Rightarrow> (world, vault list) eff" where
  "service_list_shared_vaults uid = bindE (listing_user uid) (\<lambda>_. on_db (list_shared_vaults uid))"

definition list_shared_vault_access :: "uuid \<Rightarrow> (world, accessible_vault list) eff" where
  "list_shared_vault_access uid =
     bindE (listing_user uid) (\<lambda>_.
     bindE (on_db (get_accessible_vaults uid)) (\<lambda>records.
     returnE (filter (\<lambda>r. v_owner_user_id (av_vault r) \<noteq> uid) records)))"

definition is_vault_shared_with_others :: "uuid \<Rightarrow> uuid \<Rightarrow> (world, bool) eff" where
  "is_vault_shared_with_others uid vid =
     bindE (listing_user uid) (\<lambda>_.
     bindE (required_permission uid vid) (\<lambda>access.
     if v_owner_user_id (av_vault access) \<noteq> uid then returnE False
     else bindE (on_db (list_key_share_user_ids vid)) (\<lambda>ids. returnE (ids \<noteq> []))))"

definition service_delete_vault :: "audit_svc \<Rightarrow> uuid \<Rightarrow> uuid \<Rightarrow> (world, unit) eff" where
  "service_delete_vault A requester_id vid =
     bindE (existing_user requester_id ''requester user not found'') (\<lambda>requester.
     bindE (required_permission requester_id vid) (\<lambda>permission.
     bindE (liftE (check_permission requester VaultDelete (permission_resource requester_id permission))) (\<lambda>_.
     bindE (on_db (repo_delete_vault vid)) (\<lambda>_.
     ignoring_errors (record_event A (Some requester_id) VaultDeleted (Some ''vault'')
       (Some (uuid_to_string A vid)) None)))))"

definition service_update_vault_sort_order :: "uuid \<Rightarrow> uuid \<Rightarrow> int \<Rightarrow> (world, unit) eff" where
  "service_update_vault_sort_order requester_id vid sort_order =
     bindE (required_permission requester_id vid) (\<lambda>permission.
     if v_owner_user_id (av_vault permission) \<noteq> requester_id
     then throwE (Authorization VaultAccessDenied)
     else on_db (update_vault_sort_order vid sort_order))"

section \<open>Envelopes\<close>

lemma deserialize_serialize:
  "length (nonce p) = NONCE_LEN \<Longrightarrow> deserialize_vault_key_envelope (serialize_vault_key_envelope p) = Inr p"
  by (simp add: deserialize_vault_key_envelope_def serialize_vault_key_envelope_def)

lemma serialize_deserialize:
  "deserialize_vault_key_envelope bs = Inr p \<Longrightarrow>
     serialize_vault_key_envelope p = bs \<and> length (nonce p) = NONCE_LEN"
  by (auto simp: deserialize_vault_key_envelope_def serialize_vault_key_envelope_def split: if_splits)

text \<open>A key that an envelope gives back under a wrapping key.\<close>

definition envelope_holds :: "crypto_lib \<Rightarrow> bytes \<Rightarrow> bytes \<Rightarrow> bytes \<Rightarrow> bool" where
  "envelope_holds L envelope master_key key \<longleftrightarrow>
     bindR (deserialize_vault_key_envelope envelope) (\<lambda>p. decrypt L p master_key) = Inr key"

lemma encrypted_envelope_holds:
  assumes "crypto_lib_ok L" "encrypt L key master_key w = (Inr p, w')"
  shows "envelope_holds L (serialize_vault_key_envelope p) master_key key"
  using encrypt_payload(1) [OF assms] encrypt_decrypt [OF assms]
  by (simp add: envelope_holds_def deserialize_serialize)

lemma bindE_on_db [bind_simps]:
  "m (w_db w) = (Inr a, d) \<Longrightarrow> bindE (on_db m) f w = f a (w\<lparr>w_db := d\<rparr>)"
  "m (w_db w) = (Inl e, d) \<Longrightarrow> bindE (on_db m) f w = (Inl e, w\<lparr>w_db := d\<rparr>)"
  by (simp_all add: bindE_def on_db_def)

section \<open>What the reads answer\<close>

lemma required_permission_run:
  assumes "world_ok w"
  shows "required_permission uid vid w =
    (ok_or (access_to uid vid (w_db w)) (Authorization VaultAccessDenied), w)"
  using get_vault_with_permission_run [of "w_db w" uid vid] assms
  by (simp add: required_permission_def bindE_run on_db_run liftE_run world_ok_def)

lemma row_to_user_ok:
  "world_ok w \<Longrightarrow> user_by_id uid (w_db w) = Some row \<Longrightarrow>
     \<exists>u. row_to_user row = Inr u \<and> (usr_role u = Admin \<longleftrightarrow> ur_role row = ''admin'')"
  using find_row_Some_in [of ur_id uid "users (w_db w)" row]
  by (auto simp: world_ok_def db_ok_def users_ok_def list_all_iff user_row_ok_def row_to_user_def
      parse_role_def user_by_id_def)

lemma existing_user_run:
  assumes "world_ok w"
  shows "existing_user uid m w = (case user_by_id uid (w_db w) of
      None \<Rightarrow> (Inl (NotFound m), w)
    | Some row \<Rightarrow> (row_to_user row, w))"
proof (cases "user_by_id uid (w_db w)")
  case (Some row)
  then obtain u where "row_to_user row = Inr u" using row_to_user_ok [OF assms] by blast
  then show ?thesis using Some by (simp add: existing_user_def user_get_by_id_def eff_simps)
qed (simp add: existing_user_def user_get_by_id_def eff_simps)

lemma access_to_shape:
  assumes "access_to uid vid d = Some av"
  shows "\<exists>v. vault_by_id vid d = Some v \<and> active_vault v \<and> v_owner_user_id (av_vault av) = vr_owner_user_id v
    \<and> (if vr_owner_user_id v = uid then av_role av = RoleAdmin \<and> av_access_kind av = Owner
       else av_access_kind av \<noteq> Owner \<and> share_of (vr_id v) uid d \<noteq> None)"
proof -
  obtain v g where v: "vault_by_id vid d = Some v" "granted_access uid v d = Some g"
    and av: "av = (case g of (role, kind) \<Rightarrow> \<lparr>av_vault = row_to_vault v, av_role = role,
      av_access_kind = kind, av_vault_key_version = vr_vault_key_version v\<rparr>)"
    using assms by (auto simp: access_to_def split: option.splits)
  obtain role kind where g: "g = (role, kind)" by (cases g)
  have "active_vault v" using v(2) by (auto simp: granted_access_def split: if_splits)
  moreover have "if vr_owner_user_id v = uid then role = RoleAdmin \<and> kind = Owner
      else kind \<noteq> Owner \<and> share_of (vr_id v) uid d \<noteq> None"
    using v(2) \<open>active_vault v\<close> by (auto simp: granted_access_def g split: option.splits if_splits)
  ultimately show ?thesis using v(1) by (simp add: av g row_to_vault_def)
qed

text \<open>The copy of a vault's key that is meant for a user.\<close>

definition envelope_for :: "uuid \<Rightarrow> uuid \<Rightarrow> db \<Rightarrow> bytes option" where
  "envelope_for uid vid d = (case vault_by_id vid d of
     None \<Rightarrow> None
   | Some v \<Rightarrow> if vr_owner_user_id v = uid then vr_vault_key_envelope v
       else map_option kr_key_envelope (share_of vid uid d))"

lemma open_permission:
  assumes "access_to uid vid d = Some av"
  shows "check_permission u VaultOpen (permission_resource uid av) = Inr ()"
proof -
  have "v_owner_user_id (av_vault av) = uid \<or> av_access_kind av = DirectShare \<or> av_access_kind av = TeamShare"
    using access_to_shape [OF assms] by (cases "av_access_kind av") (auto split: if_splits)
  then show ?thesis
    by (auto simp: check_permission_def permission_resource_def has_access_def)
qed

lemma open_vault_run:
  assumes "world_ok w" "user_by_id uid (w_db w) = Some row" "access_to uid vid (w_db w) = Some av"
  shows "open_vault_for_user A L uid vid mk w =
    bindE (liftE (ok_or (envelope_for uid vid (w_db w)) (if v_owner_user_id (av_vault av) = uid
        then Storage ''missing owner vault key envelope'' else Authorization VaultAccessDenied))) (\<lambda>e.
    bindE (liftE (deserialize_vault_key_envelope e)) (\<lambda>p.
    bindE (liftE (decrypt L p mk)) (\<lambda>key.
    bindE (record_event A (Some uid) VaultOpened (Some ''vault'') (Some (uuid_to_string A vid)) None)
      (\<lambda>_. returnE key)))) w"
proof -
  obtain u where u: "existing_user uid ''requester user not found'' w = (Inr u, w)"
    using row_to_user_ok [OF assms(1,2)] assms by (auto simp: existing_user_run)
  have p: "required_permission uid vid w = (Inr av, w)"
    using assms by (simp add: required_permission_run)
  obtain v where v: "vault_by_id vid (w_db w) = Some v" "v_owner_user_id (av_vault av) = vr_owner_user_id v"
    using access_to_shape [OF assms(3)] by blast
  let ?get = "if v_owner_user_id (av_vault av) = uid
      then bindE (on_db (get_vault_key_envelope vid)) (\<lambda>e.
        liftE (ok_or e (Storage ''missing owner vault key envelope'')))
      else bindE (on_db (get_key_share vid uid)) (\<lambda>e. liftE (ok_or e (Authorization VaultAccessDenied)))"
  have get: "?get w = liftE (ok_or (envelope_for uid vid (w_db w)) (if v_owner_user_id (av_vault av) = uid
      then Storage ''missing owner vault key envelope'' else Authorization VaultAccessDenied)) w"
    using v by (simp add: bindE_run on_db_run liftE_run getsE_run envelope_for_def
        get_vault_key_envelope_def get_key_share_def)
  have "bindE ?get f w = bindE (liftE (ok_or (envelope_for uid vid (w_db w))
      (if v_owner_user_id (av_vault av) = uid then Storage ''missing owner vault key envelope''
       else Authorization VaultAccessDenied))) f w" for f :: "bytes \<Rightarrow> (world, bytes) eff"
    by (rule bindE_same) (rule get)
  then show ?thesis
    by (simp only: open_vault_for_user_def bindE_step u p open_permission [OF assms(3)] bindE_pure(1))
qed

text \<open>
  C24: A vault opens for a user exactly when the user exists and has access to it, the copy of its
  key meant for that user decrypts with the key the user gives, and the opening is recorded; the
  answer is then that vault key. Opening changes nothing but the audit log.
\<close>

theorem open_vault_exact:
  assumes "world_ok w" "audit_ok A"
  shows "(fst (open_vault_for_user A L uid vid mk w) = Inr key \<longleftrightarrow>
      uid \<in> user_ids (w_db w) \<and> access_to uid vid (w_db w) \<noteq> None
      \<and> (\<exists>e. envelope_for uid vid (w_db w) = Some e \<and> envelope_holds L e mk key)
      \<and> fst (record_event A (Some uid) VaultOpened (Some ''vault'') (Some (uuid_to_string A vid)) None w) = Inr ())
    \<and> (\<exists>rows. snd (open_vault_for_user A L uid vid mk w) = w\<lparr>w_db := (w_db w)\<lparr>audit_log := rows\<rparr>\<rparr>)"
proof -
  let ?rec = "record_event A (Some uid) VaultOpened (Some ''vault'') (Some (uuid_to_string A vid)) None"
  have same: "\<exists>rows. w = w\<lparr>w_db := (w_db w)\<lparr>audit_log := rows\<rparr>\<rparr>"
    by (rule exI [of _ "audit_log (w_db w)"]) simp
  have rec: "\<exists>rows. snd (?rec w) = w\<lparr>w_db := (w_db w)\<lparr>audit_log := rows\<rparr>\<rparr>"
    using audit_writer.writes_log [OF assms(2) [unfolded audit_ok_def]] unfolding audit_only_def by blast
  show ?thesis
  proof (cases "user_by_id uid (w_db w)")
    case None
    then have "uid \<notin> user_ids (w_db w)" by (simp add: user_by_id_in)
    then show ?thesis
      using None same assms(1) by (simp add: open_vault_for_user_def bindE_run existing_user_run)
  next
    case user: (Some row)
    then have uid: "uid \<in> user_ids (w_db w)" by (simp add: user_by_id_in)
    show ?thesis
    proof (cases "access_to uid vid (w_db w)")
      case None
      then show ?thesis
        using same user row_to_user_ok [OF assms(1) user] assms(1)
        by (auto simp: open_vault_for_user_def bindE_run existing_user_run required_permission_run)
    next
      case (Some av)
      show ?thesis
        using same rec uid Some unfolding open_vault_run [OF assms(1) user Some]
        by (cases "envelope_for uid vid (w_db w)")
          (auto simp: bindE_run liftE_run returnE_run envelope_holds_def bindR_Inr_iff split: sum.splits)
    qed
  qed
qed

definition open_db :: db where
  "open_db = (empty_db ''now'')\<lparr>users := [new_user_row 1 ''amy'' Admin]\<rparr>"

definition open_world :: world where
  "open_world = (empty_world ''now'')\<lparr>w_db := open_db\<rparr>"

lemma open_world_ok: "world_ok open_world" "rng_works open_world"
  by (simp_all add: open_world_def world_ok_def open_db_def empty_db_def db_ok_def db_part_defs
      user_row_ok_def new_user_row_def)

lemma open_world_user: "user_by_id 1 (w_db open_world) = Some (new_user_row 1 ''amy'' Admin)"
  by (simp add: open_world_def open_db_def user_by_id_def new_user_row_def)

lemma open_world_tables:
  "vaults (w_db open_world) = []" "ur_id ` set (users (w_db open_world)) = {1}"
  by (simp_all add: open_world_def open_db_def empty_db_def new_user_row_def)

definition sample_audit :: audit_svc where
  "sample_audit = logging_audit (\<lambda>_. ''id'')"

lemma sample_audit_ok: "audit_ok sample_audit"
  by (simp add: sample_audit_def)

section \<open>Creating a vault\<close>

lemma vault_by_id_append:
  "vault_by_id k (d\<lparr>vaults := vaults d @ [v]\<rparr>) = (case vault_by_id k d of Some r \<Rightarrow> Some r
     | None \<Rightarrow> if vr_id v = k then Some v else None)"
  by (simp add: vault_by_id_def find_row_append split: option.split)

lemma recorded_db:
  assumes "audit_ok A" "record_event A actor action tt ti detail w = (r, w')"
  shows "\<exists>rows. w_db w' = (w_db w)\<lparr>audit_log := rows\<rparr>"
proof -
  obtain rows where "snd (record_event A actor action tt ti detail w) = w\<lparr>w_db := (w_db w)\<lparr>audit_log := rows\<rparr>\<rparr>"
    using audit_writer.writes_log [OF assms(1) [unfolded audit_ok_def]] unfolding audit_only_def by blast
  then show ?thesis using assms(2) by auto
qed

lemma create_vault_Inr:
  assumes "create_vault A L owner name mk w = (Inr v, w')" "world_ok w" "audit_ok A" "crypto_lib_ok L"
  obtains key e rows where "length key = VAULT_KEY_LEN" "envelope_holds L e mk key"
    "trim name \<noteq> []" "owner \<in> user_ids (w_db w)" "v_id v \<notin> vault_ids (w_db w)"
    "v_owner_user_id v = owner" "v_name v = name"
    "w_db w' = (w_db w)\<lparr>vaults := vaults (w_db w) @
      [\<lparr>vr_id = v_id v, vr_owner_user_id = owner, vr_name = name, vr_vault_key_envelope = Some e,
        vr_vault_key_version = 1, vr_sort_order = 0, vr_deleted_at = None\<rparr>], audit_log := rows\<rparr>"
proof -
  have user: "existing_user owner ''owner user not found'' w = (Inr u, w1) \<Longrightarrow>
      owner \<in> user_ids (w_db w) \<and> w1 = w" for u w1
    using assms(2) by (auto simp: existing_user_run user_by_id_in split: option.splits)
  obtain u w1 vid key payload w2 w3 w4 where
    name: "trim name \<noteq> []" and u: "existing_user owner ''owner user not found'' w = (Inr u, w1)"
    and vid: "vid = rng_uuid (w_rng w1) (rng_pos (w_rng w1))"
    and key: "generate_vault_key (tick w1) = (Inr key, w2)"
    and enc: "encrypt L key mk w2 = (Inr payload, w3)"
    and ins: "on_db (create_vault_with_envelope \<lparr>v_id = vid, v_owner_user_id = owner, v_name = name\<rparr>
        (serialize_vault_key_envelope payload)) w3 = (Inr (), w4)"
    and rec: "record_event A (Some owner) VaultCreated (Some ''vault'') (Some (uuid_to_string A vid))
        (Some (''{'' @ quote @ ''name'' @ quote @ '':'' @ quote @ name @ quote @ ''}'')) w4 = (Inr (), w')"
    and v: "v = \<lparr>v_id = vid, v_owner_user_id = owner, v_name = name\<rparr>"
    using assms(1) unfolding create_vault_def Let_def
    by (auto simp: eff_iffs new_v4_run)
  have w1: "w1 = w" "owner \<in> user_ids (w_db w)" using user [OF u] by simp_all
  have "w_db w2 = w_db w" using w1 fill_or_Inr [OF key [unfolded generate_vault_key_def]] by simp
  moreover have "w_db w3 = w_db w2" using encrypt_frame(1) [of L key mk w2] enc by simp
  ultimately have dbs: "w_db w2 = w_db w" "w_db w3 = w_db w2" by simp_all
  have len: "length key = VAULT_KEY_LEN" using key fill_or_Inr by (simp add: generate_vault_key_def)
  have row: "vid \<notin> vault_ids (w_db w)" "w_db w4 = (w_db w)\<lparr>vaults := vaults (w_db w) @
      [\<lparr>vr_id = vid, vr_owner_user_id = owner, vr_name = name,
        vr_vault_key_envelope = Some (serialize_vault_key_envelope payload),
        vr_vault_key_version = 1, vr_sort_order = 0, vr_deleted_at = None\<rparr>]\<rparr>"
    using ins dbs
    by (auto simp: on_db_iff create_vault_with_envelope_def insert_vault_def eff_iffs vault_ids_def
        split: if_splits)
  obtain rows where "w_db w' = (w_db w4)\<lparr>audit_log := rows\<rparr>"
    using recorded_db [OF assms(3)] rec by blast
  then have "w_db w' = (w_db w)\<lparr>vaults := vaults (w_db w) @
      [\<lparr>vr_id = v_id v, vr_owner_user_id = owner, vr_name = name,
        vr_vault_key_envelope = Some (serialize_vault_key_envelope payload),
        vr_vault_key_version = 1, vr_sort_order = 0, vr_deleted_at = None\<rparr>], audit_log := rows\<rparr>"
    by (simp add: row(2) v)
  then show ?thesis
    by (rule that [OF len encrypted_envelope_holds [OF assms(4) enc] name w1(2), rotated -1])
      (simp_all add: row(1) v)
qed

lemma keeps_record_event: "audit_ok A \<Longrightarrow> keeps world_ok (record_event A actor action tt ti detail)"
  unfolding audit_ok_def by (rule audit_writer.keeps_write)

lemma keeps_existing_user [inv_intros]: "keeps world_ok (existing_user uid m)"
  unfolding existing_user_def user_get_by_id_def by (intro inv_intros)

lemma keeps_vault_service [inv_intros]:
  assumes "audit_ok A"
  shows "keeps world_ok (create_vault A L owner name mk)"
    "keeps world_ok (open_vault_for_user A L uid vid mk)"
    "keeps world_ok (service_delete_vault A uid vid)"
    "keeps world_ok (service_update_vault_sort_order uid vid n)"
  unfolding create_vault_def open_vault_for_user_def service_delete_vault_def
    service_update_vault_sort_order_def required_permission_def generate_vault_key_def Let_def
  by (intro inv_intros keeps_record_event assms)+

lemma access_to_append:
  "vr_id v \<notin> vault_ids d \<Longrightarrow>
   access_to uid vid (d\<lparr>vaults := vaults d @ [v]\<rparr>) =
     (if vid = vr_id v then map_option (\<lambda>(role, kind). \<lparr>av_vault = row_to_vault v, av_role = role,
          av_access_kind = kind, av_vault_key_version = vr_vault_key_version v\<rparr>) (granted_access uid v d)
      else access_to uid vid d)"
proof -
  assume new: "vr_id v \<notin> vault_ids d"
  have "vault_by_id (vr_id v) d = None"
    using new by (simp add: vault_by_id_def find_row_None_iff vault_ids_def)
  moreover have "granted_access uid r (d\<lparr>vaults := vaults d @ [v]\<rparr>) = granted_access uid r d" for r
    by (simp add: granted_access_def share_of_def)
  ultimately show ?thesis
    by (cases "vault_by_id vid d") (auto simp: access_to_def vault_by_id_append)
qed

text \<open>
  C23: A vault that was created belongs to its creator, who can open it with the key it was created
  under and then gets a vault key of 32 bytes, as long as the opening can be recorded; nobody's
  access to another vault changes.
\<close>

theorem created_vault_opens:
  assumes "crypto_lib_ok L" "audit_ok A" "world_ok w" "create_vault A L owner name mk w = (Inr v, w')"
  shows "world_ok w' \<and> v_owner_user_id v = owner \<and> v_name v = name
    \<and> vault_by_id (v_id v) (w_db w) = None
    \<and> (\<exists>key. length key = VAULT_KEY_LEN
         \<and> fst (open_vault_for_user A L owner (v_id v) mk w') =
             bindR (fst (record_event A (Some owner) VaultOpened (Some ''vault'')
               (Some (uuid_to_string A (v_id v))) None w')) (\<lambda>_. Inr key))
    \<and> (\<forall>uid vid. vid \<noteq> v_id v \<longrightarrow> access_to uid vid (w_db w') = access_to uid vid (w_db w))"
proof -
  obtain key e rows where c: "length key = VAULT_KEY_LEN" "envelope_holds L e mk key"
      "owner \<in> user_ids (w_db w)" "v_id v \<notin> vault_ids (w_db w)"
      "v_owner_user_id v = owner" "v_name v = name"
      "w_db w' = (w_db w)\<lparr>vaults := vaults (w_db w) @
        [\<lparr>vr_id = v_id v, vr_owner_user_id = owner, vr_name = name, vr_vault_key_envelope = Some e,
          vr_vault_key_version = 1, vr_sort_order = 0, vr_deleted_at = None\<rparr>], audit_log := rows\<rparr>"
    by (rule create_vault_Inr [OF assms(4,3,2,1)])
  have ok: "world_ok w'" using keepsD [OF keeps_vault_service(1) [OF assms(2)] assms(3)] assms(4)
    by (metis snd_conv)
  have new: "vault_by_id (v_id v) (w_db w) = None"
    using c(4) by (simp add: vault_by_id_def find_row_None_iff vault_ids_def)
  obtain row where user: "user_by_id owner (w_db w') = Some row"
    using c(3) unfolding user_by_id_in by (auto simp: c(7) user_by_id_def)
  have access: "\<exists>av. access_to owner (v_id v) (w_db w') = Some av \<and> v_owner_user_id (av_vault av) = owner"
    using c(4) by (simp add: c(7) access_to_append granted_access_def active_vault_def row_to_vault_def)
  then obtain av where av: "access_to owner (v_id v) (w_db w') = Some av" by blast
  have env: "envelope_for owner (v_id v) (w_db w') = Some e"
    using new by (simp add: envelope_for_def c(7) vault_by_id_def find_row_append)
  have "fst (open_vault_for_user A L owner (v_id v) mk w') =
      bindR (fst (record_event A (Some owner) VaultOpened (Some ''vault'')
        (Some (uuid_to_string A (v_id v))) None w')) (\<lambda>_. Inr key)"
    using c(2) unfolding open_vault_run [OF ok user av] env envelope_holds_def
    by (auto simp: bindE_run liftE_run returnE_run bindR_Inr_iff bindR_def split: sum.splits)
  moreover have "access_to uid vid (w_db w') = access_to uid vid (w_db w)" if "vid \<noteq> v_id v" for uid vid
    using that c(4) by (simp add: c(7) access_to_append)
  ultimately show ?thesis using ok c new by blast
qed

lemma toy_create_vault:
  "\<exists>v w'. create_vault sample_audit toy_lib 1 ''home'' (replicate 32 7) open_world = (Inr v, w')"
proof -
  let ?mk = "replicate 32 (7 :: byte)"
  have user: "existing_user 1 ''owner user not found'' open_world =
      (row_to_user (new_user_row 1 ''amy'' Admin), open_world)"
    by (simp add: existing_user_run [OF open_world_ok(1)] open_world_user)
  obtain u where u: "row_to_user (new_user_row 1 ''amy'' Admin) = Inr u" "usr_role u = Admin"
    using row_to_user_ok [OF open_world_ok(1) open_world_user] by (auto simp: new_user_row_def)
  obtain key where key: "generate_vault_key (tick open_world) = (Inr key, tick (tick open_world))"
    using open_world_ok(2) unfolding generate_vault_key_def
    by (metis fill_or_works rng_works_tick)
  obtain payload where enc: "encrypt toy_lib key ?mk (tick (tick open_world)) =
      (Inr payload, tick (tick (tick open_world)))"
    using open_world_ok(2) toy_encrypt [of "tick (tick open_world)" ?mk key] by auto
  have name: "trim ''home'' \<noteq> []"
    by (simp add: trim_def trim_with.simps white_space_def)
  let ?v = "\<lparr>v_id = rng_uuid (w_rng open_world) (rng_pos (w_rng open_world)), v_owner_user_id = 1,
    v_name = ''home''\<rparr>"
  let ?w = "tick (tick (tick open_world))"
  obtain w4 where ins: "on_db (create_vault_with_envelope ?v (serialize_vault_key_envelope payload)) ?w = (Inr (), w4)"
    and users: "ur_id ` set (users (w_db w4)) = {1}"
    by (simp add: on_db_run create_vault_with_envelope_def insert_vault_def eff_simps open_world_tables)
  obtain w5 where rec: "record_event sample_audit (Some 1) VaultCreated (Some ''vault'')
      (Some (uuid_to_string sample_audit (v_id ?v)))
      (Some (''{'' @ quote @ ''name'' @ quote @ '':'' @ quote @ v_name ?v @ quote @ ''}'')) w4 = (Inr (), w5)"
    using users by (simp add: sample_audit_def logging_audit_def on_db_run audit_append_def
        insert_audit_def eff_simps)
  have check: "check_permission u VaultCreate Global = Inr ()" using u by (simp add: check_permission_def)
  have named: "ensure (trim ''home'' \<noteq> []) (Validation ''vault name must not be empty'') = Inr ()"
    using name by simp
  have "create_vault sample_audit toy_lib 1 ''home'' ?mk open_world = (Inr ?v, w5)"
    unfolding create_vault_def Let_def
    by (simp only: named check bindE_pure bindE_step user u(1) new_v4_run key enc ins rec returnE_run)
  then show ?thesis by blast
qed

theorem created_vault_opens_witness:
  "\<exists>v w' key. create_vault sample_audit toy_lib 1 ''home'' (replicate 32 7) open_world = (Inr v, w')
     \<and> fst (open_vault_for_user sample_audit toy_lib 1 (v_id v) (replicate 32 7) w') = Inr key"
proof -
  obtain v w' where run: "create_vault sample_audit toy_lib 1 ''home'' (replicate 32 7) open_world = (Inr v, w')"
    using toy_create_vault by blast
  obtain key e rows where "w_db w' = (w_db open_world)\<lparr>vaults := vaults (w_db open_world) @
      [\<lparr>vr_id = v_id v, vr_owner_user_id = 1, vr_name = ''home'', vr_vault_key_envelope = Some e,
        vr_vault_key_version = 1, vr_sort_order = 0, vr_deleted_at = None\<rparr>], audit_log := rows\<rparr>"
    by (rule create_vault_Inr [OF run open_world_ok(1) sample_audit_ok toy_lib_ok])
  then have users: "1 \<in> set (map ur_id (users (w_db w')))"
    by (simp add: open_world_def open_db_def new_user_row_def)
  have "fst (record_event sample_audit (Some 1) VaultOpened (Some ''vault'')
      (Some (uuid_to_string sample_audit (v_id v))) None w') = Inr ()"
    using users by (simp add: sample_audit_def logging_audit_def on_db_run audit_append_def
        insert_audit_def eff_simps)
  then show ?thesis
    using created_vault_opens [OF toy_lib_ok sample_audit_ok open_world_ok(1) run] run by fastforce
qed

lemma vault_created_opens:
  "\<exists>w' vid key. world_ok w' \<and> 1 \<in> user_ids (w_db w') \<and> access_to 1 vid (w_db w') \<noteq> None
    \<and> (\<exists>e. envelope_for 1 vid (w_db w') = Some e \<and> envelope_holds toy_lib e (replicate 32 7) key)
    \<and> fst (record_event sample_audit (Some 1) VaultOpened (Some ''vault'') (Some (uuid_to_string sample_audit vid)) None w')
      = Inr ()"
proof -
  obtain v w' where run: "create_vault sample_audit toy_lib 1 ''home'' (replicate 32 7) open_world = (Inr v, w')"
    using toy_create_vault by blast
  obtain key e rows where c: "envelope_holds toy_lib e (replicate 32 7) key"
    "v_id v \<notin> vault_ids (w_db open_world)"
    "w_db w' = (w_db open_world)\<lparr>vaults := vaults (w_db open_world) @
      [\<lparr>vr_id = v_id v, vr_owner_user_id = 1, vr_name = ''home'', vr_vault_key_envelope = Some e,
        vr_vault_key_version = 1, vr_sort_order = 0, vr_deleted_at = None\<rparr>], audit_log := rows\<rparr>"
    by (rule create_vault_Inr [OF run open_world_ok(1) sample_audit_ok toy_lib_ok])
  have ok: "world_ok w'" using keepsD [OF keeps_vault_service(1) [OF sample_audit_ok] open_world_ok(1)] run
    by (metis snd_conv)
  have user: "1 \<in> user_ids (w_db w')" using open_world_tables(2) by (simp add: c(3) user_ids_def)
  have "access_to 1 (v_id v) (w_db w') \<noteq> None"
    using c(2) by (simp add: c(3) access_to_append granted_access_def active_vault_def row_to_vault_def)
  moreover have "envelope_for 1 (v_id v) (w_db w') = Some e"
    by (simp add: envelope_for_def c(3) vault_by_id_def open_world_tables(1))
  moreover have "fst (record_event sample_audit (Some 1) VaultOpened (Some ''vault'')
      (Some (uuid_to_string sample_audit (v_id v))) None w') = Inr ()"
    using user by (simp add: sample_audit_def logging_audit_def on_db_run audit_append_def insert_audit_def eff_simps
        user_ids_def)
  ultimately show ?thesis using ok user c(1) by blast
qed

theorem open_vault_exact_witness:
  "\<exists>w vid key. fst (open_vault_for_user sample_audit toy_lib 1 vid (replicate 32 7) w) = Inr key"
proof -
  obtain w' vid key where "world_ok w'" "1 \<in> user_ids (w_db w') \<and> access_to 1 vid (w_db w') \<noteq> None
    \<and> (\<exists>e. envelope_for 1 vid (w_db w') = Some e \<and> envelope_holds toy_lib e (replicate 32 7) key)
    \<and> fst (record_event sample_audit (Some 1) VaultOpened (Some ''vault'') (Some (uuid_to_string sample_audit vid)) None w')
      = Inr ()"
    using vault_created_opens by blast
  then show ?thesis
    using open_vault_exact [of w' sample_audit toy_lib 1 vid "replicate 32 7" key] sample_audit_ok by blast
qed

section \<open>Deleting a vault\<close>

definition may_delete :: "uuid \<Rightarrow> uuid \<Rightarrow> db \<Rightarrow> bool" where
  "may_delete uid vid d \<longleftrightarrow> (\<exists>row av. user_by_id uid d = Some row \<and> access_to uid vid d = Some av
     \<and> (ur_role row = ''admin'' \<or> v_owner_user_id (av_vault av) = uid \<or> av_role av = RoleAdmin))"

lemma delete_permission:
  assumes "access_to uid vid d = Some av"
  shows "check_permission u VaultDelete (permission_resource uid av) =
    (if usr_role u = Admin \<or> v_owner_user_id (av_vault av) = uid \<or> av_role av = RoleAdmin then Inr ()
     else Inl (Authorization VaultAdminRequired))"
proof -
  have "v_owner_user_id (av_vault av) = uid \<or> av_access_kind av = DirectShare \<or> av_access_kind av = TeamShare"
    using access_to_shape [OF assms] by (cases "av_access_kind av") (auto split: if_splits)
  then show ?thesis
    by (auto simp: check_permission_def permission_resource_def has_access_def role_is_def can_admin_def
        denied_def)
qed

text \<open>
  C25: A vault is deleted for exactly those who may: its owner, the holder of a share with the
  administration role, and an administrator of the application who has some access to it. Then
  nobody has access to it any more, shares or not, and access to other vaults is as before. Any
  other request is refused and changes nothing; a failure to record the deletion does not undo it.
\<close>

theorem delete_vault_rights:
  assumes "world_ok w" "audit_ok A"
  shows "case service_delete_vault A uid vid w of
     (Inr _, w') \<Rightarrow> may_delete uid vid (w_db w) \<and> (\<forall>u. access_to u vid (w_db w') = None)
       \<and> (\<forall>u v. v \<noteq> vid \<longrightarrow> access_to u v (w_db w') = access_to u v (w_db w))
   | (Inl _, w') \<Rightarrow> \<not> may_delete uid vid (w_db w) \<and> w' = w"
proof (cases "user_by_id uid (w_db w)")
  case None
  then show ?thesis
    by (simp add: service_delete_vault_def bindE_run existing_user_run [OF assms(1)] may_delete_def)
next
  case user: (Some row)
  obtain u where u: "row_to_user row = Inr u" "usr_role u = Admin \<longleftrightarrow> ur_role row = ''admin''"
    using row_to_user_ok [OF assms(1) user] by blast
  have start: "existing_user uid m w = (Inr u, w)" for m
    using user u by (simp add: existing_user_run [OF assms(1)])
  show ?thesis
  proof (cases "access_to uid vid (w_db w)")
    case None
    then show ?thesis
      by (simp add: service_delete_vault_def bindE_run start required_permission_run [OF assms(1)]
          may_delete_def)
  next
    case (Some av)
    have perm: "required_permission uid vid w = (Inr av, w)"
      using Some by (simp add: required_permission_run [OF assms(1)])
    show ?thesis
    proof (cases "may_delete uid vid (w_db w)")
      case False
      then show ?thesis
        using user Some u
        by (simp add: service_delete_vault_def bindE_run start perm liftE_run delete_permission may_delete_def)
    next
      case True
      then have check: "check_permission u VaultDelete (permission_resource uid av) = Inr ()"
        using user Some u by (auto simp: delete_permission may_delete_def)
      let ?d = "trashed_vault vid (w_db w)"
      have del: "repo_delete_vault vid (w_db w) = (Inr (), ?d)"
        using access_to_shape [OF Some] assms(1)
        by (auto simp: repo_delete_vault_run vault_by_id_iff world_ok_def)
      have run: "service_delete_vault A uid vid w = ignoring_errors (record_event A (Some uid) VaultDeleted
          (Some ''vault'') (Some (uuid_to_string A vid)) None) (w\<lparr>w_db := ?d\<rparr>)"
        by (simp add: service_delete_vault_def bindE_step start perm check bindE_pure on_db_run del)
      obtain rows where rows: "w_db (snd (service_delete_vault A uid vid w)) = ?d\<lparr>audit_log := rows\<rparr>"
        using recorded_db [OF assms(2) surjective_pairing, of "Some uid" VaultDeleted "Some ''vault''"
            "Some (uuid_to_string A vid)" None "w\<lparr>w_db := ?d\<rparr>"]
        by (auto simp: run ignoring_errors_def bindE_run attemptE_run returnE_run)
      have ok: "fst (service_delete_vault A uid vid w) = Inr ()"
        by (simp add: run ignoring_errors_def bindE_run attemptE_run returnE_run)
      show ?thesis
        using True ok rows
        by (cases "service_delete_vault A uid vid w") (simp add: access_to_trashed)
    qed
  qed
qed

theorem delete_vault_rights_witness:
  "let w = (empty_world ''now'')\<lparr>w_db := sample_db\<rparr>
   in fst (service_delete_vault sample_audit 1 10 w) = Inr ()
     \<and> access_to 2 10 (w_db (snd (service_delete_vault sample_audit 1 10 w))) = None"
proof -
  let ?w = "(empty_world ''now'')\<lparr>w_db := sample_db\<rparr>"
  have "may_delete 1 10 (w_db ?w)"
    by (simp add: may_delete_def user_by_id_def access_to_def granted_access_def vault_by_id_def
        sample_db_def empty_db_def new_user_row_def active_vault_def row_to_vault_def)
  moreover have "world_ok ?w" using sample_db_ok by (simp add: world_ok_def)
  ultimately show ?thesis
    using delete_vault_rights [OF _ sample_audit_ok, of ?w 1 10] unfolding Let_def
    by (cases "service_delete_vault sample_audit 1 10 ?w") (auto split: sum.splits)
qed

end
