(* ===== verification/HV_SecretService.thy ===== *)
theory HV_SecretService
  imports HV_VaultService
begin

text \<open>
  services/secret_service.rs: secrets encrypted under their vault's key, over the secret
  repository, the crypto service and the audit interface. Classification of characters and the
  lossy reading of bytes as text are the standard library's Unicode tables, the record
  \<open>unicode\<close>.
\<close>

section \<open>Payloads\<close>

definition decode_secret_payload :: "bytes \<Rightarrow> encrypted_payload result" where
  "decode_secret_payload bs =
     (if length bs < NONCE_LEN then Inl (Storage ''secret blob envelope is invalid'')
      else Inr \<lparr>nonce = take NONCE_LEN bs, ciphertext = drop NONCE_LEN bs\<rparr>)"

definition serialize_payload :: "encrypted_payload \<Rightarrow> bytes" where
  "serialize_payload payload = nonce payload @ ciphertext payload"

fun blob_storage_for_type :: "secret_type \<Rightarrow> blob_storage" where
  "blob_storage_for_type Password = Inline"
| "blob_storage_for_type ApiToken = Inline"
| "blob_storage_for_type SshKey = Inline"
| "blob_storage_for_type SecureDocument = File"

definition validate_plaintext_secret :: "bytes \<Rightarrow> unit result" where
  "validate_plaintext_secret plaintext =
     ensure (plaintext \<noteq> []) (Validation ''secret value must not be empty'')"

record decrypted_secret =
  ds_id :: uuid
  ds_vault_id :: uuid
  ds_secret_type :: secret_type
  ds_blob_storage :: blob_storage
  ds_secret_value :: bytes

section \<open>Operations\<close>

definition create_secret :: "audit_svc \<Rightarrow> crypto_lib \<Rightarrow> uuid \<Rightarrow> secret_type \<Rightarrow> string option \<Rightarrow> string option
    \<Rightarrow> string option \<Rightarrow> string option \<Rightarrow> bytes \<Rightarrow> bytes \<Rightarrow> (world, secret_item) eff" where
  "create_secret A L vid secret_type title metadata_json tags expires_at plaintext_secret vault_key =
     bindE (liftE (validate_plaintext_secret plaintext_secret)) (\<lambda>_.
     bindE (encrypt L plaintext_secret vault_key) (\<lambda>encrypted_payload.
     let serialized_payload = serialize_payload encrypted_payload in
     bindE new_v4 (\<lambda>sid.
     let item = \<lparr>si_id = sid, si_vault_id = vid, si_secret_type = secret_type, si_title = title,
         si_metadata_json = metadata_json, si_tags = tags, si_expires_at = expires_at,
         si_created_at = None, si_modified_at = None, si_usage_count = 0,
         si_blob_storage = blob_storage_for_type secret_type, si_secret_blob = serialized_payload,
         si_deleted_at = None\<rparr> in
     bindE (on_db (insert_secret_blob item serialized_payload)) (\<lambda>_.
     bindE (ignoring_errors (record_event A None SecretCreated (Some ''secret'')
         (Some (uuid_to_string A (si_id item)))
         (Some (''{'' @ quote @ ''title'' @ quote @ '':'' @ quote
           @ (case si_title item of Some t \<Rightarrow> t | None \<Rightarrow> ''Sans titre'') @ quote @ ''}'')))) (\<lambda>_.
     returnE item)))))"

definition required_secret :: "uuid \<Rightarrow> (world, secret_item) eff" where
  "required_secret sid =
     bindE (on_db (secret_get_by_id sid)) (\<lambda>item. liftE (ok_or item (NotFound ''secret not found'')))"

definition get_secret :: "crypto_lib \<Rightarrow> uuid \<Rightarrow> bytes \<Rightarrow> (world, decrypted_secret) eff" where
  "get_secret L sid vault_key =
     bindE (required_secret sid) (\<lambda>item.
     bindE (liftE (decode_secret_payload (si_secret_blob item))) (\<lambda>payload.
     bindE (liftE (decrypt L payload vault_key)) (\<lambda>secret_value.
     returnE \<lparr>ds_id = si_id item, ds_vault_id = si_vault_id item,
              ds_secret_type = si_secret_type item, ds_blob_storage = si_blob_storage item,
              ds_secret_value = secret_value\<rparr>)))"

definition update_secret :: "audit_svc \<Rightarrow> crypto_lib \<Rightarrow> uuid \<Rightarrow> string option \<Rightarrow> string option
    \<Rightarrow> string option \<Rightarrow> string option \<Rightarrow> bytes option \<Rightarrow> bytes \<Rightarrow> string option \<Rightarrow> (world, unit) eff" where
  "update_secret A L sid title metadata_json tags expires_at plaintext_secret vault_key audit_detail =
     bindE (on_db (update_secret_metadata sid title metadata_json tags expires_at)) (\<lambda>_.
     bindE (case plaintext_secret of
         Some plaintext \<Rightarrow>
           bindE (liftE (validate_plaintext_secret plaintext)) (\<lambda>_.
           bindE (encrypt L plaintext vault_key) (\<lambda>encrypted_payload.
           on_db (update_secret_blob sid (serialize_payload encrypted_payload))))
       | None \<Rightarrow> returnE ()) (\<lambda>_.
     ignoring_errors (record_event A None SecretUpdated (Some ''secret'')
       (Some (uuid_to_string A sid)) audit_detail)))"

definition record_viewed :: "audit_svc \<Rightarrow> uuid \<Rightarrow> uuid option \<Rightarrow> string option \<Rightarrow> (world, unit) eff" where
  "record_viewed A sid actor title =
     ignoring_errors (record_event A actor SecretViewed (Some ''secret'') (Some (uuid_to_string A sid))
       (map_option (\<lambda>t. ''{'' @ quote @ ''title'' @ quote @ '':'' @ quote @ t @ quote @ ''}'') title))"

definition record_field_copy :: "audit_svc \<Rightarrow> uuid \<Rightarrow> uuid option \<Rightarrow> string option \<Rightarrow> string \<Rightarrow> (world, unit) eff" where
  "record_field_copy A sid actor title field =
     ignoring_errors (record_event A actor
       (if field = ''password'' then SecretPasswordCopied else SecretFieldCopied)
       (Some ''secret'') (Some (uuid_to_string A sid))
       (map_option (\<lambda>t. ''{'' @ quote @ ''title'' @ quote @ '':'' @ quote @ t @ quote @ '',''
         @ quote @ ''field'' @ quote @ '':'' @ quote @ field @ quote @ ''}'') title))"

definition move_secret :: "crypto_lib \<Rightarrow> uuid \<Rightarrow> uuid \<Rightarrow> bytes \<Rightarrow> bytes \<Rightarrow> (world, unit) eff" where
  "move_secret L sid target_vault_id source_vault_key target_vault_key =
     bindE (required_secret sid) (\<lambda>item.
     if si_vault_id item = target_vault_id then returnE ()
     else
     bindE (liftE (decode_secret_payload (si_secret_blob item))) (\<lambda>payload.
     bindE (liftE (decrypt L payload source_vault_key)) (\<lambda>plaintext.
     bindE (encrypt L plaintext target_vault_key) (\<lambda>encrypted_for_target.
     on_db (move_secret_to_vault sid target_vault_id (serialize_payload encrypted_for_target))))))"

definition service_soft_delete :: "audit_svc \<Rightarrow> uuid \<Rightarrow> (world, unit) eff" where
  "service_soft_delete A sid =
     bindE (on_db (repo_soft_delete sid)) (\<lambda>_.
     ignoring_errors (record_event A None SecretDeleted (Some ''secret'') (Some (uuid_to_string A sid))
       (Some ''soft'')))"

definition service_restore_secret :: "uuid \<Rightarrow> uuid \<Rightarrow> (world, unit) eff" where
  "service_restore_secret sid vid = on_db (repo_restore_secret sid vid)"

definition service_permanent_delete :: "audit_svc \<Rightarrow> uuid \<Rightarrow> uuid \<Rightarrow> (world, unit) eff" where
  "service_permanent_delete A sid vid =
     bindE (on_db (repo_permanent_delete sid vid)) (\<lambda>_.
     ignoring_errors (record_event A None SecretDeleted (Some ''secret'') (Some (uuid_to_string A sid))
       (Some ''permanent'')))"

definition find_duplicate_secrets :: "uuid \<Rightarrow> bytes \<Rightarrow> (world, uuid list) eff" where
  "find_duplicate_secrets vid secret_value =
     bindE (on_db (list_by_vault_id vid)) (\<lambda>all_items.
     returnE (map si_id (filter (\<lambda>item. si_secret_blob item = secret_value) all_items)))"

section \<open>Strength of a stored password\<close>

record unicode =
  lossy_chars :: "bytes \<Rightarrow> nat list"
  is_uppercase :: "nat \<Rightarrow> bool"
  is_lowercase :: "nat \<Rightarrow> bool"
  is_numeric :: "nat \<Rightarrow> bool"
  is_alphanumeric :: "nat \<Rightarrow> bool"

definition evaluate_password_strength :: "unicode \<Rightarrow> bytes \<Rightarrow> string" where
  "evaluate_password_strength U secret_value =
     (if length secret_value \<ge> 12 then
        let content = lossy_chars U secret_value;
            complexity = length (filter (\<lambda>b. b)
              [list_ex (is_uppercase U) content, list_ex (is_lowercase U) content,
               list_ex (is_numeric U) content, list_ex (\<lambda>c. \<not> is_alphanumeric U c) content])
        in if complexity \<ge> 3 then ''Robuste'' else ''Faible''
      else ''Faible'')"

section \<open>Invariants\<close>

lemma keeps_secret_service [inv_intros]:
  assumes "audit_ok A"
  shows "keeps world_ok (create_secret A L vid t title m g e p k)"
    "keeps world_ok (update_secret A L sid title m g e po k detail)"
    "keeps world_ok (move_secret L sid vid k1 k2)"
    "keeps world_ok (get_secret L sid k)"
    "keeps world_ok (service_soft_delete A sid)"
    "keeps world_ok (service_restore_secret sid vid)"
    "keeps world_ok (service_permanent_delete A sid vid)"
  unfolding create_secret_def update_secret_def move_secret_def get_secret_def service_soft_delete_def
    service_restore_secret_def service_permanent_delete_def required_secret_def Let_def
  by (intro inv_intros keeps_record_event assms)+

lemma decode_serialize:
  "length (nonce p) = NONCE_LEN \<Longrightarrow> decode_secret_payload (serialize_payload p) = Inr p"
  by (simp add: decode_secret_payload_def serialize_payload_def)

section \<open>Reading a secret\<close>

text \<open>What decrypting the row of a secret gives.\<close>

definition secret_value :: "crypto_lib \<Rightarrow> bytes \<Rightarrow> secret_row \<Rightarrow> bytes result" where
  "secret_value L key s =
     bindR (decode_secret_payload (si_secret_blob (item_of_row s))) (\<lambda>p. decrypt L p key)"

lemma get_secret_run:
  assumes "world_ok w" "live_secret sid (w_db w) = Some s" "counted s"
  shows "get_secret L sid key w =
    (bindR (secret_value L key s) (\<lambda>v. Inr \<lparr>ds_id = sr_id s, ds_vault_id = sr_vault_id s,
       ds_secret_type = si_secret_type (item_of_row s), ds_blob_storage = si_blob_storage (item_of_row s),
       ds_secret_value = v\<rparr>), w)"
proof -
  have get: "required_secret sid w = (Inr (item_of_row s), w)"
    using assms by (simp add: required_secret_def bindE_run on_db_run secret_get_by_id_run world_ok_def liftE_run)
  have sel: "si_id (item_of_row s) = sr_id s" "si_vault_id (item_of_row s) = sr_vault_id s"
    by (simp_all add: item_of_row_def)
  show ?thesis
    by (auto simp: get_secret_def bindE_step get secret_value_def sel bindE_run liftE_run returnE_run
        bindR_def split: sum.split)
qed

lemma live_secret_log [simp]: "live_secret sid (d\<lparr>audit_log := rows\<rparr>) = live_secret sid d"
  by (simp add: live_secret_def secret_by_id_def)

lemma ignored_record:
  assumes "audit_ok A"
  obtains w' rows where "ignoring_errors (record_event A actor action tt ti detail) w = (Inr (), w')"
    "w_db w' = (w_db w)\<lparr>audit_log := rows\<rparr>"
proof -
  obtain r w' where run: "record_event A actor action tt ti detail w = (r, w')"
    by (cases "record_event A actor action tt ti detail w")
  then obtain rows where rows: "w_db w' = (w_db w)\<lparr>audit_log := rows\<rparr>" using recorded_db [OF assms] by blast
  have "ignoring_errors (record_event A actor action tt ti detail) w = (Inr (), w')"
    by (simp add: ignoring_errors_def bindE_run attemptE_run returnE_run run)
  then show ?thesis using rows by (rule that)
qed

lemma ignored_record_db:
  assumes "audit_ok A" "ignoring_errors (record_event A actor action tt ti detail) w = (r, w')"
  shows "\<exists>rows. w_db w' = (w_db w)\<lparr>audit_log := rows\<rparr>"
proof (rule ignored_record [OF assms(1), of actor action tt ti detail w])
  fix w1 rows
  assume "ignoring_errors (record_event A actor action tt ti detail) w = (Inr (), w1)"
    "w_db w1 = (w_db w)\<lparr>audit_log := rows\<rparr>"
  then show ?thesis using assms(2) by auto
qed

lemma stored_payload:
  assumes "crypto_lib_ok L" "encrypt L plaintext key w = (Inr p, w')"
  shows "bindR (decode_secret_payload (serialize_payload p)) (\<lambda>p. decrypt L p key) = Inr plaintext"
  using encrypt_payload(1) [OF assms] encrypt_decrypt [OF assms] by (simp add: decode_serialize)

lemma insert_secret_Inr:
  assumes "insert_secret_blob item blob d = (Inr x, d')"
  shows "live_secret (si_id item) d' = Some (new_secret_row item blob (db_clock d))"
    and "k \<noteq> si_id item \<Longrightarrow> live_secret k d' = live_secret k d"
proof -
  have new: "secret_by_id (si_id item) d = None"
    and d': "d' = d\<lparr>secret_items := secret_items d @ [new_secret_row item blob (db_clock d)]\<rparr>"
    using assms
    by (auto simp: insert_secret_blob_def eff_iffs secret_by_id_def find_row_None_iff split: if_splits)
  have row: "sr_id (new_secret_row item blob c) = si_id item" "active_secret (new_secret_row item blob c)" for c
    by (simp_all add: new_secret_row_def active_secret_def)
  show "live_secret (si_id item) d' = Some (new_secret_row item blob (db_clock d))"
    using new by (simp add: d' live_secret_def secret_by_id_append row)
  show "k \<noteq> si_id item \<Longrightarrow> live_secret k d' = live_secret k d"
    by (simp add: d' live_secret_def secret_by_id_append row split: option.split)
qed

text \<open>
  C26: A secret that was created reads back with the vault key it was encrypted under: the same
  bytes, in the same vault, of the same type, stored inline unless it is a document. It is never
  empty, and every other secret of the database is as before.
\<close>

theorem created_secret_reads_back:
  assumes "crypto_lib_ok L" "audit_ok A" "world_ok w"
    and "create_secret A L vid type title metadata tags expires plaintext key w = (Inr item, w')"
  shows "plaintext \<noteq> [] \<and> world_ok w'
    \<and> get_secret L (si_id item) key w' = (Inr \<lparr>ds_id = si_id item, ds_vault_id = vid,
        ds_secret_type = type, ds_blob_storage = blob_storage_for_type type,
        ds_secret_value = plaintext\<rparr>, w')
    \<and> (\<forall>k. k \<noteq> si_id item \<longrightarrow> live_secret k (w_db w') = live_secret k (w_db w))"
proof -
  obtain payload w1 w2 where
    ne: "plaintext \<noteq> []" and enc: "encrypt L plaintext key w = (Inr payload, w1)"
    and item: "si_vault_id item = vid" "si_secret_type item = type"
      "si_blob_storage item = blob_storage_for_type type"
    and ins: "on_db (insert_secret_blob item (serialize_payload payload)) (tick w1) = (Inr (), w2)"
    and rec: "ignoring_errors (record_event A None SecretCreated (Some ''secret'')
         (Some (uuid_to_string A (si_id item)))
         (Some (''{'' @ quote @ ''title'' @ quote @ '':'' @ quote
           @ (case si_title item of Some t \<Rightarrow> t | None \<Rightarrow> ''Sans titre'') @ quote @ ''}''))) w2 = (Inr (), w')"
    using assms(4) unfolding create_secret_def Let_def validate_plaintext_secret_def
    by (auto simp: eff_iffs new_v4_run)
  have db: "w_db (tick w1) = w_db w" using encrypt_frame(1) [of L plaintext key w] enc by simp
  then have ins': "insert_secret_blob item (serialize_payload payload) (w_db w) = (Inr (), w_db w2)"
    using ins by (auto simp: on_db_iff)
  obtain rows where "w_db w' = (w_db w2)\<lparr>audit_log := rows\<rparr>"
    using ignored_record_db [OF assms(2) rec] by blast
  then have live: "live_secret k (w_db w') = live_secret k (w_db w2)" for k by simp
  have ok: "world_ok w'" using keepsD [OF keeps_secret_service(1) [OF assms(2)] assms(3)] assms(4)
    by (metis snd_conv)
  let ?row = "new_secret_row item (serialize_payload payload) (db_clock (w_db w))"
  have "live_secret (si_id item) (w_db w') = Some ?row"
    using insert_secret_Inr(1) [OF ins'] live by simp
  moreover have "secret_value L key ?row = Inr plaintext"
    using stored_payload [OF assms(1) enc] by (simp add: secret_value_def item_of_new_row)
  ultimately have "get_secret L (si_id item) key w' = (Inr \<lparr>ds_id = si_id item, ds_vault_id = vid,
      ds_secret_type = type, ds_blob_storage = blob_storage_for_type type,
      ds_secret_value = plaintext\<rparr>, w')"
    using ok item by (simp add: get_secret_run counted_new item_of_new_row) (simp add: new_secret_row_def)
  then show ?thesis using ne ok live insert_secret_Inr(2) [OF ins'] by simp
qed

definition secret_world :: world where
  "secret_world = (empty_world ''now'')\<lparr>w_db := vault_db\<rparr>"

lemma secret_world_ok: "world_ok secret_world" "rng_works secret_world"
  using vault_db_ok by (simp_all add: secret_world_def world_ok_def)

lemma toy_create_secret:
  "\<exists>item w'. create_secret sample_audit toy_lib 10 SshKey None None None None [1, 2] (replicate 32 7) secret_world
     = (Inr item, w')"
proof -
  obtain payload where enc: "encrypt toy_lib [1, 2] (replicate 32 7) secret_world = (Inr payload, tick secret_world)"
    using toy_encrypt [OF secret_world_ok(2), of "replicate 32 7" "[1, 2]"] by auto
  let ?item = "\<lparr>si_id = rng_uuid (w_rng (tick secret_world)) (rng_pos (w_rng (tick secret_world))),
      si_vault_id = 10, si_secret_type = SshKey, si_title = None,
      si_metadata_json = None, si_tags = None, si_expires_at = None,
      si_created_at = None, si_modified_at = None, si_usage_count = 0,
      si_blob_storage = blob_storage_for_type SshKey, si_secret_blob = serialize_payload payload,
      si_deleted_at = None\<rparr>"
  let ?w = "tick (tick secret_world)"
  have "rng_uuid (w_rng (tick secret_world)) (rng_pos (w_rng (tick secret_world))) = 1"
    by (simp add: secret_world_def empty_world_def toy_rng_def tick_def)
  then obtain w4 where ins: "on_db (insert_secret_blob ?item (serialize_payload payload)) ?w = (Inr (), w4)"
    by (simp add: on_db_run insert_secret_blob_def eff_simps secret_world_def vault_db_def)
  obtain w5 where rec: "ignoring_errors (record_event sample_audit None SecretCreated (Some ''secret'')
      (Some (uuid_to_string sample_audit (si_id ?item)))
      (Some (''{'' @ quote @ ''title'' @ quote @ '':'' @ quote
        @ (case si_title ?item of Some t \<Rightarrow> t | None \<Rightarrow> ''Sans titre'') @ quote @ ''}''))) w4 = (Inr (), w5)"
    using ignored_record [OF sample_audit_ok] by metis
  have ne: "validate_plaintext_secret [1, 2] = Inr ()" by (simp add: validate_plaintext_secret_def)
  have "create_secret sample_audit toy_lib 10 SshKey None None None None [1, 2] (replicate 32 7) secret_world
      = (Inr ?item, w5)"
    unfolding create_secret_def Let_def
    by (simp only: ne bindE_pure bindE_step enc new_v4_run ins rec returnE_run)
  then show ?thesis by blast
qed

theorem created_secret_reads_back_witness:
  "\<exists>item w' r. create_secret sample_audit toy_lib 10 SshKey None None None None [1, 2] (replicate 32 7) secret_world
       = (Inr item, w')
     \<and> fst (get_secret toy_lib (si_id item) (replicate 32 7) w') = Inr r \<and> ds_secret_value r = [1, 2]"
proof -
  obtain item w' where run: "create_secret sample_audit toy_lib 10 SshKey None None None None [1, 2]
      (replicate 32 7) secret_world = (Inr item, w')"
    using toy_create_secret by blast
  show ?thesis
    using created_secret_reads_back [OF toy_lib_ok sample_audit_ok secret_world_ok(1) run] run by fastforce
qed

section \<open>Changing a secret\<close>

lemma live_secret_update:
  assumes "live_secret sid d = Some s" "\<And>s. sr_id (f s) = sr_id s" "active_secret (f s)"
  shows "live_secret sid (d\<lparr>secret_items := update_where (\<lambda>s. sr_id s = sid \<and> active_secret s) f (secret_items d)\<rparr>)
    = Some (f s)"
  using assms
  by (auto simp: live_secret_def secret_by_id_update_where split: option.splits if_splits)

lemma live_by_id:
  "live_secret sid d = Some s \<Longrightarrow> secret_by_id sid d = Some s \<and> active_secret s"
  by (auto simp: live_secret_def split: option.splits if_splits)

lemma update_metadata_live:
  assumes "db_ok d" "live_secret sid d = Some s"
  shows "fst (update_secret_metadata sid title metadata tags expires d) = Inr ()"
    and "live_secret sid (snd (update_secret_metadata sid title metadata tags expires d)) =
      Some (s\<lparr>sr_title := title, sr_metadata_json := metadata, sr_tags := tags, sr_expires_at := expires\<rparr>)"
proof -
  let ?f = "\<lambda>s. s\<lparr>sr_title := title, sr_metadata_json := metadata, sr_tags := tags, sr_expires_at := expires\<rparr>"
  have "live_secret sid (d\<lparr>secret_items :=
      update_where (\<lambda>s. sr_id s = sid \<and> active_secret s) ?f (secret_items d)\<rparr>) = Some (?f s)"
    using live_by_id [OF assms(2)] by (intro live_secret_update [OF assms(2)]) (simp_all add: active_secret_def)
  then show "fst (update_secret_metadata sid title metadata tags expires d) = Inr ()"
    "live_secret sid (snd (update_secret_metadata sid title metadata tags expires d)) = Some (?f s)"
    using live_by_id [OF assms(2)]
    by (simp_all add: update_secret_metadata_def update_secret_run [OF assms(1)])
qed

lemma update_blob_live:
  assumes "db_ok d" "live_secret sid d = Some s" "parse_blob_storage_db (sr_blob_storage s) = Inr b"
  shows "fst (update_secret_blob sid blob d) = Inr ()"
    and "live_secret sid (snd (update_secret_blob sid blob d)) = Some (put_blob b blob s)"
proof -
  have "live_secret sid (d\<lparr>secret_items :=
      update_where (\<lambda>s. sr_id s = sid \<and> active_secret s) (put_blob b blob) (secret_items d)\<rparr>) = Some (put_blob b blob s)"
    using live_by_id [OF assms(2)] by (intro live_secret_update [OF assms(2)]) (simp_all add: active_secret_def)
  moreover have "select_blob_storage sid err d = (Inr b, d)" for err
    using assms by (simp add: select_blob_storage_run)
  ultimately show "fst (update_secret_blob sid blob d) = Inr ()"
    "live_secret sid (snd (update_secret_blob sid blob d)) = Some (put_blob b blob s)"
    using live_by_id [OF assms(2)]
    by (simp_all add: update_secret_blob_def bindE_step update_secret_run [OF assms(1)])
qed

lemma put_blob_item:
  "parse_blob_storage_db (sr_blob_storage s) = Inr b \<Longrightarrow> si_secret_blob (item_of_row (put_blob b blob s)) = blob"
  by (cases b) (auto simp: item_of_row_def parse_blob_storage_db_def split: if_splits)

lemma secret_value_meta:
  "secret_value L key (s\<lparr>sr_title := t, sr_metadata_json := m, sr_tags := g, sr_expires_at := e\<rparr>) =
     secret_value L key s"
  by (simp add: secret_value_def item_of_row_def)

text \<open>
  C27: Updating a secret writes its metadata first. When the update succeeds, the secret has the new
  metadata and, if a new value was given, this value under the vault key. When it fails, because
  the new value is empty or cannot be encrypted, the new metadata stays in place with the old
  value: the operation is not atomic.
\<close>

theorem update_secret_not_atomic:
  assumes "crypto_lib_ok L" "audit_ok A" "world_ok w" "live_secret sid (w_db w) = Some s"
  shows "case update_secret A L sid title metadata tags expires new key detail w of
     (Inr _, w') \<Rightarrow> (\<exists>s'. live_secret sid (w_db w') = Some s'
       \<and> (sr_title s', sr_metadata_json s', sr_tags s', sr_expires_at s') = (title, metadata, tags, expires)
       \<and> secret_value L key s' = (case new of None \<Rightarrow> secret_value L key s | Some p \<Rightarrow> Inr p))
   | (Inl _, w') \<Rightarrow> new \<noteq> None \<and> live_secret sid (w_db w') =
       Some (s\<lparr>sr_title := title, sr_metadata_json := metadata, sr_tags := tags, sr_expires_at := expires\<rparr>)"
proof -
  let ?s = "s\<lparr>sr_title := title, sr_metadata_json := metadata, sr_tags := tags, sr_expires_at := expires\<rparr>"
  let ?rec = "ignoring_errors (record_event A None SecretUpdated (Some ''secret'')
    (Some (uuid_to_string A sid)) detail)"
  have ok: "db_ok (w_db w)" using assms(3) by (simp add: world_ok_def)
  obtain w1 where meta: "on_db (update_secret_metadata sid title metadata tags expires) w = (Inr (), w1)"
    and live1: "live_secret sid (w_db w1) = Some ?s"
    using update_metadata_live [OF ok assms(4), of title metadata tags expires]
    by (simp add: on_db_run)
  have ok1: "db_ok (w_db w1)"
    using keepsD [OF keeps_on_db [OF keeps_secret_repo(1)] assms(3)] meta by (metis snd_conv world_ok_def)
  have val: "secret_value L key ?s = secret_value L key s" by (rule secret_value_meta)
  show ?thesis
  proof (cases new)
    case None
    obtain w2 rows where "?rec w1 = (Inr (), w2)" "w_db w2 = (w_db w1)\<lparr>audit_log := rows\<rparr>"
      by (rule ignored_record [OF assms(2)])
    then show ?thesis
      using live1 val by (simp add: update_secret_def bindE_step meta None bindE_pure)
  next
    case (Some p)
    show ?thesis
    proof (cases "p = []")
      case True
      then show ?thesis
        using live1 by (simp add: update_secret_def bindE_step meta Some validate_plaintext_secret_def
            ensure_def bindE_pure throwE_run)
    next
      case False
      then have valid: "validate_plaintext_secret p = Inr ()" by (simp add: validate_plaintext_secret_def)
      obtain r w2 where enc: "encrypt L p key w1 = (r, w2)" by (cases "encrypt L p key w1")
      then have w2: "w_db w2 = w_db w1" using encrypt_frame(1) [of L p key w1] by simp
      show ?thesis
      proof (cases r)
        case (Inl e)
        then show ?thesis
          using live1 enc w2 by (simp add: update_secret_def bindE_step meta Some valid bindE_pure)
      next
        case (Inr payload)
        obtain b where b: "parse_blob_storage_db (sr_blob_storage ?s) = Inr b"
          using live_storage_ok [OF ok1 live1] by blast
        let ?blob = "serialize_payload payload"
        obtain w3 where put: "on_db (update_secret_blob sid ?blob) w2 = (Inr (), w3)"
          and live3: "live_secret sid (w_db w3) = Some (put_blob b ?blob ?s)"
          using update_blob_live [OF ok1 live1 b, of ?blob] by (simp add: on_db_run w2)
        obtain w4 rows where rec: "?rec w3 = (Inr (), w4)" "w_db w4 = (w_db w3)\<lparr>audit_log := rows\<rparr>"
          by (rule ignored_record [OF assms(2)])
        have "encrypt L p key w1 = (Inr payload, w2)" using enc Inr by simp
        then have "secret_value L key (put_blob b ?blob ?s) = Inr p"
          using stored_payload [OF assms(1)] by (simp only: secret_value_def put_blob_item [OF b])
        moreover have "update_secret A L sid title metadata tags expires new key detail w = (Inr (), w4)"
          using enc Inr put rec(1)
          by (simp add: update_secret_def bindE_step meta Some valid bindE_pure)
        moreover have "sr_title (put_blob b ?blob ?s) = title" "sr_metadata_json (put_blob b ?blob ?s) = metadata"
          "sr_tags (put_blob b ?blob ?s) = tags" "sr_expires_at (put_blob b ?blob ?s) = expires"
          by (cases b; simp)+
        ultimately show ?thesis using live3 rec(2) Some by simp
      qed
    qed
  qed
qed

theorem update_secret_not_atomic_witness:
  "\<exists>s'. live_secret 20 (w_db (snd (update_secret sample_audit toy_lib 20 (Some ''new'') None None None
       (Some []) [] None secret_world))) = Some s' \<and> sr_title s' = Some ''new''"
proof -
  have live: "live_secret 20 (w_db secret_world) = Some (hd (secret_items vault_db))"
    by (simp add: secret_world_def vault_db_def live_secret_def secret_by_id_def active_secret_def)
  show ?thesis
    using update_secret_not_atomic [OF toy_lib_ok sample_audit_ok secret_world_ok(1) live,
        where title = "Some ''new''" and metadata = None and tags = None and expires = None
          and new = "Some []" and key = "[]" and detail = None]
    by (cases "update_secret sample_audit toy_lib 20 (Some ''new'') None None None (Some []) [] None secret_world")
      (auto split: sum.splits)
qed

section \<open>Moving a secret\<close>

text \<open>
  C28: A secret that was moved lies in the target vault and reads there, under the target vault's
  key, as it read before under the key of its old vault; its metadata, dates and counter stay. A
  failed move leaves the database as it was.
\<close>

theorem moved_secret_reads_same:
  assumes "crypto_lib_ok L" "world_ok w" "live_secret sid (w_db w) = Some s" "counted s"
    and "sr_vault_id s \<noteq> target"
  shows "case move_secret L sid target key key' w of
     (Inr _, w') \<Rightarrow> (\<exists>s' v. live_secret sid (w_db w') = Some s' \<and> sr_vault_id s' = target
        \<and> target \<in> vault_ids (w_db w)
        \<and> secret_value L key s = Inr v \<and> secret_value L key' s' = Inr v
        \<and> item_of_row s' = (item_of_row s)\<lparr>si_vault_id := target, si_secret_blob := si_secret_blob (item_of_row s')\<rparr>)
   | (Inl _, w') \<Rightarrow> w_db w' = w_db w"
proof -
  have ok: "db_ok (w_db w)" using assms(2) by (simp add: world_ok_def)
  have get: "required_secret sid w = (Inr (item_of_row s), w)"
    using assms by (simp add: required_secret_def bindE_run on_db_run secret_get_by_id_run world_ok_def liftE_run)
  have other: "si_vault_id (item_of_row s) \<noteq> target" using assms(5) by (simp add: item_of_row_def)
  obtain b where b: "parse_blob_storage_db (sr_blob_storage s) = Inr b"
    using live_storage_ok [OF ok assms(3)] by blast
  have run: "move_secret L sid target key key' w =
      bindE (liftE (secret_value L key s)) (\<lambda>v. bindE (encrypt L v key') (\<lambda>p.
        on_db (move_secret_to_vault sid target (serialize_payload p)))) w"
    by (cases "decode_secret_payload (si_secret_blob (item_of_row s))")
      (simp_all add: move_secret_def bindE_step get other secret_value_def bindE_pure throwE_run liftE_run)
  show ?thesis
  proof (cases "secret_value L key s")
    case (Inl e)
    then show ?thesis by (simp add: run bindE_pure throwE_run)
  next
    case (Inr v)
    obtain r w1 where enc: "encrypt L v key' w = (r, w1)" by (cases "encrypt L v key' w")
    then have w1: "w_db w1 = w_db w" using encrypt_frame(1) [of L v key' w] by simp
    show ?thesis
    proof (cases r)
      case (Inl e)
      then show ?thesis using enc w1 by (simp add: run Inr bindE_pure bindE_step)
    next
      case r: (Inr payload)
      let ?blob = "serialize_payload payload"
      let ?f = "\<lambda>s. (put_blob b ?blob s)\<lparr>sr_vault_id := target\<rparr>"
      have enc': "encrypt L v key' w = (Inr payload, w1)" using enc r by simp
      have sel: "select_blob_storage sid err (w_db w) = (Inr b, w_db w)" for err
        using assms(3) ok b by (simp add: select_blob_storage_run)
      have move: "move_secret_to_vault sid target ?blob (w_db w) =
          (if target \<in> vault_ids (w_db w) then (Inr (), (w_db w)\<lparr>secret_items :=
             update_where (\<lambda>s. sr_id s = sid \<and> active_secret s) ?f (secret_items (w_db w))\<rparr>)
           else (Inl (Database ForeignKeyViolation), w_db w))"
        using live_by_id [OF assms(3)]
        by (simp add: move_secret_to_vault_def bindE_step sel bindE_state throwE_run
            update_secret_run [OF ok] vault_ids_def)
      have live: "live_secret sid ((w_db w)\<lparr>secret_items :=
          update_where (\<lambda>s. sr_id s = sid \<and> active_secret s) ?f (secret_items (w_db w))\<rparr>) = Some (?f s)"
        using live_by_id [OF assms(3)]
        by (intro live_secret_update [OF assms(3)]) (simp_all add: active_secret_def)
      have blob: "si_secret_blob (item_of_row (?f s)) = ?blob"
        using put_blob_item [OF b, of ?blob] by (auto simp: item_of_row_def)
      then have val: "secret_value L key' (?f s) = Inr v"
        using stored_payload [OF assms(1) enc'] by (simp only: secret_value_def)
      have rest: "item_of_row (?f s) = (item_of_row s)\<lparr>si_vault_id := target,
          si_secret_blob := si_secret_blob (item_of_row (?f s))\<rparr>"
        by (cases b) (simp_all add: item_of_row_def)
      show ?thesis
        using live val rest
        by (simp add: run Inr bindE_pure bindE_step enc' on_db_run w1 move)
    qed
  qed
qed

definition two_vaults :: world where
  "two_vaults = secret_world\<lparr>w_db := vault_db
     \<lparr>vaults := vaults vault_db @ [\<lparr>vr_id = 11, vr_owner_user_id = 1, vr_name = ''work'',
        vr_vault_key_envelope = Some [1, 2], vr_vault_key_version = 1, vr_sort_order = 0, vr_deleted_at = None\<rparr>],
      secret_items := [(hd (secret_items vault_db))
        \<lparr>sr_secret_blob := Some (replicate 12 0 @ replicate 16 7 @ [1, 2])\<rparr>]\<rparr>\<rparr>"

lemma two_vaults_ok: "world_ok two_vaults" "rng_works two_vaults"
  by (simp_all add: two_vaults_def secret_world_def world_ok_def vault_db_def empty_db_def db_ok_def db_part_defs
      user_row_ok_def new_user_row_def secret_row_ok_def)

lemma two_vaults_secret:
  obtains s where "live_secret 20 (w_db two_vaults) = Some s" "counted s" "sr_vault_id s \<noteq> 11"
    "secret_value toy_lib (replicate 32 7) s = Inr [1, 2]"
proof (rule that)
  let ?s = "hd (secret_items (w_db two_vaults))"
  show "live_secret 20 (w_db two_vaults) = Some ?s" "counted ?s" "sr_vault_id ?s \<noteq> 11"
    by (simp_all add: two_vaults_def vault_db_def live_secret_def secret_by_id_def active_secret_def counted_def)
  show "secret_value toy_lib (replicate 32 7) ?s = Inr [1, 2]"
    by (simp add: two_vaults_def vault_db_def secret_value_def item_of_row_def decode_secret_payload_def decrypt_def
        aes_key_def toy_lib_def len_defs bindR_def)
qed

lemma toy_move: "\<exists>w'. move_secret toy_lib 20 11 (replicate 32 7) (replicate 32 9) two_vaults = (Inr (), w')"
proof -
  obtain s where s: "live_secret 20 (w_db two_vaults) = Some s" "counted s" "sr_vault_id s \<noteq> 11"
    "secret_value toy_lib (replicate 32 7) s = Inr [1, 2]" by (rule two_vaults_secret)
  obtain p where enc: "encrypt toy_lib [1, 2] (replicate 32 9) two_vaults = (Inr p, tick two_vaults)"
    using toy_encrypt [OF two_vaults_ok(2), of "replicate 32 9" "[1, 2]"] by auto
  have get: "required_secret 20 two_vaults = (Inr (item_of_row s), two_vaults)"
    using s(1,2) two_vaults_ok(1)
    by (simp add: required_secret_def bindE_run on_db_run secret_get_by_id_run world_ok_def liftE_run)
  have val: "bindR (decode_secret_payload (si_secret_blob (item_of_row s)))
      (\<lambda>p. decrypt toy_lib p (replicate 32 7)) = Inr [1, 2]"
    using s(4) by (simp add: secret_value_def)
  have other: "si_vault_id (item_of_row s) \<noteq> 11" using s(3) by (simp add: item_of_row_def)
  obtain b where b: "parse_blob_storage_db (sr_blob_storage s) = Inr b"
    using live_storage_ok [OF _ s(1)] two_vaults_ok(1) by (auto simp: world_ok_def)
  have "fst (move_secret_to_vault 20 11 blob (w_db two_vaults)) = Inr ()" for blob
    using s(1) two_vaults_ok(1) b live_by_id [OF s(1)]
    by (simp add: move_secret_to_vault_def bindE_step bindE_state select_blob_storage_run world_ok_def update_secret_run)
      (simp add: two_vaults_def vault_db_def)
  then show ?thesis
    using val enc other
    by (auto simp: move_secret_def bindE_step get bindE_pure on_db_run bindR_Inr_iff throwE_run liftE_run)
qed

theorem moved_secret_reads_same_witness:
  "\<exists>w' s'. move_secret toy_lib 20 11 (replicate 32 7) (replicate 32 9) two_vaults = (Inr (), w')
    \<and> live_secret 20 (w_db w') = Some s' \<and> sr_vault_id s' = 11 \<and> secret_value toy_lib (replicate 32 9) s' = Inr [1, 2]"
proof -
  obtain s where s: "live_secret 20 (w_db two_vaults) = Some s" "counted s" "sr_vault_id s \<noteq> 11"
    "secret_value toy_lib (replicate 32 7) s = Inr [1, 2]" by (rule two_vaults_secret)
  obtain w' where run: "move_secret toy_lib 20 11 (replicate 32 7) (replicate 32 9) two_vaults = (Inr (), w')"
    using toy_move by blast
  show ?thesis
    using moved_secret_reads_same [OF toy_lib_ok two_vaults_ok(1) s(1,2,3), of "replicate 32 7" "replicate 32 9"] run s(4)
    by auto
qed

end
