(* ===== verification/HV_Pin.thy ===== *)
theory HV_Pin
  imports HV_Crypto
begin

text \<open>
  services/pin_cache_service.rs: the master key kept in memory under a short PIN. \<open>Instant\<close> and
  \<open>Duration\<close> are nanoseconds since an origin; the instant of a call is an argument.
\<close>

definition PIN_MAX_FAILED_ATTEMPTS :: "8 word" where "PIN_MAX_FAILED_ATTEMPTS = 3"
definition PIN_MIN_LEN :: nat where "PIN_MIN_LEN = 4"
definition PIN_MAX_LEN :: nat where "PIN_MAX_LEN = 8"

definition pin_kdf_config :: kdf_config where
  "pin_kdf_config = \<lparr>memory_cost_kib = 8 * 1024, time_cost = 3, parallelism = 1,
     output_len = AES_256_KEY_LEN\<rparr>"

record pin_cache =
  pc_encrypted_master_key :: bytes
  pc_salt :: bytes
  pc_nonce :: bytes
  pc_created_at :: nat
  pc_failed_attempts :: "8 word"
  pc_user_id :: uuid

datatype pin_unlock_error = WrongPin "8 word" | Exhausted

definition en_dash :: string where
  "en_dash = map char_of [0xE2, 0x80, 0x93 :: nat]"

definition validate_pin :: "string \<Rightarrow> unit result" where
  "validate_pin pin =
     (if length pin < PIN_MIN_LEN \<or> length pin > PIN_MAX_LEN
      then Inl (Crypto (''PIN must be '' @ show_nat PIN_MIN_LEN @ en_dash @ show_nat PIN_MAX_LEN @ '' digits''))
      else if \<not> list_all is_ascii_digit pin then Inl (Crypto ''PIN must contain only digits'')
      else Inr ())"

definition derive_pin_key :: "crypto_lib \<Rightarrow> string \<Rightarrow> bytes \<Rightarrow> bytes result" where
  "derive_pin_key L pin salt =
     (case argon2_params_error L pin_kdf_config of
        Some e \<Rightarrow> Inl (Crypto (''invalid pin argon2 params: '' @ e))
      | None \<Rightarrow>
          (case argon2id L pin_kdf_config (as_bytes pin) salt of
             Inl e \<Rightarrow> Inl (Crypto (''pin argon2id derivation failed: '' @ e))
           | Inr key \<Rightarrow> Inr key))"

definition pin_cipher :: "crypto_lib \<Rightarrow> bytes \<Rightarrow> bytes result" where
  "pin_cipher L key =
     (case aes_key_error L key of
        Some e \<Rightarrow> Inl (Crypto (''pin aes init failed: '' @ e))
      | None \<Rightarrow> Inr key)"

definition pin_wrap :: "crypto_lib \<Rightarrow> nat \<Rightarrow> bytes \<Rightarrow> string \<Rightarrow> uuid \<Rightarrow> (world, pin_cache) eff" where
  "pin_wrap L now master_key pin uid =
     bindE (liftE (validate_pin pin)) (\<lambda>_.
     bindE (fill_or ''pin salt generation failed: '' KDF_SALT_LEN) (\<lambda>salt.
     bindE (liftE (derive_pin_key L pin salt)) (\<lambda>wrapping_key.
     bindE (fill_or ''pin nonce generation failed: '' NONCE_LEN) (\<lambda>n.
     bindE (liftE (pin_cipher L wrapping_key)) (\<lambda>cipher.
     bindE (liftE (ok_or (aes_gcm_seal L cipher n master_key)
              (Crypto ''pin master key encryption failed''))) (\<lambda>encrypted_master_key.
     returnE \<lparr>pc_encrypted_master_key = encrypted_master_key, pc_salt = salt, pc_nonce = n,
              pc_created_at = now, pc_failed_attempts = 0, pc_user_id = uid\<rparr>))))))"

definition decrypt_master_key :: "crypto_lib \<Rightarrow> string \<Rightarrow> pin_cache \<Rightarrow> bytes result" where
  "decrypt_master_key L pin c =
     bindR (validate_pin pin) (\<lambda>_.
     bindR (derive_pin_key L pin (pc_salt c)) (\<lambda>wrapping_key.
     bindR (pin_cipher L wrapping_key) (\<lambda>cipher.
     ok_or (aes_gcm_open L cipher (pc_nonce c) (pc_encrypted_master_key c))
       (Crypto ''pin decryption failed (wrong PIN)''))))"

definition is_exhausted :: "pin_cache \<Rightarrow> bool" where
  "is_exhausted c \<longleftrightarrow> pc_failed_attempts c \<ge> PIN_MAX_FAILED_ATTEMPTS"

definition try_unwrap :: "crypto_lib \<Rightarrow> string \<Rightarrow> pin_cache \<Rightarrow> (pin_unlock_error + bytes) \<times> pin_cache" where
  "try_unwrap L pin c =
     (if is_exhausted c then (Inl Exhausted, c)
      else case decrypt_master_key L pin c of
        Inr key \<Rightarrow> (Inr key, c)
      | Inl _ \<Rightarrow>
          let c' = c\<lparr>pc_failed_attempts := saturating_add (pc_failed_attempts c) 1\<rparr>
          in (if is_exhausted c' then Inl Exhausted
              else Inl (WrongPin (PIN_MAX_FAILED_ATTEMPTS - pc_failed_attempts c')), c'))"

definition is_expired :: "nat \<Rightarrow> nat \<Rightarrow> pin_cache \<Rightarrow> bool" where
  "is_expired now hard_timeout c \<longleftrightarrow> now - pc_created_at c \<ge> hard_timeout"

definition pin_remaining :: "nat \<Rightarrow> nat \<Rightarrow> pin_cache \<Rightarrow> nat" where
  "pin_remaining now hard_timeout c = hard_timeout - (now - pc_created_at c)"

section \<open>The right PIN\<close>

lemma pin_wrap_Inr:
  assumes "crypto_lib_ok L" "pin_wrap L now key pin uid w = (Inr c, w')"
  shows "decrypt_master_key L pin c = Inr key" "pc_failed_attempts c = 0" "pc_user_id c = uid"
    "pc_created_at c = now"
  using assms
  by (auto simp: pin_wrap_def decrypt_master_key_def eff_iffs crypto_lib_ok_def aead_ok_def
      pin_cipher_def bindR_def split: option.splits)

lemma remaining_zero_iff: "is_expired now t c \<longleftrightarrow> pin_remaining now t c = 0"
  by (auto simp: is_expired_def pin_remaining_def)

section \<open>Three strikes\<close>

text \<open>A session of attempts, with what each answered.\<close>

fun attempts :: "crypto_lib \<Rightarrow> string list \<Rightarrow> pin_cache \<Rightarrow> (pin_unlock_error + bytes) list \<times> pin_cache" where
  "attempts L [] c = ([], c)"
| "attempts L (p # ps) c =
     (case try_unwrap L p c of (r, c') \<Rightarrow>
        case attempts L ps c' of (rs, c'') \<Rightarrow> (r # rs, c''))"

definition wrong :: "crypto_lib \<Rightarrow> pin_cache \<Rightarrow> string \<Rightarrow> bool" where
  "wrong L c pin \<longleftrightarrow> (\<forall>key. decrypt_master_key L pin c \<noteq> Inr key)"

definition strikes :: "pin_cache \<Rightarrow> nat" where
  "strikes c = unat (pc_failed_attempts c)"

lemma decrypt_frame [simp]: "decrypt_master_key L pin (c\<lparr>pc_failed_attempts := n\<rparr>) = decrypt_master_key L pin c"
  by (simp add: decrypt_master_key_def)

lemma wrong_frame [simp]: "wrong L (c\<lparr>pc_failed_attempts := n\<rparr>) pin = wrong L c pin"
  by (simp add: wrong_def)

lemma is_exhausted_iff: "is_exhausted c \<longleftrightarrow> 3 \<le> strikes c"
  by (simp add: is_exhausted_def strikes_def PIN_MAX_FAILED_ATTEMPTS_def word_le_nat_alt)

lemma try_unwrap_run:
  assumes "strikes c \<le> 3"
  shows "try_unwrap L pin c =
    (if 3 \<le> strikes c then (Inl Exhausted, c)
     else case decrypt_master_key L pin c of
       Inr key \<Rightarrow> (Inr key, c)
     | Inl _ \<Rightarrow> (if strikes c = 2 then Inl Exhausted else Inl (WrongPin (of_nat (2 - strikes c))),
         c\<lparr>pc_failed_attempts := of_nat (strikes c + 1)\<rparr>))"
proof -
  have "strikes c = 0 \<or> strikes c = 1 \<or> strikes c = 2 \<or> strikes c = 3" using assms by auto
  then have "pc_failed_attempts c = 0 \<or> pc_failed_attempts c = 1 \<or> pc_failed_attempts c = 2
      \<or> pc_failed_attempts c = 3"
    by (auto simp: strikes_def word_unat_eq_iff)
  then show ?thesis
    by (auto simp: try_unwrap_def is_exhausted_iff Let_def strikes_def PIN_MAX_FAILED_ATTEMPTS_def
        saturating_add_def split: sum.split)
qed

lemma strikes_set [simp]: "n < 256 \<Longrightarrow> strikes (c\<lparr>pc_failed_attempts := of_nat n\<rparr>) = n"
  by (simp add: strikes_def unat_of_nat)

lemma strikes_id [simp]: "c\<lparr>pc_failed_attempts := of_nat (strikes c)\<rparr> = c"
  by (simp add: strikes_def)

lemma wrong_iff: "wrong L c p \<longleftrightarrow> (\<exists>e. decrypt_master_key L p c = Inl e)"
  by (cases "decrypt_master_key L p c") (auto simp: wrong_def)

lemma attempts_state:
  assumes "strikes c \<le> 3"
  shows "snd (attempts L ps c) = c\<lparr>pc_failed_attempts :=
    of_nat (min 3 (strikes c + length (filter (wrong L c) ps)))\<rparr>"
  using assms
proof (induction ps arbitrary: c)
  case Nil
  then show ?case by (simp add: min_absorb2)
next
  case (Cons p ps)
  let ?c = "snd (try_unwrap L p c)"
  have c: "?c = c\<lparr>pc_failed_attempts := of_nat (min 3 (strikes c + (if wrong L c p then 1 else 0)))\<rparr>"
  proof (cases "strikes c = 3")
    case True
    then show ?thesis using strikes_id [of c] by (simp add: try_unwrap_run)
  next
    case False
    then have "strikes c < 3" using Cons.prems by simp
    then show ?thesis
      by (auto simp: try_unwrap_run [OF Cons.prems] wrong_iff min_absorb2 split: sum.splits)
  qed
  then have "strikes ?c = min 3 (strikes c + (if wrong L c p then 1 else 0))" by simp
  moreover have "wrong L ?c = wrong L c" unfolding c by (simp add: fun_eq_iff)
  ultimately have "snd (attempts L ps ?c) = c\<lparr>pc_failed_attempts :=
      of_nat (min 3 (min 3 (strikes c + (if wrong L c p then 1 else 0)) + length (filter (wrong L c) ps)))\<rparr>"
    using Cons.IH [of ?c] by (simp add: c)
  moreover have "min 3 (min 3 (strikes c + (if wrong L c p then 1 else 0)) + length (filter (wrong L c) ps))
      = min 3 (strikes c + length (filter (wrong L c) (p # ps)))"
    by (simp add: min_def)
  moreover have "snd (attempts L (p # ps) c) = snd (attempts L ps ?c)"
    by (simp split: prod.split)
  ultimately show ?case by (simp only:)
qed

text \<open>
  C16: A PIN cache opens with the PIN it was made with. In any session of attempts it answers the
  key to the right PIN and counts a strike for every wrong one, and after the third strike it
  never answers the key again, not even to the right PIN; a right PIN in between gives back no
  attempt. The answer to a wrong PIN states the number of attempts that are left.
\<close>

theorem pin_three_strikes:
  assumes "crypto_lib_ok L" "pin_wrap L now key pin uid w = (Inr c, w')"
  shows "decrypt_master_key L pin c = Inr key
    \<and> (\<forall>ps p. fst (try_unwrap L p (snd (attempts L ps c))) =
        (let n = length (filter (wrong L c) ps)
         in if 3 \<le> n then Inl Exhausted
            else case decrypt_master_key L p c of
              Inr k \<Rightarrow> Inr k
            | Inl _ \<Rightarrow> if n = 2 then Inl Exhausted else Inl (WrongPin (of_nat (2 - n)))))"
proof (intro conjI allI)
  show "decrypt_master_key L pin c = Inr key" by (rule pin_wrap_Inr [OF assms])
  fix ps p
  let ?n = "length (filter (wrong L c) ps)"
  have zero: "strikes c = 0" using pin_wrap_Inr(2) [OF assms] by (simp add: strikes_def)
  then have state: "snd (attempts L ps c) = c\<lparr>pc_failed_attempts := of_nat (min 3 ?n)\<rparr>"
    using attempts_state [of c L ps] by simp
  then have "strikes (snd (attempts L ps c)) = min 3 ?n" by simp
  then show "fst (try_unwrap L p (snd (attempts L ps c))) =
      (let n = ?n in if 3 \<le> n then Inl Exhausted
        else case decrypt_master_key L p c of
          Inr k \<Rightarrow> Inr k
        | Inl _ \<Rightarrow> if n = 2 then Inl Exhausted else Inl (WrongPin (of_nat (2 - n))))"
    unfolding Let_def
    by (simp add: try_unwrap_run state min_def split: sum.split)
qed

theorem pin_three_strikes_witness:
  "\<exists>c w'. pin_wrap toy_lib 0 [1, 2] ''1234'' 7 (empty_world ''now'') = (Inr c, w')
     \<and> fst (try_unwrap toy_lib ''1234'' (snd (attempts toy_lib [''1'', ''2'', ''3''] c))) = Inl Exhausted"
proof -
  let ?w = "empty_world ''now''"
  have valid: "validate_pin ''1234'' = Inr ()"
    by (simp add: validate_pin_def PIN_MIN_LEN_def PIN_MAX_LEN_def is_ascii_digit_def)
  obtain salt where salt: "fill_or ''pin salt generation failed: '' KDF_SALT_LEN ?w = (Inr salt, tick ?w)"
    by (rule fill_or_works [of ?w]) simp_all
  obtain n where n: "fill_or ''pin nonce generation failed: '' NONCE_LEN (tick ?w) = (Inr n, tick (tick ?w))"
    by (rule fill_or_works [of "tick ?w"]) simp_all
  obtain k where k: "derive_pin_key toy_lib ''1234'' salt = Inr k" "length k = 32"
    by (simp add: derive_pin_key_def toy_lib_def pin_kdf_config_def len_defs)
  have "\<exists>c. pin_wrap toy_lib 0 [1, 2] ''1234'' 7 ?w = (Inr c, tick (tick ?w))"
    using k(2) by (simp add: pin_wrap_def bind_simps valid salt k(1) n pin_cipher_def returnE_run)
      (simp add: toy_lib_def bind_simps returnE_run)
  then obtain c where run: "pin_wrap toy_lib 0 [1, 2] ''1234'' 7 ?w = (Inr c, tick (tick ?w))" by blast
  have "wrong toy_lib c [x]" for x
    by (simp add: wrong_def decrypt_master_key_def validate_pin_def PIN_MIN_LEN_def)
  then have "fst (try_unwrap toy_lib ''1234'' (snd (attempts toy_lib [''1'', ''2'', ''3''] c))) = Inl Exhausted"
    using conjunct2 [OF pin_three_strikes [OF toy_lib_ok run], rule_format, of "''1234''" "[''1'', ''2'', ''3'']"]
    by (simp del: attempts.simps)
  then show ?thesis using run by blast
qed

end
