(* ===== verification/HV_Password.thy ===== *)
theory HV_Password
  imports HV_Crypto "HOL-Library.Multiset"
begin

text \<open>
  services/password_service.rs: the password policy, the strength score and the generator. The
  generator draws random numbers by rejection, a loop that ends only when a number is accepted:
  its model is a partial function, \<open>None\<close> being a run that never returns.
\<close>

section \<open>Policy\<close>

definition MIN_PASSWORD_LENGTH :: nat where "MIN_PASSWORD_LENGTH = 16"
definition MAX_PASSWORD_LENGTH :: nat where "MAX_PASSWORD_LENGTH = 128"
definition DEFAULT_GENERATED_PASSWORD_LENGTH :: nat where "DEFAULT_GENERATED_PASSWORD_LENGTH = 24"
definition PASSWORD_STRENGTH_MAX :: nat where "PASSWORD_STRENGTH_MAX = 100"

lemmas password_consts = MIN_PASSWORD_LENGTH_def MAX_PASSWORD_LENGTH_def
  DEFAULT_GENERATED_PASSWORD_LENGTH_def PASSWORD_STRENGTH_MAX_def

definition LOWERCASE_CHARSET :: bytes where "LOWERCASE_CHARSET = as_bytes ''abcdefghijkmnopqrstuvwxyz''"
definition UPPERCASE_CHARSET :: bytes where "UPPERCASE_CHARSET = as_bytes ''ABCDEFGHJKLMNPQRSTUVWXYZ''"
definition DIGIT_CHARSET :: bytes where "DIGIT_CHARSET = as_bytes ''23456789''"
definition SYMBOL_CHARSET :: bytes where "SYMBOL_CHARSET = as_bytes ''!@#$%^&*()-_=+[]{}:;,.?/''"

lemmas charset_defs = LOWERCASE_CHARSET_def UPPERCASE_CHARSET_def DIGIT_CHARSET_def SYMBOL_CHARSET_def

definition byte_lowercase :: "byte \<Rightarrow> bool" where "byte_lowercase b \<longleftrightarrow> 97 \<le> unat b \<and> unat b \<le> 122"
definition byte_uppercase :: "byte \<Rightarrow> bool" where "byte_uppercase b \<longleftrightarrow> 65 \<le> unat b \<and> unat b \<le> 90"
definition byte_digit :: "byte \<Rightarrow> bool" where "byte_digit b \<longleftrightarrow> 48 \<le> unat b \<and> unat b \<le> 57"
definition byte_whitespace :: "byte \<Rightarrow> bool" where
  "byte_whitespace b \<longleftrightarrow> unat b \<in> {9, 10, 12, 13, 32}"
definition byte_symbol :: "byte \<Rightarrow> bool" where
  "byte_symbol b \<longleftrightarrow> \<not> (byte_lowercase b \<or> byte_uppercase b \<or> byte_digit b) \<and> \<not> byte_whitespace b"

definition has_lowercase :: "bytes \<Rightarrow> bool" where "has_lowercase p = list_ex byte_lowercase p"
definition has_uppercase :: "bytes \<Rightarrow> bool" where "has_uppercase p = list_ex byte_uppercase p"
definition has_digit :: "bytes \<Rightarrow> bool" where "has_digit p = list_ex byte_digit p"
definition has_symbol :: "bytes \<Rightarrow> bool" where "has_symbol p = list_ex byte_symbol p"
definition has_whitespace :: "bytes \<Rightarrow> bool" where "has_whitespace p = list_ex byte_whitespace p"

lemmas has_defs = has_lowercase_def has_uppercase_def has_digit_def has_symbol_def has_whitespace_def

definition validate_length :: "nat \<Rightarrow> unit result" where
  "validate_length n =
     (if n < MIN_PASSWORD_LENGTH then Inl (Validation
        (''password length must be at least '' @ show_nat MIN_PASSWORD_LENGTH @ '' characters''))
      else if n > MAX_PASSWORD_LENGTH then Inl (Validation
        (''password length must not exceed '' @ show_nat MAX_PASSWORD_LENGTH @ '' characters''))
      else Inr ())"

definition validate_password_policy :: "bytes \<Rightarrow> unit result" where
  "validate_password_policy p =
     bindR (validate_length (length p)) (\<lambda>_.
     bindR (ensure (\<not> has_whitespace p) (Validation ''password must not contain whitespace'')) (\<lambda>_.
     bindR (ensure (has_lowercase p)
       (Validation ''password must contain at least one lowercase character'')) (\<lambda>_.
     bindR (ensure (has_uppercase p)
       (Validation ''password must contain at least one uppercase character'')) (\<lambda>_.
     bindR (ensure (has_digit p) (Validation ''password must contain at least one digit'')) (\<lambda>_.
     ensure (has_symbol p) (Validation ''password must contain at least one symbol''))))))"

section \<open>Score\<close>

definition unique_count :: "bytes \<Rightarrow> nat" where
  "unique_count p = length (remdups p)"

definition score_password_strength :: "bytes \<Rightarrow> nat result" where
  "score_password_strength p =
     (if p = [] then Inl (Validation ''password must not be empty'')
      else
        let n = length p;
            score = (if 8 \<le> n then 10 else 0) + (if 12 \<le> n then 15 else 0)
              + (if MIN_PASSWORD_LENGTH \<le> n then 20 else 0) + (if 24 \<le> n then 15 else 0)
              + (if has_lowercase p then 10 else 0) + (if has_uppercase p then 10 else 0)
              + (if has_digit p then 10 else 0) + (if has_symbol p then 10 else 0)
        in if \<not> n < 2 ^ 16 then Inl (Validation ''password length exceeds supported size'')
           else
             let score = score + (if min (2 ^ 16 - 1) (unique_count p * 2) \<ge> n then 10 else 0);
                 score = (if has_whitespace p \<and> 10 \<le> score then score - 10 else score)
             in Inr (min score PASSWORD_STRENGTH_MAX))"

section \<open>Runs that may not return\<close>

type_synonym 'a gen = "world \<Rightarrow> ('a result \<times> world) option"

definition returnG :: "'a \<Rightarrow> 'a gen" where
  "returnG a = (\<lambda>w. Some (Inr a, w))"

definition throwG :: "app_error \<Rightarrow> 'a gen" where
  "throwG e = (\<lambda>w. Some (Inl e, w))"

definition liftG :: "'a result \<Rightarrow> 'a gen" where
  "liftG r = (\<lambda>w. Some (r, w))"

definition bindG :: "'a gen \<Rightarrow> ('a \<Rightarrow> 'b gen) \<Rightarrow> 'b gen" where
  "bindG m f = (\<lambda>w. case m w of
     None \<Rightarrow> None | Some (Inl e, w') \<Rightarrow> Some (Inl e, w') | Some (Inr a, w') \<Rightarrow> f a w')"

section \<open>Generator\<close>

definition U32_MAX :: nat where "U32_MAX = 2 ^ 32 - 1"

fun from_le_bytes :: "bytes \<Rightarrow> nat" where
  "from_le_bytes [] = 0"
| "from_le_bytes (b # bs) = unat b + 256 * from_le_bytes bs"

definition accepted_zone :: "nat \<Rightarrow> nat" where
  "accepted_zone bound = U32_MAX - U32_MAX mod bound"

partial_function (option) random_loop :: "nat \<Rightarrow> nat gen" where
  "random_loop bound w =
     (case getrandom_fill 4 w of
        (Inl err, w') \<Rightarrow> Some (Inl (Validation (''random generation failed: '' @ err)), w')
      | (Inr random_bytes, w') \<Rightarrow>
          (if from_le_bytes random_bytes < accepted_zone bound
           then Some (Inr (from_le_bytes random_bytes mod bound), w')
           else random_loop bound w'))"

definition random_index :: "nat \<Rightarrow> nat gen" where
  "random_index bound =
     (if bound = 0 then throwG (Validation ''random selection bound must be greater than zero'')
      else if bound > U32_MAX then throwG (Validation ''random selection bound exceeds supported size'')
      else random_loop bound)"

definition sample_from_charset :: "bytes \<Rightarrow> byte gen" where
  "sample_from_charset charset = bindG (random_index (length charset)) (\<lambda>i. returnG (charset ! i))"

definition combined_charset :: bytes where
  "combined_charset = LOWERCASE_CHARSET @ UPPERCASE_CHARSET @ DIGIT_CHARSET @ SYMBOL_CHARSET"

fun push_samples :: "nat \<Rightarrow> bytes \<Rightarrow> bytes gen" where
  "push_samples 0 password = returnG password"
| "push_samples (Suc n) password =
     bindG (sample_from_charset combined_charset) (\<lambda>b. push_samples n (password @ [b]))"

definition swap :: "'a list \<Rightarrow> nat \<Rightarrow> nat \<Rightarrow> 'a list" where
  "swap xs i j = xs[i := xs ! j, j := xs ! i]"

text \<open>\<open>shuffle i\<close> runs the loop for the indices \<open>i\<close> down to 1.\<close>

fun shuffle :: "nat \<Rightarrow> bytes \<Rightarrow> bytes gen" where
  "shuffle 0 password = returnG password"
| "shuffle (Suc i) password =
     bindG (random_index (Suc i + 1)) (\<lambda>swap_index. shuffle i (swap password (Suc i) swap_index))"

definition generate_password :: "nat \<Rightarrow> bytes gen" where
  "generate_password n =
     (let requested_length = (if n = 0 then DEFAULT_GENERATED_PASSWORD_LENGTH else n) in
     bindG (liftG (validate_length requested_length)) (\<lambda>_.
     bindG (sample_from_charset LOWERCASE_CHARSET) (\<lambda>a.
     bindG (sample_from_charset UPPERCASE_CHARSET) (\<lambda>b.
     bindG (sample_from_charset DIGIT_CHARSET) (\<lambda>c.
     bindG (sample_from_charset SYMBOL_CHARSET) (\<lambda>d.
     bindG (push_samples (requested_length - 4) [a, b, c, d]) (\<lambda>password.
     bindG (shuffle (length password - 1) password) (\<lambda>password.
     bindG (liftG (validate_password_policy password)) (\<lambda>_.
     returnG password)))))))))"

section \<open>The random index\<close>

lemma accepted_zone_multiple: "0 < bound \<Longrightarrow> accepted_zone bound = bound * (U32_MAX div bound)"
  by (simp add: accepted_zone_def minus_mod_eq_mult_div)

lemma accepted_zone_large: "0 < bound \<Longrightarrow> U32_MAX < accepted_zone bound + bound"
proof -
  assume "0 < bound"
  then have "U32_MAX mod bound < bound" by simp
  moreover have "U32_MAX mod bound \<le> U32_MAX" by simp
  ultimately show ?thesis by (simp add: accepted_zone_def)
qed

text \<open>
  What a run may end with: a value with a property, or the failure of the random source.
\<close>

definition random_failure :: "app_error \<Rightarrow> bool" where
  "random_failure e \<longleftrightarrow> (\<exists>err. e = Validation (''random generation failed: '' @ err))"

definition ends_with :: "('a \<Rightarrow> bool) \<Rightarrow> 'a result \<Rightarrow> bool" where
  "ends_with Q r = (case r of Inr a \<Rightarrow> Q a | Inl e \<Rightarrow> random_failure e)"

lemma ends_with_simps [simp]:
  "ends_with Q (Inr a) = Q a" "ends_with Q (Inl e) = random_failure e"
  by (simp_all add: ends_with_def)

lemma ends_with_weaken: "ends_with Q r \<Longrightarrow> (\<And>a. Q a \<Longrightarrow> R a) \<Longrightarrow> ends_with R r"
  by (cases r) auto

definition yields :: "'a gen \<Rightarrow> ('a \<Rightarrow> bool) \<Rightarrow> bool" where
  "yields m Q \<longleftrightarrow> (\<forall>w y. m w = Some y \<longrightarrow> ends_with Q (fst y))"

lemma yields_return: "Q a \<Longrightarrow> yields (returnG a) Q"
  by (simp add: yields_def returnG_def)

lemma yields_bind:
  assumes m: "yields m Q" and f: "\<And>a. Q a \<Longrightarrow> yields (f a) R"
  shows "yields (bindG m f) R"
  unfolding yields_def
proof (intro allI impI)
  fix w y
  assume run: "bindG m f w = Some y"
  then obtain r w1 where 1: "m w = Some (r, w1)"
    by (auto simp: bindG_def split: option.splits)
  then have "ends_with Q r" using m by (fastforce simp: yields_def)
  then show "ends_with R (fst y)"
    using run 1 f by (cases r; cases y) (fastforce simp: bindG_def yields_def)+
qed

lemma bindG_lift: "bindG (liftG (Inr a)) f = f a"
  by (simp add: bindG_def liftG_def)

lemma yields_weaken: "yields m Q \<Longrightarrow> (\<And>a. Q a \<Longrightarrow> R a) \<Longrightarrow> yields m R"
  unfolding yields_def using ends_with_weaken by metis

lemma yields_random_loop:
  assumes "0 < bound"
  shows "yields (random_loop bound) (\<lambda>i. i < bound)"
proof -
  have "0 < bound \<longrightarrow> ends_with (\<lambda>i. i < bound) (fst y)"
    if "random_loop bound w = Some y" for w y
    by (rule random_loop.raw_induct [OF _ that, where P = "\<lambda>bound w y. 0 < bound \<longrightarrow> ends_with (\<lambda>i. i < bound) (fst y)"])
      (auto simp: random_failure_def split: prod.splits sum.splits if_splits)
  then show ?thesis using assms by (auto simp: yields_def)
qed

lemma yields_random_index:
  "0 < bound \<Longrightarrow> bound \<le> U32_MAX \<Longrightarrow> yields (random_index bound) (\<lambda>i. i < bound)"
  using yields_random_loop by (auto simp: random_index_def)

lemma yields_sample:
  assumes "cs \<noteq> []" "length cs \<le> 1000"
  shows "yields (sample_from_charset cs) (\<lambda>b. b \<in> set cs)"
  unfolding sample_from_charset_def
  by (rule yields_bind [OF yields_random_index]) (use assms in \<open>auto simp: U32_MAX_def intro: yields_return\<close>)

lemma charset_lengths:
  "length LOWERCASE_CHARSET = 25" "length UPPERCASE_CHARSET = 24" "length DIGIT_CHARSET = 8"
  "length SYMBOL_CHARSET = 24" "length combined_charset = 81"
  by (simp_all add: charset_defs combined_charset_def)

lemma charset_nonempty:
  "LOWERCASE_CHARSET \<noteq> []" "UPPERCASE_CHARSET \<noteq> []" "DIGIT_CHARSET \<noteq> []" "SYMBOL_CHARSET \<noteq> []"
  "combined_charset \<noteq> []"
  using charset_lengths by auto

lemma charset_classes:
  "\<forall>b\<in>set LOWERCASE_CHARSET. byte_lowercase b" "\<forall>b\<in>set UPPERCASE_CHARSET. byte_uppercase b"
  "\<forall>b\<in>set DIGIT_CHARSET. byte_digit b" "\<forall>b\<in>set SYMBOL_CHARSET. byte_symbol b"
  "\<forall>b\<in>set combined_charset. \<not> byte_whitespace b"
  by (simp_all add: charset_defs combined_charset_def byte_lowercase_def byte_uppercase_def byte_digit_def
      byte_symbol_def byte_whitespace_def as_bytes_def)

section \<open>What the generator returns\<close>

lemma yields_push:
  "yields (push_samples n p) (\<lambda>q. \<exists>s. q = p @ s \<and> length s = n \<and> set s \<subseteq> set combined_charset)"
proof (induction n arbitrary: p)
  case 0
  show ?case by (simp add: yields_return)
next
  case (Suc n)
  have "yields (push_samples n (p @ [b]))
      (\<lambda>q. \<exists>s. q = p @ s \<and> length s = Suc n \<and> set s \<subseteq> set combined_charset)"
    if "b \<in> set combined_charset" for b
    by (rule yields_weaken [OF Suc.IH]) (use that in auto)
  note step = this
  show ?case
    unfolding push_samples.simps
    by (rule yields_bind [OF yields_sample step]) (use charset_nonempty charset_lengths in auto)
qed

lemma swap_mset: "i < length xs \<Longrightarrow> j < length xs \<Longrightarrow> mset (swap xs i j) = mset xs"
  by (simp add: swap_def mset_swap)

lemma swap_length [simp]: "length (swap xs i j) = length xs"
  by (simp add: swap_def)

lemma yields_shuffle:
  "i < length p \<Longrightarrow> length p < U32_MAX \<Longrightarrow> yields (shuffle i p) (\<lambda>q. mset q = mset p)"
proof (induction i arbitrary: p)
  case 0
  show ?case by (simp add: yields_return)
next
  case (Suc i)
  have "yields (shuffle i (swap p (Suc i) j)) (\<lambda>q. mset q = mset p)" if "j < Suc i + 1" for j
    by (rule yields_weaken [OF Suc.IH]) (use that Suc.prems in \<open>auto simp: swap_mset\<close>)
  note step = this
  show ?case
    unfolding shuffle.simps
    by (rule yields_bind [OF yields_random_index step]) (use Suc.prems in auto)
qed

lemma validate_length_iff:
  "validate_length n = Inr () \<longleftrightarrow> 16 \<le> n \<and> n \<le> 128"
  by (auto simp: validate_length_def password_consts)

lemma policy_iff:
  "validate_password_policy p = Inr () \<longleftrightarrow>
     16 \<le> length p \<and> length p \<le> 128 \<and> \<not> has_whitespace p
     \<and> has_lowercase p \<and> has_uppercase p \<and> has_digit p \<and> has_symbol p"
  by (auto simp: validate_password_policy_def bindR_Inr_iff validate_length_iff)

lemma has_mset:
  "mset q = mset p \<Longrightarrow> has_lowercase q = has_lowercase p \<and> has_uppercase q = has_uppercase p
     \<and> has_digit q = has_digit p \<and> has_symbol q = has_symbol p \<and> has_whitespace q = has_whitespace p"
  by (auto simp: has_defs list_ex_iff dest: mset_eq_setD)

definition generated :: "nat \<Rightarrow> bytes \<Rightarrow> bool" where
  "generated n p \<longleftrightarrow> length p = n \<and> validate_password_policy p = Inr () \<and> set p \<subseteq> set combined_charset"

lemma generated_mset:
  assumes "mset q = mset ([a, b, c, d] @ s)" "byte_lowercase a" "byte_uppercase b" "byte_digit c" "byte_symbol d"
    and "set ([a, b, c, d] @ s) \<subseteq> set combined_charset" "length s = n - 4" "16 \<le> n" "n \<le> 128"
  shows "generated n q"
proof -
  have len: "length q = n" using assms(7,8) mset_eq_length [OF assms(1)] by simp
  have set: "set q \<subseteq> set combined_charset" using assms(6) mset_eq_setD [OF assms(1)] by simp
  have "\<not> has_whitespace q" using set charset_classes(5) by (auto simp: has_whitespace_def list_ex_iff)
  then show ?thesis
    using has_mset [OF assms(1)] assms(2-5,8,9) len set
    by (simp add: generated_def policy_iff) (simp add: has_defs)
qed

lemma yields_generate:
  assumes n: "n' = (if n = 0 then 24 else n)" "16 \<le> n'" "n' \<le> 128"
  shows "yields (generate_password n) (generated n')"
proof -
  have sets: "set LOWERCASE_CHARSET \<union> set UPPERCASE_CHARSET \<union> set DIGIT_CHARSET \<union> set SYMBOL_CHARSET
      \<subseteq> set combined_charset" by (auto simp: combined_charset_def)
  have check: "yields (bindG (liftG (validate_password_policy q)) (\<lambda>_. returnG q)) (generated n')"
    if "generated n' q" for q
    using that by (simp add: yields_def bindG_def liftG_def returnG_def generated_def)
  have tail: "yields (bindG (shuffle (length p - 1) p)
      (\<lambda>q. bindG (liftG (validate_password_policy q)) (\<lambda>_. returnG q))) (generated n')"
    if p: "p = [a, b, c, d] @ s" "length s = n' - 4" "set s \<subseteq> set combined_charset"
      and cs: "a \<in> set LOWERCASE_CHARSET" "b \<in> set UPPERCASE_CHARSET" "c \<in> set DIGIT_CHARSET" "d \<in> set SYMBOL_CHARSET"
    for p a b c d s
  proof (rule yields_bind [OF yields_shuffle])
    fix q assume "mset q = mset p"
    then show "yields (bindG (liftG (validate_password_policy q)) (\<lambda>_. returnG q)) (generated n')"
      using p cs charset_classes sets n by (intro check generated_mset [of q a b c d s]) auto
  qed (use p n in \<open>auto simp: U32_MAX_def\<close>)
  have "validate_length n' = Inr ()" using n by (simp add: validate_length_iff)
  then have "generate_password n =
     bindG (sample_from_charset LOWERCASE_CHARSET) (\<lambda>a.
     bindG (sample_from_charset UPPERCASE_CHARSET) (\<lambda>b.
     bindG (sample_from_charset DIGIT_CHARSET) (\<lambda>c.
     bindG (sample_from_charset SYMBOL_CHARSET) (\<lambda>d.
     bindG (push_samples (n' - 4) [a, b, c, d]) (\<lambda>p.
     bindG (shuffle (length p - 1) p) (\<lambda>q.
     bindG (liftG (validate_password_policy q)) (\<lambda>_. returnG q)))))))"
    unfolding generate_password_def Let_def DEFAULT_GENERATED_PASSWORD_LENGTH_def n(1)
    by (simp add: bindG_lift)
  then show ?thesis
    by (simp only:) (intro yields_bind [OF yields_sample] yields_bind [OF yields_push];
      use tail charset_nonempty charset_lengths in fastforce)
qed

section \<open>The generator returns\<close>

definition draw :: "world \<Rightarrow> string + nat" where
  "draw w = (case fst (getrandom_fill 4 w) of Inl err \<Rightarrow> Inl err | Inr bs \<Rightarrow> Inr (from_le_bytes bs))"

text \<open>
  The random stream is fair for bounds up to 128: again and again it fails or gives a number
  below \<open>2 ^ 32 - 128\<close>. A stream that gave larger numbers for ever would keep the loop running.
\<close>

definition settles :: "world \<Rightarrow> bool" where
  "settles w \<longleftrightarrow> (case draw w of Inl _ \<Rightarrow> True | Inr c \<Rightarrow> c < 2 ^ 32 - 129)"

definition fair :: "world \<Rightarrow> bool" where
  "fair w \<longleftrightarrow> (\<forall>m. \<exists>n\<ge>m. settles ((tick ^^ n) w))"

lemma fair_tick: "fair w \<Longrightarrow> fair (tick w)"
  unfolding fair_def by (metis Suc_le_D Suc_le_mono funpow_Suc_right o_apply)

lemma getrandom_tick: "snd (getrandom_fill n w) = tick w"
  by (simp add: getrandom_fill_def Let_def)

definition returns :: "'a gen \<Rightarrow> bool" where
  "returns m \<longleftrightarrow> (\<forall>w. fair w \<longrightarrow> (\<exists>r w'. m w = Some (r, w') \<and> fair w'))"

lemma returns_return: "returns (returnG a)" and returns_lift: "returns (liftG r)"
  and returns_throw: "returns (throwG e)"
  by (simp_all add: returns_def returnG_def liftG_def throwG_def)

lemma returns_bind:
  assumes "returns m" "\<And>a. returns (f a)"
  shows "returns (bindG m f)"
  unfolding returns_def
proof (intro allI impI)
  fix w assume "fair w"
  then obtain r w1 where "m w = Some (r, w1)" "fair w1" using assms(1) by (auto simp: returns_def)
  then show "\<exists>r w'. bindG m f w = Some (r, w') \<and> fair w'"
    using assms(2) by (cases r) (auto simp: bindG_def returns_def)
qed

lemma random_loop_settles:
  assumes "settles ((tick ^^ n) w)" "0 < bound" "bound \<le> 128" "fair w"
  shows "\<exists>r w'. random_loop bound w = Some (r, w') \<and> fair w'"
  using assms
proof (induction n arbitrary: w)
  case 0
  have "2 ^ 32 - 129 < accepted_zone bound"
    using accepted_zone_large [OF 0(2)] 0(3) by (simp add: U32_MAX_def)
  then show ?case
    using 0 fair_tick [of w] getrandom_tick [of 4 w]
    by (subst random_loop.simps)
      (auto simp: settles_def draw_def split: prod.splits sum.splits)
next
  case (Suc n)
  have "\<exists>r w'. random_loop bound (tick w) = Some (r, w') \<and> fair w'"
    by (rule Suc.IH) (use Suc.prems fair_tick in \<open>auto simp: funpow_swap1\<close>)
  then show ?case
    using Suc.prems(4) fair_tick [of w] getrandom_tick [of 4 w]
    by (subst random_loop.simps) (auto split: prod.splits sum.splits)
qed

lemma returns_random_index: "bound \<le> 128 \<Longrightarrow> returns (random_index bound)"
  unfolding random_index_def
  using random_loop_settles [of _ _ bound] by (auto simp: returns_def throwG_def U32_MAX_def) (metis fair_def)

lemma returns_bind_yields:
  assumes "returns m" "yields m Q" "\<And>a. Q a \<Longrightarrow> returns (f a)"
  shows "returns (bindG m f)"
  unfolding returns_def
proof (intro allI impI)
  fix w assume "fair w"
  then obtain r w1 where "m w = Some (r, w1)" "fair w1" using assms(1) by (auto simp: returns_def)
  then show "\<exists>r w'. bindG m f w = Some (r, w') \<and> fair w'"
    using assms(2,3) by (cases r) (fastforce simp: bindG_def returns_def yields_def)+
qed

lemma returns_sample: "length cs \<le> 128 \<Longrightarrow> returns (sample_from_charset cs)"
  unfolding sample_from_charset_def by (intro returns_bind returns_random_index returns_return)

lemma returns_push: "returns (push_samples n p)"
  by (induction n arbitrary: p) (auto intro!: returns_bind returns_sample returns_return simp: charset_lengths)

lemma returns_shuffle: "i < 128 \<Longrightarrow> returns (shuffle i p)"
  by (induction i arbitrary: p) (auto intro!: returns_bind returns_random_index returns_return)

lemma generate_returns:
  assumes "fair w" "n' = (if n = 0 then 24 else n)" "16 \<le> n'" "n' \<le> 128"
  shows "\<exists>r w'. generate_password n w = Some (r, w')"
proof -
  have "returns (generate_password n)"
    unfolding generate_password_def Let_def
    by (intro returns_bind returns_lift returns_sample returns_return
        returns_bind_yields [OF returns_push yields_push] returns_shuffle)
      (use assms(2-4) in \<open>auto simp: charset_lengths DEFAULT_GENERATED_PASSWORD_LENGTH_def\<close>)
  then show ?thesis using assms(1) by (auto simp: returns_def)
qed

text \<open>
  C17: For a requested length (24 when the caller asks for 0) between 16 and 128, and a random
  stream that again and again fails or gives a number below 4294967167, the generator
  returns; it returns a password of that length that satisfies the policy and whose characters
  come from the four sets, or the failure of the random source: its own policy check never
  rejects what it built. For any other length it returns the error of the length check.
\<close>

theorem generate_password_correct:
  assumes "fair w" and "n' = (if n = 0 then DEFAULT_GENERATED_PASSWORD_LENGTH else n)"
  shows "\<exists>r w'. generate_password n w = Some (r, w')
    \<and> (case validate_length n' of
        Inl e \<Rightarrow> r = Inl e \<and> w' = w
      | Inr _ \<Rightarrow> (case r of
            Inr p \<Rightarrow> length p = n' \<and> validate_password_policy p = Inr () \<and> set p \<subseteq> set combined_charset
          | Inl e \<Rightarrow> random_failure e))"
proof (cases "validate_length n'")
  case (Inl e)
  then show ?thesis
    using assms(2) by (simp add: generate_password_def Let_def bindG_def liftG_def)
next
  case (Inr u)
  then have bounds: "16 \<le> n'" "n' \<le> 128" by (simp_all add: validate_length_iff)
  have n': "n' = (if n = 0 then 24 else n)" using assms(2) by (simp add: DEFAULT_GENERATED_PASSWORD_LENGTH_def)
  obtain r w' where run: "generate_password n w = Some (r, w')"
    using generate_returns [OF assms(1) n' bounds] by blast
  then have "ends_with (generated n') r"
    using yields_generate [OF n' bounds] by (fastforce simp: yields_def)
  then show ?thesis
    using run Inr by (cases r) (auto simp: generated_def)
qed

lemma fair_empty: "fair (empty_world c)"
  unfolding fair_def
proof
  fix m
  have pos: "rng_pos (w_rng ((tick ^^ n) w)) = rng_pos (w_rng w) + n"
    "rng_byte (w_rng ((tick ^^ n) w)) = rng_byte (w_rng w)"
    "rng_error (w_rng ((tick ^^ n) w)) = rng_error (w_rng w)" for n w
    by (induction n) (simp_all add: tick_def)
  let ?n = "256 * m + 252 :: nat"
  have "word_of_nat (256 * m + k) = (word_of_nat k :: 8 word)" for k
    unfolding word_of_nat_eq_iff take_bit_eq_mod by simp
  from this [of "253 + j" for j] have "253 + (256 * word_of_nat m + word_of_nat j) = (word_of_nat (253 + j) :: 8 word)" for j
    by (simp add: add.left_commute)
  moreover have "[0..<4] = [0, 1, 2, 3 :: nat]" by (simp add: upt_rec)
  ultimately have "settles ((tick ^^ ?n) (empty_world c))"
    by (simp add: settles_def draw_def getrandom_fill_def pos Let_def empty_world_def toy_rng_def)
  then show "\<exists>n\<ge>m. settles ((tick ^^ n) (empty_world c))" by (intro exI [of _ ?n]) simp
qed

theorem generate_password_correct_witness:
  "\<exists>r w'. generate_password 20 (empty_world '''') = Some (r, w')
    \<and> (case validate_length 20 of
        Inl e \<Rightarrow> r = Inl e \<and> w' = empty_world ''''
      | Inr _ \<Rightarrow> (case r of
            Inr p \<Rightarrow> length p = 20 \<and> validate_password_policy p = Inr () \<and> set p \<subseteq> set combined_charset
          | Inl e \<Rightarrow> random_failure e))"
  using generate_password_correct [OF fair_empty, of 20 20] by simp

section \<open>No index is favoured\<close>

lemma residue_class_card:
  assumes "0 < (b::nat)" "i < b"
  shows "card {c. c < b * k \<and> c mod b = i} = k"
proof -
  have "{c. c < b * k \<and> c mod b = i} = (\<lambda>q. b * q + i) ` {..<k}"
  proof (intro equalityI subsetI)
    fix c assume "c \<in> {c. c < b * k \<and> c mod b = i}"
    then have "c = b * (c div b) + i" "c div b < k"
      using assms by (auto simp: less_mult_imp_div_less mult.commute)
    then show "c \<in> (\<lambda>q. b * q + i) ` {..<k}" by blast
  next
    fix c assume "c \<in> (\<lambda>q. b * q + i) ` {..<k}"
    then obtain q where q: "c = b * q + i" "q < k" by blast
    then have "b * q + i < b * Suc q" "b * Suc q \<le> b * k" using assms by (simp, intro mult_le_mono2) simp
    then have "c < b * k" using q by linarith
    then show "c \<in> {c. c < b * k \<and> c mod b = i}" using q assms by simp
  qed
  moreover have "inj_on (\<lambda>q. b * q + i) {..<k}" using assms by (simp add: inj_on_def)
  ultimately show ?thesis by (simp add: card_image)
qed

lemma random_loop_rejects:
  assumes "draw w = Inr c" "\<not> c < accepted_zone bound"
  shows "random_loop bound w = random_loop bound (tick w)"
proof -
  obtain bs where "getrandom_fill 4 w = (Inr bs, tick w)" "from_le_bytes bs = c"
    using assms(1) getrandom_tick [of 4 w] by (cases "getrandom_fill 4 w") (auto simp: draw_def split: sum.splits)
  then show ?thesis
    using assms(2) by (subst random_loop.simps) simp
qed

text \<open>
  The random index has no modulo bias. The first draw that does not fail decides: with no
  failure and an accepted number the index is its remainder by the bound, and every index below the
  bound is the result of exactly the same count of accepted numbers.
\<close>

theorem random_index_unbiased:
  assumes "0 < bound" "bound \<le> U32_MAX" "i < bound"
  shows "(\<forall>w c. draw w = Inr c \<and> c < accepted_zone bound
      \<longrightarrow> random_index bound w = Some (Inr (c mod bound), tick w))
    \<and> (\<forall>w c. draw w = Inr c \<and> \<not> c < accepted_zone bound
      \<longrightarrow> random_index bound w = random_index bound (tick w))
    \<and> card {c. c < accepted_zone bound \<and> c mod bound = i} = U32_MAX div bound"
proof (intro conjI)
  note tick = getrandom_tick [of 4]
  show "\<forall>w c. draw w = Inr c \<and> c < accepted_zone bound
      \<longrightarrow> random_index bound w = Some (Inr (c mod bound), tick w)"
    using assms(1,2) tick
    by (auto simp: random_index_def draw_def random_loop.simps split: prod.splits sum.splits) (metis snd_conv)+
  show "\<forall>w c. draw w = Inr c \<and> \<not> c < accepted_zone bound
      \<longrightarrow> random_index bound w = random_index bound (tick w)"
    using assms(1,2) random_loop_rejects by (simp add: random_index_def)
qed (use assms residue_class_card accepted_zone_multiple in auto)

section \<open>Policy and score\<close>

lemma score_at_most_100:
  assumes "score_password_strength p = Inr s"
  shows "s \<le> 100"
proof -
  have "p \<noteq> []" using assms by (cases "p = []") (simp_all add: score_password_strength_def)
  moreover have "length p < 2 ^ 16"
    using assms \<open>p \<noteq> []\<close> by (cases "length p < 2 ^ 16") (simp_all add: score_password_strength_def Let_def)
  ultimately show ?thesis
    using assms by (auto simp: score_password_strength_def password_consts Let_def split del: if_split)
qed

text \<open>
  Every score is at most 100; a password that satisfies the policy scores at least 85, so
  that the two judgements of a password cannot disagree; and below 16 bytes no password scores
  more than 75.
\<close>

theorem policy_scores_high:
  "(score_password_strength p = Inr s \<longrightarrow> s \<le> 100 \<and> (length p < 16 \<longrightarrow> s \<le> 75))
   \<and> (validate_password_policy p = Inr () \<longrightarrow> (\<exists>s. score_password_strength p = Inr s \<and> 85 \<le> s))"
proof (intro conjI impI)
  assume "score_password_strength p = Inr s"
  then show "s \<le> 100" by (rule score_at_most_100)
next
  assume "score_password_strength p = Inr s" "length p < 16"
  then show "s \<le> 75" by (simp add: score_password_strength_def password_consts Let_def split: if_splits)
next
  assume "validate_password_policy p = Inr ()"
  then have "16 \<le> length p" "length p \<le> 128" "\<not> has_whitespace p" "has_lowercase p"
    "has_uppercase p" "has_digit p" "has_symbol p" "p \<noteq> []" by (auto simp: policy_iff)
  then show "\<exists>s. score_password_strength p = Inr s \<and> 85 \<le> s"
    by (simp add: score_password_strength_def password_consts Let_def)
qed

text \<open>A password of the policy with the score 100, and one without a symbol that misses both.\<close>

theorem policy_scores_high_witness:
  "validate_password_policy (as_bytes ''Str0ng!Password42'') = Inr ()
   \<and> (\<exists>s. score_password_strength (as_bytes ''Str0ng!Password42'') = Inr s \<and> 85 \<le> s)"
proof -
  have "validate_password_policy (as_bytes ''Str0ng!Password42'') = Inr ()"
    by (simp add: policy_iff has_defs as_bytes_def byte_lowercase_def byte_uppercase_def byte_digit_def
        byte_symbol_def byte_whitespace_def)
  then show ?thesis using policy_scores_high [of "as_bytes ''Str0ng!Password42''"] by simp
qed

theorem random_index_unbiased_witness:
  "card {c. c < accepted_zone 8 \<and> c mod 8 = 3} = U32_MAX div 8"
  using random_index_unbiased [of 8 3] by (simp add: U32_MAX_def)

end
