(* ===== verification/HV_Totp.thy ===== *)
theory HV_Totp
  imports HV_UserRepo HV_Auth
begin

text \<open>
  services/totp_service.rs: the second factor. The crate totp_rs (secrets, the checker and the
  provisioning URL), qrcode and the PNG encoder are parameters, the record \<open>totp_lib\<close>; the clock
  readings of a call are arguments. The state is the world and the replay guard, the \<open>HashMap\<close> of
  used codes with the second at which each entry expires.
\<close>

section \<open>State\<close>

definition TOTP_DIGITS :: nat where "TOTP_DIGITS = 6"
definition TOTP_STEP :: int where "TOTP_STEP = 30"
definition TOTP_SKEW :: nat where "TOTP_SKEW = 1"
definition TOTP_REPLAY_TTL_SECS :: int where "TOTP_REPLAY_TTL_SECS = TOTP_STEP * 3"
definition LEGACY_DEV_MASTER_KEY_BYTE :: byte where "LEGACY_DEV_MASTER_KEY_BYTE = 0x41"
definition LEGACY_DEV_MASTER_KEY_LEN :: nat where "LEGACY_DEV_MASTER_KEY_LEN = 32"

record totp_config =
  tc_digits :: nat
  tc_skew :: nat
  tc_step_duration :: int
  tc_secret :: bytes
  tc_issuer :: string
  tc_account_name :: string

record totp_lib =
  tl_from_base32 :: "string \<Rightarrow> string + bytes"
  tl_to_base32 :: "bytes \<Rightarrow> string"
  tl_generate :: "nat \<Rightarrow> bytes"
  tl_build_error :: "totp_config \<Rightarrow> string option"
  tl_check :: "totp_config \<Rightarrow> string \<Rightarrow> int \<Rightarrow> bool"
  tl_to_url :: "totp_config \<Rightarrow> string + string"
  tl_qr_error :: "bytes \<Rightarrow> string option"
  tl_qr_png :: "bytes \<Rightarrow> string + bytes"

record totp_setup_payload =
  tsp_base32_secret :: string
  tsp_otpauth_url :: string
  tsp_qr_png :: bytes

record totp_state =
  ts_world :: world
  replay_guard :: "(string \<times> int) list"

definition on_world :: "(world, 'a) eff \<Rightarrow> (totp_state, 'a) eff" where
  "on_world m = (\<lambda>s. case m (ts_world s) of (r, w) \<Rightarrow> (r, s\<lparr>ts_world := w\<rparr>))"

section \<open>Operations\<close>

definition replay_key :: "string \<Rightarrow> string \<Rightarrow> string" where
  "replay_key username code = username @ '':'' @ code"

definition reject_replay_and_record :: "string \<Rightarrow> string \<Rightarrow> int \<Rightarrow> (totp_state, bool) eff" where
  "reject_replay_and_record username code now_ts s =
     (let guard = filter (\<lambda>(_, expires_at). expires_at > now_ts) (replay_guard s);
          key = replay_key username code
      in if map_of guard key \<noteq> None then (Inr False, s\<lparr>replay_guard := guard\<rparr>)
         else (Inr True, s\<lparr>replay_guard := (key, now_ts + TOTP_REPLAY_TTL_SECS) # guard\<rparr>))"

definition build_totp :: "totp_lib \<Rightarrow> string \<Rightarrow> string \<Rightarrow> string \<Rightarrow> totp_config result" where
  "build_totp T issuer account_name base32_secret =
     (case tl_from_base32 T base32_secret of
        Inl error \<Rightarrow> Inl (Validation (''invalid TOTP secret: '' @ error))
      | Inr secret \<Rightarrow>
          let c = \<lparr>tc_digits = TOTP_DIGITS, tc_skew = TOTP_SKEW, tc_step_duration = TOTP_STEP,
                   tc_secret = secret, tc_issuer = issuer, tc_account_name = account_name\<rparr>
          in case tl_build_error T c of
               Some error \<Rightarrow> Inl (Validation (''invalid TOTP setup: '' @ error))
             | None \<Rightarrow> Inr c)"

definition is_valid_totp_code :: "string \<Rightarrow> bool" where
  "is_valid_totp_code code \<longleftrightarrow> length code = TOTP_DIGITS \<and> list_all is_ascii_digit code"

definition totp_serialize_envelope :: "encrypted_payload \<Rightarrow> bytes" where
  "totp_serialize_envelope payload = nonce payload @ ciphertext payload"

definition totp_deserialize_envelope :: "bytes \<Rightarrow> encrypted_payload result" where
  "totp_deserialize_envelope bs =
     (if length bs \<le> NONCE_LEN then Inl (Storage ''invalid totp_secret payload'')
      else Inr \<lparr>nonce = take NONCE_LEN bs, ciphertext = drop NONCE_LEN bs\<rparr>)"

definition user_by_username :: "string \<Rightarrow> db \<Rightarrow> user_row option" where
  "user_by_username username d = find_row ur_username username (users d)"

definition load_totp_secret_by_username :: "string \<Rightarrow> (totp_state, bytes option) eff" where
  "load_totp_secret_by_username username =
     getsE (\<lambda>s. case user_by_username username (w_db (ts_world s)) of
       Some row \<Rightarrow> ur_totp_secret row | None \<Rightarrow> None)"

definition load_totp_secret_by_user_id :: "uuid \<Rightarrow> (totp_state, bytes option) eff" where
  "load_totp_secret_by_user_id user_id =
     getsE (\<lambda>s. case user_by_id user_id (w_db (ts_world s)) of
       Some row \<Rightarrow> ur_totp_secret row | None \<Rightarrow> None)"

definition is_totp_enabled_for_user_id :: "uuid \<Rightarrow> (totp_state, bool) eff" where
  "is_totp_enabled_for_user_id user_id =
     bindE (load_totp_secret_by_user_id user_id) (\<lambda>secret. returnE (secret \<noteq> None))"

definition is_totp_enabled_for_username :: "string \<Rightarrow> (totp_state, bool) eff" where
  "is_totp_enabled_for_username username =
     bindE (load_totp_secret_by_username username) (\<lambda>secret. returnE (secret \<noteq> None))"

definition create_setup_payload :: "totp_lib \<Rightarrow> string \<Rightarrow> string \<Rightarrow> (totp_state, totp_setup_payload) eff" where
  "create_setup_payload T issuer account_name =
     bindE (liftE (ensure (trim account_name \<noteq> [])
              (Validation ''account name is required for TOTP setup''))) (\<lambda>_.
     bindE (getsE (\<lambda>s. tl_generate T (rng_pos (w_rng (ts_world s))))) (\<lambda>secret.
     bindE (modifyE (\<lambda>s. s\<lparr>ts_world := tick (ts_world s)\<rparr>)) (\<lambda>_.
     bindE (liftE (build_totp T issuer account_name (tl_to_base32 T secret))) (\<lambda>totp.
     bindE (liftE (case tl_to_url T totp of
              Inl error \<Rightarrow> Inl (Validation (''failed to generate TOTP URL: '' @ error))
            | Inr url \<Rightarrow> Inr url)) (\<lambda>otpauth_url.
     bindE (liftE (case tl_qr_error T (as_bytes otpauth_url) of
              Some error \<Rightarrow> Inl (Validation (''failed to generate QR: '' @ error))
            | None \<Rightarrow> Inr ())) (\<lambda>_.
     bindE (liftE (case tl_qr_png T (as_bytes otpauth_url) of
              Inl error \<Rightarrow> Inl (Validation (''failed to encode QR as PNG: '' @ error))
            | Inr png \<Rightarrow> Inr png)) (\<lambda>qr_png.
     returnE \<lparr>tsp_base32_secret = tl_to_base32 T secret, tsp_otpauth_url = otpauth_url,
              tsp_qr_png = qr_png\<rparr>)))))))"

definition verify_setup_code :: "totp_lib \<Rightarrow> string \<Rightarrow> int \<Rightarrow> string \<Rightarrow> string \<Rightarrow> string \<Rightarrow> bool result" where
  "verify_setup_code T issuer now account_name base32_secret code =
     (if \<not> is_valid_totp_code code then Inr False
      else bindR (build_totp T issuer account_name base32_secret) (\<lambda>totp. Inr (tl_check T totp code now)))"

definition set_totp_secret :: "(user_row \<Rightarrow> bool) \<Rightarrow> bytes option \<Rightarrow> (totp_state, nat) eff" where
  "set_totp_secret p secret =
     bindE (getsE (\<lambda>s. count_where p (users (w_db (ts_world s))))) (\<lambda>rows_affected.
     bindE (on_world (on_db (modifyE (\<lambda>d. d\<lparr>users :=
       update_where p (\<lambda>u. u\<lparr>ur_totp_secret := secret\<rparr>) (users d)\<rparr>)))) (\<lambda>_.
     returnE rows_affected))"

definition enable_totp :: "totp_lib \<Rightarrow> crypto_lib \<Rightarrow> string \<Rightarrow> int \<Rightarrow> uuid \<Rightarrow> string \<Rightarrow> bytes
    \<Rightarrow> string \<Rightarrow> string \<Rightarrow> (totp_state, unit) eff" where
  "enable_totp T L issuer now user_id username account_key base32_secret code =
     bindE (liftE (ensure (trim username \<noteq> []) (Validation ''username must not be empty''))) (\<lambda>_.
     bindE (liftE (verify_setup_code T issuer now username base32_secret code)) (\<lambda>is_code_valid.
     bindE (liftE (ensure is_code_valid (Authorization InvalidTotpCode))) (\<lambda>_.
     bindE (on_world (encrypt L (as_bytes base32_secret) account_key)) (\<lambda>encrypted.
     bindE (set_totp_secret (\<lambda>u. ur_id u = user_id) (Some (totp_serialize_envelope encrypted)))
       (\<lambda>rows_affected.
     liftE (ensure (rows_affected \<noteq> 0) (Storage ''user not found for TOTP activation'')))))))"

definition disable_totp :: "uuid \<Rightarrow> (totp_state, unit) eff" where
  "disable_totp user_id =
     bindE (set_totp_secret (\<lambda>u. ur_id u = user_id) None) (\<lambda>rows_affected.
     liftE (ensure (rows_affected \<noteq> 0) (Storage ''user not found for TOTP deactivation'')))"

definition legacy_key :: bytes where
  "legacy_key = replicate LEGACY_DEV_MASTER_KEY_LEN LEGACY_DEV_MASTER_KEY_BYTE"

definition decrypted_secret :: "bytes \<Rightarrow> string result" where
  "decrypted_secret bs = ok_or (from_utf8 bs) (Validation ''invalid decrypted TOTP secret'')"

text \<open>The branch of a secret still encrypted under the development key of early versions.\<close>

definition legacy_login :: "totp_lib \<Rightarrow> crypto_lib \<Rightarrow> string \<Rightarrow> int \<Rightarrow> int \<Rightarrow> string \<Rightarrow> string
    \<Rightarrow> encrypted_payload \<Rightarrow> bytes \<Rightarrow> (totp_state, bool) eff" where
  "legacy_login T L issuer checked_at recorded_at username code payload key =
     (case decrypt L payload legacy_key of
        Inl _ \<Rightarrow> returnE False
      | Inr legacy_decrypted \<Rightarrow>
          bindE (liftE (decrypted_secret legacy_decrypted)) (\<lambda>legacy_secret.
          bindE (liftE (build_totp T issuer username legacy_secret)) (\<lambda>legacy_totp.
          bindE (if tl_check T legacy_totp code checked_at
                 then reject_replay_and_record username code recorded_at else returnE False)
            (\<lambda>accepted.
          if \<not> accepted then returnE False
          else
            bindE (on_world (encrypt L (as_bytes legacy_secret) key)) (\<lambda>reencrypted.
            bindE (set_totp_secret (\<lambda>u. ur_username u = username)
                     (Some (totp_serialize_envelope reencrypted))) (\<lambda>_.
            returnE True))))))"

definition verify_login_totp :: "totp_lib \<Rightarrow> crypto_lib \<Rightarrow> kdf_config \<Rightarrow> string \<Rightarrow> int \<Rightarrow> int
    \<Rightarrow> string \<Rightarrow> bytes \<Rightarrow> string \<Rightarrow> (totp_state, bool) eff" where
  "verify_login_totp T L cfg issuer checked_at recorded_at username password code =
     (if \<not> is_valid_totp_code code then returnE False
      else
        bindE (load_totp_secret_by_username username) (\<lambda>encrypted_secret_opt.
        case encrypted_secret_opt of
          None \<Rightarrow> returnE True
        | Some encrypted_secret \<Rightarrow>
            bindE (on_world (derive_key_if_valid L cfg username password)) (\<lambda>key_opt.
            case key_opt of
              None \<Rightarrow> returnE False
            | Some key \<Rightarrow>
                bindE (liftE (totp_deserialize_envelope encrypted_secret)) (\<lambda>payload.
                case decrypt L payload key of
                  Inl _ \<Rightarrow> legacy_login T L issuer checked_at recorded_at username code payload key
                | Inr decrypted \<Rightarrow>
                    bindE (liftE (decrypted_secret decrypted)) (\<lambda>base32_secret.
                    bindE (liftE (build_totp T issuer username base32_secret)) (\<lambda>totp.
                    if \<not> tl_check T totp code checked_at then returnE False
                    else reject_replay_and_record username code recorded_at))))))"

section \<open>The replay guard\<close>

lemma replay_key_inj:
  assumes "length c = length c'"
  shows "replay_key u c = replay_key u' c' \<longleftrightarrow> u = u' \<and> c = c'"
  using assms by (auto simp: replay_key_def)

lemma frames_on_world [frame_intros]: "frames replay_guard (on_world m)"
  by (simp add: frames_def on_world_def split: prod.split)

lemma frames_set_totp_secret [frame_intros]: "frames replay_guard (set_totp_secret p secret)"
  unfolding set_totp_secret_def by (intro frame_intros)

lemma on_world_run [eff_simps]: "on_world m s = (fst (m (ts_world s)), s\<lparr>ts_world := snd (m (ts_world s))\<rparr>)"
  by (simp add: on_world_def split: prod.split)

lemma map_of_filter_some:
  "map_of (filter p xs) k = Some v \<Longrightarrow> (k, v) \<in> set xs \<and> p (k, v)"
  using map_of_SomeD by fastforce

text \<open>
  The entry of an accepted code, while it is not yet expired: every later call up to its expiry
  keeps it, and refuses the code.
\<close>

definition guarded :: "string \<Rightarrow> int \<Rightarrow> totp_state \<Rightarrow> bool" where
  "guarded k e s \<longleftrightarrow> (k, e) \<in> set (replay_guard s)"

lemma reject_Inr:
  assumes "reject_replay_and_record u c now s = (Inr r, s')"
  shows "ts_world s' = ts_world s"
    and "guarded k e s \<Longrightarrow> now < e \<Longrightarrow> guarded k e s'"
    and "guarded (replay_key u c) e s \<Longrightarrow> now < e \<Longrightarrow> \<not> r"
    and "r \<Longrightarrow> guarded (replay_key u c) (now + 90) s'"
proof -
  let ?g = "filter (\<lambda>(_, expires_at). expires_at > now) (replay_guard s)"
  have "map_of ?g (replay_key u c) \<noteq> None" if "guarded (replay_key u c) e s" "now < e"
  proof -
    have "replay_key u c \<in> fst ` set ?g" using that by (force simp: guarded_def)
    then show ?thesis by (simp add: map_of_eq_None_iff)
  qed
  then show "guarded (replay_key u c) e s \<Longrightarrow> now < e \<Longrightarrow> \<not> r"
    using assms by (auto simp: reject_replay_and_record_def Let_def split: if_splits)
qed (use assms in \<open>auto simp: reject_replay_and_record_def Let_def guarded_def TOTP_REPLAY_TTL_SECS_def
    TOTP_STEP_def split: if_splits\<close>)

definition guard_once :: "int \<Rightarrow> string \<Rightarrow> string \<Rightarrow> (totp_state, bool) eff \<Rightarrow> bool" where
  "guard_once now u c m \<longleftrightarrow> (\<forall>s r s'. m s = (r, s') \<longrightarrow>
     (\<forall>k e. guarded k e s \<and> now < e \<longrightarrow> guarded k e s')
     \<and> (r = Inr True \<longrightarrow> (\<forall>e. guarded (replay_key u c) e s \<longrightarrow> e \<le> now)
          \<and> guarded (replay_key u c) (now + 90) s'))"

lemma guarded_cong: "replay_guard s' = replay_guard s \<Longrightarrow> guarded k e s' = guarded k e s"
  by (simp add: guarded_def)

lemma guard_once_reject: "guard_once now u c (reject_replay_and_record u c now)"
  unfolding guard_once_def
proof (intro allI impI)
  fix s r s'
  assume run: "reject_replay_and_record u c now s = (r, s')"
  then obtain b where "r = Inr b" by (auto simp: reject_replay_and_record_def Let_def split: if_splits)
  then show "(\<forall>k e. guarded k e s \<and> now < e \<longrightarrow> guarded k e s')
     \<and> (r = Inr True \<longrightarrow> (\<forall>e. guarded (replay_key u c) e s \<longrightarrow> e \<le> now)
          \<and> guarded (replay_key u c) (now + 90) s')"
    using run reject_Inr [of u c now s b s'] by (auto simp: not_le [symmetric])
qed

lemma guard_once_False: "guard_once now u c (returnE False)"
  by (simp add: guard_once_def eff_simps)

lemma guard_once_bind:
  assumes m: "frames replay_guard m" and f: "\<And>a. guard_once now u c (f a)"
  shows "guard_once now u c (bindE m f)"
  unfolding guard_once_def
proof (intro allI impI)
  fix s r s'
  assume run: "bindE m f s = (r, s')"
  obtain r1 s1 where 1: "m s = (r1, s1)" by (cases "m s")
  then have same: "guarded k e s1 = guarded k e s" for k e
    using framesD [OF m] guarded_cong by blast
  show "(\<forall>k e. guarded k e s \<and> now < e \<longrightarrow> guarded k e s')
     \<and> (r = Inr True \<longrightarrow> (\<forall>e. guarded (replay_key u c) e s \<longrightarrow> e \<le> now)
          \<and> guarded (replay_key u c) (now + 90) s')"
  proof (cases r1)
    case (Inl e)
    then show ?thesis using run 1 same by (auto simp: bindE_run)
  next
    case (Inr a)
    then have "f a s1 = (r, s')" using run 1 by (simp add: bindE_run)
    then show ?thesis using f [of a] same by (simp add: guard_once_def)
  qed
qed

lemma guard_once_then:
  assumes m: "guard_once now u c m" and f: "frames replay_guard f"
  shows "guard_once now u c (bindE m (\<lambda>accepted. if \<not> accepted then returnE False else f))"
  unfolding guard_once_def
proof (intro allI impI)
  fix s r s'
  assume run: "bindE m (\<lambda>accepted. if \<not> accepted then returnE False else f) s = (r, s')"
  obtain r1 s1 where 1: "m s = (r1, s1)" by (cases "m s")
  have "replay_guard s' = replay_guard s1"
    using run 1 framesD [OF f, of s1] by (auto simp: bindE_run eff_simps split: sum.splits if_splits)
  then have same: "guarded k e s' = guarded k e s1" for k e by (rule guarded_cong)
  moreover have "r = Inr True \<longrightarrow> r1 = Inr True"
    using run 1 by (auto simp: bindE_run eff_simps split: sum.splits if_splits)
  ultimately show "(\<forall>k e. guarded k e s \<and> now < e \<longrightarrow> guarded k e s')
     \<and> (r = Inr True \<longrightarrow> (\<forall>e. guarded (replay_key u c) e s \<longrightarrow> e \<le> now)
          \<and> guarded (replay_key u c) (now + 90) s')"
    using m 1 unfolding guard_once_def by metis
qed

lemma guard_once_if: "guard_once now u c m \<Longrightarrow> guard_once now u c m' \<Longrightarrow> guard_once now u c (if b then m else m')"
  by simp

lemma guard_once_option:
  "guard_once now u c m \<Longrightarrow> (\<And>a. guard_once now u c (f a)) \<Longrightarrow>
   guard_once now u c (case x of None \<Rightarrow> m | Some a \<Rightarrow> f a)"
  by (cases x) auto

lemma guard_once_sum:
  "(\<And>e. guard_once now u c (g e)) \<Longrightarrow> (\<And>a. guard_once now u c (f a)) \<Longrightarrow>
   guard_once now u c (case x of Inl e \<Rightarrow> g e | Inr a \<Rightarrow> f a)"
  by (cases x) auto

lemmas guard_once_intros = guard_once_reject guard_once_False guard_once_if guard_once_option
  guard_once_sum guard_once_then guard_once_bind

lemma guard_once_legacy:
  "guard_once recorded u c (legacy_login T L issuer checked recorded u c payload key)"
  unfolding legacy_login_def
  by (intro guard_once_intros frame_intros)

definition totp_enabled :: "string \<Rightarrow> totp_state \<Rightarrow> bool" where
  "totp_enabled u s \<longleftrightarrow> (\<exists>row bs. user_by_username u (w_db (ts_world s)) = Some row \<and> ur_totp_secret row = Some bs)"

lemma frames_load [frame_intros]: "frames replay_guard (load_totp_secret_by_username u)"
  unfolding load_totp_secret_by_username_def by (intro frame_intros)

lemma verify_guard_once:
  assumes "verify_login_totp T L cfg issuer checked recorded u pw c s = (r, s')" "totp_enabled u s"
  shows "(\<forall>k e. guarded k e s \<and> recorded < e \<longrightarrow> guarded k e s')
     \<and> (r = Inr True \<longrightarrow> (\<forall>e. guarded (replay_key u c) e s \<longrightarrow> e \<le> recorded)
          \<and> guarded (replay_key u c) (recorded + 90) s')"
proof -
  let ?m = "\<lambda>encrypted_secret. bindE (on_world (derive_key_if_valid L cfg u pw)) (\<lambda>key_opt.
            case key_opt of
              None \<Rightarrow> returnE False
            | Some key \<Rightarrow>
                bindE (liftE (totp_deserialize_envelope encrypted_secret)) (\<lambda>payload.
                case decrypt L payload key of
                  Inl _ \<Rightarrow> legacy_login T L issuer checked recorded u c payload key
                | Inr decrypted \<Rightarrow>
                    bindE (liftE (decrypted_secret decrypted)) (\<lambda>base32_secret.
                    bindE (liftE (build_totp T issuer u base32_secret)) (\<lambda>totp.
                    if \<not> tl_check T totp c checked then returnE False
                    else reject_replay_and_record u c recorded))))"
  have m: "guard_once recorded u c (?m bs)" for bs
    by (intro guard_once_intros guard_once_legacy frame_intros)
  show ?thesis
  proof (cases "is_valid_totp_code c")
    case True
    obtain bs where "load_totp_secret_by_username u s = (Inr (Some bs), s)"
      using assms(2) by (auto simp: totp_enabled_def load_totp_secret_by_username_def eff_simps)
    then have "?m bs s = (r, s')"
      using assms(1) True by (simp add: verify_login_totp_def bindE_run)
    then show ?thesis using m unfolding guard_once_def by blast
  next
    case False
    then show ?thesis using assms(1) by (auto simp: verify_login_totp_def eff_simps)
  qed
qed

lemma verify_not_enabled:
  assumes "verify_login_totp T L cfg issuer checked recorded u pw c s = (r, s')" "\<not> totp_enabled u s"
  shows "s' = s"
  using assms
  by (auto simp: verify_login_totp_def bindE_run load_totp_secret_by_username_def eff_simps totp_enabled_def
      split: option.splits if_splits)

section \<open>Sequences of logins\<close>

text \<open>
  A login names the user, the password, the code and the two seconds at which it is checked and
  recorded; between logins any other operation may change the world (not the guard, which no other
  operation touches). A login counts as accepted when the user has a second factor and the answer is true.
\<close>

datatype totp_event = Login string bytes string int int | Other "world \<Rightarrow> world"

fun accepted_logins :: "totp_lib \<Rightarrow> crypto_lib \<Rightarrow> kdf_config \<Rightarrow> string \<Rightarrow> totp_event list
    \<Rightarrow> totp_state \<Rightarrow> bool list" where
  "accepted_logins T L cfg issuer [] s = []"
| "accepted_logins T L cfg issuer (Login u pw c checked recorded # es) s =
     (case verify_login_totp T L cfg issuer checked recorded u pw c s of (r, s') \<Rightarrow>
        (totp_enabled u s \<and> r = Inr True) # accepted_logins T L cfg issuer es s')"
| "accepted_logins T L cfg issuer (Other f # es) s =
     False # accepted_logins T L cfg issuer es (s\<lparr>ts_world := f (ts_world s)\<rparr>)"

fun recorded_at :: "totp_event list \<Rightarrow> int list" where
  "recorded_at [] = []"
| "recorded_at (Login u pw c checked recorded # es) = recorded # recorded_at es"
| "recorded_at (Other f # es) = recorded_at es"

lemma recorded_at_in: "Login u pw c checked recorded \<in> set es \<Longrightarrow> recorded \<in> set (recorded_at es)"
  by (induction es rule: recorded_at.induct) auto

lemma guarded_refused:
  assumes "guarded (replay_key u c) e s" "sorted (recorded_at es)" "j < length es"
    and "es ! j = Login u pw c checked recorded" "accepted_logins T L cfg issuer es s ! j"
  shows "e \<le> recorded"
  using assms
proof (induction es arbitrary: s j)
  case (Cons x es)
  show ?case
  proof (cases x)
    case (Login u' pw' c' checked' recorded')
    obtain r s' where run: "verify_login_totp T L cfg issuer checked' recorded' u' pw' c' s = (r, s')"
      by (cases "verify_login_totp T L cfg issuer checked' recorded' u' pw' c' s")
    show ?thesis
    proof (cases j)
      case 0
      then show ?thesis using Cons.prems Login verify_guard_once [of T L cfg issuer checked recorded u pw c s r s'] run by auto
    next
      case (Suc j')
      have le: "recorded' \<le> recorded"
        using Cons.prems(2-4) Suc Login recorded_at_in [of u pw c checked recorded es] nth_mem [of j' es] by auto
      show ?thesis
      proof (cases "recorded' < e")
        case True
        have "guarded (replay_key u c) e s'"
          using verify_guard_once [OF run] verify_not_enabled [OF run] Cons.prems(1) True by blast
        then show ?thesis using Cons.IH [of s' j'] Cons.prems Suc Login run by simp
      next
        case False
        then show ?thesis using le by simp
      qed
    qed
  next
    case (Other f)
    have "guarded (replay_key u c) e (s\<lparr>ts_world := f (ts_world s)\<rparr>)"
      using Cons.prems(1) by (simp add: guarded_def)
    then show ?thesis
      using Cons.IH [of _ "j - 1"] Cons.prems Other by (cases j) auto
  qed
qed simp

lemma accepted_twice:
  assumes "sorted (recorded_at es)" "i < j" "j < length es"
    and "es ! i = Login u pw c checked recorded" "accepted_logins T L cfg issuer es s ! i"
    and "es ! j = Login u pw' c checked' recorded'" "accepted_logins T L cfg issuer es s ! j"
  shows "recorded + 90 \<le> recorded'"
  using assms
proof (induction es arbitrary: s i j)
  case (Cons x es)
  obtain j' where j: "j = Suc j'" using Cons.prems(2) by (cases j) auto
  show ?case
  proof (cases i)
    case 0
    obtain r s' where run: "verify_login_totp T L cfg issuer checked recorded u pw c s = (r, s')"
      by (cases "verify_login_totp T L cfg issuer checked recorded u pw c s")
    have x: "x = Login u pw c checked recorded" using Cons.prems(4) 0 by simp
    then have "guarded (replay_key u c) (recorded + 90) s'"
      using Cons.prems(5) 0 run verify_guard_once [OF run] by simp
    then show ?thesis
      using guarded_refused [of u c "recorded + 90" s' es j'] Cons.prems x j run by simp
  next
    case (Suc i')
    then show ?thesis
      using Cons.IH [of i' j'] Cons.prems j by (cases x) (auto split: prod.splits)
  qed
qed simp

section \<open>Enabling and logging in\<close>

lemma derive_key_reads [simp]: "snd (derive_key_if_valid L cfg u pw w) = w"
  by (auto simp: derive_key_if_valid_def ensure_not_shutting_down_def eff_simps stored_envelope_run
      split: sum.split option.split)

lemma derive_key_run: "derive_key_if_valid L cfg u pw w = (fst (derive_key_if_valid L cfg u pw w), w)"
  by (simp add: prod_eq_iff)

lemma derive_key_cong:
  "w_auth w' = w_auth w \<Longrightarrow> fst (derive_key_if_valid L cfg u pw w') = fst (derive_key_if_valid L cfg u pw w)"
  using lookup_cong [of w' w u]
  by (auto simp: derive_key_if_valid_def ensure_not_shutting_down_def eff_simps stored_envelope_run
      split: sum.split option.split)

lemma totp_envelope_roundtrip:
  "payload_ok p \<Longrightarrow> totp_deserialize_envelope (totp_serialize_envelope p) = Inr p"
  by (auto simp: payload_ok_def totp_deserialize_envelope_def totp_serialize_envelope_def)

lemma set_totp_secret_run:
  "set_totp_secret p secret s = (Inr (count_where p (users (w_db (ts_world s)))),
     s\<lparr>ts_world := (ts_world s)\<lparr>w_db := (w_db (ts_world s))\<lparr>users :=
       update_where p (\<lambda>u. u\<lparr>ur_totp_secret := secret\<rparr>) (users (w_db (ts_world s)))\<rparr>\<rparr>\<rparr>)"
  by (simp add: set_totp_secret_def eff_simps)

text \<open>What the row of a user with a second factor holds, and the login check on such a row.\<close>

definition holds_secret :: "crypto_lib \<Rightarrow> string \<Rightarrow> bytes \<Rightarrow> string \<Rightarrow> totp_state \<Rightarrow> bool" where
  "holds_secret L u key secret s \<longleftrightarrow> (\<exists>row bs p. user_by_username u (w_db (ts_world s)) = Some row
     \<and> ur_totp_secret row = Some bs \<and> totp_deserialize_envelope bs = Inr p \<and> decrypt L p key = Inr (as_bytes secret))"

lemma login_check:
  assumes "holds_secret L u key secret s" "utf8_valid (as_bytes secret)"
    and "build_totp T issuer u secret = Inr totp" "is_valid_totp_code c"
    and "fst (derive_key_if_valid L cfg u pw (ts_world s)) = Inr k"
  shows "verify_login_totp T L cfg issuer checked recorded u pw c s =
    (if k = Some key
     then (if tl_check T totp c checked then reject_replay_and_record u c recorded s else (Inr False, s))
     else if k = None then (Inr False, s)
     else verify_login_totp T L cfg issuer checked recorded u pw c s)"
proof -
  obtain row bs p where "user_by_username u (w_db (ts_world s)) = Some row"
    "ur_totp_secret row = Some bs" "totp_deserialize_envelope bs = Inr p" "decrypt L p key = Inr (as_bytes secret)"
    using assms(1) by (auto simp: holds_secret_def)
  then show ?thesis
    using assms(2-5) derive_key_run [of L cfg u pw "ts_world s"]
    by (auto simp: verify_login_totp_def load_totp_secret_by_username_def bindE_run eff_simps
        decrypted_secret_def from_utf8_as_bytes)
qed

lemma enable_totp_Inr:
  assumes "crypto_lib_ok L" "enable_totp T L issuer now uid u key secret code s = (Inr (), s')"
  shows "\<exists>totp. build_totp T issuer u secret = Inr totp \<and> tl_check T totp code now \<and> is_valid_totp_code code"
    and "\<exists>p. payload_ok p \<and> decrypt L p key = Inr (as_bytes secret) \<and> uid \<in> ur_id ` set (users (w_db (ts_world s)))
      \<and> s' = s\<lparr>ts_world := (tick (ts_world s))\<lparr>w_db := (w_db (ts_world s))\<lparr>users :=
        update_where (\<lambda>u. ur_id u = uid) (\<lambda>u. u\<lparr>ur_totp_secret := Some (totp_serialize_envelope p)\<rparr>)
          (users (w_db (ts_world s)))\<rparr>\<rparr>\<rparr>"
proof -
  obtain p w1 where code: "verify_setup_code T issuer now u secret code = Inr True"
    and enc: "encrypt L (as_bytes secret) key (ts_world s) = (Inr p, w1)"
    and upd: "uid \<in> ur_id ` set (users (w_db w1))"
      "s' = s\<lparr>ts_world := w1\<lparr>w_db := (w_db w1)\<lparr>users :=
        update_where (\<lambda>u. ur_id u = uid) (\<lambda>u. u\<lparr>ur_totp_secret := Some (totp_serialize_envelope p)\<rparr>)
          (users (w_db w1))\<rparr>\<rparr>\<rparr>"
    using assms(2)
    by (auto simp: enable_totp_def eff_iffs set_totp_secret_run on_world_def split: prod.splits)
  show "\<exists>totp. build_totp T issuer u secret = Inr totp \<and> tl_check T totp code now \<and> is_valid_totp_code code"
    using code by (auto simp: verify_setup_code_def bindR_Inr_iff split: if_splits)
  have "w1 = tick (ts_world s)" "payload_ok p" "decrypt L p key = Inr (as_bytes secret)"
    using encrypt_payload(3) [OF assms(1) enc] encrypt_payload_ok [OF assms(1) enc]
      encrypt_decrypt [OF assms(1) enc] by auto
  then show "\<exists>p. payload_ok p \<and> decrypt L p key = Inr (as_bytes secret) \<and> uid \<in> ur_id ` set (users (w_db (ts_world s)))
      \<and> s' = s\<lparr>ts_world := (tick (ts_world s))\<lparr>w_db := (w_db (ts_world s))\<lparr>users :=
        update_where (\<lambda>u. ur_id u = uid) (\<lambda>u. u\<lparr>ur_totp_secret := Some (totp_serialize_envelope p)\<rparr>)
          (users (w_db (ts_world s)))\<rparr>\<rparr>\<rparr>"
    using upd by (intro exI [of _ p]) auto
qed

lemma enabled_holds_secret:
  assumes "crypto_lib_ok L" "db_ok (w_db (ts_world s))" "user_by_id uid (w_db (ts_world s)) = Some row"
    and "enable_totp T L issuer now uid (ur_username row) key secret code s = (Inr (), s')"
  shows "holds_secret L (ur_username row) key secret s' \<and> w_auth (ts_world s') = w_auth (ts_world s)
    \<and> replay_guard s' = replay_guard s"
proof -
  obtain p where p: "payload_ok p" "decrypt L p key = Inr (as_bytes secret)"
    and s': "s' = s\<lparr>ts_world := (tick (ts_world s))\<lparr>w_db := (w_db (ts_world s))\<lparr>users :=
        update_where (\<lambda>u. ur_id u = uid) (\<lambda>u. u\<lparr>ur_totp_secret := Some (totp_serialize_envelope p)\<rparr>)
          (users (w_db (ts_world s)))\<rparr>\<rparr>\<rparr>"
    using enable_totp_Inr(2) [OF assms(1,4)] by blast
  have "row \<in> set (users (w_db (ts_world s)))" "ur_id row = uid"
    using assms(3) by (auto simp: user_by_id_def dest: find_row_Some_in)
  moreover have "distinct (map ur_username (users (w_db (ts_world s))))"
    using assms(2) by (simp add: db_ok_def users_ok_def)
  ultimately have "find_row ur_username (ur_username row) (users (w_db (ts_world s))) = Some row"
    by (simp add: find_row_in)
  then have "user_by_username (ur_username row) (w_db (ts_world s')) =
      Some (row\<lparr>ur_totp_secret := Some (totp_serialize_envelope p)\<rparr>)"
    using \<open>ur_id row = uid\<close> unfolding s' user_by_username_def by (simp add: find_row_update_where)
  then have "holds_secret L (ur_username row) key secret s'"
    using p totp_envelope_roundtrip by (simp add: holds_secret_def)
  then show ?thesis by (simp add: s')
qed

text \<open>
  After the second factor of an account is enabled under the key that its password opens, a
  login with that password and a well-formed code is answered by the library's check of that code
  against the enrolled secret, and, where it accepts, by the replay guard; a password that does not
  open the account is refused, and so is a malformed code, both without any change of state.
\<close>

theorem enabled_totp_guards_login:
  assumes "crypto_lib_ok L" "db_ok (w_db (ts_world s))" "user_by_id uid (w_db (ts_world s)) = Some row"
    and "enable_totp T L issuer now uid (ur_username row) key secret code s = (Inr (), s')"
    and "utf8_valid (as_bytes secret)"
  shows "\<exists>totp. build_totp T issuer (ur_username row) secret = Inr totp \<and> tl_check T totp code now
    \<and> (\<forall>pw c checked recorded.
        let login = verify_login_totp T L cfg issuer checked recorded (ur_username row) pw c s' in
        (\<not> is_valid_totp_code c \<longrightarrow> login = (Inr False, s'))
        \<and> (is_valid_totp_code c \<and> opens L cfg (ts_world s) (ur_username row) pw key \<longrightarrow>
            login = (if tl_check T totp c checked then reject_replay_and_record (ur_username row) c recorded s'
                     else (Inr False, s')))
        \<and> (fst (derive_key_if_valid L cfg (ur_username row) pw (ts_world s)) = Inr None \<longrightarrow> login = (Inr False, s')))"
proof -
  note enabled = enabled_holds_secret [OF assms(1-4)]
  then have cred: "fst (derive_key_if_valid L cfg (ur_username row) pw (ts_world s')) =
      fst (derive_key_if_valid L cfg (ur_username row) pw (ts_world s))" for pw
    using derive_key_cong by blast
  obtain totp where totp: "build_totp T issuer (ur_username row) secret = Inr totp" "tl_check T totp code now"
    using enable_totp_Inr(1) [OF assms(1,4)] by blast
  have malformed: "\<not> is_valid_totp_code c \<Longrightarrow>
      verify_login_totp T L cfg issuer checked recorded (ur_username row) pw c s' = (Inr False, s')" for pw c checked recorded
    by (simp add: verify_login_totp_def eff_simps)
  have check: "verify_login_totp T L cfg issuer checked recorded (ur_username row) pw c s' =
      (if k = Some key
       then (if tl_check T totp c checked then reject_replay_and_record (ur_username row) c recorded s' else (Inr False, s'))
       else if k = None then (Inr False, s')
       else verify_login_totp T L cfg issuer checked recorded (ur_username row) pw c s')"
    if "is_valid_totp_code c" "fst (derive_key_if_valid L cfg (ur_username row) pw (ts_world s)) = Inr k"
    for pw c checked recorded k
    by (rule login_check [OF _ assms(5) totp(1) that(1)]) (use enabled that(2) cred in simp_all)
  show ?thesis
    using totp malformed check [of _ _ "Some key"] check [of _ _ None]
    unfolding opens_def Let_def by (intro exI [of _ totp]) (metis option.distinct(1))
qed

text \<open>
  C15: A code is accepted once in its time. In one run of the service and any sequence of logins whose
  recording seconds do not go backwards, with any other operations in between, two accepted logins with the
  same user and code are recorded at least 90 seconds apart, and checked at least 90 seconds apart less the
  time between the second check and its recording; so when the second is recorded in the second in which it
  was checked, no time step of 30 seconds is within the tolerance of one step at both checks. (A code checked
  in its last second and recorded in the next one may be accepted twice: the guard forgets it just then.)
\<close>

theorem totp_code_used_once:
  assumes "sorted (recorded_at es)" "i < j" "j < length es"
    and "es ! i = Login u pw c checked recorded" "accepted_logins T L cfg issuer es s ! i"
    and "es ! j = Login u pw' c checked' recorded'" "accepted_logins T L cfg issuer es s ! j"
    and "checked \<le> recorded"
  shows "recorded + 90 \<le> recorded' \<and> checked + 90 - (recorded' - checked') \<le> checked'
    \<and> (recorded' = checked' \<longrightarrow>
        (\<forall>step. \<not> (\<bar>checked div TOTP_STEP - step\<bar> \<le> int TOTP_SKEW \<and> \<bar>checked' div TOTP_STEP - step\<bar> \<le> int TOTP_SKEW)))"
proof -
  have apart: "recorded + 90 \<le> recorded'" by (rule accepted_twice [OF assms(1-7)])
  have "checked div 30 + 3 \<le> checked' div 30" if "recorded' = checked'"
    using apart assms(8) that by linarith
  then show ?thesis using apart assms(8) by (auto simp: TOTP_STEP_def TOTP_SKEW_def)
qed

section \<open>An example\<close>

definition toy_code :: "int \<Rightarrow> string" where
  "toy_code step = replicate 6 (char_of (48 + nat (step mod 10)))"

definition toy_totp :: totp_lib where
  "toy_totp = \<lparr>tl_from_base32 = (\<lambda>s. Inr (as_bytes s)), tl_to_base32 = map (\<lambda>b. char_of (unat b)),
     tl_generate = (\<lambda>i. replicate 20 (of_nat i)), tl_build_error = (\<lambda>c. None),
     tl_check = (\<lambda>c code t. list_ex (\<lambda>d. code = toy_code (t div tc_step_duration c + d)) [-1, 0, 1]),
     tl_to_url = (\<lambda>c. Inr (tc_issuer c)), tl_qr_error = (\<lambda>b. None), tl_qr_png = Inr\<rparr>"

definition bob_row :: user_row where "bob_row = new_user_row 2 ''bob'' User"

definition bob_key :: bytes where "bob_key = 97 # replicate 31 0"

definition bob_state :: totp_state where
  "bob_state = \<lparr>ts_world = \<lparr>w_db = (empty_db ''now'')\<lparr>users := [bob_row]\<rparr>, w_rng = toy_rng,
     w_auth = \<lparr>credentials = [(''bob'', encode_password_envelope (Legacy (replicate 32 0) bob_key))],
       shutdown_in_progress = False\<rparr>\<rparr>, replay_guard = []\<rparr>"

lemma bob_state_facts:
  "db_ok (w_db (ts_world bob_state))" "user_by_id 2 (w_db (ts_world bob_state)) = Some bob_row"
  "ur_username bob_row = ''bob''" "rng_works (ts_world bob_state)" "replay_guard bob_state = []"
  by (auto simp: bob_state_def bob_row_def empty_db_def db_ok_def db_part_defs user_row_ok_def new_user_row_def
      user_by_id_def rng_works_def toy_rng_def)

lemma bob_opens: "opens toy_lib default_kdf_config (ts_world bob_state) ''bob'' [97] bob_key"
proof -
  have wf: "envelope_wf (Legacy (replicate 32 0) bob_key)" by (simp add: envelope_wf_def bob_key_def)
  have "password_to_secret_string [97] = Inr ''a''"
    by (simp add: password_to_secret_string_def from_utf8_def char_of_def bit_0)
  then show ?thesis
    unfolding opens_iff
    by (intro conjI exI [of _ "Legacy (replicate 32 0) bob_key"]
        exI [of _ "encode_password_envelope (Legacy (replicate 32 0) bob_key)"] exI [of _ "''a''"])
      (simp_all add: bob_state_def lookup_envelope_def decode_encode [OF wf [unfolded bob_key_def]] derive_key_def argon2_instance_def
        toy_lib_def default_kdf_config_def len_defs bob_key_def as_bytes_def)
qed

lemma replicate_six: "replicate 6 x = [x, x, x, x, x, x]"
  by (simp add: numeral_eq_Suc)

lemma toy_codes: "is_valid_totp_code ''000000''" "toy_code 0 = ''000000''" "toy_code 10 = ''000000''"
  by (simp_all add: is_valid_totp_code_def TOTP_DIGITS_def is_ascii_digit_def toy_code_def char_of_def bit_0 replicate_six)

lemma toy_check: "\<exists>totp. build_totp toy_totp issuer u secret = Inr totp
    \<and> tl_check toy_totp totp ''000000'' 0 \<and> tl_check toy_totp totp ''000000'' 300"
  by (simp add: build_totp_def toy_totp_def Let_def TOTP_STEP_def toy_codes)

lemma bob_enables: "\<exists>s'. enable_totp toy_totp toy_lib ''HV'' 0 2 ''bob'' bob_key ''SECRET'' ''000000'' bob_state = (Inr (), s')"
proof -
  obtain totp where "build_totp toy_totp ''HV'' ''bob'' ''SECRET'' = Inr totp" "tl_check toy_totp totp ''000000'' 0"
    using toy_check by blast
  then have "verify_setup_code toy_totp ''HV'' 0 ''bob'' ''SECRET'' ''000000'' = Inr True"
    by (simp add: verify_setup_code_def toy_codes)
  moreover obtain p where "encrypt toy_lib (as_bytes ''SECRET'') bob_key (ts_world bob_state) = (Inr p, tick (ts_world bob_state))"
    by (rule toy_encrypt [OF bob_state_facts(4), of bob_key]) (simp_all add: bob_key_def)
  moreover have "trim ''bob'' \<noteq> []"
    by (simp add: trim_def trim_with.simps white_space_def)
  moreover have "\<exists>r\<in>set (users (w_db (ts_world bob_state))). ur_id r = 2"
    by (simp add: bob_state_def bob_row_def new_user_row_def)
  ultimately show ?thesis
    by (simp add: enable_totp_def bindE_run eff_simps set_totp_secret_run)
qed

text \<open>The first code of the example is accepted and put into the guard; so is its repetition after 300 seconds.\<close>

lemma bob_logins:
  assumes "enable_totp toy_totp toy_lib ''HV'' 0 2 ''bob'' bob_key ''SECRET'' ''000000'' bob_state = (Inr (), s')"
  shows "accepted_logins toy_totp toy_lib default_kdf_config ''HV''
    [Login ''bob'' [97] ''000000'' 0 0, Login ''bob'' [97] ''000000'' 300 300] s' = [True, True]"
proof -
  have run: "enable_totp toy_totp toy_lib ''HV'' 0 2 (ur_username bob_row) bob_key ''SECRET'' ''000000'' bob_state = (Inr (), s')"
    using assms by (simp add: bob_state_facts(3))
  have enabled: "holds_secret toy_lib ''bob'' bob_key ''SECRET'' s'" "w_auth (ts_world s') = w_auth (ts_world bob_state)"
    "replay_guard s' = []"
    using enabled_holds_secret [OF toy_lib_ok bob_state_facts(1,2) run] bob_state_facts(3,5) by simp_all
  have key: "fst (derive_key_if_valid toy_lib default_kdf_config ''bob'' [97] (ts_world s')) = Inr (Some bob_key)"
    using bob_opens derive_key_cong [OF enabled(2)] by (simp add: opens_def)
  have utf: "utf8_valid (as_bytes ''SECRET'')" by (simp add: as_bytes_def)
  obtain totp where totp: "build_totp toy_totp ''HV'' ''bob'' ''SECRET'' = Inr totp"
    "tl_check toy_totp totp ''000000'' 0" "tl_check toy_totp totp ''000000'' 300" using toy_check by blast
  let ?s1 = "s'\<lparr>replay_guard := [(replay_key ''bob'' ''000000'', 90)]\<rparr>"
  have "holds_secret toy_lib ''bob'' bob_key ''SECRET'' ?s1" using enabled(1) by (simp add: holds_secret_def)
  moreover have "totp_enabled ''bob'' s'" "totp_enabled ''bob'' ?s1"
    using enabled(1) by (auto simp: holds_secret_def totp_enabled_def)
  ultimately show ?thesis
    using login_check [OF enabled(1) utf totp(1) toy_codes(1) key, of 0 0]
      login_check [OF _ utf totp(1) toy_codes(1), of toy_lib bob_key ?s1 default_kdf_config "[97]" "Some bob_key" 300 300]
      totp(2,3) enabled(3) key
    by (simp add: reject_replay_and_record_def TOTP_REPLAY_TTL_SECS_def TOTP_STEP_def)
qed

theorem totp_code_used_once_witness:
  "\<exists>s. accepted_logins toy_totp toy_lib default_kdf_config ''HV''
     [Login ''bob'' [97] ''000000'' 0 0, Login ''bob'' [97] ''000000'' 300 300] s = [True, True]
   \<and> (0 :: int) + 90 \<le> 300 \<and> \<not> (\<bar>0 div TOTP_STEP - 1\<bar> \<le> int TOTP_SKEW \<and> \<bar>300 div TOTP_STEP - 1\<bar> \<le> int TOTP_SKEW)"
proof -
  obtain s' where "enable_totp toy_totp toy_lib ''HV'' 0 2 ''bob'' bob_key ''SECRET'' ''000000'' bob_state = (Inr (), s')"
    using bob_enables by blast
  note logins = bob_logins [OF this]
  have "(0 :: int) + 90 \<le> 300 \<and> (0 :: int) + 90 - (300 - 300) \<le> 300 \<and> ((300 :: int) = 300 \<longrightarrow>
      (\<forall>step. \<not> (\<bar>0 div TOTP_STEP - step\<bar> \<le> int TOTP_SKEW \<and> \<bar>300 div TOTP_STEP - step\<bar> \<le> int TOTP_SKEW)))"
    by (rule totp_code_used_once [where i = 0 and j = 1 and s = s' and
        es = "[Login ''bob'' [97] ''000000'' 0 0, Login ''bob'' [97] ''000000'' 300 300]" and T = toy_totp
        and L = toy_lib and cfg = default_kdf_config and issuer = "''HV''"])
      (simp_all only: logins, simp_all)
  then show ?thesis using logins by blast
qed

theorem enabled_totp_guards_login_witness:
  "\<exists>s' totp. enable_totp toy_totp toy_lib ''HV'' 0 2 ''bob'' bob_key ''SECRET'' ''000000'' bob_state = (Inr (), s')
    \<and> tl_check toy_totp totp ''000000'' 0
    \<and> verify_login_totp toy_totp toy_lib default_kdf_config ''HV'' 5 5 ''bob'' [97] ''00'' s' = (Inr False, s')"
proof -
  obtain s' where run: "enable_totp toy_totp toy_lib ''HV'' 0 2 (ur_username bob_row) bob_key ''SECRET'' ''000000'' bob_state = (Inr (), s')"
    using bob_enables by (auto simp: bob_state_facts(3))
  have "utf8_valid (as_bytes ''SECRET'')" by (simp add: as_bytes_def)
  moreover have "\<not> is_valid_totp_code ''00''" by (simp add: is_valid_totp_code_def TOTP_DIGITS_def)
  ultimately show ?thesis
    using enabled_totp_guards_login [OF toy_lib_ok bob_state_facts(1,2) run, of default_kdf_config] run
    unfolding Let_def bob_state_facts(3) by metis
qed

end
