(* ===== verification/HV_Rekey.thy ===== *)
theory HV_Rekey
  imports HV_VaultService HV_SecretRepo HV_AccountKey
begin

text \<open>
  services/rekey_service.rs: moving everything a user's key protects to a new key. Nothing of it
  concerns the secrets themselves, which stay under the keys of their vaults. Counts of vaults and
  secrets are natural numbers: the saturation of \<open>usize\<close> is out of reach of a list in memory.
\<close>

section \<open>Data\<close>

record rekey_report =
  owner_vaults_rewrapped :: nat
  shared_vaults_rewrapped :: nat
  vaults_without_key :: nat
  secrets_readable :: nat
  secrets_unreadable :: nat
  totp_disabled :: bool
  recovery_key_available :: bool

record rekey_outcome =
  ro_report :: rekey_report
  ro_password_envelope :: bytes
  ro_session_key :: bytes

datatype recovery_material = LegacyPhraseEnvelope | SealedAccountKey "string option"

record unwrapped_vault =
  uv_vault_id :: uuid
  uv_owned :: bool
  uv_vault_key :: bytes

datatype blob_format = Versioned | NonceCiphertext

fun blob_decode :: "blob_format \<Rightarrow> bytes \<Rightarrow> encrypted_payload result" where
  "blob_decode Versioned bs = decode_envelope bs"
| "blob_decode NonceCiphertext bs = deserialize_vault_key_envelope bs"

fun blob_encode :: "blob_format \<Rightarrow> encrypted_payload \<Rightarrow> bytes" where
  "blob_encode Versioned payload = encode_envelope payload"
| "blob_encode NonceCiphertext payload = serialize_vault_key_envelope payload"

definition map_err :: "('e \<Rightarrow> 'f) \<Rightarrow> 'e + 'a \<Rightarrow> 'f + 'a" where
  "map_err h r = (case r of Inl e \<Rightarrow> Inl (h e) | Inr a \<Rightarrow> Inr a)"

section \<open>Reading everything the old key opens\<close>

definition load_vault_envelope :: "uuid \<Rightarrow> bool \<Rightarrow> uuid \<Rightarrow> (world, bytes option) eff" where
  "load_vault_envelope vid owned uid =
     (if owned then on_db (get_vault_key_envelope vid) else on_db (get_key_share vid uid))"

fun unwrap_vaults :: "crypto_lib \<Rightarrow> uuid \<Rightarrow> bytes \<Rightarrow> accessible_vault list
    \<Rightarrow> (world, unwrapped_vault list \<times> nat) eff" where
  "unwrap_vaults L uid key [] = returnE ([], 0)"
| "unwrap_vaults L uid key (access # rest) =
     (let vid = v_id (av_vault access);
          owned = (v_owner_user_id (av_vault access) = uid)
      in bindE (load_vault_envelope vid owned uid) (\<lambda>envelope_opt.
         case envelope_opt of
           None \<Rightarrow> bindE (unwrap_vaults L uid key rest) (\<lambda>(vs, n). returnE (vs, n + 1))
         | Some envelope \<Rightarrow>
             bindE (liftE (deserialize_vault_key_envelope envelope)) (\<lambda>payload.
             bindE (liftE (map_err (\<lambda>_. Recovery InconsistentKeyMaterial) (decrypt L payload key)))
               (\<lambda>vault_key.
             bindE (unwrap_vaults L uid key rest) (\<lambda>(vs, n).
             returnE (\<lparr>uv_vault_id = vid, uv_owned = owned, uv_vault_key = vault_key\<rparr> # vs, n))))))"

definition unwrap_accessible_vaults :: "crypto_lib \<Rightarrow> uuid \<Rightarrow> bytes
    \<Rightarrow> (world, unwrapped_vault list \<times> nat) eff" where
  "unwrap_accessible_vaults L uid key =
     bindE (on_db (get_accessible_vaults uid)) (\<lambda>accessible. unwrap_vaults L uid key accessible)"

definition secret_decrypts :: "crypto_lib \<Rightarrow> bytes \<Rightarrow> secret_item \<Rightarrow> bool" where
  "secret_decrypts L vault_key secret =
     (case deserialize_vault_key_envelope (si_secret_blob secret) of
        Inr payload \<Rightarrow> (case decrypt L payload vault_key of Inr _ \<Rightarrow> True | Inl _ \<Rightarrow> False)
      | Inl _ \<Rightarrow> False)"

fun check_secrets :: "crypto_lib \<Rightarrow> unwrapped_vault list \<Rightarrow> (world, nat \<times> nat) eff" where
  "check_secrets L [] = returnE (0, 0)"
| "check_secrets L (vault # vs) =
     bindE (on_db (list_by_vault_id (uv_vault_id vault))) (\<lambda>secrets.
     bindE (check_secrets L vs) (\<lambda>(readable, unreadable).
     returnE (length (filter (secret_decrypts L (uv_vault_key vault)) secrets) + readable,
              length (filter (\<lambda>s. \<not> secret_decrypts L (uv_vault_key vault) s) secrets) + unreadable)))"

definition phrase_from_legacy_envelope :: "crypto_lib \<Rightarrow> uuid \<Rightarrow> bytes \<Rightarrow> (world, string option) eff" where
  "phrase_from_legacy_envelope L uid legacy_key =
     bindE (on_db (get_recovery_phrase_envelope uid)) (\<lambda>stored.
     returnE (case stored of
        None \<Rightarrow> None
      | Some bs \<Rightarrow> (case bindR (decode_envelope bs) (\<lambda>payload. decrypt L payload legacy_key) of
            Inl _ \<Rightarrow> None
          | Inr plaintext \<Rightarrow> from_utf8 plaintext)))"

section \<open>Writing it under the new key\<close>

definition rewrap_user_blob :: "crypto_lib \<Rightarrow> bytes option \<Rightarrow> blob_format \<Rightarrow> bytes \<Rightarrow> bytes
    \<Rightarrow> (world, user_envelope_change) eff" where
  "rewrap_user_blob L stored format old_key new_key =
     (case stored of
        None \<Rightarrow> returnE Keep
      | Some bs \<Rightarrow> (case bindR (blob_decode format bs) (\<lambda>payload. decrypt L payload old_key) of
            Inl _ \<Rightarrow> returnE Clear
          | Inr plaintext \<Rightarrow> bindE (encrypt L plaintext new_key) (\<lambda>payload.
              returnE (Replace (blob_encode format payload)))))"

fun rewrap_vaults :: "crypto_lib \<Rightarrow> uuid \<Rightarrow> bytes \<Rightarrow> unwrapped_vault list
    \<Rightarrow> (world, vault_envelope_update list \<times> vault_share_envelope_update list) eff" where
  "rewrap_vaults L uid new_key [] = returnE ([], [])"
| "rewrap_vaults L uid new_key (vault # vs) =
     bindE (encrypt L (uv_vault_key vault) new_key) (\<lambda>payload.
     bindE (rewrap_vaults L uid new_key vs) (\<lambda>(owner_updates, shared_updates).
     let key_envelope = serialize_vault_key_envelope payload in
     returnE (if uv_owned vault
       then (\<lparr>veu_vault_id = uv_vault_id vault, veu_key_envelope = key_envelope\<rparr> # owner_updates,
             shared_updates)
       else (owner_updates,
             \<lparr>vsu_vault_id = uv_vault_id vault, vsu_user_id = uid, vsu_key_envelope = key_envelope\<rparr>
               # shared_updates))))"

definition verify_stored_envelope :: "uuid \<Rightarrow> bytes \<Rightarrow> (world, unit) eff" where
  "verify_stored_envelope uid expected =
     bindE (on_db (get_password_envelope_by_user_id uid)) (\<lambda>stored_opt.
     bindE (liftE (ok_or stored_opt (Storage ''password envelope missing after re-key''))) (\<lambda>stored.
     liftE (ensure (stored = expected) (Storage ''password envelope was not updated by the re-key''))))"

definition verify_vault :: "(uuid \<Rightarrow> string) \<Rightarrow> crypto_lib \<Rightarrow> uuid \<Rightarrow> bytes \<Rightarrow> unwrapped_vault
    \<Rightarrow> (world, unit) eff" where
  "verify_vault show_id L uid new_key vault =
     bindE (load_vault_envelope (uv_vault_id vault) (uv_owned vault) uid) (\<lambda>envelope_opt.
     bindE (liftE (ok_or envelope_opt (Storage (''vault '' @ show_id (uv_vault_id vault)
              @ '' lost its key envelope during re-key'')))) (\<lambda>envelope.
     bindE (liftE (deserialize_vault_key_envelope envelope)) (\<lambda>payload.
     bindE (liftE (map_err (\<lambda>_. Crypto (''vault '' @ show_id (uv_vault_id vault)
              @ '' does not open with the new key after re-key'')) (decrypt L payload new_key))) (\<lambda>reopened.
     liftE (ensure (reopened = uv_vault_key vault) (Crypto (''vault '' @ show_id (uv_vault_id vault)
              @ '' key changed during re-key'')))))))"

definition verify_vaults :: "(uuid \<Rightarrow> string) \<Rightarrow> crypto_lib \<Rightarrow> uuid \<Rightarrow> bytes \<Rightarrow> unwrapped_vault list
    \<Rightarrow> (world, unit) eff" where
  "verify_vaults show_id L uid new_key vs = forE vs (verify_vault show_id L uid new_key)"

definition recovery_changes :: "crypto_lib \<Rightarrow> kdf_config \<Rightarrow> uuid \<Rightarrow> bytes \<Rightarrow> bytes \<Rightarrow> recovery_material
    \<Rightarrow> (world, user_envelope_change \<times> user_envelope_change \<times> bool) eff" where
  "recovery_changes L cfg uid old_key new_key recovery =
     (case recovery of
        LegacyPhraseEnvelope \<Rightarrow>
          bindE (on_db (get_recovery_phrase_envelope uid)) (\<lambda>stored.
          bindE (rewrap_user_blob L stored Versioned old_key new_key) (\<lambda>rewrapped.
          returnE (rewrapped, Keep, True)))
      | SealedAccountKey given \<Rightarrow>
          bindE (case given of
                   Some phrase \<Rightarrow> returnE (Some phrase)
                 | None \<Rightarrow> phrase_from_legacy_envelope L uid old_key) (\<lambda>phrase.
          bindE (case phrase of
                   Some p \<Rightarrow> bindE (seal_with_recovery_phrase L cfg p new_key) (\<lambda>e. returnE (Replace e))
                 | None \<Rightarrow> returnE Clear) (\<lambda>sealed.
          returnE (Clear, sealed, phrase \<noteq> None))))"

definition rewrap_account :: "(uuid \<Rightarrow> string) \<Rightarrow> crypto_lib \<Rightarrow> kdf_config \<Rightarrow> uuid \<Rightarrow> bytes \<Rightarrow> bytes
    \<Rightarrow> password_envelope \<Rightarrow> recovery_material \<Rightarrow> (world, rekey_outcome) eff" where
  "rewrap_account show_id L cfg uid old_key new_key envelope recovery =
     bindE (unwrap_accessible_vaults L uid old_key) (\<lambda>(vs, without_key).
     bindE (check_secrets L vs) (\<lambda>(readable, unreadable).
     bindE (rewrap_vaults L uid new_key vs) (\<lambda>(owner_updates, shared_updates).
     bindE (on_db (repo_get_totp_secret uid)) (\<lambda>stored_totp.
     bindE (rewrap_user_blob L stored_totp NonceCiphertext old_key new_key) (\<lambda>totp_secret.
     bindE (recovery_changes L cfg uid old_key new_key recovery)
       (\<lambda>(recovery_phrase_envelope, recovery_key_envelope, available).
     let report = \<lparr>owner_vaults_rewrapped = length owner_updates,
           shared_vaults_rewrapped = length shared_updates, vaults_without_key = without_key,
           secrets_readable = readable, secrets_unreadable = unreadable,
           totp_disabled = (totp_secret = Clear), recovery_key_available = available\<rparr>;
         password_envelope = encode_password_envelope envelope
     in
     bindE (on_db (apply_master_key_rotation_atomically uid password_envelope owner_updates shared_updates
              \<lparr>km_recovery_phrase_envelope = recovery_phrase_envelope, km_totp_secret = totp_secret,
               km_recovery_key_envelope = recovery_key_envelope\<rparr>)) (\<lambda>_.
     bindE (verify_stored_envelope uid password_envelope) (\<lambda>_.
     bindE (verify_vaults show_id L uid new_key vs) (\<lambda>_.
     returnE \<lparr>ro_report = report, ro_password_envelope = password_envelope,
              ro_session_key = new_key\<rparr>)))))))))"

section \<open>The three ways to a new password\<close>

definition migrate_to_account_key :: "(uuid \<Rightarrow> string) \<Rightarrow> crypto_lib \<Rightarrow> kdf_config \<Rightarrow> uuid \<Rightarrow> bytes
    \<Rightarrow> string \<Rightarrow> string option \<Rightarrow> (world, rekey_outcome) eff" where
  "migrate_to_account_key show_id L cfg uid legacy_master_key password recovery_phrase =
     bindE generate_account_key (\<lambda>account_key.
     bindE (wrap_account_key L cfg password account_key) (\<lambda>envelope.
     rewrap_account show_id L cfg uid legacy_master_key account_key envelope
       (SealedAccountKey recovery_phrase)))"

definition rekey_legacy_account :: "(uuid \<Rightarrow> string) \<Rightarrow> crypto_lib \<Rightarrow> kdf_config \<Rightarrow> uuid \<Rightarrow> bytes
    \<Rightarrow> string \<Rightarrow> (world, rekey_outcome) eff" where
  "rekey_legacy_account show_id L cfg uid legacy_master_key new_password =
     bindE generate_kdf_salt (\<lambda>salt.
     bindE (liftE (derive_key L cfg new_password salt)) (\<lambda>master_key.
     rewrap_account show_id L cfg uid legacy_master_key master_key (Legacy salt master_key)
       LegacyPhraseEnvelope))"

definition replace_password :: "crypto_lib \<Rightarrow> kdf_config \<Rightarrow> uuid \<Rightarrow> bytes \<Rightarrow> string
    \<Rightarrow> (world, rekey_outcome) eff" where
  "replace_password L cfg uid account_key new_password =
     bindE (unwrap_accessible_vaults L uid account_key) (\<lambda>(vs, without_key).
     bindE (check_secrets L vs) (\<lambda>(readable, unreadable).
     bindE (wrap_account_key L cfg new_password account_key) (\<lambda>envelope.
     let password_envelope = encode_password_envelope envelope in
     bindE (on_db (update_password_envelope uid password_envelope)) (\<lambda>_.
     bindE (verify_stored_envelope uid password_envelope) (\<lambda>_.
     bindE (on_db (repo_get_recovery_key_envelope uid)) (\<lambda>recovery_key.
     returnE \<lparr>ro_report = \<lparr>owner_vaults_rewrapped = 0, shared_vaults_rewrapped = 0,
                vaults_without_key = without_key, secrets_readable = readable,
                secrets_unreadable = unreadable, totp_disabled = False,
                recovery_key_available = (recovery_key \<noteq> None)\<rparr>,
              ro_password_envelope = password_envelope, ro_session_key = account_key\<rparr>))))))"

section \<open>What is read\<close>

text \<open>The envelope the re-key loads: that of the vault for its owner, that of the share otherwise.\<close>

definition loaded :: "uuid \<Rightarrow> bool \<Rightarrow> uuid \<Rightarrow> db \<Rightarrow> bytes option" where
  "loaded vid owned uid d =
     (if owned then (case vault_by_id vid d of Some v \<Rightarrow> vr_vault_key_envelope v | None \<Rightarrow> None)
      else map_option kr_key_envelope (share_of vid uid d))"

lemma load_vault_envelope_run: "load_vault_envelope vid owned uid w = (Inr (loaded vid owned uid (w_db w)), w)"
  by (simp add: load_vault_envelope_def loaded_def get_vault_key_envelope_def get_key_share_def eff_simps)

lemma map_err_iff [simp]:
  "map_err h r = Inr a \<longleftrightarrow> r = Inr a" "map_err h r = Inl e \<longleftrightarrow> (\<exists>e'. r = Inl e' \<and> e = h e')"
  by (auto simp: map_err_def split: sum.split)

lemma envelope_holds_iff:
  "envelope_holds L e k key \<longleftrightarrow> (\<exists>p. deserialize_vault_key_envelope e = Inr p \<and> decrypt L p k = Inr key)"
  by (auto simp: envelope_holds_def bindR_Inr_iff)

lemma envelope_holds_unique: "envelope_holds L e k key \<Longrightarrow> envelope_holds L e k key' \<Longrightarrow> key = key'"
  by (simp add: envelope_holds_def)

definition unwrapped_from :: "crypto_lib \<Rightarrow> uuid \<Rightarrow> bytes \<Rightarrow> db \<Rightarrow> unwrapped_vault \<Rightarrow> bool" where
  "unwrapped_from L uid key d uv \<longleftrightarrow>
     (\<exists>e. loaded (uv_vault_id uv) (uv_owned uv) uid d = Some e \<and> envelope_holds L e key (uv_vault_key uv))"

text \<open>An effect that leaves the whole state alone.\<close>

abbreviation reads :: "('s, 'a) eff \<Rightarrow> bool" where "reads m \<equiv> frames (\<lambda>s. s) m"

lemma readsD: "reads m \<Longrightarrow> snd (m s) = s"
  by (simp add: frames_def)

lemma reads_on_db: "reads m \<Longrightarrow> reads (on_db m)"
  by (simp add: frames_def on_db_run)

lemma reads_load [frame_intros]: "reads (load_vault_envelope vid owned uid)"
  by (simp add: frames_def load_vault_envelope_run)

lemma reads_unwrap_vaults [frame_intros]: "reads (unwrap_vaults L uid key as)"
proof (induction as)
  case (Cons a as)
  then show ?case unfolding unwrap_vaults.simps Let_def by (intro frame_intros)
qed (simp add: frame_intros)

lemma unwrap_vaults_origin:
  "unwrap_vaults L uid key as w = (Inr (vs, n), w') \<Longrightarrow> uv \<in> set vs \<Longrightarrow>
   \<exists>a \<in> set as. uv_vault_id uv = v_id (av_vault a) \<and> uv_owned uv = (v_owner_user_id (av_vault a) = uid)"
proof (induction as arbitrary: vs n)
  case (Cons a as)
  have "(\<exists>n'. unwrap_vaults L uid key as w = (Inr (vs, n'), w')) \<or>
    (\<exists>vk vs' n'. unwrap_vaults L uid key as w = (Inr (vs', n'), w')
      \<and> vs = \<lparr>uv_vault_id = v_id (av_vault a), uv_owned = (v_owner_user_id (av_vault a) = uid), uv_vault_key = vk\<rparr> # vs')"
    using Cons.prems(1) by (auto simp: eff_iffs load_vault_envelope_run Let_def split: option.splits prod.splits)
  then show ?case using Cons.IH Cons.prems(2) by fastforce
qed (simp add: returnE_run)

lemma unwrap_vaults_Inr:
  assumes "unwrap_vaults L uid key as w = (Inr (vs, n), w')"
  shows "(\<forall>uv \<in> set vs. unwrapped_from L uid key (w_db w) uv)
    \<and> (\<forall>a \<in> set as. \<forall>e. loaded (v_id (av_vault a)) (v_owner_user_id (av_vault a) = uid) uid (w_db w) = Some e \<longrightarrow>
         (\<exists>uv \<in> set vs. uv_vault_id uv = v_id (av_vault a) \<and> uv_owned uv = (v_owner_user_id (av_vault a) = uid)))"
  using assms
proof (induction as arbitrary: vs n)
  case (Cons a as)
  let ?vid = "v_id (av_vault a)" and ?owned = "v_owner_user_id (av_vault a) = uid"
  show ?case
  proof (cases "loaded ?vid ?owned uid (w_db w)")
    case None
    then obtain n' where "unwrap_vaults L uid key as w = (Inr (vs, n'), w')"
      using Cons.prems by (auto simp: eff_iffs load_vault_envelope_run Let_def split: prod.splits)
    then show ?thesis using Cons.IH None by simp
  next
    case (Some e)
    then obtain p vk vs' n' where "deserialize_vault_key_envelope e = Inr p" "decrypt L p key = Inr vk"
      "unwrap_vaults L uid key as w = (Inr (vs', n'), w')"
      and vs: "vs = \<lparr>uv_vault_id = ?vid, uv_owned = ?owned, uv_vault_key = vk\<rparr> # vs'"
      using Cons.prems by (auto simp: eff_iffs load_vault_envelope_run Let_def split: prod.splits)
    then show ?thesis
      using Cons.IH Some by (auto simp: unwrapped_from_def envelope_holds_iff)
  qed
qed (simp add: returnE_run)

lemma reads_list_by_vault_id [frame_intros]: "reads (list_by_vault_id vid)"
  unfolding list_by_vault_id_def by (intro frame_intros)

lemma reads_check_secrets [frame_intros]: "reads (check_secrets L vs)"
proof (induction vs)
  case (Cons v vs)
  then show ?case unfolding check_secrets.simps by (intro frame_intros reads_on_db)
qed (simp add: frame_intros)

section \<open>What is written\<close>

lemma reads_stored [frame_intros]: "reads m \<Longrightarrow> frames stored_state (on_db m)"
  by (simp add: frames_def on_db_run stored_state_def)

lemma reads_columns [frame_intros]:
  "reads (get_recovery_phrase_envelope uid)" "reads (repo_get_totp_secret uid)"
  "reads (repo_get_recovery_key_envelope uid)" "reads (get_password_envelope_by_user_id uid)"
  by (simp_all add: get_recovery_phrase_envelope_def repo_get_totp_secret_def repo_get_recovery_key_envelope_def
      get_password_envelope_by_user_id_def get_user_column_def frame_intros)

lemma frames_seal [frame_intros]: "frames stored_state (seal_with_recovery_phrase L cfg phrase key)"
  unfolding seal_with_recovery_phrase_def by (intro frame_intros)

lemma frames_rewrap_vaults [frame_intros]: "frames stored_state (rewrap_vaults L uid key vs)"
proof (induction vs)
  case (Cons v vs)
  then show ?case unfolding rewrap_vaults.simps Let_def by (intro frame_intros)
qed (simp add: frame_intros)

lemma frames_rewrap_blob [frame_intros]: "frames stored_state (rewrap_user_blob L stored fmt old_key new_key)"
  unfolding rewrap_user_blob_def by (intro frame_intros)

lemma frames_recovery_changes [frame_intros]:
  "frames stored_state (recovery_changes L cfg uid old_key new_key recovery)"
  unfolding recovery_changes_def phrase_from_legacy_envelope_def
  by (cases recovery) (simp_all, (intro frame_intros)+)

text \<open>Every update the re-key prepares holds the key of a vault that was opened, under the new key.\<close>

definition sealed_owner :: "crypto_lib \<Rightarrow> bytes \<Rightarrow> unwrapped_vault list \<Rightarrow> vault_envelope_update \<Rightarrow> bool" where
  "sealed_owner L key vs u \<longleftrightarrow> (\<exists>uv \<in> set vs. uv_owned uv \<and> uv_vault_id uv = veu_vault_id u
     \<and> envelope_holds L (veu_key_envelope u) key (uv_vault_key uv))"

definition sealed_share :: "crypto_lib \<Rightarrow> uuid \<Rightarrow> bytes \<Rightarrow> unwrapped_vault list \<Rightarrow> vault_share_envelope_update \<Rightarrow> bool" where
  "sealed_share L uid key vs u \<longleftrightarrow> vsu_user_id u = uid \<and> (\<exists>uv \<in> set vs. \<not> uv_owned uv
     \<and> uv_vault_id uv = vsu_vault_id u \<and> envelope_holds L (vsu_key_envelope u) key (uv_vault_key uv))"

lemma rewrap_vaults_Inr:
  assumes "crypto_lib_ok L" "rewrap_vaults L uid key vs w = (Inr (os, ss), w')"
  shows "(\<forall>u \<in> set os. sealed_owner L key vs u) \<and> (\<forall>u \<in> set ss. sealed_share L uid key vs u)
    \<and> veu_vault_id ` set os = uv_vault_id ` {uv \<in> set vs. uv_owned uv}
    \<and> vsu_vault_id ` set ss = uv_vault_id ` {uv \<in> set vs. \<not> uv_owned uv}"
  using assms(2)
proof (induction vs arbitrary: w os ss)
  case (Cons v vs)
  obtain p w1 os' ss' where enc: "encrypt L (uv_vault_key v) key w = (Inr p, w1)"
    and rest: "rewrap_vaults L uid key vs w1 = (Inr (os', ss'), w')"
    and upd: "(os, ss) = (if uv_owned v
       then (\<lparr>veu_vault_id = uv_vault_id v, veu_key_envelope = serialize_vault_key_envelope p\<rparr> # os', ss')
       else (os', \<lparr>vsu_vault_id = uv_vault_id v, vsu_user_id = uid,
               vsu_key_envelope = serialize_vault_key_envelope p\<rparr> # ss'))"
    using Cons.prems by (auto simp: eff_iffs Let_def split: prod.splits)
  note holds = encrypted_envelope_holds [OF assms(1) enc]
  have weaken: "sealed_owner L key vs u \<Longrightarrow> sealed_owner L key (v # vs) u"
    "sealed_share L uid key vs u' \<Longrightarrow> sealed_share L uid key (v # vs) u'" for u u'
    by (auto simp: sealed_owner_def sealed_share_def)
  have sets: "{uv \<in> set (v # vs). uv_owned uv} = (if uv_owned v then {v} else {}) \<union> {uv \<in> set vs. uv_owned uv}"
    "{uv \<in> set (v # vs). \<not> uv_owned uv} = (if uv_owned v then {} else {v}) \<union> {uv \<in> set vs. \<not> uv_owned uv}" by auto
  show ?case
  proof (cases "uv_owned v")
    case True
    then have "sealed_owner L key (v # vs) \<lparr>veu_vault_id = uv_vault_id v, veu_key_envelope = serialize_vault_key_envelope p\<rparr>"
      using holds by (auto simp: sealed_owner_def)
    then show ?thesis using Cons.IH [OF rest] upd True weaken unfolding sets by auto
  next
    case False
    then have "sealed_share L uid key (v # vs) \<lparr>vsu_vault_id = uv_vault_id v, vsu_user_id = uid,
        vsu_key_envelope = serialize_vault_key_envelope p\<rparr>"
      using holds by (auto simp: sealed_share_def)
    then show ?thesis using Cons.IH [OF rest] upd False weaken unfolding sets by auto
  qed
qed (auto simp: eff_iffs)

section \<open>What the rotation leaves\<close>

lemma vault_by_id_rotated:
  "vault_by_id vid (rotated uid e os ss m d) = map_option (with_envelopes (owner_map os)) (vault_by_id vid d)"
  by (simp add: rotated_def vault_by_id_def find_row_map)

lemma share_of_rotated:
  "share_of vid u (rotated uid e os ss m d) = map_option (with_share_envelopes (share_map ss)) (share_of vid u d)"
  by (simp add: rotated_def share_of_def find_row_map)

lemma owner_map_in: "owner_map os vid = Some e \<Longrightarrow> \<exists>u \<in> set os. veu_vault_id u = vid \<and> veu_key_envelope u = e"
  by (auto simp: owner_map_def dest!: map_of_SomeD)

lemma owner_map_None: "owner_map os vid = None \<longleftrightarrow> vid \<notin> veu_vault_id ` set os"
  by (auto simp: owner_map_def map_of_eq_None_iff image_image)

lemma share_map_in:
  "share_map ss k = Some e \<Longrightarrow> \<exists>u \<in> set ss. (vsu_vault_id u, vsu_user_id u) = k \<and> vsu_key_envelope u = e"
  by (auto simp: share_map_def dest!: map_of_SomeD)

lemma share_map_None: "share_map ss k = None \<longleftrightarrow> k \<notin> (\<lambda>u. (vsu_vault_id u, vsu_user_id u)) ` set ss"
  by (auto simp: share_map_def map_of_eq_None_iff image_image)

lemma owner_map_Some: "vid \<in> veu_vault_id ` set os \<Longrightarrow> \<exists>e. owner_map os vid = Some e"
  by (cases "owner_map os vid") (simp_all add: owner_map_None)

lemma share_map_Some: "k \<in> (\<lambda>u. (vsu_vault_id u, vsu_user_id u)) ` set ss \<Longrightarrow> \<exists>e. share_map ss k = Some e"
  by (cases "share_map ss k") (simp_all add: share_map_None)

lemma loaded_rotated:
  "loaded vid owned u (rotated uid e os ss m d) =
    (if owned then (case vault_by_id vid d of None \<Rightarrow> None
        | Some v \<Rightarrow> (case owner_map os vid of Some e \<Rightarrow> Some e | None \<Rightarrow> vr_vault_key_envelope v))
     else (case share_of vid u d of None \<Rightarrow> None
        | Some s \<Rightarrow> (case share_map ss (vid, u) of Some e \<Rightarrow> Some e | None \<Rightarrow> Some (kr_key_envelope s))))"
proof -
  have "vault_by_id vid d = Some v \<Longrightarrow> vr_id v = vid" "share_of vid u d = Some s \<Longrightarrow> share_key s = (vid, u)" for v s
    by (auto simp: vault_by_id_def share_of_def dest: find_row_Some_in)
  then show ?thesis
    by (auto simp: loaded_def vault_by_id_rotated share_of_rotated with_envelopes_def with_share_envelopes_def
        split: option.split)
qed

lemma envelope_for_loaded:
  "envelope_for u vid d = (case vault_by_id vid d of None \<Rightarrow> None
     | Some v \<Rightarrow> loaded vid (vr_owner_user_id v = u) u d)"
  by (simp add: envelope_for_def loaded_def split: option.split)

text \<open>The updates of a re-key: what was opened under the old key, sealed under the new one.\<close>

definition rewraps :: "crypto_lib \<Rightarrow> uuid \<Rightarrow> bytes \<Rightarrow> bytes \<Rightarrow> db \<Rightarrow> unwrapped_vault list
    \<Rightarrow> vault_envelope_update list \<Rightarrow> vault_share_envelope_update list \<Rightarrow> bool" where
  "rewraps L uid old_key new_key d vs os ss \<longleftrightarrow>
     (\<forall>uv \<in> set vs. unwrapped_from L uid old_key d uv)
     \<and> (\<forall>u \<in> set os. sealed_owner L new_key vs u) \<and> (\<forall>u \<in> set ss. sealed_share L uid new_key vs u)
     \<and> veu_vault_id ` set os = uv_vault_id ` {uv \<in> set vs. uv_owned uv}
     \<and> vsu_vault_id ` set ss = uv_vault_id ` {uv \<in> set vs. \<not> uv_owned uv}"

lemma unwrapped_same_key:
  assumes "unwrapped_from L uid key d uv" "unwrapped_from L uid key d uv'"
    and "uv_vault_id uv = uv_vault_id uv'" "uv_owned uv = uv_owned uv'"
  shows "uv_vault_key uv = uv_vault_key uv'"
  using assms envelope_holds_unique by (auto simp: unwrapped_from_def)

lemma rewrapped_opens:
  assumes "rewraps L uid old_key new_key d vs os ss" "uv \<in> set vs"
  shows "\<exists>e. loaded (uv_vault_id uv) (uv_owned uv) uid (rotated uid pe os ss m d) = Some e
    \<and> envelope_holds L e new_key (uv_vault_key uv)"
proof -
  have opened: "\<And>uv. uv \<in> set vs \<Longrightarrow> unwrapped_from L uid old_key d uv" using assms(1) by (simp add: rewraps_def)
  obtain e0 where e0: "loaded (uv_vault_id uv) (uv_owned uv) uid d = Some e0"
    using opened [OF assms(2)] by (auto simp: unwrapped_from_def)
  show ?thesis
  proof (cases "uv_owned uv")
    case True
    then have "uv_vault_id uv \<in> veu_vault_id ` set os" using assms by (auto simp: rewraps_def)
    then obtain e where e: "owner_map os (uv_vault_id uv) = Some e" using owner_map_Some by blast
    then obtain u where "u \<in> set os" "veu_vault_id u = uv_vault_id uv" "veu_key_envelope u = e"
      using owner_map_in by blast
    then obtain uv' where "uv' \<in> set vs" "uv_owned uv'" "uv_vault_id uv' = uv_vault_id uv"
      "envelope_holds L e new_key (uv_vault_key uv')"
      using assms(1) by (fastforce simp: rewraps_def sealed_owner_def)
    then have "envelope_holds L e new_key (uv_vault_key uv)"
      using unwrapped_same_key [OF opened [OF assms(2)] opened] True by metis
    moreover obtain v where "vault_by_id (uv_vault_id uv) d = Some v"
      using e0 True by (auto simp: loaded_def split: option.splits)
    ultimately show ?thesis using e True by (simp add: loaded_rotated)
  next
    case False
    then have "uv_vault_id uv \<in> vsu_vault_id ` set ss" using assms by (auto simp: rewraps_def)
    then obtain u0 where "u0 \<in> set ss" "vsu_vault_id u0 = uv_vault_id uv" by (metis imageE)
    moreover have "vsu_user_id u0 = uid" using assms(1) \<open>u0 \<in> set ss\<close> by (auto simp: rewraps_def sealed_share_def)
    ultimately have "(uv_vault_id uv, uid) \<in> (\<lambda>u. (vsu_vault_id u, vsu_user_id u)) ` set ss" by force
    then obtain e where e: "share_map ss (uv_vault_id uv, uid) = Some e" using share_map_Some by blast
    then obtain u where "u \<in> set ss" "vsu_vault_id u = uv_vault_id uv" "vsu_key_envelope u = e"
      using share_map_in by blast
    then obtain uv' where "uv' \<in> set vs" "\<not> uv_owned uv'" "uv_vault_id uv' = uv_vault_id uv"
      "envelope_holds L e new_key (uv_vault_key uv')"
      using assms(1) by (fastforce simp: rewraps_def sealed_share_def)
    then have "envelope_holds L e new_key (uv_vault_key uv)"
      using unwrapped_same_key [OF opened [OF assms(2)] opened] False by metis
    moreover obtain sh where "share_of (uv_vault_id uv) uid d = Some sh"
      using e0 False by (auto simp: loaded_def)
    ultimately show ?thesis using e False by (simp add: loaded_rotated)
  qed
qed

lemma rewraps_targets:
  assumes "rewraps L uid old_key new_key d vs os ss" "uid \<in> user_ids d"
  shows "rotation_targets uid os ss d"
proof -
  have owned: "uv_vault_id uv \<in> vault_ids d" if "uv \<in> set vs" "uv_owned uv" for uv
  proof -
    have "unwrapped_from L uid old_key d uv" using assms(1) that by (simp add: rewraps_def)
    then show ?thesis
      using that by (force simp: unwrapped_from_def loaded_def vault_by_id_def vault_ids_def
          split: option.splits dest!: find_row_Some_in)
  qed
  have shared: "(uv_vault_id uv, uid) \<in> share_key ` set (vault_key_shares d)" if "uv \<in> set vs" "\<not> uv_owned uv" for uv
  proof -
    note uv = that
    have "unwrapped_from L uid old_key d uv" using assms(1) uv by (simp add: rewraps_def)
    then obtain s where "share_of (uv_vault_id uv) uid d = Some s"
      using uv(2) by (auto simp: unwrapped_from_def loaded_def)
    then show ?thesis by (force simp: share_of_def dest!: find_row_Some_in)
  qed
  have "veu_vault_id ` set os \<subseteq> vault_ids d" using assms(1) owned by (auto simp: rewraps_def)
  moreover have "(vsu_vault_id u, vsu_user_id u) \<in> share_key ` set (vault_key_shares d)" if "u \<in> set ss" for u
  proof -
    have "sealed_share L uid new_key vs u" using assms(1) that by (simp add: rewraps_def)
    then obtain uv where "vsu_user_id u = uid" "uv \<in> set vs" "\<not> uv_owned uv" "uv_vault_id uv = vsu_vault_id u"
      by (auto simp: sealed_share_def)
    then show ?thesis using shared [of uv] by simp
  qed
  ultimately show ?thesis using assms(2) by (auto simp: rotation_targets_def)
qed

lemma verify_vaults_run:
  assumes "\<forall>uv \<in> set vs. \<exists>e. loaded (uv_vault_id uv) (uv_owned uv) uid (w_db w) = Some e
    \<and> envelope_holds L e key (uv_vault_key uv)"
  shows "verify_vaults show_id L uid key vs w = (Inr (), w)"
  unfolding verify_vaults_def using assms
proof (induction vs)
  case (Cons uv vs)
  then obtain e p where "loaded (uv_vault_id uv) (uv_owned uv) uid (w_db w) = Some e"
    "deserialize_vault_key_envelope e = Inr p" "decrypt L p key = Inr (uv_vault_key uv)"
    by (auto simp: envelope_holds_iff)
  then have "verify_vault show_id L uid key uv w = (Inr (), w)"
    by (simp add: verify_vault_def bindE_run load_vault_envelope_run liftE_run map_err_def)
  then show ?case using Cons by (simp add: bindE_run)
qed (simp add: eff_simps)

lemma verify_stored_run:
  assumes "user_by_id uid (w_db w) = Some row" "ur_password_envelope row = Some pe"
  shows "verify_stored_envelope uid pe w = (Inr (), w)"
  using assms by (simp add: verify_stored_envelope_def get_password_envelope_by_user_id_def get_user_column_def eff_simps)

lemma user_by_id_rotated:
  "user_by_id u (rotated uid e os ss m d) =
    (if u = uid then map_option (rotated_user e m (db_clock d)) (user_by_id u d) else user_by_id u d)"
  by (simp add: rotated_def user_by_id_def find_row_update_key rotated_user_def)

section \<open>The list of accessible vaults\<close>

lemma row_access:
  assumes "db_ok d" "r \<in> set (accessible_rows d)" "acc_user_id r = uid"
  shows "row_to_accessible_vault r = ok_or (access_to uid (acc_vault_id r) d) (Storage ''invalid vault share role in storage'')
    \<and> access_to uid (acc_vault_id r) d \<noteq> None"
proof -
  have "acc_vault_id r = acc_vault_id r" by simp
  with assms show ?thesis
  proof (cases rule: accessible_row_cases)
    case (1 v)
    then show ?thesis
      by (simp add: access_to_def granted_access_def row_to_accessible_vault_def access_row_of_def
          vault_share_role_from_db_str_def vault_access_kind_from_db_str_def row_to_vault_def)
  next
    case (2 v s)
    then obtain role where "vault_share_role_from_db_str (kr_role s) = Some role"
      using share_row_role [OF assms(1)] share_of_iff [OF assms(1)] by blast
    then show ?thesis
      using 2 by (simp add: access_to_def granted_access_def row_to_accessible_vault_def access_row_of_def
          share_access_row_def vault_access_kind_from_db_str_def row_to_vault_def)
  qed
qed

lemma access_ids: "access_to uid vid d = Some a \<Longrightarrow> v_id (av_vault a) = vid"
  by (auto simp: access_to_def row_to_vault_def vault_by_id_def split: option.splits dest: find_row_Some_in)

lemma accessible_vaults_run:
  assumes "db_ok d"
  obtains as where "get_accessible_vaults uid d = (Inr as, d)"
    "\<forall>a. a \<in> set as \<longleftrightarrow> access_to uid (v_id (av_vault a)) d = Some a"
proof -
  let ?rows = "sort_key acc_name (filter (\<lambda>r. acc_user_id r = uid) (accessible_rows d))"
  have row: "row_to_accessible_vault r = Inr (the (access_to uid (acc_vault_id r) d))"
    "access_to uid (acc_vault_id r) d \<noteq> None" if "r \<in> set ?rows" for r
    using row_access [OF assms, of r uid] that by (auto simp: ok_or_def)
  let ?as = "map (\<lambda>r. the (access_to uid (acc_vault_id r) d)) ?rows"
  have "mapR row_to_accessible_vault ?rows = Inr ?as" by (rule mapR_total) (rule row)
  then have "get_accessible_vaults uid d = (Inr ?as, d)"
    by (simp add: get_accessible_vaults_def eff_simps)
  moreover have "a \<in> set ?as \<longleftrightarrow> access_to uid (v_id (av_vault a)) d = Some a" for a
  proof
    assume "a \<in> set ?as"
    then obtain r where "r \<in> set ?rows" "a = the (access_to uid (acc_vault_id r) d)" by auto
    then have "access_to uid (acc_vault_id r) d = Some a" using row(2) by fastforce
    then show "access_to uid (v_id (av_vault a)) d = Some a" using access_ids by metis
  next
    let ?vid = "v_id (av_vault a)"
    assume a: "access_to uid ?vid d = Some a"
    then obtain r where "find (\<lambda>r. acc_user_id r = uid \<and> acc_vault_id r = ?vid) (accessible_rows d) = Some r"
      using get_vault_with_permission_run [OF assms, of uid ?vid]
      by (cases "find (\<lambda>r. acc_user_id r = uid \<and> acc_vault_id r = ?vid) (accessible_rows d)")
        (auto simp: get_vault_with_permission_def eff_simps)
    then have "r \<in> set ?rows" "acc_vault_id r = ?vid" by (auto simp: find_Some_iff)
    then show "a \<in> set ?as" using a by force
  qed
  ultimately show ?thesis using that by blast
qed

lemma access_to_rotated:
  "access_to u vid (rotated uid e os ss m d) = access_to u vid d"
proof -
  have row: "row_to_vault (with_envelopes f v) = row_to_vault v"
    "vr_vault_key_version (with_envelopes f v) = vr_vault_key_version v" "active_vault (with_envelopes f v) = active_vault v" for f v
    by (simp_all add: row_to_vault_def active_vault_def with_envelopes_def split: option.split)
  have "granted_access u (with_envelopes (owner_map os) v) (rotated uid e os ss m d) = granted_access u v d" for v
    by (auto simp: granted_access_def share_of_rotated row split: option.split)
  then show ?thesis by (simp add: access_to_def vault_by_id_rotated row split: option.split)
qed

text \<open>
  What a change of key means for the stored vault keys: who has access to what stays; for each
  vault the user has access to and whose key is stored, the copy for the user opened with the old
  key and opens with the new one to the same vault key; the copies of other users and the secrets
  are untouched.
\<close>

definition moved_to :: "crypto_lib \<Rightarrow> uuid \<Rightarrow> bytes \<Rightarrow> bytes \<Rightarrow> db \<Rightarrow> db \<Rightarrow> bool" where
  "moved_to L uid old_key new_key d d' \<longleftrightarrow>
     (\<forall>u vid. access_to u vid d' = access_to u vid d)
     \<and> (\<forall>vid. access_to uid vid d \<noteq> None \<longrightarrow> (case envelope_for uid vid d of
          None \<Rightarrow> envelope_for uid vid d' = None
        | Some e \<Rightarrow> \<exists>key e'. envelope_holds L e old_key key \<and> envelope_for uid vid d' = Some e'
             \<and> envelope_holds L e' new_key key))
     \<and> (\<forall>u vid. u \<noteq> uid \<longrightarrow> envelope_for u vid d' = envelope_for u vid d)
     \<and> secret_items d' = secret_items d"

lemma accessible_loaded:
  assumes "access_to uid vid d = Some a"
  shows "envelope_for uid vid d = loaded vid (v_owner_user_id (av_vault a) = uid) uid d"
proof -
  obtain v where "vault_by_id vid d = Some v" "v_owner_user_id (av_vault a) = vr_owner_user_id v"
    using access_to_shape [OF assms] by blast
  then show ?thesis by (simp add: envelope_for_loaded)
qed

lemma rotated_moves:
  assumes "db_ok d" "rewraps L uid old_key new_key d vs os ss"
    and owned: "\<And>uv. uv \<in> set vs \<Longrightarrow> \<exists>a. access_to uid (uv_vault_id uv) d = Some a
        \<and> uv_owned uv = (v_owner_user_id (av_vault a) = uid)"
    and covered: "\<And>vid a e. access_to uid vid d = Some a \<Longrightarrow> envelope_for uid vid d = Some e \<Longrightarrow>
        \<exists>uv \<in> set vs. uv_vault_id uv = vid \<and> uv_owned uv = (v_owner_user_id (av_vault a) = uid)"
  shows "moved_to L uid old_key new_key d (rotated uid pe os ss m d)"
proof -
  let ?d = "rotated uid pe os ss m d"
  have mine: "case envelope_for uid vid d of
        None \<Rightarrow> envelope_for uid vid ?d = None
      | Some e \<Rightarrow> \<exists>key e'. envelope_holds L e old_key key \<and> envelope_for uid vid ?d = Some e'
           \<and> envelope_holds L e' new_key key" if acc: "access_to uid vid d = Some a" for vid a
  proof (cases "envelope_for uid vid d")
    case None
    have "owner_map os vid = None \<or> v_owner_user_id (av_vault a) \<noteq> uid"
    proof (rule ccontr)
      assume "\<not> ?thesis"
      then obtain uv where "uv \<in> set vs" "uv_owned uv" "uv_vault_id uv = vid"
        using assms(2) by (auto simp: rewraps_def owner_map_None)
      moreover then have "unwrapped_from L uid old_key d uv" using assms(2) by (simp add: rewraps_def)
      ultimately show False using None accessible_loaded [OF that] \<open>\<not> _\<close> by (auto simp: unwrapped_from_def)
    qed
    moreover have "loaded vid (v_owner_user_id (av_vault a) = uid) uid d = None"
      using None accessible_loaded [OF that] by simp
    ultimately have "loaded vid (v_owner_user_id (av_vault a) = uid) uid ?d = None"
      by (subst loaded_rotated) (auto simp: loaded_def split: option.splits if_splits)
    then show ?thesis
      using None accessible_loaded [of uid vid ?d a] that by (simp add: access_to_rotated)
  next
    case (Some e)
    then obtain uv where uv: "uv \<in> set vs" "uv_vault_id uv = vid" "uv_owned uv = (v_owner_user_id (av_vault a) = uid)"
      using covered [OF acc Some] by blast
    then have "unwrapped_from L uid old_key d uv" using assms(2) by (simp add: rewraps_def)
    then have "envelope_holds L e old_key (uv_vault_key uv)"
      using uv Some accessible_loaded [OF that] by (auto simp: unwrapped_from_def)
    moreover obtain e' where "loaded vid (v_owner_user_id (av_vault a) = uid) uid ?d = Some e'"
      "envelope_holds L e' new_key (uv_vault_key uv)"
      using rewrapped_opens [OF assms(2) uv(1)] unfolding uv(2,3) by blast
    moreover have "envelope_for uid vid ?d = loaded vid (v_owner_user_id (av_vault a) = uid) uid ?d"
      using accessible_loaded [of uid vid ?d a] that by (simp add: access_to_rotated)
    ultimately show ?thesis using Some by auto
  qed
  have "envelope_for u vid ?d = envelope_for u vid d" if "u \<noteq> uid" for u vid
  proof (cases "vault_by_id vid d")
    case (Some v)
    have "owner_map os vid = None" if "vr_owner_user_id v \<noteq> uid"
    proof (rule ccontr)
      assume "owner_map os vid \<noteq> None"
      then obtain uv where uv: "uv \<in> set vs" "uv_owned uv" "uv_vault_id uv = vid"
        using assms(2) by (auto simp: rewraps_def owner_map_None)
      then obtain a where "access_to uid vid d = Some a" "v_owner_user_id (av_vault a) = uid" using owned by blast
      then show False using access_to_shape [of uid vid d a] Some that by auto
    qed
    note owners = this
    have "share_map ss (vid, u) = None"
      using assms(2) \<open>u \<noteq> uid\<close> by (auto simp: share_map_None rewraps_def sealed_share_def)
    have "vr_vault_key_envelope (with_envelopes (owner_map os) v) = vr_vault_key_envelope v"
      if "vr_owner_user_id v \<noteq> uid"
      using that owners find_row_Some_in [OF Some [unfolded vault_by_id_def]] by (simp add: with_envelopes_def)
    moreover have "share_of vid u ?d = map_option (with_share_envelopes (share_map ss)) (share_of vid u d)"
      by (rule share_of_rotated)
    moreover have "kr_key_envelope (with_share_envelopes (share_map ss) sh) = kr_key_envelope sh"
      if "share_of vid u d = Some sh" for sh
      using find_row_Some_in [OF that [unfolded share_of_def]] \<open>share_map ss (vid, u) = None\<close>
      by (simp add: with_share_envelopes_def)
    ultimately show ?thesis
      using Some \<open>u \<noteq> uid\<close>
      by (cases "share_of vid u d") (simp_all add: envelope_for_def vault_by_id_rotated)
  qed (simp add: envelope_for_def vault_by_id_rotated)
  moreover have "secret_items ?d = secret_items d" by (simp add: rotated_def)
  ultimately show ?thesis using mine by (auto simp: moved_to_def access_to_rotated)
qed

section \<open>A re-key is all or nothing\<close>

text \<open>What a re-key that succeeded has done to the account.\<close>

definition rekeyed :: "crypto_lib \<Rightarrow> uuid \<Rightarrow> bytes \<Rightarrow> bytes \<Rightarrow> bytes \<Rightarrow> db \<Rightarrow> db \<Rightarrow> bool" where
  "rekeyed L uid old_key new_key pe d d' \<longleftrightarrow> moved_to L uid old_key new_key d d'
     \<and> (\<exists>row. user_by_id uid d' = Some row \<and> ur_password_envelope row = Some pe)
     \<and> (\<forall>u. u \<noteq> uid \<longrightarrow> user_by_id u d' = user_by_id u d)"

lemma unwrap_accessible_Inr:
  assumes "db_ok (w_db w)" "unwrap_accessible_vaults L uid key w = (Inr (vs, n), w')"
  shows "w' = w" "\<forall>uv \<in> set vs. unwrapped_from L uid key (w_db w) uv"
    and "uv \<in> set vs \<Longrightarrow> \<exists>a. access_to uid (uv_vault_id uv) (w_db w) = Some a
        \<and> uv_owned uv = (v_owner_user_id (av_vault a) = uid)"
    and "access_to uid vid (w_db w) = Some a \<Longrightarrow> envelope_for uid vid (w_db w) = Some e \<Longrightarrow>
        \<exists>uv \<in> set vs. uv_vault_id uv = vid \<and> uv_owned uv = (v_owner_user_id (av_vault a) = uid)"
proof -
  obtain as where as: "get_accessible_vaults uid (w_db w) = (Inr as, w_db w)"
    "\<forall>a. a \<in> set as \<longleftrightarrow> access_to uid (v_id (av_vault a)) (w_db w) = Some a"
    by (rule accessible_vaults_run [OF assms(1), of uid])
  then have run: "unwrap_vaults L uid key as w = (Inr (vs, n), w')"
    using assms(2) by (simp add: unwrap_accessible_vaults_def bindE_run on_db_run)
  then show "w' = w" using readsD [OF reads_unwrap_vaults, of L uid key as w] by simp
  show "\<forall>uv \<in> set vs. unwrapped_from L uid key (w_db w) uv" using unwrap_vaults_Inr [OF run] by blast
  show "\<exists>a. access_to uid (uv_vault_id uv) (w_db w) = Some a
      \<and> uv_owned uv = (v_owner_user_id (av_vault a) = uid)" if "uv \<in> set vs"
    using unwrap_vaults_origin [OF run that] as(2) by metis
  show "\<exists>uv \<in> set vs. uv_vault_id uv = vid \<and> uv_owned uv = (v_owner_user_id (av_vault a) = uid)"
    if "access_to uid vid (w_db w) = Some a" "envelope_for uid vid (w_db w) = Some e"
    using unwrap_vaults_Inr [OF run] as(2) [rule_format, of a] that accessible_loaded [OF that(1)] access_ids [OF that(1)] by auto
qed

lemma bindE_assoc: "bindE (bindE m f) g = bindE m (\<lambda>a. bindE (f a) g)"
  by (simp add: fun_eq_iff bindE_run split: sum.split)

lemma bindE_return: "bindE (returnE a) f = f a"
  by (simp add: fun_eq_iff bindE_run returnE_run)

lemma bindE_prod: "bindE (case x of (a, b) \<Rightarrow> m a b) g = (case x of (a, b) \<Rightarrow> bindE (m a b) g)"
  by (cases x) simp

text \<open>Everything a re-key reads and computes before it writes.\<close>

definition prepare :: "crypto_lib \<Rightarrow> kdf_config \<Rightarrow> uuid \<Rightarrow> bytes \<Rightarrow> bytes \<Rightarrow> recovery_material
    \<Rightarrow> (world, unwrapped_vault list \<times> vault_envelope_update list \<times> vault_share_envelope_update list
        \<times> rekey_report \<times> user_key_material_update) eff" where
  "prepare L cfg uid old_key new_key recovery =
     bindE (unwrap_accessible_vaults L uid old_key) (\<lambda>(vs, without_key).
     bindE (check_secrets L vs) (\<lambda>(readable, unreadable).
     bindE (rewrap_vaults L uid new_key vs) (\<lambda>(owner_updates, shared_updates).
     bindE (on_db (repo_get_totp_secret uid)) (\<lambda>stored_totp.
     bindE (rewrap_user_blob L stored_totp NonceCiphertext old_key new_key) (\<lambda>totp_secret.
     bindE (recovery_changes L cfg uid old_key new_key recovery)
       (\<lambda>(recovery_phrase_envelope, recovery_key_envelope, available).
     returnE (vs, owner_updates, shared_updates,
       \<lparr>owner_vaults_rewrapped = length owner_updates,
         shared_vaults_rewrapped = length shared_updates, vaults_without_key = without_key,
         secrets_readable = readable, secrets_unreadable = unreadable,
         totp_disabled = (totp_secret = Clear), recovery_key_available = available\<rparr>,
       \<lparr>km_recovery_phrase_envelope = recovery_phrase_envelope, km_totp_secret = totp_secret,
         km_recovery_key_envelope = recovery_key_envelope\<rparr>)))))))"

lemma rewrap_account_prepare:
  "rewrap_account show_id L cfg uid old_key new_key envelope recovery =
     bindE (prepare L cfg uid old_key new_key recovery) (\<lambda>(vs, owner_updates, shared_updates, report, material).
     let password_envelope = encode_password_envelope envelope in
     bindE (on_db (apply_master_key_rotation_atomically uid password_envelope owner_updates shared_updates material)) (\<lambda>_.
     bindE (verify_stored_envelope uid password_envelope) (\<lambda>_.
     bindE (verify_vaults show_id L uid new_key vs) (\<lambda>_.
     returnE \<lparr>ro_report = report, ro_password_envelope = password_envelope, ro_session_key = new_key\<rparr>))))"
  unfolding rewrap_account_def prepare_def
  by (simp only: bindE_assoc bindE_return bindE_prod prod.case Let_def)

lemma frames_unwrap [frame_intros]: "frames stored_state (unwrap_accessible_vaults L uid key)"
proof -
  have "reads (get_accessible_vaults uid)" unfolding get_accessible_vaults_def by (intro frame_intros)
  moreover have "frames stored_state (unwrap_vaults L uid key as)" for as
    using readsD [OF reads_unwrap_vaults] by (simp add: frames_def)
  ultimately show ?thesis unfolding unwrap_accessible_vaults_def by (intro frame_intros)
qed

lemma frames_check [frame_intros]: "frames stored_state (check_secrets L vs)"
  using readsD [OF reads_check_secrets] by (simp add: frames_def)

lemma frames_prepare [frame_intros]: "frames stored_state (prepare L cfg uid old_key new_key recovery)"
  unfolding prepare_def by (intro frame_intros)

lemma prepare_Inr:
  assumes "crypto_lib_ok L" "db_ok (w_db w)"
    and "prepare L cfg uid old_key new_key recovery w = (Inr (vs, os, ss, report, m), w')"
  shows "rewraps L uid old_key new_key (w_db w) vs os ss \<and> moved_to L uid old_key new_key (w_db w) (rotated uid pe os ss m (w_db w))"
proof -
  obtain n w1 where un: "unwrap_accessible_vaults L uid old_key w = (Inr (vs, n), w1)"
    and "\<exists>w2 w3. rewrap_vaults L uid new_key vs w2 = (Inr (os, ss), w3)"
    using assms(3) by (auto simp: prepare_def eff_iffs split: prod.splits)
  then obtain w2 w3 where re: "rewrap_vaults L uid new_key vs w2 = (Inr (os, ss), w3)" by blast
  note opened = unwrap_accessible_Inr [OF assms(2) un]
  have rw: "rewraps L uid old_key new_key (w_db w) vs os ss"
    unfolding rewraps_def using opened(2) rewrap_vaults_Inr [OF assms(1) re] by blast
  then show ?thesis using opened(3,4) by (intro conjI rotated_moves [OF assms(2) rw]) blast+
qed

lemma rotate_cases:
  assumes "apply_master_key_rotation_atomically uid e os ss m d = (r, d')"
  shows "(\<exists>x. r = Inr x) \<and> rotation_targets uid os ss d \<and> d' = rotated uid e os ss m d
    \<or> (\<exists>x. r = Inl x) \<and> d' = d"
  using rotation_run [where uid = uid and e = e and us = os and ss = ss and m = m and d = d] assms by (auto split: sum.splits)

lemma rewrap_account_run:
  assumes "crypto_lib_ok L" "db_ok (w_db w)" "rewrap_account show_id L cfg uid old_key new_key env recovery w = (r, w')"
  shows "w_auth w' = w_auth w \<and> (case r of
      Inl e \<Rightarrow> w_db w' = w_db w
    | Inr out \<Rightarrow> ro_session_key out = new_key \<and> ro_password_envelope out = encode_password_envelope env
        \<and> rekeyed L uid old_key new_key (encode_password_envelope env) (w_db w) (w_db w'))"
proof -
  let ?pe = "encode_password_envelope env" and ?prep = "prepare L cfg uid old_key new_key recovery"
  obtain p w1 where prep: "?prep w = (p, w1)" by (cases "?prep w")
  then have same: "w_db w1 = w_db w" "w_auth w1 = w_auth w"
    using framesD [OF frames_prepare prep] by (simp_all add: stored_state_def)
  show ?thesis
  proof (cases p)
    case (Inl e)
    then show ?thesis using assms(3) prep same by (auto simp: rewrap_account_prepare bindE_run)
  next
    case (Inr q)
    obtain vs os ss report m where q: "q = (vs, os, ss, report, m)" by (cases q)
    note prepared = prepare_Inr [OF assms(1,2) prep [unfolded Inr q]]
    obtain x d' where rot: "apply_master_key_rotation_atomically uid ?pe os ss m (w_db w) = (x, d')"
      by (cases "apply_master_key_rotation_atomically uid ?pe os ss m (w_db w)")
    show ?thesis
    proof (cases x)
      case Inl2: (Inl e)
      then show ?thesis
        using assms(3) prep Inr q same rot rotate_cases [OF rot]
        by (auto simp: rewrap_account_prepare bindE_run on_db_run Let_def)
    next
      case Inr2: (Inr u)
      then have rt: "rotation_targets uid os ss (w_db w)" and d': "d' = rotated uid ?pe os ss m (w_db w)"
        using rotate_cases [OF rot] by auto
      let ?w2 = "w1\<lparr>w_db := d'\<rparr>"
      obtain row where row: "user_by_id uid (w_db w) = Some row"
        using rt by (auto simp: rotation_targets_def user_by_id_in)
      have "verify_stored_envelope uid ?pe ?w2 = (Inr (), ?w2)"
        by (rule verify_stored_run [of _ _ "rotated_user ?pe m (db_clock (w_db w)) row"])
          (simp_all add: d' user_by_id_rotated row rotated_user_def)
      moreover have "verify_vaults show_id L uid new_key vs ?w2 = (Inr (), ?w2)"
        using rewrapped_opens [OF conjunct1 [OF prepared]] by (intro verify_vaults_run) (simp add: d')
      ultimately have "r = Inr \<lparr>ro_report = report, ro_password_envelope = ?pe, ro_session_key = new_key\<rparr>"
        "w' = ?w2"
        using assms(3) prep Inr q same rot Inr2
        by (auto simp: rewrap_account_prepare bindE_run on_db_run Let_def returnE_run)
      then show ?thesis
        using prepared same row by (auto simp: rekeyed_def d' user_by_id_rotated rotated_user_def)
    qed
  qed
qed

section \<open>The entry points\<close>

text \<open>The password envelope of an outcome is well formed and opens with the new password to the session key.\<close>

definition new_credentials :: "crypto_lib \<Rightarrow> kdf_config \<Rightarrow> string \<Rightarrow> rekey_outcome \<Rightarrow> bool" where
  "new_credentials L cfg password out \<longleftrightarrow> (\<exists>e. ro_password_envelope out = encode_password_envelope e
     \<and> envelope_wf e \<and> unlock_password_envelope L cfg e password = Inr (Some (ro_session_key out)))"

text \<open>What every entry point guarantees: nothing stored changes unless everything did.\<close>

definition rekey_post :: "crypto_lib \<Rightarrow> kdf_config \<Rightarrow> uuid \<Rightarrow> bytes \<Rightarrow> string \<Rightarrow> world
    \<Rightarrow> rekey_outcome result \<times> world \<Rightarrow> bool" where
  "rekey_post L cfg uid old_key password w = (\<lambda>(r, w'). w_auth w' = w_auth w \<and> (case r of
      Inl e \<Rightarrow> w_db w' = w_db w
    | Inr out \<Rightarrow> new_credentials L cfg password out
        \<and> rekeyed L uid old_key (ro_session_key out) (ro_password_envelope out) (w_db w) (w_db w')))"

lemma rekey_post_frame:
  assumes "frames stored_state m" "\<And>a w1. m w = (Inr a, w1) \<Longrightarrow> stored_state w1 = stored_state w \<Longrightarrow>
      rekey_post L cfg uid key password w1 (f a w1)"
  shows "rekey_post L cfg uid key password w (bindE m f w)"
proof -
  obtain r w1 where m: "m w = (r, w1)" by (cases "m w")
  then have same: "stored_state w1 = stored_state w" using framesD [OF assms(1)] by blast
  show ?thesis
  proof (cases r)
    case (Inl e)
    then show ?thesis using m same by (simp add: bindE_run rekey_post_def stored_state_def)
  next
    case (Inr a)
    then show ?thesis
      using m same assms(2) [of a w1]
      by (cases "f a w1"; cases "fst (f a w1)") (auto simp: bindE_run rekey_post_def stored_state_def)
  qed
qed

lemma rewrap_post:
  assumes "crypto_lib_ok L" "db_ok (w_db w)" "envelope_wf env"
    and "unlock_password_envelope L cfg env password = Inr (Some new_key)"
  shows "rekey_post L cfg uid old_key password w (rewrap_account show_id L cfg uid old_key new_key env recovery w)"
proof (cases "rewrap_account show_id L cfg uid old_key new_key env recovery w")
  case (Pair r w')
  show ?thesis
    using rewrap_account_run [OF assms(1,2) Pair] assms(3,4)
    by (cases r) (auto simp: rekey_post_def Pair new_credentials_def)
qed

lemma migrate_post:
  assumes "crypto_lib_ok L" "db_ok (w_db w)"
  shows "rekey_post L cfg uid old_key password w (migrate_to_account_key show_id L cfg uid old_key password phrase w)"
  unfolding migrate_to_account_key_def
proof (rule rekey_post_frame)
  show "frames stored_state generate_account_key" unfolding generate_account_key_def by (intro frame_intros)
  fix account_key w1
  assume gen: "generate_account_key w = (Inr account_key, w1)" "stored_state w1 = stored_state w"
  then have len: "length account_key + 28 < 2 ^ 16"
    using fill_or_Inr by (fastforce simp: generate_account_key_def ACCOUNT_KEY_LEN_def)
  show "rekey_post L cfg uid old_key password w1 (bindE (wrap_account_key L cfg password account_key)
      (\<lambda>envelope. rewrap_account show_id L cfg uid old_key account_key envelope (SealedAccountKey phrase)) w1)"
  proof (rule rekey_post_frame)
    fix e w2
    assume wrap: "wrap_account_key L cfg password account_key w1 = (Inr e, w2)" "stored_state w2 = stored_state w1"
    have "db_ok (w_db w2)" using assms(2) gen(2) wrap(2) by (simp add: stored_state_def)
    moreover have "unlock_password_envelope L cfg e password = Inr (Some account_key)"
      by (rule wrap_account_key_Inr [OF assms(1) wrap(1)])
    ultimately show "rekey_post L cfg uid old_key password w2
        (rewrap_account show_id L cfg uid old_key account_key e (SealedAccountKey phrase) w2)"
      using wrapped_envelope_wf [OF assms(1) wrap(1) len] by (intro rewrap_post [OF assms(1)])
  qed (intro frame_intros)
qed

lemma rekey_legacy_post:
  assumes "crypto_lib_ok L" "db_ok (w_db w)" "0 < output_len cfg" "output_len cfg < 2 ^ 16"
  shows "rekey_post L cfg uid old_key password w (rekey_legacy_account show_id L cfg uid old_key password w)"
  unfolding rekey_legacy_account_def
proof (rule rekey_post_frame)
  fix salt w1
  assume salt: "generate_kdf_salt w = (Inr salt, w1)" "stored_state w1 = stored_state w"
  show "rekey_post L cfg uid old_key password w1 (bindE (liftE (derive_key L cfg password salt))
      (\<lambda>master_key. rewrap_account show_id L cfg uid old_key master_key (Legacy salt master_key) LegacyPhraseEnvelope) w1)"
  proof (rule rekey_post_frame)
    fix k w2
    assume k: "liftE (derive_key L cfg password salt) w1 = (Inr k, w2)" "stored_state w2 = stored_state w1"
    then have "derive_key L cfg password salt = Inr k" by (simp add: liftE_def)
    then show "rekey_post L cfg uid old_key password w2
        (rewrap_account show_id L cfg uid old_key k (Legacy salt k) LegacyPhraseEnvelope w2)"
      using assms(2) salt(2) k(2) legacy_envelope [OF assms(1,3,4) salt(1)]
      by (intro rewrap_post [OF assms(1)]) (simp_all add: stored_state_def)
  qed (intro frame_intros)
qed (intro frame_intros)

lemma users_only:
  "access_to u vid (d\<lparr>users := us\<rparr>) = access_to u vid d" "envelope_for u vid (d\<lparr>users := us\<rparr>) = envelope_for u vid d"
proof -
  have "vault_by_id vid (d\<lparr>users := us\<rparr>) = vault_by_id vid d" "share_of k u (d\<lparr>users := us\<rparr>) = share_of k u d" for k
    by (simp_all add: vault_by_id_def share_of_def)
  moreover from this have "granted_access u v (d\<lparr>users := us\<rparr>) = granted_access u v d" for v
    by (simp add: granted_access_def)
  ultimately show "access_to u vid (d\<lparr>users := us\<rparr>) = access_to u vid d"
    "envelope_for u vid (d\<lparr>users := us\<rparr>) = envelope_for u vid d"
    by (simp_all add: access_to_def envelope_for_def split: option.split)
qed

lemma unwrapped_moved:
  assumes "db_ok (w_db w)" "unwrap_accessible_vaults L uid key w = (Inr (vs, n), w')"
  shows "moved_to L uid key key (w_db w) ((w_db w)\<lparr>users := us\<rparr>)"
proof -
  note opened = unwrap_accessible_Inr [OF assms]
  have "\<exists>k. envelope_holds L e key k"
    if acc: "access_to uid vid (w_db w) = Some a" and Some: "envelope_for uid vid (w_db w) = Some e" for vid a e
  proof -
    obtain uv where "uv \<in> set vs" "uv_vault_id uv = vid" "uv_owned uv = (v_owner_user_id (av_vault a) = uid)"
      using opened(4) [OF acc Some] by blast
    moreover then obtain e' where "loaded (uv_vault_id uv) (uv_owned uv) uid (w_db w) = Some e'"
      "envelope_holds L e' key (uv_vault_key uv)" using opened(2) by (auto simp: unwrapped_from_def)
    ultimately show ?thesis using Some accessible_loaded [OF acc] by auto
  qed
  then show ?thesis by (auto simp: moved_to_def users_only split: option.splits)
qed

lemma update_password_cases:
  "update_password_envelope uid pe d =
    (if uid \<in> user_ids d then (Inr (), d\<lparr>users := update_where (\<lambda>u. ur_id u = uid)
        (\<lambda>u. u\<lparr>ur_password_envelope := Some pe\<rparr>) (users d)\<rparr>)
     else (Inl (Storage ''user not found for password update''), d))"
  using update_user_Inr [of uid _ "Storage ''user not found for password update''" d]
    update_user_Inl [of uid _ "Storage ''user not found for password update''" d]
  unfolding update_password_envelope_def
  by (cases "update_user uid (\<lambda>_ u. u\<lparr>ur_password_envelope := Some pe\<rparr>) (Storage ''user not found for password update'') d";
      cases "fst (update_user uid (\<lambda>_ u. u\<lparr>ur_password_envelope := Some pe\<rparr>) (Storage ''user not found for password update'') d)")
    fastforce+

lemma replace_tail:
  assumes "crypto_lib_ok L" "wrap_account_key L cfg password key w0 = (Inr e, w)" "length key + 28 < 2 ^ 16"
    and moved: "\<And>us. moved_to L uid key key (w_db w) ((w_db w)\<lparr>users := us\<rparr>)"
  shows "rekey_post L cfg uid key password w (bindE (on_db (update_password_envelope uid (encode_password_envelope e))) (\<lambda>_.
     bindE (verify_stored_envelope uid (encode_password_envelope e)) (\<lambda>_.
     bindE (on_db (repo_get_recovery_key_envelope uid)) (\<lambda>recovery_key.
     returnE \<lparr>ro_report = report recovery_key, ro_password_envelope = encode_password_envelope e,
              ro_session_key = key\<rparr>))) w)"
proof (cases "user_by_id uid (w_db w)")
  case None
  then show ?thesis by (simp add: bindE_run on_db_run update_password_cases user_by_id_in rekey_post_def)
next
  case (Some row)
  let ?pe = "encode_password_envelope e"
  let ?us = "update_where (\<lambda>u. ur_id u = uid) (\<lambda>u. u\<lparr>ur_password_envelope := Some ?pe\<rparr>) (users (w_db w))"
  let ?w = "w\<lparr>w_db := (w_db w)\<lparr>users := ?us\<rparr>\<rparr>"
  have row: "user_by_id uid (w_db ?w) = Some (row\<lparr>ur_password_envelope := Some ?pe\<rparr>)"
    using Some by (simp add: user_by_id_update)
  have "on_db (update_password_envelope uid ?pe) w = (Inr (), ?w)"
    using Some by (simp add: on_db_run update_password_cases user_by_id_in)
  moreover have "verify_stored_envelope uid ?pe ?w = (Inr (), ?w)"
    by (rule verify_stored_run [OF row]) simp
  moreover have "\<exists>k. on_db (repo_get_recovery_key_envelope uid) ?w = (Inr k, ?w)"
    by (simp add: on_db_run repo_get_recovery_key_envelope_def get_user_column_def eff_simps)
  moreover have "rekeyed L uid key key ?pe (w_db w) ((w_db w)\<lparr>users := ?us\<rparr>)"
    using moved [of ?us] row by (auto simp: rekeyed_def user_by_id_update)
  moreover have "new_credentials L cfg password out" if "ro_password_envelope out = ?pe" "ro_session_key out = key" for out
  proof -
    have "unlock_password_envelope L cfg e password = Inr (Some key)"
      by (rule wrap_account_key_Inr [OF assms(1,2)])
    then show ?thesis using that wrapped_envelope_wf [OF assms(1-3)] by (auto simp: new_credentials_def)
  qed
  ultimately show ?thesis by (auto simp: bindE_run returnE_run rekey_post_def)
qed

lemma replace_post:
  assumes "crypto_lib_ok L" "db_ok (w_db w)" "length key + 28 < 2 ^ 16"
  shows "rekey_post L cfg uid key password w (replace_password L cfg uid key password w)"
  unfolding replace_password_def Let_def
  apply (rule rekey_post_frame, intro frame_intros)
  subgoal premises un for p w1
  proof (cases p)
    case (Pair vs n)
    have moved: "moved_to L uid key key (w_db w2) ((w_db w2)\<lparr>users := us\<rparr>)" if "stored_state w2 = stored_state w1" for w2 us
      using unwrapped_moved [OF assms(2) un(1) [unfolded Pair]] un(2) that by (simp add: stored_state_def)
    show ?thesis
      unfolding Pair prod.case
      apply (rule rekey_post_frame, intro frame_intros)
      subgoal premises chk for q w2
      proof (cases q)
        case q: (Pair readable unreadable)
        show ?thesis
          unfolding q prod.case
          by (rule rekey_post_frame, intro frame_intros)
            (use assms(1,3) chk(2) in \<open>auto intro!: replace_tail moved\<close>)
      qed
      done
  qed
  done

end
