(* ===== verification/HV_UserService.thy ===== *)
theory HV_UserService
  imports HV_Rekey
begin

text \<open>
  services/user_service.rs: profiles, the change of the master password and the migration of old
  credentials, over the user repository, the re-key and the authentication service.
\<close>

definition password_text :: "bytes \<Rightarrow> string result" where
  "password_text password = ok_or (from_utf8 password) (Validation ''password must be valid utf-8'')"

record user_profile_update =
  upu_email :: "string option"
  upu_display_name :: "string option"
  upu_preferred_language :: "string option"
  upu_show_passwords_in_edit :: "bool option"
  upu_current_password :: "bytes option"

definition is_single_account :: "(world, bool) eff" where
  "is_single_account = bindE (on_db user_list_all) (\<lambda>users. returnE (length users = 1))"

definition found_or :: "string \<Rightarrow> user option \<Rightarrow> (world, user) eff" where
  "found_or missing u = liftE (ok_or u (NotFound missing))"

definition get_user_profile :: "uuid \<Rightarrow> (world, user) eff" where
  "get_user_profile uid = bindE (on_db (user_get_by_id uid)) (found_or ''user not found'')"

definition get_user_profile_by_username :: "string \<Rightarrow> (world, user) eff" where
  "get_user_profile_by_username username =
     bindE (on_db (user_get_by_username username)) (found_or ''user not found'')"

definition service_resolve_username :: "string \<Rightarrow> (world, string option) eff" where
  "service_resolve_username identifier = on_db (resolve_username_for_login_identifier identifier)"

text \<open>\<open>as_deref().map(str::trim).filter(not empty)\<close>.\<close>

definition trimmed :: "string option \<Rightarrow> string option" where
  "trimmed x = (case x of
     None \<Rightarrow> None
   | Some s \<Rightarrow> if trim s = [] then None else Some (trim s))"

definition service_update_user_profile :: "crypto_lib \<Rightarrow> kdf_config \<Rightarrow> uuid \<Rightarrow> user_profile_update
    \<Rightarrow> (world, user) eff" where
  "service_update_user_profile L cfg uid update =
     bindE (on_db (user_get_by_id uid)) (\<lambda>current_opt.
     bindE (found_or ''user not found'' current_opt) (\<lambda>current_user.
     let next_email = trimmed (upu_email update);
         next_display_name = trimmed (upu_display_name update);
         next_preferred_language = trimmed (upu_preferred_language update)
     in
     bindE (if next_email \<noteq> usr_email current_user
            then bindE (liftE (ok_or (upu_current_password update)
                          (Authorization PasswordRequiredForChange))) (\<lambda>current_password.
                 bindE (verify_password L cfg (usr_username current_user) current_password) (\<lambda>password_ok.
                 liftE (ensure password_ok (Authorization InvalidCredentials))))
            else returnE ()) (\<lambda>_.
     bindE (on_db (update_user_profile uid next_email next_display_name next_preferred_language
              (upu_show_passwords_in_edit update))) (\<lambda>_.
     bindE (on_db (user_get_by_id uid)) (found_or ''user not found after profile update'')))))"

definition change_master_password :: "(uuid \<Rightarrow> string) \<Rightarrow> crypto_lib \<Rightarrow> kdf_config \<Rightarrow> uuid \<Rightarrow> bytes
    \<Rightarrow> bytes \<Rightarrow> (world, bytes) eff" where
  "change_master_password show_id L cfg uid current_password new_password =
     bindE (on_db (user_get_by_id uid)) (\<lambda>user_opt.
     bindE (found_or ''user not found'' user_opt) (\<lambda>user.
     bindE (liftE (ensure (16 \<le> length new_password)
              (Validation ''new password must contain at least 16 characters''))) (\<lambda>_.
     bindE (liftE (ensure (current_password \<noteq> new_password)
              (Validation ''new password must be different from current password''))) (\<lambda>_.
     bindE (liftE (password_text new_password)) (\<lambda>new_text.
     bindE (derive_key_if_valid L cfg (usr_username user) current_password) (\<lambda>key_opt.
     bindE (liftE (ok_or key_opt (Authorization InvalidCredentials))) (\<lambda>current_key.
     bindE (get_password_envelope (usr_username user)) (\<lambda>stored_bytes.
     bindE (liftE (decode_password_envelope stored_bytes)) (\<lambda>stored.
     bindE is_single_account (\<lambda>single_account.
     bindE (case stored of
              AccountKey _ _ \<Rightarrow> replace_password L cfg uid current_key new_text
            | Legacy _ _ \<Rightarrow>
                if single_account
                then migrate_to_account_key show_id L cfg uid current_key new_text None
                else rekey_legacy_account show_id L cfg uid current_key new_text) (\<lambda>outcome.
     bindE (upsert_password_envelope (usr_username user) (ro_password_envelope outcome)) (\<lambda>_.
     returnE (ro_session_key outcome)))))))))))))"

definition upgrade_legacy_credentials :: "(uuid \<Rightarrow> string) \<Rightarrow> crypto_lib \<Rightarrow> kdf_config \<Rightarrow> string
    \<Rightarrow> bytes \<Rightarrow> (world, bytes option) eff" where
  "upgrade_legacy_credentials show_id L cfg username password =
     bindE (get_password_envelope username) (\<lambda>stored_bytes.
     bindE (liftE (decode_password_envelope stored_bytes)) (\<lambda>stored.
     bindE (if is_account_key stored then returnE True
            else bindE is_single_account (\<lambda>b. returnE (\<not> b))) (\<lambda>nothing_to_do.
     if nothing_to_do then returnE None
     else
     bindE (on_db (user_get_by_username username)) (\<lambda>user_opt.
     bindE (found_or ''user not found'' user_opt) (\<lambda>user.
     bindE (liftE (password_text password)) (\<lambda>password_string.
     bindE (derive_key_if_valid L cfg username password) (\<lambda>key_opt.
     bindE (liftE (ok_or key_opt (Authorization InvalidCredentials))) (\<lambda>legacy_key.
     bindE (migrate_to_account_key show_id L cfg (usr_id user) legacy_key password_string None) (\<lambda>outcome.
     bindE (upsert_password_envelope username (ro_password_envelope outcome)) (\<lambda>_.
     returnE (Some (ro_session_key outcome))))))))))))"

definition account_needs_recovery_key :: "uuid \<Rightarrow> (world, bool) eff" where
  "account_needs_recovery_key uid =
     bindE (on_db (user_get_by_id uid)) (\<lambda>user_opt.
     bindE (found_or ''user not found'' user_opt) (\<lambda>user.
     bindE (get_password_envelope (usr_username user)) (\<lambda>stored_bytes.
     bindE (liftE (decode_password_envelope stored_bytes)) (\<lambda>stored.
     if \<not> is_account_key stored then returnE False
     else bindE (on_db (repo_get_recovery_key_envelope uid)) (\<lambda>e. returnE (e = None))))))"

definition service_update_show_passwords :: "uuid \<Rightarrow> bool \<Rightarrow> (world, user) eff" where
  "service_update_show_passwords uid v =
     bindE (on_db (update_show_passwords_in_edit uid v)) (\<lambda>_.
     bindE (on_db (user_get_by_id uid)) (found_or ''user not found after preference update''))"

section \<open>Changing the master password\<close>

lemma reads_user_get [frame_intros]: "reads (user_get_by_id uid)" "reads (user_get_by_username u)" "reads user_list_all"
  unfolding user_get_by_id_def user_get_by_username_def user_list_all_def by (intro frame_intros)+

lemma reads_auth [frame_intros]:
  "reads (derive_key_if_valid L cfg u pw)" "reads (get_password_envelope u)"
  "reads ensure_not_shutting_down"
  "reads (found_or m x)" "reads is_single_account"
  unfolding derive_key_if_valid_def get_password_envelope_def ensure_not_shutting_down_def stored_envelope_def
    found_or_def is_single_account_def
  by (intro frame_intros reads_on_db)+

lemma bind_reads:
  assumes "bindE m f w = (Inr b, w')" "reads m"
  obtains a where "m w = (Inr a, w)" "f a w = (Inr b, w')"
  using assms(1) readsD [OF assms(2), of w] by (auto simp: bindE_Inr_iff)

lemma bind_reads_run: "reads m \<Longrightarrow> bindE m f w = (case fst (m w) of Inl e \<Rightarrow> (Inl e, w) | Inr a \<Rightarrow> f a w)"
  using readsD [of m w] by (simp add: bindE_run split: sum.split)

lemma user_get_Inr:
  "fst (user_get_by_id uid d) = Inr (Some user) \<Longrightarrow> \<exists>row. user_by_id uid d = Some row \<and> usr_username user = ur_username row"
  by (auto simp: user_get_by_id_def eff_simps row_to_user_def bindR_Inr_iff split: option.splits)

lemma get_password_envelope_Inr:
  "get_password_envelope u w = (Inr bs, w') \<longleftrightarrow>
     w' = w \<and> \<not> shutdown_in_progress (w_auth w) \<and> lookup_envelope u w = Some bs"
  by (auto simp: get_password_envelope_def eff_iffs not_shutting_down_iff ok_or_def split: option.splits)

text \<open>The re-key chosen for the stored envelope keeps the promise of the entry points.\<close>

lemma chosen_rekey_post:
  assumes "crypto_lib_ok L" "0 < output_len cfg" "output_len cfg < 2 ^ 16" "world_ok w"
    and "opens L cfg w u cur key" "lookup_envelope u w = Some bs" "decode_password_envelope bs = Inr stored"
  shows "rekey_post L cfg uid key new w ((case stored of
      AccountKey _ _ \<Rightarrow> replace_password L cfg uid key new
    | Legacy _ _ \<Rightarrow> if single then migrate_to_account_key show_id L cfg uid key new None
        else rekey_legacy_account show_id L cfg uid key new) w)"
proof (cases stored)
  case (AccountKey salt wrapped)
  have "envelope_wf (AccountKey salt wrapped)" using encode_decode [OF assms(7)] AccountKey by simp
  moreover obtain pw where "unlock_password_envelope L cfg (AccountKey salt wrapped) pw = Inr (Some key)"
    using assms(5-7) AccountKey by (auto simp: opens_iff)
  ultimately have "length key + 28 < 2 ^ 16" by (rule unlock_key_length [OF assms(1)])
  then show ?thesis using replace_post [OF assms(1)] assms(4) AccountKey by (simp add: world_ok_def)
next
  case (Legacy salt mk)
  then show ?thesis
    using migrate_post [OF assms(1)] rekey_legacy_post [OF assms(1)] assms(2-4) by (simp add: world_ok_def)
qed

text \<open>A change of password that passed its checks is the chosen re-key, then the memory of the service.\<close>

lemma change_master_password_steps:
  assumes "change_master_password show_id L cfg uid cur new w = (r, w')"
  shows "(\<exists>e. r = Inl e) \<and> w' = w
    \<or> (\<exists>row new_txt key bs stored single outcome w1. user_by_id uid (w_db w) = Some row
        \<and> password_text new = Inr new_txt \<and> opens L cfg w (ur_username row) cur key
        \<and> lookup_envelope (ur_username row) w = Some bs \<and> decode_password_envelope bs = Inr stored
        \<and> (case stored of
              AccountKey _ _ \<Rightarrow> replace_password L cfg uid key new_txt
            | Legacy _ _ \<Rightarrow> if single then migrate_to_account_key show_id L cfg uid key new_txt None
                else rekey_legacy_account show_id L cfg uid key new_txt) w = (outcome, w1)
        \<and> (case outcome of
              Inl e \<Rightarrow> r = Inl e \<and> w' = w1
            | Inr out \<Rightarrow> bindE (upsert_password_envelope (ur_username row) (ro_password_envelope out))
                (\<lambda>_. returnE (ro_session_key out)) w1 = (r, w')))"
proof (cases "(\<exists>e. r = Inl e) \<and> w' = w")
  case False
  note reading = bind_reads_run reads_auth reads_on_db reads_user_get frames_liftE
  obtain user new_txt key bs stored single where
    user: "fst (user_get_by_id uid (w_db w)) = Inr (Some user)" and new_txt: "password_text new = Inr new_txt"
    and key: "fst (derive_key_if_valid L cfg (usr_username user) cur w) = Inr (Some key)"
    and bs: "fst (get_password_envelope (usr_username user) w) = Inr bs"
    and stored: "decode_password_envelope bs = Inr stored"
    and run: "bindE (case stored of
          AccountKey _ _ \<Rightarrow> replace_password L cfg uid key new_txt
        | Legacy _ _ \<Rightarrow> if single then migrate_to_account_key show_id L cfg uid key new_txt None
            else rekey_legacy_account show_id L cfg uid key new_txt)
        (\<lambda>out. bindE (upsert_password_envelope (usr_username user) (ro_password_envelope out))
          (\<lambda>_. returnE (ro_session_key out))) w = (r, w')"
    using assms False unfolding change_master_password_def
    by (simp only: reading) (auto simp: on_db_run found_or_def liftE_run split: sum.splits; metis)
  obtain row where row: "user_by_id uid (w_db w) = Some row" "usr_username user = ur_username row"
    using user_get_Inr [OF user] by blast
  have "lookup_envelope (ur_username row) w = Some bs"
    using bs get_password_envelope_Inr [of "usr_username user" w bs "snd (get_password_envelope (usr_username user) w)"]
    by (simp add: row prod_eq_iff)
  moreover let ?rekey = "case stored of
          AccountKey _ _ \<Rightarrow> replace_password L cfg uid key new_txt
        | Legacy _ _ \<Rightarrow> if single then migrate_to_account_key show_id L cfg uid key new_txt None
            else rekey_legacy_account show_id L cfg uid key new_txt"
  obtain outcome w1 where out: "?rekey w = (outcome, w1)" by (rule prod.exhaust)
  moreover have "case outcome of
        Inl e \<Rightarrow> r = Inl e \<and> w' = w1
      | Inr out \<Rightarrow> bindE (upsert_password_envelope (ur_username row) (ro_password_envelope out))
          (\<lambda>_. returnE (ro_session_key out)) w1 = (r, w')"
    using run unfolding row(2) bindE_run [of ?rekey] out by (cases outcome) auto
  moreover have "opens L cfg w (ur_username row) cur key" using key by (simp add: opens_def row)
  ultimately show ?thesis using row(1) new_txt stored out by blast
qed simp


lemma upsert_encoded:
  assumes "envelope_wf e" "\<not> shutdown_in_progress (w_auth w)" "trim u \<noteq> []"
  shows "upsert_password_envelope u (encode_password_envelope e) w = (Inr (), snd (put_envelope u (encode_password_envelope e) w))"
  using assms by (simp add: upsert_password_envelope_def ensure_not_shutting_down_def eff_simps
      decode_encode ensure_def prod_eq_iff)

text \<open>
  C1: A change of the master password of a user whose name is not blank moves the whole account, or nothing: on a failure neither
  the database nor the memory of the authentication service is touched; on a success the old
  password opened an old key, the new password opens the key that is returned, every vault key the
  account could open under the old key it can open under the new one, whatever the version of the
  stored envelope, nobody else's access, envelopes, account or stored credentials change, and the
  database and the memory hold the same envelope.
\<close>

theorem change_master_password_moves:
  assumes "crypto_lib_ok L" and "0 < output_len cfg" and "output_len cfg < 2 ^ 16" and "world_ok w"
    and "\<forall>row. user_by_id uid (w_db w) = Some row \<longrightarrow> trim (ur_username row) \<noteq> []"
    and "change_master_password show_id L cfg uid cur new w = (r, w')"
  shows "case r of
      Inl e \<Rightarrow> w_db w' = w_db w \<and> w_auth w' = w_auth w
    | Inr new_key \<Rightarrow> \<exists>row old_key pe. user_by_id uid (w_db w) = Some row
        \<and> opens L cfg w (ur_username row) cur old_key
        \<and> opens L cfg w' (ur_username row) new new_key
        \<and> rekeyed L uid old_key new_key pe (w_db w) (w_db w')
        \<and> lookup_envelope (ur_username row) w' = Some pe
        \<and> (\<forall>u. u \<noteq> ur_username row \<longrightarrow> lookup_envelope u w' = lookup_envelope u w)"
  using change_master_password_steps [OF assms(6)]
proof (elim disjE exE conjE, goal_cases)
  case (1 e)
  then show ?case by simp
next
  case (2 row new_txt key bs stored single outcome w1)
  have post: "rekey_post L cfg uid key new_txt w (outcome, w1)"
    using chosen_rekey_post [OF assms(1-4) 2(3,4,5), of uid new_txt single show_id] 2(6) by simp
  show ?case
  proof (cases outcome)
    case (Inl e)
    then show ?thesis using post 2(7) by (simp add: rekey_post_def)
  next
    case (Inr out)
    obtain e where e: "ro_password_envelope out = encode_password_envelope e" "envelope_wf e"
      "unlock_password_envelope L cfg e new_txt = Inr (Some (ro_session_key out))"
      using post Inr by (auto simp: rekey_post_def new_credentials_def)
    have up: "\<not> shutdown_in_progress (w_auth w1)" "w_auth w1 = w_auth w"
      using post 2(3) by (auto simp: rekey_post_def opens_iff)
    have "upsert_password_envelope (ur_username row) (encode_password_envelope e) w1 =
        (Inr (), snd (put_envelope (ur_username row) (encode_password_envelope e) w1))"
      using 2(1) assms(5) up(1) by (intro upsert_encoded [OF e(2)]) auto
    then have w': "w' = snd (put_envelope (ur_username row) (encode_password_envelope e) w1)"
      and r: "r = Inr (ro_session_key out)"
      using 2(7) Inr e(1) by (auto simp: bindE_run returnE_run)
    have "opens L cfg w' (ur_username row) new (ro_session_key out)"
      using e(3) up(1) 2(2) by (auto simp: opens_iff w' decode_encode [OF e(2)] password_text_def password_to_secret_string_def)
    then show ?thesis
      using 2(1,3) post Inr by (auto simp: r w' rekey_post_def e(1) lookup_cong [OF up(2)])
  qed
qed

theorem change_master_password_moves_witness:
  "\<exists>w w' k. change_master_password (\<lambda>_. ''id'') toy_lib default_kdf_config 7 (as_bytes ''correct horse battery'')
      (as_bytes ''correct horse staple'') w = (Inr k, w') \<and> (\<exists>row old_key pe.
        user_by_id 7 (w_db w) = Some row
        \<and> opens toy_lib default_kdf_config w (ur_username row) (as_bytes ''correct horse battery'') old_key
        \<and> opens toy_lib default_kdf_config w' (ur_username row) (as_bytes ''correct horse staple'') k
        \<and> rekeyed toy_lib 7 old_key k pe (w_db w) (w_db w')
        \<and> lookup_envelope (ur_username row) w' = Some pe
        \<and> (\<forall>u. u \<noteq> ur_username row \<longrightarrow> lookup_envelope u w' = lookup_envelope u w))"
proof -
  let ?d = "(empty_db ''now'')\<lparr>users := [new_user_row 7 ''amy'' User]\<rparr>"
  let ?w0 = "(empty_world ''now'')\<lparr>w_db := ?d\<rparr>"
  have "rng_works ?w0" by simp
  then obtain e w1 where e: "wrap_account_key toy_lib default_kdf_config ''correct horse battery''
      (replicate 32 7) ?w0 = (Inr e, w1)" "rng_works w1" by (rule toy_wrap)
  obtain salt wrapped where form: "e = AccountKey salt wrapped" "length salt = 32" "payload_ok wrapped"
      "length (ciphertext wrapped) = length (replicate 32 (7 :: byte)) + 16"
      "unlock_password_envelope toy_lib default_kdf_config e ''correct horse battery'' = Inr (Some (replicate 32 7))"
      "w_auth w1 = w_auth ?w0" "w_db w1 = w_db ?w0"
    by (rule wrap_account_key_Inr [OF toy_lib_ok e(1)])
  have wf: "envelope_wf e" by (rule wrapped_envelope_wf [OF toy_lib_ok e(1)]) simp
  obtain w where w: "w = snd (put_envelope ''amy'' (encode_password_envelope e) w1)" by blast
  have db: "w_db w = ?d" by (simp add: w form(7))
  have up: "\<not> shutdown_in_progress (w_auth w)" by (simp add: w form(6) empty_world_def)
  have same: "w\<lparr>w_db := ?d\<rparr> = w" using db by (cases w) simp
  have lookup: "lookup_envelope ''amy'' w = Some (encode_password_envelope e)" by (simp add: w)
  have row: "user_by_id 7 ?d = Some (new_user_row 7 ''amy'' User)"
    by (simp add: user_by_id_def new_user_row_def)
  have pwds: "from_utf8 (as_bytes ''correct horse battery'') = Some ''correct horse battery''"
    "from_utf8 (as_bytes ''correct horse staple'') = Some ''correct horse staple''"
    by (intro from_utf8_as_bytes; simp add: as_bytes_def)+
  have opened: "derive_key_if_valid toy_lib default_kdf_config ''amy'' (as_bytes ''correct horse battery'') w =
      (Inr (Some (replicate 32 7)), w)"
    using up pwds(1) form(5)
    by (simp add: lookup derive_key_if_valid_def ensure_not_shutting_down_def eff_simps stored_envelope_run
        decode_encode [OF wf] password_to_secret_string_def)
  have stored: "get_password_envelope ''amy'' w = (Inr (encode_password_envelope e), w)"
    using up by (simp add: lookup get_password_envelope_Inr)
  obtain user where user: "user_get_by_id 7 ?d = (Inr (Some user), ?d)" "usr_username user = ''amy''"
    using row by (simp add: user_get_by_id_def eff_simps new_user_row_def row_to_user_def parse_role_def)
  have single: "is_single_account w = (Inr True, w)"
    by (simp add: is_single_account_def user_list_all_def eff_simps on_db_run db new_user_row_def
        row_to_user_def parse_role_def)
  have none: "get_accessible_vaults 7 ?d = (Inr [], ?d)"
    by (simp add: get_accessible_vaults_def eff_simps accessible_rows_def empty_db_def)
  have "rng_works w" using e(2) by (simp add: w put_envelope_def eff_simps)
  then obtain e2 w2 where e2: "wrap_account_key toy_lib default_kdf_config ''correct horse staple''
      (replicate 32 7) w = (Inr e2, w2)" by (rule toy_wrap)
  have db2: "w_db w2 = ?d" "w_auth w2 = w_auth w"
    using auth_mem_frames(4,5) [of toy_lib default_kdf_config "''correct horse staple''" "replicate 32 7" w] e2 db
    by simp_all
  have wf2: "envelope_wf e2" by (rule wrapped_envelope_wf [OF toy_lib_ok e2]) simp
  let ?pe = "encode_password_envelope e2"
  let ?d3 = "?d\<lparr>users := [(new_user_row 7 ''amy'' User)\<lparr>ur_password_envelope := Some ?pe\<rparr>]\<rparr>"
  let ?w3 = "w2\<lparr>w_db := ?d3\<rparr>"
  have update: "on_db (update_password_envelope 7 ?pe) w2 = (Inr (), ?w3)"
    by (simp add: on_db_run update_password_cases db2 user_ids_def update_where_def new_user_row_def)
  have row3: "user_by_id 7 (w_db ?w3) = Some ((new_user_row 7 ''amy'' User)\<lparr>ur_password_envelope := Some ?pe\<rparr>)"
    by (simp add: user_by_id_def new_user_row_def)
  have check: "verify_stored_envelope 7 ?pe ?w3 = (Inr (), ?w3)"
    by (rule verify_stored_run [OF row3]) simp
  have none3: "on_db (repo_get_recovery_key_envelope 7) ?w3 = (Inr None, ?w3)"
    using row3 by (simp add: on_db_run repo_get_recovery_key_envelope_def get_user_column_def eff_simps new_user_row_def)
  have accessed: "unwrap_accessible_vaults toy_lib 7 (replicate 32 7) w = (Inr ([], 0), w)"
    by (simp add: unwrap_accessible_vaults_def bindE_run on_db_run db none returnE_run same)
  obtain out where replaced: "replace_password toy_lib default_kdf_config 7 (replicate 32 7)
      ''correct horse staple'' w = (Inr out, ?w3)" "ro_password_envelope out = ?pe"
    using e2 update check none3
    by (simp add: replace_password_def accessed bindE_run returnE_run Let_def)
  have up3: "\<not> shutdown_in_progress (w_auth ?w3)" using up db2(2) by simp
  have run: "change_master_password (\<lambda>_. ''id'') toy_lib default_kdf_config 7 (as_bytes ''correct horse battery'')
      (as_bytes ''correct horse staple'') w =
      (Inr (ro_session_key out), snd (put_envelope ''amy'' ?pe ?w3))"
  proof -
    have "on_db (user_get_by_id 7) w = (Inr (Some user), w)" by (simp add: on_db_run db user(1) same)
    moreover have "16 \<le> length (as_bytes ''correct horse staple'')"
      "as_bytes ''correct horse battery'' \<noteq> as_bytes ''correct horse staple''" by (simp_all add: as_bytes_def)
    moreover have "decode_password_envelope (encode_password_envelope e) = Inr (AccountKey salt wrapped)"
      using decode_encode [OF wf] form(1) by simp
    moreover have "upsert_password_envelope ''amy'' ?pe ?w3 = (Inr (), snd (put_envelope ''amy'' ?pe ?w3))"
      by (rule upsert_encoded [OF wf2 up3]) (simp add: trim_def trim_with.simps white_space_def)
    ultimately show ?thesis
      using opened stored single replaced
      by (simp add: change_master_password_def found_or_def bindE_run liftE_run user(2) password_text_def pwds(2)
          returnE_run ensure_def)
  qed
  have ok: "world_ok w"
    by (simp add: world_ok_def db empty_db_def db_ok_def db_part_defs user_row_ok_def new_user_row_def)
  have named: "\<forall>r. user_by_id 7 (w_db w) = Some r \<longrightarrow> trim (ur_username r) \<noteq> []"
    unfolding db row by (simp add: new_user_row_def trim_def trim_with.simps white_space_def)
  have len: "0 < output_len default_kdf_config" "output_len default_kdf_config < 2 ^ 16"
    by (simp_all add: default_kdf_config_def len_defs)
  show ?thesis
    by (rule exI, rule exI, rule exI, rule conjI, rule run)
      (rule change_master_password_moves [OF toy_lib_ok len ok named run, unfolded sum.case])
qed

end
