(* ===== verification/HV_Disk.thy ===== *)
theory HV_Disk
  imports HV_Prelude
begin

text \<open>
  The part of the file system the backups use (std::fs and utils/private_fs.rs): files with content
  and mode, directories with a mode, and a list of the faults the next operations meet. A fault
  carries the text of the operating system and how far the operation went before it. An absolute
  path starts with the component \<open>/\<close>; \<open>exists\<close> meets no fault.
\<close>

unbundle bit_operations_syntax

section \<open>Paths\<close>

type_synonym path = "string list"
type_synonym mode = "12 word"

definition path_file_name :: "path \<Rightarrow> string option" where
  "path_file_name p = (case rev p of
     [] \<Rightarrow> None
   | c # _ \<Rightarrow> if c \<in> {''/'', ''.'', ''..''} then None else Some c)"

definition path_parent :: "path \<Rightarrow> path option" where
  "path_parent p = (if p = [] \<or> p = [''/''] then None else Some (butlast p))"

definition set_file_name :: "string \<Rightarrow> path \<Rightarrow> path" where
  "set_file_name n p = (if path_file_name p \<noteq> None then butlast p else p) @ [n]"

text \<open>\<open>to_str\<close>: the name when it is well-formed UTF-8.\<close>

definition name_to_str :: "string \<Rightarrow> string option" where
  "name_to_str n = (if utf8_valid (as_bytes n) then Some n else None)"

text \<open>\<open>file_stem\<close>: what precedes the last dot, unless that is the first character.\<close>

definition file_stem :: "string \<Rightarrow> string" where
  "file_stem n = (case dropWhile (\<lambda>c. c \<noteq> CHR ''.'') (rev n) of
     [] \<Rightarrow> n
   | _ # before \<Rightarrow> if before = [] then n else rev before)"

definition with_extension :: "string \<Rightarrow> path \<Rightarrow> path" where
  "with_extension e p = (case path_file_name p of
     None \<Rightarrow> p
   | Some n \<Rightarrow> butlast p @ [file_stem n @ (if e = [] then [] else ''.'' @ e)])"

section \<open>Operations\<close>

record disk_file =
  fi_content :: bytes
  fi_mode :: mode

record disk =
  dk_files :: "path \<Rightarrow> disk_file option"
  dk_dirs :: "path \<Rightarrow> mode option"
  dk_faults :: "(string \<times> nat) option list"

definition io_step :: "(nat \<Rightarrow> disk \<Rightarrow> disk) \<Rightarrow> (disk \<Rightarrow> (string + 'a) \<times> disk) \<Rightarrow> (disk, 'a) eff" where
  "io_step partial run d =
     (case dk_faults d of
        Some (msg, n) # fs \<Rightarrow> (Inl (Io msg), partial n (d\<lparr>dk_faults := fs\<rparr>))
      | fs \<Rightarrow> (case run (d\<lparr>dk_faults := tl fs\<rparr>) of
            (Inl msg, d') \<Rightarrow> (Inl (Io msg), d')
          | (Inr a, d') \<Rightarrow> (Inr a, d')))"

definition no_entry :: string where "no_entry = ''No such file or directory (os error 2)''"
definition is_a_directory :: string where "is_a_directory = ''Is a directory (os error 21)''"
definition not_a_directory :: string where "not_a_directory = ''Not a directory (os error 20)''"

definition nothing_done :: "nat \<Rightarrow> disk \<Rightarrow> disk" where "nothing_done n d = d"

definition put_file :: "path \<Rightarrow> disk_file option \<Rightarrow> disk \<Rightarrow> disk" where
  "put_file p f d = d\<lparr>dk_files := (dk_files d)(p := f)\<rparr>"

definition in_directory :: "path \<Rightarrow> disk \<Rightarrow> bool" where
  "in_directory p d = (case path_parent p of
     None \<Rightarrow> False
   | Some q \<Rightarrow> q = [] \<or> dk_dirs d q \<noteq> None)"

definition fs_exists :: "path \<Rightarrow> (disk, bool) eff" where
  "fs_exists p = getsE (\<lambda>d. dk_files d p \<noteq> None \<or> dk_dirs d p \<noteq> None)"

definition fs_read :: "path \<Rightarrow> (disk, bytes) eff" where
  "fs_read p = io_step nothing_done (\<lambda>d. (case dk_files d p of
     None \<Rightarrow> Inl (if dk_dirs d p = None then no_entry else is_a_directory) | Some f \<Rightarrow> Inr (fi_content f), d))"

definition fs_remove_file :: "path \<Rightarrow> (disk, unit) eff" where
  "fs_remove_file p = io_step nothing_done (\<lambda>d. case dk_files d p of
     None \<Rightarrow> (Inl (if dk_dirs d p = None then no_entry else is_a_directory), d)
   | Some _ \<Rightarrow> (Inr (), put_file p None d))"

text \<open>\<open>std::fs::rename\<close>, of a file and of anything.\<close>

definition fs_rename_file :: "path \<Rightarrow> path \<Rightarrow> (disk, unit) eff" where
  "fs_rename_file src dst = io_step nothing_done (\<lambda>d. case dk_files d src of
     None \<Rightarrow> (Inl no_entry, d)
   | Some f \<Rightarrow>
       if \<not> in_directory dst d then (Inl no_entry, d)
       else if dk_dirs d dst \<noteq> None then (Inl is_a_directory, d)
       else (Inr (), put_file dst (Some f) (put_file src None d)))"

definition beneath :: "path \<Rightarrow> path \<Rightarrow> bool" where
  "beneath p q \<longleftrightarrow> take (length p) q = p"

definition moved :: "path \<Rightarrow> path \<Rightarrow> (path \<Rightarrow> 'a option) \<Rightarrow> path \<Rightarrow> 'a option" where
  "moved src dst m q =
     (if beneath dst q then m (src @ drop (length dst) q) else if beneath src q then None else m q)"

text \<open>
  A directory moves with everything beneath it. A directory that is already at the destination counts as
  not empty; the one caller that may rename a directory has made sure that nothing is there.
\<close>

definition fs_rename :: "path \<Rightarrow> path \<Rightarrow> (disk, unit) eff" where
  "fs_rename src dst d =
     (if dk_files d src \<noteq> None \<or> dk_dirs d src = None then fs_rename_file src dst d
      else io_step nothing_done (\<lambda>d.
        if src = dst then (Inr (), d)
        else if beneath src dst then (Inl ''Invalid argument (os error 22)'', d)
        else if \<not> in_directory dst d then (Inl no_entry, d)
        else if dk_files d dst \<noteq> None then (Inl not_a_directory, d)
        else if dk_dirs d dst \<noteq> None then (Inl ''Directory not empty (os error 39)'', d)
        else (Inr (), d\<lparr>dk_files := moved src dst (dk_files d), dk_dirs := moved src dst (dk_dirs d)\<rparr>)) d)"

definition metadata_mode :: "path \<Rightarrow> (disk, mode) eff" where
  "metadata_mode p = io_step nothing_done (\<lambda>d. (case dk_files d p of
     Some f \<Rightarrow> Inr (fi_mode f)
   | None \<Rightarrow> (case dk_dirs d p of Some m \<Rightarrow> Inr m | None \<Rightarrow> Inl no_entry), d))"

definition set_permissions :: "path \<Rightarrow> mode \<Rightarrow> (disk, unit) eff" where
  "set_permissions p m = io_step nothing_done (\<lambda>d. case dk_files d p of
     Some f \<Rightarrow> (Inr (), put_file p (Some (f\<lparr>fi_mode := m\<rparr>)) d)
   | None \<Rightarrow> (case dk_dirs d p of
       Some _ \<Rightarrow> (Inr (), d\<lparr>dk_dirs := (dk_dirs d)(p \<mapsto> m)\<rparr>) | None \<Rightarrow> (Inl no_entry, d)))"

text \<open>\<open>OpenOptions\<close> with write, create, truncate and a mode for a file that is created.\<close>

definition open_truncated :: "mode \<Rightarrow> path \<Rightarrow> (disk, unit) eff" where
  "open_truncated m p = io_step nothing_done (\<lambda>d.
     if \<not> in_directory p d then (Inl no_entry, d)
     else if dk_dirs d p \<noteq> None then (Inl is_a_directory, d)
     else (Inr (), put_file p (Some \<lparr>fi_content = [],
             fi_mode = (case dk_files d p of Some f \<Rightarrow> fi_mode f | None \<Rightarrow> m)\<rparr>) d))"

definition written :: "path \<Rightarrow> bytes \<Rightarrow> disk \<Rightarrow> disk" where
  "written p bs d = put_file p (map_option (fi_content_update (\<lambda>_. bs)) (dk_files d p)) d"

definition write_all :: "path \<Rightarrow> bytes \<Rightarrow> (disk, unit) eff" where
  "write_all p bs = io_step (\<lambda>n. written p (take n bs)) (\<lambda>d. (Inr (), written p bs d))"

definition sync_all :: "(disk, unit) eff" where
  "sync_all = io_step nothing_done (\<lambda>d. (Inr (), d))"

definition make_dirs :: "mode \<Rightarrow> nat \<Rightarrow> path \<Rightarrow> disk \<Rightarrow> disk" where
  "make_dirs m n p d = d\<lparr>dk_dirs := (\<lambda>q. if q \<noteq> [] \<and> length q \<le> n \<and> q = take (length q) p
       \<and> dk_dirs d q = None then Some m else dk_dirs d q)\<rparr>"

section \<open>Private files\<close>

definition OWNER_ONLY_DIR :: mode where "OWNER_ONLY_DIR = 0b111000000"
definition OWNER_ONLY_FILE :: mode where "OWNER_ONLY_FILE = 0b110000000"
definition GROUP_SHARED_FILE :: mode where "GROUP_SHARED_FILE = 0b110110000"

definition create_private_dir_all :: "path \<Rightarrow> (disk, unit) eff" where
  "create_private_dir_all p = io_step (\<lambda>n. make_dirs OWNER_ONLY_DIR n p) (\<lambda>d.
     if list_ex (\<lambda>n. dk_files d (take n p) \<noteq> None) [1..<length p + 1] then (Inl not_a_directory, d)
     else (Inr (), make_dirs OWNER_ONLY_DIR (length p) p d))"

definition write_private :: "path \<Rightarrow> bytes \<Rightarrow> (disk, unit) eff" where
  "write_private p contents =
     bindE (open_truncated OWNER_ONLY_FILE p) (\<lambda>_.
     bindE (set_permissions p OWNER_ONLY_FILE) (\<lambda>_.
     bindE (write_all p contents) (\<lambda>_. sync_all)))"

definition parent_is_group_shared :: "path \<Rightarrow> (disk, bool) eff" where
  "parent_is_group_shared p =
     (let parent = (case path_parent p of
            Some q \<Rightarrow> if q \<noteq> [] then q else [''.''] | None \<Rightarrow> [''.''])
      in bindE (metadata_mode parent) (\<lambda>m. returnE (m AND 0b000010000 \<noteq> 0)))"

definition app_open_options :: "path \<Rightarrow> (disk, mode) eff" where
  "app_open_options p =
     bindE (parent_is_group_shared p) (\<lambda>shared.
     returnE (if shared then GROUP_SHARED_FILE else OWNER_ONLY_FILE))"

definition tighten_app_file :: "path \<Rightarrow> (disk, bool) eff" where
  "tighten_app_file p =
     bindE (metadata_mode p) (\<lambda>m.
     bindE (parent_is_group_shared p) (\<lambda>shared.
     let allowed = (if shared then GROUP_SHARED_FILE else OWNER_ONLY_FILE);
         tightened = m AND allowed
     in if tightened = m then returnE False
        else bindE (set_permissions p tightened) (\<lambda>_. returnE True)))"

definition is_world_accessible :: "path \<Rightarrow> (disk, bool) eff" where
  "is_world_accessible p =
     bindE (metadata_mode p) (\<lambda>m. returnE (m AND 0b000000111 \<noteq> 0))"

section \<open>What an operation can touch\<close>

lemma frames_io:
  assumes "\<And>d fs. V (d\<lparr>dk_faults := fs\<rparr>) = V d" "\<And>n d. V (partial n d) = V d" "\<And>d. V (snd (run d)) = V d"
  shows "frames V (io_step partial run)"
  unfolding frames_def
proof
  fix d
  have "V (snd (run (d\<lparr>dk_faults := tl (dk_faults d)\<rparr>))) = V d" using assms(1,3) by metis
  then show "V (snd (io_step partial run d)) = V d"
    using assms(1,2)
    by (cases "run (d\<lparr>dk_faults := tl (dk_faults d)\<rparr>)") (auto simp: io_step_def split: list.split option.split sum.split)
qed

lemma put_file_files [simp]:
  "dk_files (put_file p f d) = (dk_files d)(p := f)" "dk_dirs (put_file p f d) = dk_dirs d"
  "dk_faults (put_file p f d) = dk_faults d"
  by (simp_all add: put_file_def)

lemma in_directory_put [simp]: "in_directory p (put_file q f d) = in_directory p d"
  by (simp add: in_directory_def split: option.split)

lemma rename_cases:
  "dk_files d src \<noteq> None \<Longrightarrow> fs_rename src dst d = (r, d') \<Longrightarrow> case r of
     Inl _ \<Rightarrow> dk_files d' = dk_files d
   | Inr _ \<Rightarrow> dk_files d' = (dk_files d)(src := None, dst := dk_files d src)"
  by (auto simp: fs_rename_def fs_rename_file_def io_step_def nothing_done_def split: list.splits option.splits if_splits)

lemma make_dirs_sel [simp]: "dk_files (make_dirs m n p d) = dk_files d" "dk_faults (make_dirs m n p d) = dk_faults d"
  by (simp_all add: make_dirs_def)

lemmas disk_defs = fs_exists_def fs_read_def fs_remove_file_def fs_rename_file_def set_permissions_def
  open_truncated_def written_def write_all_def sync_all_def nothing_done_def create_private_dir_all_def

lemma frames_fs [frame_intros]:
  "frames (\<lambda>d. dk_files d q) (fs_exists p)" "frames (\<lambda>d. dk_files d q) (fs_read p)"
  "frames (\<lambda>d. dk_files d q) sync_all" "frames (\<lambda>d. dk_files d q) (create_private_dir_all p)"
  "q \<noteq> p \<Longrightarrow> frames (\<lambda>d. dk_files d q) (fs_remove_file p)"
  "q \<noteq> p \<Longrightarrow> q \<noteq> p' \<Longrightarrow> frames (\<lambda>d. dk_files d q) (fs_rename_file p p')"
  "q \<noteq> p \<Longrightarrow> frames (\<lambda>d. dk_files d q) (open_truncated m p)"
  "q \<noteq> p \<Longrightarrow> frames (\<lambda>d. dk_files d q) (set_permissions p m)"
  "q \<noteq> p \<Longrightarrow> frames (\<lambda>d. dk_files d q) (write_all p bs)"
  unfolding disk_defs
  by (intro frame_intros frames_io; auto simp: make_dirs_def split: option.split)+

lemma frames_write_private [frame_intros]: "q \<noteq> p \<Longrightarrow> frames (\<lambda>d. dk_files d q) (write_private p bs)"
  unfolding write_private_def by (intro frame_intros)

section \<open>Runs without a fault\<close>

lemma io_step_clean [simp]:
  assumes "dk_faults d = []"
  shows "io_step partial run d = (case run d of (Inl msg, d') \<Rightarrow> (Inl (Io msg), d') | (Inr a, d') \<Rightarrow> (Inr a, d'))"
proof -
  have "d\<lparr>dk_faults := []\<rparr> = d" using assms by (cases d) simp
  then show ?thesis unfolding io_step_def assms by (simp only: list.case list.sel)
qed

lemma read_clean:
  "dk_faults d = [] \<Longrightarrow> dk_files d p = Some f \<Longrightarrow> fs_read p d = (Inr (fi_content f), d)"
  by (simp add: fs_read_def)

lemma remove_clean:
  "dk_faults d = [] \<Longrightarrow> dk_files d p \<noteq> None \<Longrightarrow> fs_remove_file p d = (Inr (), put_file p None d)"
  by (auto simp: fs_remove_file_def)

text \<open>A path that can be written: its directory can be made and it is not a directory itself.\<close>

definition path_writable :: "path \<Rightarrow> disk \<Rightarrow> bool" where
  "path_writable p d \<longleftrightarrow> p \<noteq> [] \<and> p \<noteq> [''/''] \<and> dk_dirs d p = None
     \<and> (\<forall>n. 0 < n \<and> n < length p \<longrightarrow> dk_files d (take n p) = None)"

definition has_private :: "path \<Rightarrow> bytes \<Rightarrow> disk \<Rightarrow> bool" where
  "has_private p bs d \<longleftrightarrow> dk_files d p = Some \<lparr>fi_content = bs, fi_mode = OWNER_ONLY_FILE\<rparr>"

lemma write_private_clean:
  assumes "dk_faults d = []" "in_directory p d" "dk_dirs d p = None"
  shows "write_private p bs d = (Inr (), put_file p (Some \<lparr>fi_content = bs, fi_mode = OWNER_ONLY_FILE\<rparr>) d)"
  using assms by (simp add: write_private_def disk_defs bindE_run put_file_def)

end
