(* ===== verification/HV_Backup.thy ===== *)
theory HV_Backup
  imports HV_Disk HV_UserService
begin

text \<open>
  services/backup_service.rs: the \<open>.hvb\<close> container, the recovery verifier, export and import. The
  state is the world of the services and the disk; the crates behind the container are parameters.
\<close>

section \<open>The container\<close>

definition BACKUP_NONCE_LEN :: nat where "BACKUP_NONCE_LEN = 12"
definition SQLITE_HEADER :: bytes where "SQLITE_HEADER = as_bytes ''SQLite format 3'' @ [0]"
definition RECOVERY_SALT_LEN :: nat where "RECOVERY_SALT_LEN = 32"
definition RECOVERY_VERIFIER_VERSION :: byte where "RECOVERY_VERIFIER_VERSION = 1"
definition RECOVERY_VERIFIER_TAG_LEN :: nat where "RECOVERY_VERIFIER_TAG_LEN = 32"
definition RECOVERY_VERIFIER_LEN :: nat where
  "RECOVERY_VERIFIER_LEN = 1 + RECOVERY_SALT_LEN + RECOVERY_VERIFIER_TAG_LEN"
definition RECOVERY_VERIFIER_DOMAIN :: bytes where
  "RECOVERY_VERIFIER_DOMAIN = as_bytes ''heelonvault/recovery-verifier/v1''"

definition HVB_MAGIC :: bytes where "HVB_MAGIC = as_bytes ''HVBK''"
definition HVB_FORMAT_VERSION :: "16 word" where "HVB_FORMAT_VERSION = 2"
definition HVB_PREFIX_LEN :: nat where "HVB_PREFIX_LEN = length HVB_MAGIC + 2 + 4"
definition HVB_MAX_HEADER_LEN :: "32 word" where "HVB_MAX_HEADER_LEN = 8 * 1024"
definition HVB_KDF_NAME :: string where "HVB_KDF_NAME = ''argon2id''"
definition HVB_DEFAULT_M_COST_KIB :: "32 word" where "HVB_DEFAULT_M_COST_KIB = 64 * 1024"
definition HVB_DEFAULT_T_COST :: "32 word" where "HVB_DEFAULT_T_COST = 3"
definition HVB_DEFAULT_P_COST :: "32 word" where "HVB_DEFAULT_P_COST = 1"
definition HVB_MIN_M_COST_KIB :: "32 word" where "HVB_MIN_M_COST_KIB = 19 * 1024"
definition HVB_MAX_M_COST_KIB :: "32 word" where "HVB_MAX_M_COST_KIB = 1024 * 1024"
definition HVB_MIN_T_COST :: "32 word" where "HVB_MIN_T_COST = 2"
definition HVB_MAX_T_COST :: "32 word" where "HVB_MAX_T_COST = 16"
definition HVB_MAX_P_COST :: "32 word" where "HVB_MAX_P_COST = 16"

record hvb_header =
  hh_kdf :: string
  hh_m_cost_kib :: "32 word"
  hh_t_cost :: "32 word"
  hh_p_cost :: "32 word"
  hh_salt_b64 :: string
  hh_nonce_b64 :: string
  hh_plaintext_size :: "64 word"

record backup_metadata =
  bm_sha256_hex :: string
  bm_plaintext_size :: nat

text \<open>
  The crates behind the container: AES-GCM with associated data (key, nonce, data, text), base64,
  serde_json on the header, sha2 with hex, and bip39.
\<close>

record backup_lib =
  aes_aad_seal :: "bytes \<Rightarrow> bytes \<Rightarrow> bytes \<Rightarrow> bytes \<Rightarrow> bytes option"
  aes_aad_open :: "bytes \<Rightarrow> bytes \<Rightarrow> bytes \<Rightarrow> bytes \<Rightarrow> bytes option"
  b64_encode :: "bytes \<Rightarrow> string"
  b64_decode :: "string \<Rightarrow> string + bytes"
  header_to_json :: "hvb_header \<Rightarrow> string + bytes"
  header_from_json :: "bytes \<Rightarrow> string + hvb_header"
  sha256_digest_hex :: "bytes \<Rightarrow> string"
  bip39_from_entropy :: "bytes \<Rightarrow> string + string"
  bip39_valid :: "string \<Rightarrow> bool"

definition validate_sqlite_bytes :: "bytes \<Rightarrow> unit result" where
  "validate_sqlite_bytes bs =
     ensure (\<not> (length bs < length SQLITE_HEADER \<or> take (length SQLITE_HEADER) bs \<noteq> SQLITE_HEADER))
       (Validation ''input is not a valid SQLite file header'')"

definition generate_backup_nonce :: "(world, bytes) eff" where
  "generate_backup_nonce = fill_or ''backup nonce generation failed: '' BACKUP_NONCE_LEN"

definition generate_recovery_salt :: "(world, bytes) eff" where
  "generate_recovery_salt = fill_or ''recovery salt generation failed: '' RECOVERY_SALT_LEN"

text \<open>\<open>Params::new\<close> and \<open>hash_password_into\<close>.\<close>

definition argon2_into :: "crypto_lib \<Rightarrow> string \<Rightarrow> kdf_config \<Rightarrow> bytes \<Rightarrow> bytes \<Rightarrow> bytes result" where
  "argon2_into L what cfg password salt =
     (case argon2_params_error L cfg of
        Some e \<Rightarrow> Inl (Crypto (''invalid argon2 params: '' @ e))
      | None \<Rightarrow> map_err (\<lambda>e. Crypto (what @ e)) (argon2id L cfg password salt))"

definition derive_backup_key_from_recovery :: "crypto_lib \<Rightarrow> string \<Rightarrow> bytes \<Rightarrow> 32 word \<Rightarrow> 32 word
    \<Rightarrow> 32 word \<Rightarrow> bytes result" where
  "derive_backup_key_from_recovery L phrase salt m t p =
     (if salt = [] then Inl (Validation ''recovery salt must not be empty'')
      else argon2_into L ''argon2id recovery derivation failed: ''
        \<lparr>memory_cost_kib = m, time_cost = t, parallelism = p, output_len = AES_256_KEY_LEN\<rparr>
        (as_bytes phrase) salt)"

definition derive_recovery_verifier_tag :: "crypto_lib \<Rightarrow> string \<Rightarrow> bytes \<Rightarrow> bytes result" where
  "derive_recovery_verifier_tag L phrase salt =
     (if length salt \<noteq> RECOVERY_SALT_LEN
      then Inl (Validation ''recovery verifier salt has an invalid length'')
      else argon2_into L ''argon2id verifier derivation failed: ''
        \<lparr>memory_cost_kib = 64 * 1024, time_cost = 3, parallelism = 1,
         output_len = RECOVERY_VERIFIER_TAG_LEN\<rparr>
        (RECOVERY_VERIFIER_DOMAIN @ as_bytes phrase) salt)"

text \<open>Little-endian integers, as \<open>to_le_bytes\<close> and \<open>from_le_bytes\<close>.\<close>

definition u16_to_le :: "16 word \<Rightarrow> bytes" where
  "u16_to_le v = [ucast v, ucast (drop_bit 8 v)]"

definition u16_from_le :: "bytes \<Rightarrow> 16 word" where
  "u16_from_le bs = ucast (bs ! 0) OR push_bit 8 (ucast (bs ! 1))"

definition u32_to_le :: "32 word \<Rightarrow> bytes" where
  "u32_to_le v = [ucast v, ucast (drop_bit 8 v), ucast (drop_bit 16 v), ucast (drop_bit 24 v)]"

definition u32_from_le :: "bytes \<Rightarrow> 32 word" where
  "u32_from_le bs = ucast (bs ! 0) OR push_bit 8 (ucast (bs ! 1)) OR push_bit 16 (ucast (bs ! 2))
     OR push_bit 24 (ucast (bs ! 3))"

definition build_hvb_prefix :: "bytes \<Rightarrow> bytes result" where
  "build_hvb_prefix header_bytes =
     (if 2 ^ 32 \<le> length header_bytes then Inl (Validation ''`.hvb` header is too large to encode'')
      else
        let header_len = of_nat (length header_bytes) :: 32 word
        in if HVB_MAX_HEADER_LEN < header_len
           then Inl (Validation ''`.hvb` header exceeds the maximum allowed size'')
           else Inr (HVB_MAGIC @ u16_to_le HVB_FORMAT_VERSION @ u32_to_le header_len @ header_bytes))"

definition split_hvb_container :: "backup_lib \<Rightarrow> bytes \<Rightarrow> (bytes \<times> hvb_header \<times> bytes) result" where
  "split_hvb_container B bs =
     (if length bs < HVB_PREFIX_LEN \<or> take (length HVB_MAGIC) bs \<noteq> HVB_MAGIC
      then Inl (Recovery NotABackup)
      else
        let version = u16_from_le (take 2 (drop (length HVB_MAGIC) bs));
            header_len = u32_from_le (take 4 (drop (length HVB_MAGIC + 2) bs));
            header_end = HVB_PREFIX_LEN + unat header_len
        in if version \<noteq> HVB_FORMAT_VERSION then Inl (Recovery (UnsupportedBackupVersion version))
           else if header_len = 0 \<or> HVB_MAX_HEADER_LEN < header_len
           then Inl (Validation ''`.hvb` header length is out of range'')
           else if length bs \<le> header_end
           then Inl (Validation ''`.hvb` file is truncated: no ciphertext'')
           else bindR (map_err (\<lambda>e. Validation (''invalid .hvb header: '' @ e))
                  (header_from_json B (take (header_end - HVB_PREFIX_LEN) (drop HVB_PREFIX_LEN bs))))
                (\<lambda>header. Inr (take header_end bs, header, drop header_end bs)))"

definition validate_kdf_params :: "hvb_header \<Rightarrow> unit result" where
  "validate_kdf_params header =
     bindR (ensure (hh_kdf header = HVB_KDF_NAME)
              (Validation (''unsupported .hvb kdf: '' @ hh_kdf header))) (\<lambda>_.
     bindR (ensure (HVB_MIN_M_COST_KIB \<le> hh_m_cost_kib header \<and> hh_m_cost_kib header \<le> HVB_MAX_M_COST_KIB)
              (Validation ''`.hvb` argon2 memory cost is out of the accepted range'')) (\<lambda>_.
     bindR (ensure (HVB_MIN_T_COST \<le> hh_t_cost header \<and> hh_t_cost header \<le> HVB_MAX_T_COST)
              (Validation ''`.hvb` argon2 time cost is out of the accepted range'')) (\<lambda>_.
     ensure (\<not> (hh_p_cost header = 0 \<or> HVB_MAX_P_COST < hh_p_cost header))
       (Validation ''`.hvb` argon2 parallelism is out of the accepted range''))))"

definition backup_cipher :: "crypto_lib \<Rightarrow> bytes \<Rightarrow> unit result" where
  "backup_cipher L key = (case aes_key_error L key of
     Some e \<Rightarrow> Inl (Crypto (''invalid backup key: '' @ e)) | None \<Rightarrow> Inr ())"

definition open_hvb_container :: "crypto_lib \<Rightarrow> backup_lib \<Rightarrow> bytes \<Rightarrow> string \<Rightarrow> bytes result" where
  "open_hvb_container L B bs phrase =
     bindR (split_hvb_container B bs) (\<lambda>(prefix, header, ciphertext).
     bindR (validate_kdf_params header) (\<lambda>_.
     bindR (map_err (\<lambda>e. Validation (''invalid .hvb salt: '' @ e)) (b64_decode B (hh_salt_b64 header))) (\<lambda>salt.
     bindR (ensure (length salt = RECOVERY_SALT_LEN)
              (Validation ''`.hvb` salt has an invalid length'')) (\<lambda>_.
     bindR (map_err (\<lambda>e. Validation (''invalid .hvb nonce: '' @ e)) (b64_decode B (hh_nonce_b64 header))) (\<lambda>nonce.
     bindR (ensure (length nonce = BACKUP_NONCE_LEN)
              (Validation ''`.hvb` nonce has an invalid length'')) (\<lambda>_.
     bindR (derive_backup_key_from_recovery L phrase salt (hh_m_cost_kib header) (hh_t_cost header)
              (hh_p_cost header)) (\<lambda>backup_key.
     bindR (backup_cipher L backup_key) (\<lambda>_.
     bindR (ok_or (aes_aad_open B backup_key nonce prefix ciphertext)
              (Recovery WrongPhraseOrAlteredFile)) (\<lambda>plaintext.
     bindR (validate_sqlite_bytes plaintext) (\<lambda>_.
     bindR (ensure (of_nat (length plaintext) = hh_plaintext_size header)
              (Validation ''`.hvb` plaintext size does not match its header'')) (\<lambda>_.
     Inr plaintext)))))))))))"

section \<open>Writing\<close>

definition ensure_parent_exists :: "path \<Rightarrow> (disk, unit) eff" where
  "ensure_parent_exists p = (case path_parent p of
     Some parent \<Rightarrow> if parent \<noteq> [] then create_private_dir_all parent else returnE ()
   | None \<Rightarrow> returnE ())"

text \<open>A temporary sibling, and a step that removes it when it fails (\<open>let _ = fs::remove_file\<close>).\<close>

definition temp_path :: "path \<Rightarrow> path" where
  "temp_path p = set_file_name
     (case Option.bind (path_file_name p) name_to_str of
        Some n \<Rightarrow> ''.'' @ n @ ''.partial'' | None \<Rightarrow> ''.hvb.partial'') p"

definition or_remove :: "path \<Rightarrow> (disk, 'a) eff \<Rightarrow> (disk, 'a) eff" where
  "or_remove p m =
     bindE (attemptE m) (\<lambda>r. case r of
       Inl e \<Rightarrow> bindE (attemptE (fs_remove_file p)) (\<lambda>_. throwE e)
     | Inr a \<Rightarrow> returnE a)"

definition write_atomic :: "path \<Rightarrow> bytes \<Rightarrow> (disk, unit) eff" where
  "write_atomic p bs =
     bindE (ensure_parent_exists p) (\<lambda>_.
     let temp = temp_path p in
     bindE (fs_exists temp) (\<lambda>stale.
     bindE (if stale then fs_remove_file temp else returnE ()) (\<lambda>_.
     bindE (or_remove temp (write_private temp bs)) (\<lambda>_.
     bindE (fs_exists p) (\<lambda>present.
     bindE (if present then or_remove temp (fs_remove_file p) else returnE ()) (\<lambda>_.
     or_remove temp (fs_rename_file temp p)))))))"

definition replace_existing_database :: "path \<Rightarrow> bytes \<Rightarrow> (disk, unit) eff" where
  "replace_existing_database target plaintext =
     bindE (ensure_parent_exists target) (\<lambda>_.
     bindE (fs_exists target) (\<lambda>present.
     bindE (if present
            then let old = with_extension ''old'' target in
              bindE (fs_exists old) (\<lambda>stale.
              bindE (if stale then fs_remove_file old else returnE ()) (\<lambda>_.
              fs_rename target old))
            else returnE ()) (\<lambda>_.
     write_private target plaintext)))"

section \<open>The backup service\<close>

record host =
  h_world :: world
  h_disk :: disk

definition on_disk :: "(disk, 'a) eff \<Rightarrow> (host, 'a) eff" where
  "on_disk m = (\<lambda>h. case m (h_disk h) of (r, d) \<Rightarrow> (r, h\<lparr>h_disk := d\<rparr>))"

definition in_world :: "(world, 'a) eff \<Rightarrow> (host, 'a) eff" where
  "in_world m = (\<lambda>h. case m (h_world h) of (r, w) \<Rightarrow> (r, h\<lparr>h_world := w\<rparr>))"

definition generate_recovery_key :: "backup_lib \<Rightarrow> (world, string) eff" where
  "generate_recovery_key B =
     bindE (fill_or ''failed to gather recovery entropy: '' 32) (\<lambda>entropy.
     liftE (map_err (\<lambda>e. Crypto (''failed to generate bip39 mnemonic: '' @ e)) (bip39_from_entropy B entropy)))"

definition build_recovery_verifier :: "crypto_lib \<Rightarrow> string \<Rightarrow> (world, bytes) eff" where
  "build_recovery_verifier L phrase =
     bindE generate_recovery_salt (\<lambda>salt.
     bindE (liftE (derive_recovery_verifier_tag L phrase salt)) (\<lambda>tag.
     returnE ([RECOVERY_VERIFIER_VERSION] @ salt @ tag)))"

definition verify_recovery_phrase :: "crypto_lib \<Rightarrow> string \<Rightarrow> bytes \<Rightarrow> bool result" where
  "verify_recovery_phrase L phrase verifier =
     (if length verifier \<noteq> RECOVERY_VERIFIER_LEN
      then Inl (Validation ''stored recovery verifier has an invalid length'')
      else if verifier ! 0 \<noteq> RECOVERY_VERIFIER_VERSION
      then Inl (Validation (''unsupported recovery verifier version: '' @ show_nat (unat (verifier ! 0))))
      else
        let salt = take RECOVERY_SALT_LEN (drop 1 verifier);
            expected = drop (1 + RECOVERY_SALT_LEN) verifier
        in bindR (derive_recovery_verifier_tag L phrase salt) (\<lambda>candidate. Inr (candidate = expected)))"

definition seal_hvb_container :: "crypto_lib \<Rightarrow> backup_lib \<Rightarrow> bytes \<Rightarrow> string \<Rightarrow> (world, bytes) eff" where
  "seal_hvb_container L B sqlite_bytes phrase =
     bindE generate_recovery_salt (\<lambda>salt.
     bindE generate_backup_nonce (\<lambda>nonce.
     bindE (liftE (derive_backup_key_from_recovery L phrase salt HVB_DEFAULT_M_COST_KIB
              HVB_DEFAULT_T_COST HVB_DEFAULT_P_COST)) (\<lambda>backup_key.
     let header = \<lparr>hh_kdf = HVB_KDF_NAME, hh_m_cost_kib = HVB_DEFAULT_M_COST_KIB,
           hh_t_cost = HVB_DEFAULT_T_COST, hh_p_cost = HVB_DEFAULT_P_COST,
           hh_salt_b64 = b64_encode B salt, hh_nonce_b64 = b64_encode B nonce,
           hh_plaintext_size = of_nat (length sqlite_bytes)\<rparr>
     in
     bindE (liftE (map_err (\<lambda>e. Storage (''failed to serialize hvb header: '' @ e)) (header_to_json B header)))
       (\<lambda>header_bytes.
     bindE (liftE (build_hvb_prefix header_bytes)) (\<lambda>prefix.
     bindE (liftE (backup_cipher L backup_key)) (\<lambda>_.
     bindE (liftE (ok_or (aes_aad_seal B backup_key nonce prefix sqlite_bytes)
              (Crypto ''backup encryption failed''))) (\<lambda>ciphertext.
     returnE (prefix @ ciphertext))))))))"

definition export_hvb_with_recovery_key :: "crypto_lib \<Rightarrow> backup_lib \<Rightarrow> path \<Rightarrow> path \<Rightarrow> string
    \<Rightarrow> (host, backup_metadata) eff" where
  "export_hvb_with_recovery_key L B source target phrase =
     bindE (liftE (ensure (bip39_valid B phrase) (Recovery InvalidPhrase))) (\<lambda>_.
     bindE (on_disk (fs_read source)) (\<lambda>sqlite_bytes.
     bindE (liftE (validate_sqlite_bytes sqlite_bytes)) (\<lambda>_.
     bindE (in_world (seal_hvb_container L B sqlite_bytes phrase)) (\<lambda>container.
     bindE (on_disk (write_atomic target container)) (\<lambda>_.
     bindE (on_disk (fs_read target)) (\<lambda>stored.
     bindE (liftE (open_hvb_container L B stored phrase)) (\<lambda>restored.
     if restored \<noteq> sqlite_bytes
     then bindE (on_disk (attemptE (fs_remove_file target))) (\<lambda>_.
       throwE (Validation ''written .hvb self-check failed: the file does not decrypt to the source database''))
     else returnE \<lparr>bm_sha256_hex = sha256_digest_hex B stored, bm_plaintext_size = length sqlite_bytes\<rparr>)))))))"

definition import_hvb_with_recovery_key :: "crypto_lib \<Rightarrow> backup_lib \<Rightarrow> path \<Rightarrow> string \<Rightarrow> path
    \<Rightarrow> (disk, backup_metadata) eff" where
  "import_hvb_with_recovery_key L B source phrase target =
     bindE (liftE (ensure (bip39_valid B phrase) (Recovery InvalidPhrase))) (\<lambda>_.
     bindE (fs_read source) (\<lambda>backup_bytes.
     bindE (liftE (open_hvb_container L B backup_bytes phrase)) (\<lambda>plaintext.
     bindE (replace_existing_database target plaintext) (\<lambda>_.
     returnE \<lparr>bm_sha256_hex = sha256_digest_hex B backup_bytes, bm_plaintext_size = length plaintext\<rparr>))))"

section \<open>Files that are replaced\<close>

lemma fs_read_Inr:
  assumes "fs_read p d = (Inr bs, d')"
  shows "\<exists>f. dk_files d p = Some f \<and> fi_content f = bs"
  using assms by (auto simp: fs_read_def io_step_def nothing_done_def split: list.splits option.splits prod.splits sum.splits)

lemma old_name:
  assumes "with_extension ''old'' t \<noteq> t" "t \<noteq> []"
  shows "butlast (with_extension ''old'' t) = butlast t" "length (with_extension ''old'' t) = length t"
    "with_extension ''old'' t \<noteq> [''/'']"
  using assms by (auto simp: with_extension_def file_stem_def split: option.splits list.splits)

lemma ensure_parent_clean:
  assumes "dk_faults d = []" "path_writable p d"
  obtains d1 where "ensure_parent_exists p d = (Inr (), d1)" "dk_files d1 = dk_files d" "dk_faults d1 = []"
    "\<forall>q. length q = length p \<and> butlast q = butlast p \<and> q \<noteq> [''/''] \<longrightarrow> in_directory q d1"
    "\<forall>q. length q = length p \<longrightarrow> dk_dirs d1 q = dk_dirs d q"
proof -
  have p: "p \<noteq> []" "path_parent p = Some (butlast p)" using assms(2) by (simp_all add: path_writable_def path_parent_def)
  let ?d1 = "if butlast p = [] then d else make_dirs OWNER_ONLY_DIR (length (butlast p)) (butlast p) d"
  have "\<not> list_ex (\<lambda>n. dk_files d (take n (butlast p)) \<noteq> None) [1..<length (butlast p) + 1]"
    using assms(2) p(1) by (auto simp: list_ex_iff path_writable_def take_butlast)
  then have "ensure_parent_exists p d = (Inr (), ?d1)"
    using p assms(1) by (auto simp: ensure_parent_exists_def create_private_dir_all_def returnE_run)
  moreover have "in_directory q ?d1" if "length q = length p" "butlast q = butlast p" "q \<noteq> [''/'']" for q
  proof -
    have "path_parent q = Some (butlast p)" using that p(1) by (auto simp: path_parent_def)
    then show ?thesis by (simp add: in_directory_def make_dirs_def)
  qed
  moreover have "dk_dirs ?d1 q = dk_dirs d q" if "length q = length p" for q
    using that p(1) by (cases p rule: rev_cases) (auto simp: make_dirs_def)
  ultimately show ?thesis using that [of ?d1] assms(1) by auto
qed

lemma replace_clean:
  assumes "dk_faults d = []" "path_writable t d"
    and "dk_files d t \<noteq> None \<Longrightarrow> with_extension ''old'' t \<noteq> t \<and> dk_dirs d (with_extension ''old'' t) = None"
  obtains d' where "replace_existing_database t bs d = (Inr (), d')" "has_private t bs d'"
    "\<And>f. dk_files d t = Some f \<Longrightarrow> dk_files d' (with_extension ''old'' t) = Some f"
proof -
  let ?old = "with_extension ''old'' t"
  obtain d1 where d1: "ensure_parent_exists t d = (Inr (), d1)" "dk_files d1 = dk_files d" "dk_faults d1 = []"
    "\<forall>q. length q = length t \<and> butlast q = butlast t \<and> q \<noteq> [''/''] \<longrightarrow> in_directory q d1"
    "\<forall>q. length q = length t \<longrightarrow> dk_dirs d1 q = dk_dirs d q"
    by (rule ensure_parent_clean [OF assms(1,2)])
  have t: "t \<noteq> []" "t \<noteq> [''/'']" "dk_dirs d1 t = None" "in_directory t d1"
    using assms(2) d1(4,5) by (simp_all add: path_writable_def)
  show ?thesis
  proof (cases "dk_files d t")
    case None
    then have "replace_existing_database t bs d =
        (Inr (), put_file t (Some \<lparr>fi_content = bs, fi_mode = OWNER_ONLY_FILE\<rparr>) d1)"
      using d1(1-3) t write_private_clean [OF d1(3) t(4,3)]
      by (simp add: replace_existing_database_def bindE_run fs_exists_def getsE_run returnE_run)
    then show ?thesis using that None by (simp add: has_private_def)
  next
    case (Some f)
    then have old: "?old \<noteq> t" "dk_dirs d1 ?old = None" "in_directory ?old d1"
      using assms(3) d1(4,5) old_name [OF _ t(1)] by auto
    let ?d2 = "if dk_files d ?old \<noteq> None then put_file ?old None d1 else d1"
    let ?d3 = "put_file ?old (Some f) (put_file t None ?d2)"
    have "in_directory t ?d3" "dk_dirs ?d3 t = None" "dk_faults ?d3 = []"
      using t d1(3) by simp_all
    then have last: "write_private t bs ?d3 = (Inr (), put_file t (Some \<lparr>fi_content = bs, fi_mode = OWNER_ONLY_FILE\<rparr>) ?d3)"
      by (intro write_private_clean)
    have "replace_existing_database t bs d =
        (Inr (), put_file t (Some \<lparr>fi_content = bs, fi_mode = OWNER_ONLY_FILE\<rparr>) ?d3)"
      using Some d1(1-3) t old last
      by (auto simp: replace_existing_database_def bindE_run fs_exists_def getsE_run returnE_run Let_def
          fs_remove_file_def fs_rename_def fs_rename_file_def)
    then show ?thesis using that Some old(1) by (auto simp: has_private_def)
  qed
qed

text \<open>Whatever fails, the database that was there is at its place or aside.\<close>

lemma frames_ensure_parent [frame_intros]: "frames (\<lambda>d. dk_files d q) (ensure_parent_exists p)"
  unfolding ensure_parent_exists_def by (intro frame_intros)

lemma bind_exists: "bindE (fs_exists p) f d = f (dk_files d p \<noteq> None \<or> dk_dirs d p \<noteq> None) d"
  by (simp add: fs_exists_def bindE_run getsE_run)

lemma set_aside_cases:
  assumes "dk_files d t = Some f" "old \<noteq> t"
    and "bindE (if stale then fs_remove_file old else returnE ()) (\<lambda>_. fs_rename t old) d = (r, d')"
  shows "case r of Inl _ \<Rightarrow> dk_files d' t = Some f | Inr _ \<Rightarrow> dk_files d' old = Some f"
proof -
  obtain r2 d2 where remove: "(if stale then fs_remove_file old else returnE ()) d = (r2, d2)" by (rule prod.exhaust)
  have "frames (\<lambda>d. dk_files d t) (if stale then fs_remove_file old else returnE ())"
    using assms(2) by (intro frame_intros) auto
  then have "dk_files d2 t = Some f" using framesD remove assms(1) by metis
  then show ?thesis
    using assms(2,3) remove rename_cases [of d2 t old r d'] by (cases r2; cases r) (simp_all add: bindE_run)
qed

lemma replace_keeps:
  assumes "dk_files d t = Some f" "with_extension ''old'' t \<noteq> t" "replace_existing_database t bs d = (r, d')"
  shows "dk_files d' t = Some f \<or> dk_files d' (with_extension ''old'' t) = Some f"
proof -
  let ?old = "with_extension ''old'' t"
  obtain r1 d1 where parent: "ensure_parent_exists t d = (r1, d1)" by (cases "ensure_parent_exists t d")
  have files1: "dk_files d1 t = Some f"
    using framesD [OF frames_ensure_parent parent, of t] assms(1) by simp
  let ?stale = "dk_files d1 ?old \<noteq> None \<or> dk_dirs d1 ?old \<noteq> None"
  obtain r3 d3 where aside: "bindE (if ?stale then fs_remove_file ?old else returnE ()) (\<lambda>_. fs_rename t ?old) d1 = (r3, d3)"
    by (rule prod.exhaust)
  obtain r4 d4 where wr: "write_private t bs d3 = (r4, d4)" by (cases "write_private t bs d3")
  let ?rest = "bindE (bindE (if ?stale then fs_remove_file ?old else returnE ()) (\<lambda>_. fs_rename t ?old))
      (\<lambda>_. write_private t bs) d1"
  have "bindE (bindE (fs_exists ?old) (\<lambda>stale. bindE (if stale then fs_remove_file ?old else returnE ())
      (\<lambda>_. fs_rename t ?old))) (\<lambda>_. write_private t bs) d1 = ?rest"
    by (simp only: bindE_assoc bind_exists)
  then have "replace_existing_database t bs d = (case r1 of Inl e \<Rightarrow> (Inl e, d1) | Inr _ \<Rightarrow> ?rest)"
    unfolding replace_existing_database_def Let_def bindE_run [of "ensure_parent_exists t"] parent bind_exists
    by (simp add: files1 split: sum.split)
  moreover have "?rest = (case r3 of Inl e \<Rightarrow> (Inl e, d3) | Inr _ \<Rightarrow> (r4, d4))"
    unfolding bindE_run [of "bindE _ _"] aside by (simp add: wr split: sum.split)
  ultimately have "replace_existing_database t bs d = (case r1 of Inl e \<Rightarrow> (Inl e, d1)
      | Inr _ \<Rightarrow> (case r3 of Inl e \<Rightarrow> (Inl e, d3) | Inr _ \<Rightarrow> (r4, d4)))" by (simp only:)
  then show ?thesis
    using assms(3) files1 set_aside_cases [OF files1 assms(2) aside] framesD [OF frames_write_private wr, of ?old] assms(2)
    by (cases r1; cases r3) auto
qed

section \<open>Sealing and opening a container\<close>

lemma map_err_simps [simp]: "map_err g (Inr a) = Inr a" "map_err g (Inl e) = Inl (g e)"
  by (simp_all add: map_err_def)

lemma u16_le_roundtrip: "u16_from_le (u16_to_le v) = v"
  unfolding u16_from_le_def u16_to_le_def
  by (rule bit_word_eqI) (auto simp: bit_simps not_le)

lemma u32_le_roundtrip: "u32_from_le (u32_to_le v) = v"
proof (rule bit_word_eqI)
  fix n
  assume "n < LENGTH(32)"
  then show "bit (u32_from_le (u32_to_le v)) n = bit v n"
    by (cases "24 \<le> n"; cases "16 \<le> n") (auto simp: u32_from_le_def u32_to_le_def bit_simps not_le)
qed

lemma u32_of_nat: "n < 2 ^ 32 \<Longrightarrow> unat (of_nat n :: 32 word) = n"
  by (simp add: unat_of_nat)

lemma le_lengths [simp]: "length (u16_to_le v) = 2" "length (u32_to_le u) = 4" "length HVB_MAGIC = 4"
  "HVB_PREFIX_LEN = 10"
  by (simp_all add: u16_to_le_def u32_to_le_def HVB_MAGIC_def HVB_PREFIX_LEN_def as_bytes_def)

lemma split_built:
  assumes "build_hvb_prefix hb = Inr prefix" "hb \<noteq> []" "ct \<noteq> []" "header_from_json B hb = Inr header"
  shows "split_hvb_container B (prefix @ ct) = Inr (prefix, header, ct)"
proof -
  have size: "length hb < 2 ^ 32" and len: "of_nat (length hb) \<le> HVB_MAX_HEADER_LEN"
    and prefix: "prefix = HVB_MAGIC @ u16_to_le HVB_FORMAT_VERSION @ u32_to_le (of_nat (length hb)) @ hb"
    using assms(1) by (auto simp: build_hvb_prefix_def Let_def split: if_splits)
  have n: "unat (of_nat (length hb) :: 32 word) = length hb" by (rule u32_of_nat [OF size])
  then have "(of_nat (length hb) :: 32 word) \<noteq> 0" using assms(2) by (auto simp: unat_eq_0 simp flip: unat_0_iff)
  then show ?thesis
    using len assms(3,4) u16_le_roundtrip [of HVB_FORMAT_VERSION] u32_le_roundtrip [of "of_nat (length hb)"] n
    by (simp add: split_hvb_container_def prefix Let_def not_less)
qed

definition backup_lib_ok :: "backup_lib \<Rightarrow> bool" where
  "backup_lib_ok B \<longleftrightarrow>
     (\<forall>k n a p c. aes_aad_seal B k n a p = Some c \<longrightarrow> aes_aad_open B k n a c = Some p \<and> c \<noteq> [])
   \<and> (\<forall>bs. b64_decode B (b64_encode B bs) = Inr bs)
   \<and> (\<forall>h bs. header_to_json B h = Inr bs \<longrightarrow> bs \<noteq> [] \<and> header_from_json B bs = Inr h)"

lemma sealed_opens:
  assumes "backup_lib_ok B" and "validate_sqlite_bytes db_bytes = Inr ()"
    and "seal_hvb_container L B db_bytes phrase w = (Inr container, w')"
  shows "open_hvb_container L B container phrase = Inr db_bytes"
proof -
  obtain salt w1 iv key header hb prefix ct where
    salt: "generate_recovery_salt w = (Inr salt, w1)" and iv: "generate_backup_nonce w1 = (Inr iv, w')"
    and key: "derive_backup_key_from_recovery L phrase salt HVB_DEFAULT_M_COST_KIB HVB_DEFAULT_T_COST
        HVB_DEFAULT_P_COST = Inr key"
    and header: "header = \<lparr>hh_kdf = HVB_KDF_NAME, hh_m_cost_kib = HVB_DEFAULT_M_COST_KIB,
           hh_t_cost = HVB_DEFAULT_T_COST, hh_p_cost = HVB_DEFAULT_P_COST,
           hh_salt_b64 = b64_encode B salt, hh_nonce_b64 = b64_encode B iv,
           hh_plaintext_size = of_nat (length db_bytes)\<rparr>"
    and json: "header_to_json B header = Inr hb" and prefix: "build_hvb_prefix hb = Inr prefix"
    and cipher: "backup_cipher L key = Inr ()" and ct: "aes_aad_seal B key iv prefix db_bytes = Some ct"
    and container: "container = prefix @ ct"
    using assms(3) by (auto simp: seal_hvb_container_def eff_iffs Let_def)
  have "length salt = RECOVERY_SALT_LEN" "length iv = BACKUP_NONCE_LEN"
    using fill_or_Inr salt iv by (auto simp: generate_recovery_salt_def generate_backup_nonce_def)
  moreover have "split_hvb_container B container = Inr (prefix, header, ct)"
    unfolding container using assms(1) json ct
    by (intro split_built [OF prefix]) (auto simp: backup_lib_ok_def)
  moreover have "validate_kdf_params header = Inr ()"
    by (simp add: validate_kdf_params_def header HVB_DEFAULT_M_COST_KIB_def HVB_MIN_M_COST_KIB_def
        HVB_MAX_M_COST_KIB_def HVB_DEFAULT_T_COST_def HVB_MIN_T_COST_def HVB_MAX_T_COST_def
        HVB_DEFAULT_P_COST_def HVB_MAX_P_COST_def)
  ultimately show ?thesis
    using assms(1,2) key cipher ct
    by (simp add: open_hvb_container_def header backup_lib_ok_def)
qed

section \<open>Export and import\<close>

lemma temp_name:
  assumes "p \<noteq> []" "path_file_name p \<noteq> None"
  shows "temp_path p \<noteq> p" "length (temp_path p) = length p" "butlast (temp_path p) = butlast p"
    "temp_path p \<noteq> [''/'']"
proof -
  obtain n where n: "path_file_name p = Some n" "p = butlast p @ [n]"
    using assms by (auto simp: path_file_name_def split: list.splits if_splits) (metis append_butlast_last_id last_rev list.sel(1))
  have "utf8_valid (as_bytes ''.hvb.partial'')" by (simp add: as_bytes_def)
  then obtain t where t: "temp_path p = butlast p @ [t]" "t \<noteq> n" "t \<noteq> ''/''"
    using n(1) by (cases "utf8_valid (as_bytes n)") (auto simp: temp_path_def set_file_name_def name_to_str_def)
  show "temp_path p \<noteq> p" using t(2) n(2) by (metis t(1) last_snoc)
  show "length (temp_path p) = length p" using assms(1) by (simp add: t(1))
  show "butlast (temp_path p) = butlast p" by (simp add: t(1))
  show "temp_path p \<noteq> [''/'']" using t(1,3) by simp
qed

lemma or_remove_Inr: "m d = (Inr a, d') \<Longrightarrow> or_remove p m d = (Inr a, d')"
  by (simp add: or_remove_def bindE_run attemptE_run returnE_run)

lemma write_atomic_clean:
  assumes "dk_faults d = []" "path_writable p d" "path_file_name p \<noteq> None" "dk_dirs d (temp_path p) = None"
  obtains d' where "write_atomic p bs d = (Inr (), d')" "has_private p bs d'" "dk_faults d' = []"
    "\<forall>q. q \<notin> {p, temp_path p} \<longrightarrow> dk_files d' q = dk_files d q" "dk_files d' (temp_path p) = None"
    "\<forall>q. length q = length p \<longrightarrow> dk_dirs d' q = dk_dirs d q"
proof -
  let ?t = "temp_path p"
  obtain d1 where d1: "ensure_parent_exists p d = (Inr (), d1)" "dk_files d1 = dk_files d" "dk_faults d1 = []"
    "\<forall>q. length q = length p \<and> butlast q = butlast p \<and> q \<noteq> [''/''] \<longrightarrow> in_directory q d1"
    "\<forall>q. length q = length p \<longrightarrow> dk_dirs d1 q = dk_dirs d q"
    by (rule ensure_parent_clean [OF assms(1,2)])
  have p: "p \<noteq> []" "p \<noteq> [''/'']" "dk_dirs d p = None" using assms(2) by (simp_all add: path_writable_def)
  note temp = temp_name [OF p(1) assms(3)]
  have dirs: "dk_dirs d1 p = None" "dk_dirs d1 ?t = None" "in_directory p d1" "in_directory ?t d1"
    using d1(4,5) p temp assms(4) by simp_all
  let ?f = "Some \<lparr>fi_content = bs, fi_mode = OWNER_ONLY_FILE\<rparr>"
  let ?d2 = "if dk_files d1 ?t \<noteq> None then put_file ?t None d1 else d1"
  let ?d3 = "put_file ?t ?f ?d2"
  let ?d4 = "if dk_files d1 p \<noteq> None then put_file p None ?d3 else ?d3"
  let ?d5 = "put_file p ?f (put_file ?t None ?d4)"
  have clean: "dk_faults ?d2 = []" "in_directory ?t ?d2" "dk_dirs ?d2 ?t = None"
    using dirs d1(3) by simp_all
  have rename: "fs_rename_file ?t p ?d4 = (Inr (), ?d5)"
    using d1(3) temp(1) dirs by (simp add: fs_rename_file_def)
  have stale: "(if dk_files d1 ?t \<noteq> None \<or> dk_dirs d1 ?t \<noteq> None then fs_remove_file ?t else returnE ()) d1 = (Inr (), ?d2)"
    using d1(3) dirs by (auto simp: fs_remove_file_def returnE_run)
  have there: "dk_files ?d3 p \<noteq> None \<or> dk_dirs ?d3 p \<noteq> None \<longleftrightarrow> dk_files d1 p \<noteq> None"
    using temp(1) dirs by simp
  have gone: "(if dk_files d1 p \<noteq> None then or_remove ?t (fs_remove_file p) else returnE ()) ?d3 = (Inr (), ?d4)"
  proof (cases "dk_files d1 p = None")
    case False
    have "fs_remove_file p ?d3 = (Inr (), put_file p None ?d3)"
      using False d1(3) temp(1) by (intro remove_clean) simp_all
    then have "or_remove ?t (fs_remove_file p) ?d3 = (Inr (), put_file p None ?d3)" by (rule or_remove_Inr)
    then show ?thesis unfolding if_P [OF False] .
  qed (simp add: returnE_run)
  have "write_atomic p bs d = (Inr (), ?d5)"
    unfolding write_atomic_def Let_def bindE_run [of "ensure_parent_exists p"] d1(1) fst_conv snd_conv sum.case bind_exists
      bindE_run [of "if c then fs_remove_file q else returnE ()" for c q] stale
      bindE_run [of "or_remove ?t (write_private ?t bs)"] or_remove_Inr [of "write_private ?t bs", OF write_private_clean [OF clean]] there
      bindE_run [of "if c then or_remove q m else returnE ()" for c q m] gone
    by (rule or_remove_Inr, rule rename)
  moreover have "\<forall>q. q \<notin> {p, ?t} \<longrightarrow> dk_files ?d5 q = dk_files d q" using d1(2) by simp
  moreover have "dk_files ?d5 ?t = None" using temp(1) by simp
  moreover have "\<forall>q. length q = length p \<longrightarrow> dk_dirs ?d5 q = dk_dirs d q" using d1(5) by simp
  moreover have "has_private p bs ?d5" by (simp add: has_private_def)
  moreover have "dk_faults ?d5 = []" using d1(3) by simp
  ultimately show ?thesis using that by blast
qed

lemma on_disk_run: "on_disk m h = (fst (m (h_disk h)), h\<lparr>h_disk := snd (m (h_disk h))\<rparr>)"
  by (simp add: on_disk_def split: prod.split)

lemma in_world_run: "in_world m h = (fst (m (h_world h)), h\<lparr>h_world := snd (m (h_world h))\<rparr>)"
  by (simp add: in_world_def split: prod.split)

lemma on_disk_iff: "on_disk m h = (r, h') \<longleftrightarrow> (\<exists>d. m (h_disk h) = (r, d) \<and> h' = h\<lparr>h_disk := d\<rparr>)"
  by (cases "m (h_disk h)") (auto simp: on_disk_def)

lemma in_world_iff: "in_world m h = (r, h') \<longleftrightarrow> (\<exists>w. m (h_world h) = (r, w) \<and> h' = h\<lparr>h_world := w\<rparr>)"
  by (cases "m (h_world h)") (auto simp: in_world_def)

lemma export_Inr:
  assumes "export_hvb_with_recovery_key L B source target phrase h = (Inr meta, h')"
  obtains f g where "bip39_valid B phrase" "dk_files (h_disk h) source = Some f"
    "dk_files (h_disk h') target = Some g" "open_hvb_container L B (fi_content g) phrase = Inr (fi_content f)"
    "meta = \<lparr>bm_sha256_hex = sha256_digest_hex B (fi_content g), bm_plaintext_size = length (fi_content f)\<rparr>"
proof -
  obtain db_bytes d1 w1 container d2 stored where
    valid: "bip39_valid B phrase" and src: "fs_read source (h_disk h) = (Inr db_bytes, d1)"
    and w: "write_atomic target container d1 = (Inr (), d2)" and r: "fs_read target d2 = (Inr stored, h_disk h')"
    and opened: "open_hvb_container L B stored phrase = Inr db_bytes"
    and meta: "meta = \<lparr>bm_sha256_hex = sha256_digest_hex B stored, bm_plaintext_size = length db_bytes\<rparr>"
    using assms unfolding export_hvb_with_recovery_key_def
    by (auto simp: bindE_Inr_iff liftE_Inr_iff on_disk_iff in_world_iff returnE_iff throwE_iff split: if_splits)
  have "frames (\<lambda>d. dk_files d target) (fs_read target)" by (intro frame_intros)
  then have "dk_files (h_disk h') target = dk_files d2 target" using r by (rule framesD)
  then show ?thesis using that fs_read_Inr [OF src] fs_read_Inr [OF r] valid opened meta by auto
qed

text \<open>
  C3: A backup that was reported can be restored: after a successful export, an import with the same
  phrase from any disk that still holds the exported file, that meets no fault and whose target can
  be written, succeeds with the same digest and size, puts the exported bytes at the target, readable
  by the owner only, and sets the file that was there aside.
\<close>

theorem exported_backup_restores:
  assumes "export_hvb_with_recovery_key L B source target phrase h = (Inr meta, h')"
    and "dk_files d target = dk_files (h_disk h') target" and "dk_faults d = []" and "path_writable t d"
    and "dk_files d t \<noteq> None \<Longrightarrow> with_extension ''old'' t \<noteq> t \<and> dk_dirs d (with_extension ''old'' t) = None"
  shows "\<exists>f d'. dk_files (h_disk h) source = Some f
    \<and> import_hvb_with_recovery_key L B target phrase t d = (Inr meta, d') \<and> has_private t (fi_content f) d'
    \<and> (\<forall>g. dk_files d t = Some g \<longrightarrow> dk_files d' (with_extension ''old'' t) = Some g)"
proof -
  obtain f g where export: "bip39_valid B phrase" "dk_files (h_disk h) source = Some f"
    "dk_files (h_disk h') target = Some g" "open_hvb_container L B (fi_content g) phrase = Inr (fi_content f)"
    "meta = \<lparr>bm_sha256_hex = sha256_digest_hex B (fi_content g), bm_plaintext_size = length (fi_content f)\<rparr>"
    by (rule export_Inr [OF assms(1)])
  obtain d' where d': "replace_existing_database t (fi_content f) d = (Inr (), d')" "has_private t (fi_content f) d'"
    "\<And>f. dk_files d t = Some f \<Longrightarrow> dk_files d' (with_extension ''old'' t) = Some f"
    using replace_clean [OF assms(3-5)] by metis
  have "fs_read target d = (Inr (fi_content g), d)"
    using assms(2,3) export(3) by (intro read_clean) simp_all
  then have "import_hvb_with_recovery_key L B target phrase t d = (Inr meta, d')"
    using export d'(1) by (simp add: import_hvb_with_recovery_key_def bindE_run liftE_run returnE_run ensure_def)
  then show ?thesis using export(2) d'(2,3) by blast
qed

lemma export_clean:
  assumes "backup_lib_ok B" "bip39_valid B phrase" "dk_faults (h_disk h) = []"
    and "dk_files (h_disk h) source = Some f" "validate_sqlite_bytes (fi_content f) = Inr ()"
    and "seal_hvb_container L B (fi_content f) phrase (h_world h) = (Inr container, w)"
    and "path_writable target (h_disk h)" "path_file_name target \<noteq> None" "dk_dirs (h_disk h) (temp_path target) = None"
  obtains d where "export_hvb_with_recovery_key L B source target phrase h =
      (Inr \<lparr>bm_sha256_hex = sha256_digest_hex B container, bm_plaintext_size = length (fi_content f)\<rparr>,
       \<lparr>h_world = w, h_disk = d\<rparr>)"
    "has_private target container d" "dk_faults d = []"
    "\<forall>q. q \<notin> {target, temp_path target} \<longrightarrow> dk_files d q = dk_files (h_disk h) q"
    "dk_files d (temp_path target) = None"
    "\<forall>q. length q = length target \<longrightarrow> dk_dirs d q = dk_dirs (h_disk h) q"
proof -
  obtain d where d: "write_atomic target container (h_disk h) = (Inr (), d)" "has_private target container d"
    "dk_faults d = []" "\<forall>q. q \<notin> {target, temp_path target} \<longrightarrow> dk_files d q = dk_files (h_disk h) q"
    "dk_files d (temp_path target) = None"
    "\<forall>q. length q = length target \<longrightarrow> dk_dirs d q = dk_dirs (h_disk h) q"
    by (rule write_atomic_clean [OF assms(3,7-9)])
  have "fs_read target d = (Inr container, d)"
    using read_clean [OF d(3)] d(2) by (simp add: has_private_def)
  moreover have "fs_read source (h_disk h) = (Inr (fi_content f), h_disk h)" by (rule read_clean [OF assms(3,4)])
  moreover have "open_hvb_container L B container phrase = Inr (fi_content f)"
    by (rule sealed_opens [OF assms(1,5,6)])
  ultimately have "export_hvb_with_recovery_key L B source target phrase h =
      (Inr \<lparr>bm_sha256_hex = sha256_digest_hex B container, bm_plaintext_size = length (fi_content f)\<rparr>,
       \<lparr>h_world = w, h_disk = d\<rparr>)"
    using assms(2,5,6) d(1)
    by (simp add: export_hvb_with_recovery_key_def bindE_run liftE_run returnE_run ensure_def on_disk_run in_world_run)
  then show ?thesis using that d(2-6) by blast
qed

text \<open>
  C19: An export that meets no fault returns: when the phrase is a BIP39 phrase, the source is a SQLite
  file, the container could be sealed and the target can be written, the export succeeds (its own check of
  the written file never rejects it), the container is at the target, readable by the owner only, the
  temporary file is gone and no other file has changed.
\<close>

theorem export_returns:
  assumes "backup_lib_ok B" and "bip39_valid B phrase" and "dk_faults (h_disk h) = []"
    and "dk_files (h_disk h) source = Some f" and "validate_sqlite_bytes (fi_content f) = Inr ()"
    and "seal_hvb_container L B (fi_content f) phrase (h_world h) = (Inr container, w)"
    and "path_writable target (h_disk h)" and "path_file_name target \<noteq> None"
    and "dk_dirs (h_disk h) (temp_path target) = None"
  shows "\<exists>meta h'. export_hvb_with_recovery_key L B source target phrase h = (Inr meta, h')
    \<and> has_private target container (h_disk h') \<and> dk_files (h_disk h') (temp_path target) = None
    \<and> (\<forall>q. q \<notin> {target, temp_path target} \<longrightarrow> dk_files (h_disk h') q = dk_files (h_disk h) q)"
  by (rule export_clean [OF assms]) auto

text \<open>
  C11: An import never loses the database it replaces: whatever fails and wherever, the file that was at
  the target is there afterwards, or under the same name with the extension "old"; this needs a target
  whose extension is not "old" already.
\<close>

theorem import_keeps_database:
  assumes "dk_files d t = Some f" and "with_extension ''old'' t \<noteq> t"
    and "import_hvb_with_recovery_key L B source phrase t d = (r, d')"
  shows "dk_files d' t = Some f \<or> dk_files d' (with_extension ''old'' t) = Some f"
proof -
  obtain r1 d1 where read: "fs_read source d = (r1, d1)" by (cases "fs_read source d")
  have "frames (\<lambda>d. dk_files d t) (fs_read source)" by (intro frame_intros)
  then have "dk_files d1 t = Some f" using framesD read assms(1) by metis
  then show ?thesis
    using assms(3) replace_keeps [OF _ assms(2)] read assms(1) unfolding import_hvb_with_recovery_key_def
    by (cases "bip39_valid B phrase"; cases r1)
      (auto simp: bindE_run liftE_run ensure_def returnE_run split: sum.splits, (metis prod.collapse)+)
qed

definition bounded_kdf :: "kdf_config \<Rightarrow> bool" where
  "bounded_kdf cfg \<longleftrightarrow> 19 * 1024 \<le> memory_cost_kib cfg \<and> memory_cost_kib cfg \<le> 1024 * 1024
     \<and> 2 \<le> time_cost cfg \<and> time_cost cfg \<le> 16 \<and> 1 \<le> parallelism cfg \<and> parallelism cfg \<le> 16"

definition kdf_agree :: "crypto_lib \<Rightarrow> crypto_lib \<Rightarrow> bool" where
  "kdf_agree L L' \<longleftrightarrow> aes_key_error L = aes_key_error L'
     \<and> (\<forall>cfg. bounded_kdf cfg \<longrightarrow> argon2_params_error L cfg = argon2_params_error L' cfg
          \<and> argon2id L cfg = argon2id L' cfg)"

lemma validated_kdf:
  assumes "validate_kdf_params header = Inr ()"
  shows "bounded_kdf \<lparr>memory_cost_kib = hh_m_cost_kib header, time_cost = hh_t_cost header,
    parallelism = hh_p_cost header, output_len = n\<rparr>"
proof -
  have "1 \<le> p \<longleftrightarrow> p \<noteq> 0" for p :: "32 word" by (simp add: word_le_nat_alt unat_gt_0 Suc_le_eq)
  then show ?thesis
    using assms by (auto simp: validate_kdf_params_def bindR_Inr_iff bounded_kdf_def HVB_MIN_M_COST_KIB_def
        HVB_MAX_M_COST_KIB_def HVB_MIN_T_COST_def HVB_MAX_T_COST_def HVB_MAX_P_COST_def not_less)
qed

lemma derive_backup_agree:
  assumes "kdf_agree L L'" "validate_kdf_params header = Inr ()"
  shows "derive_backup_key_from_recovery L phrase salt (hh_m_cost_kib header) (hh_t_cost header) (hh_p_cost header)
    = derive_backup_key_from_recovery L' phrase salt (hh_m_cost_kib header) (hh_t_cost header) (hh_p_cost header)"
  using assms(1) validated_kdf [OF assms(2), of AES_256_KEY_LEN]
  by (simp add: derive_backup_key_from_recovery_def argon2_into_def kdf_agree_def split: option.split)

lemma split_Inr: "split_hvb_container B bs = Inr (prefix, header, ct) \<Longrightarrow> bs = prefix @ ct"
  by (auto simp: split_hvb_container_def Let_def bindR_Inr_iff split: if_splits)

lemma map_err_Inr: "map_err f r = Inr x \<longleftrightarrow> r = Inr x"
  by (cases r) simp_all

text \<open>
  C21: A container is opened only with its own bytes as associated data and with a key derivation inside the
  bounds. What is opened is what AES-GCM gives for the ciphertext, with all bytes before it as associated
  data, the nonce of the header, and the key that Argon2 derives from the phrase and the salt of the header
  under the costs of the header; and these are a memory cost from 19 MiB to 1 GiB, a time cost from 2 to
  16 and a parallelism from 1 to 16. Argon2 is never run outside these bounds: two libraries that agree
  inside them open every file alike.
\<close>

theorem container_kdf_bounds:
  assumes "kdf_agree L L'"
  shows "open_hvb_container L B bs phrase = open_hvb_container L' B bs phrase
    \<and> (\<forall>plain. open_hvb_container L B bs phrase = Inr plain \<longrightarrow>
        (\<exists>prefix header ct salt iv key cfg. split_hvb_container B bs = Inr (prefix, header, ct) \<and> bs = prefix @ ct
          \<and> b64_decode B (hh_salt_b64 header) = Inr salt \<and> b64_decode B (hh_nonce_b64 header) = Inr iv
          \<and> cfg = \<lparr>memory_cost_kib = hh_m_cost_kib header, time_cost = hh_t_cost header,
              parallelism = hh_p_cost header, output_len = 32\<rparr>
          \<and> bounded_kdf cfg \<and> argon2id L cfg (as_bytes phrase) salt = Inr key
          \<and> aes_aad_open B key iv prefix ct = Some plain))"
proof (intro conjI allI impI)
  have cipher: "backup_cipher L = backup_cipher L'"
    using assms by (simp add: backup_cipher_def fun_eq_iff kdf_agree_def)
  show "open_hvb_container L B bs phrase = open_hvb_container L' B bs phrase"
  proof (cases "split_hvb_container B bs")
    case (Inr parts)
    obtain prefix header ct where parts: "parts = (prefix, header, ct)" by (cases parts)
    show ?thesis
      by (cases "validate_kdf_params header")
        (simp_all add: open_hvb_container_def Inr parts cipher derive_backup_agree [OF assms])
  qed (simp add: open_hvb_container_def)
next
  fix plain assume opened: "open_hvb_container L B bs phrase = Inr plain"
  obtain prefix header ct salt iv key where parts: "split_hvb_container B bs = Inr (prefix, header, ct)"
    and header: "validate_kdf_params header = Inr ()"
    and steps: "b64_decode B (hh_salt_b64 header) = Inr salt" "b64_decode B (hh_nonce_b64 header) = Inr iv"
      "derive_backup_key_from_recovery L phrase salt (hh_m_cost_kib header) (hh_t_cost header) (hh_p_cost header) = Inr key"
      "aes_aad_open B key iv prefix ct = Some plain"
    using opened by (auto simp: open_hvb_container_def bindR_Inr_iff ok_or_Inr_iff map_err_Inr)
  from steps(3) have "argon2id L \<lparr>memory_cost_kib = hh_m_cost_kib header, time_cost = hh_t_cost header,
      parallelism = hh_p_cost header, output_len = 32\<rparr> (as_bytes phrase) salt = Inr key"
    by (auto simp: derive_backup_key_from_recovery_def argon2_into_def map_err_def AES_256_KEY_LEN_def
        split: if_splits option.splits sum.splits)
  with parts steps split_Inr [OF parts] validated_kdf [OF header, of 32]
  show "\<exists>prefix header ct salt iv key cfg. split_hvb_container B bs = Inr (prefix, header, ct) \<and> bs = prefix @ ct
      \<and> b64_decode B (hh_salt_b64 header) = Inr salt \<and> b64_decode B (hh_nonce_b64 header) = Inr iv
      \<and> cfg = \<lparr>memory_cost_kib = hh_m_cost_kib header, time_cost = hh_t_cost header,
          parallelism = hh_p_cost header, output_len = 32\<rparr>
      \<and> bounded_kdf cfg \<and> argon2id L cfg (as_bytes phrase) salt = Inr key
      \<and> aes_aad_open B key iv prefix ct = Some plain"
    by blast
qed

section \<open>Examples\<close>

text \<open>
  An instance for examples: the sealed text is half the key before the text, base64 keeps the bytes, the
  header is written field by field with a unary length before each text.
\<close>

definition toy_text :: "string \<Rightarrow> bytes" where
  "toy_text s = replicate (length s) 1 @ [0] @ as_bytes s"

definition toy_untext :: "bytes \<Rightarrow> string \<times> bytes" where
  "toy_untext bs = (let n = length (takeWhile (\<lambda>b. b = 1) bs); rest = drop (n + 1) bs
     in (map (\<lambda>b. char_of (unat b)) (take n rest), drop n rest))"

definition toy_header :: "hvb_header \<Rightarrow> bytes" where
  "toy_header h = u32_to_le (hh_m_cost_kib h) @ u32_to_le (hh_t_cost h) @ u32_to_le (hh_p_cost h)
     @ u32_to_le (ucast (hh_plaintext_size h)) @ u32_to_le (ucast (drop_bit 32 (hh_plaintext_size h)))
     @ toy_text (hh_kdf h) @ toy_text (hh_salt_b64 h) @ toy_text (hh_nonce_b64 h)"

definition toy_unheader :: "bytes \<Rightarrow> hvb_header" where
  "toy_unheader bs =
     (let field = (\<lambda>i. u32_from_le (take 4 (drop (4 * i) bs)));
          (kdf, r1) = toy_untext (drop 20 bs); (salt, r2) = toy_untext r1; (nonce, r3) = toy_untext r2
      in \<lparr>hh_kdf = kdf, hh_m_cost_kib = field 0, hh_t_cost = field 1, hh_p_cost = field 2,
          hh_salt_b64 = salt, hh_nonce_b64 = nonce,
          hh_plaintext_size = ucast (field 3) OR push_bit 32 (ucast (field 4))\<rparr>)"

definition toy_backup :: backup_lib where
  "toy_backup = \<lparr>
     aes_aad_seal = (\<lambda>k n a p. if length k < 16 then None else Some (take 16 k @ p)),
     aes_aad_open = (\<lambda>k n a c. if 16 \<le> length k \<and> take 16 c = take 16 k then Some (drop 16 c) else None),
     b64_encode = map (\<lambda>b. char_of (unat b)), b64_decode = (\<lambda>s. Inr (as_bytes s)),
     header_to_json = (\<lambda>h. Inr (toy_header h)), header_from_json = (\<lambda>bs. Inr (toy_unheader bs)),
     sha256_digest_hex = (\<lambda>bs. show_nat (length bs)),
     bip39_from_entropy = (\<lambda>e. Inr ''legal winner''), bip39_valid = (\<lambda>s. s \<noteq> [])\<rparr>"

lemma toy_untext: "toy_untext (toy_text s @ r) = (s, r)"
proof -
  have "takeWhile (\<lambda>b. b = 1) (toy_text s @ r) = replicate (length s) 1"
    by (simp add: toy_text_def takeWhile_append)
  then show ?thesis by (simp add: toy_untext_def toy_text_def as_bytes_def comp_def)
qed

lemma word64_halves: "ucast (ucast v :: 32 word) OR push_bit 32 (ucast (ucast (drop_bit 32 v) :: 32 word)) = (v :: 64 word)"
  by (rule bit_word_eqI) (auto simp: bit_simps not_le)

lemma toy_unheader: "toy_unheader (toy_header h) = h"
  by (simp add: toy_unheader_def toy_header_def toy_untext toy_untext [of _ "[]", simplified]
      u32_le_roundtrip word64_halves)

lemma toy_backup_ok: "backup_lib_ok toy_backup"
proof -
  have "toy_header h \<noteq> []" for h by (simp add: toy_header_def u32_to_le_def)
  then show ?thesis
    by (auto simp: backup_lib_ok_def toy_backup_def toy_unheader as_bytes_def of_char_byte comp_def split: if_splits)
qed

definition sample_host :: host where
  "sample_host = \<lparr>h_world = empty_world ''now'',
     h_disk = \<lparr>dk_files = [[''v.db''] \<mapsto> \<lparr>fi_content = SQLITE_HEADER, fi_mode = OWNER_ONLY_FILE\<rparr>],
               dk_dirs = (\<lambda>_. None), dk_faults = []\<rparr>\<rparr>"

lemma toy_backup_key:
  assumes "salt \<noteq> []"
  obtains k where "derive_backup_key_from_recovery toy_lib phrase salt m t p = Inr k" "length k = 32"
    "backup_cipher toy_lib k = Inr ()"
proof -
  let ?k = "take 32 (as_bytes phrase @ salt @ replicate 32 0)"
  have "derive_backup_key_from_recovery toy_lib phrase salt m t p = Inr ?k"
    using assms by (simp add: derive_backup_key_from_recovery_def argon2_into_def toy_lib_def AES_256_KEY_LEN_def)
  then show ?thesis using that [of ?k] by (simp add: backup_cipher_def toy_lib_def)
qed

lemma toy_seal_container:
  assumes "rng_works w"
  obtains container w' where "seal_hvb_container toy_lib toy_backup db_bytes phrase w = (Inr container, w')"
proof -
  obtain salt where salt: "generate_recovery_salt w = (Inr salt, tick w)" "length salt = 32"
    using fill_or_works [OF assms, of "''recovery salt generation failed: ''" 32]
    unfolding generate_recovery_salt_def RECOVERY_SALT_LEN_def by blast
  have "rng_works (tick w)" using assms by simp
  then obtain iv where iv: "generate_backup_nonce (tick w) = (Inr iv, tick (tick w))" "length iv = 12"
    using fill_or_works [of "tick w" "''backup nonce generation failed: ''" 12]
    unfolding generate_backup_nonce_def BACKUP_NONCE_LEN_def by blast
  obtain k where k: "derive_backup_key_from_recovery toy_lib phrase salt HVB_DEFAULT_M_COST_KIB
      HVB_DEFAULT_T_COST HVB_DEFAULT_P_COST = Inr k" "length k = 32" "backup_cipher toy_lib k = Inr ()"
    by (rule toy_backup_key [of salt]) (use salt(2) in auto)
  let ?hb = "toy_header \<lparr>hh_kdf = HVB_KDF_NAME, hh_m_cost_kib = HVB_DEFAULT_M_COST_KIB,
      hh_t_cost = HVB_DEFAULT_T_COST, hh_p_cost = HVB_DEFAULT_P_COST,
      hh_salt_b64 = map (\<lambda>b. char_of (unat b)) salt, hh_nonce_b64 = map (\<lambda>b. char_of (unat b)) iv,
      hh_plaintext_size = of_nat (length db_bytes)\<rparr>"
  have "length ?hb = 127" using salt(2) iv(2) by (simp add: toy_header_def toy_text_def HVB_KDF_NAME_def)
  then have "\<exists>prefix. build_hvb_prefix ?hb = Inr prefix"
    by (simp add: build_hvb_prefix_def Let_def HVB_MAX_HEADER_LEN_def)
  then obtain prefix where prefix: "build_hvb_prefix ?hb = Inr prefix" by blast
  show ?thesis
    using salt(1) iv(1) k prefix
    by (intro that [of "prefix @ take 16 k @ db_bytes" "tick (tick w)"])
      (simp add: seal_hvb_container_def bindE_run liftE_run returnE_run Let_def toy_backup_def)
qed

lemma sample_export:
  obtains container meta d w where
    "export_hvb_with_recovery_key toy_lib toy_backup [''v.db''] [''b.hvb''] ''legal winner'' sample_host =
       (Inr meta, \<lparr>h_world = w, h_disk = d\<rparr>)"
    "dk_faults d = []" "path_writable [''n.db''] d" "dk_files d [''n.db''] = None"
    "seal_hvb_container toy_lib toy_backup SQLITE_HEADER ''legal winner'' (h_world sample_host) = (Inr container, w)"
proof -
  let ?f = "\<lparr>fi_content = SQLITE_HEADER, fi_mode = OWNER_ONLY_FILE\<rparr>"
  have "rng_works (h_world sample_host)" by (simp add: sample_host_def)
  then obtain container w where seal: "seal_hvb_container toy_lib toy_backup (fi_content ?f) ''legal winner''
      (h_world sample_host) = (Inr container, w)" by (rule toy_seal_container)
  have temp: "temp_path [''b.hvb''] = [''.b.hvb.partial'']"
    by (simp add: temp_path_def path_file_name_def name_to_str_def set_file_name_def as_bytes_def)
  have disk: "dk_faults (h_disk sample_host) = []" "dk_files (h_disk sample_host) [''v.db''] = Some ?f"
    "path_writable [''b.hvb''] (h_disk sample_host)" "dk_dirs (h_disk sample_host) (temp_path [''b.hvb'']) = None"
    "path_file_name [''b.hvb''] \<noteq> None" "dk_files (h_disk sample_host) [''n.db''] = None"
    by (simp_all add: sample_host_def path_writable_def path_file_name_def)
  have valid: "bip39_valid toy_backup ''legal winner''" "validate_sqlite_bytes (fi_content ?f) = Inr ()"
    by (simp_all add: toy_backup_def validate_sqlite_bytes_def)
  obtain d where d: "export_hvb_with_recovery_key toy_lib toy_backup [''v.db''] [''b.hvb''] ''legal winner'' sample_host =
       (Inr \<lparr>bm_sha256_hex = sha256_digest_hex toy_backup container, bm_plaintext_size = length (fi_content ?f)\<rparr>,
        \<lparr>h_world = w, h_disk = d\<rparr>)" "has_private [''b.hvb''] container d" "dk_faults d = []"
    "\<forall>q. q \<notin> {[''b.hvb''], temp_path [''b.hvb'']} \<longrightarrow> dk_files d q = dk_files (h_disk sample_host) q"
    "dk_files d (temp_path [''b.hvb'']) = None"
    "\<forall>q. length q = length [''b.hvb''] \<longrightarrow> dk_dirs d q = dk_dirs (h_disk sample_host) q"
    by (rule export_clean [OF toy_backup_ok valid(1) disk(1,2) valid(2) seal disk(3,5,4)])
  have "path_writable [''n.db''] d"
    using d(6) by (simp add: path_writable_def sample_host_def)
  moreover have "dk_files d [''n.db''] = None" using d(4) disk(6) by (simp add: temp)
  ultimately show ?thesis using that [OF d(1,3)] seal by simp
qed

theorem exported_backup_restores_witness:
  "\<exists>meta h' d'. export_hvb_with_recovery_key toy_lib toy_backup [''v.db''] [''b.hvb''] ''legal winner'' sample_host =
      (Inr meta, h')
    \<and> import_hvb_with_recovery_key toy_lib toy_backup [''b.hvb''] ''legal winner'' [''n.db''] (h_disk h') = (Inr meta, d')
    \<and> has_private [''n.db''] SQLITE_HEADER d'"
proof -
  obtain meta w d where run: "export_hvb_with_recovery_key toy_lib toy_backup [''v.db''] [''b.hvb''] ''legal winner''
      sample_host = (Inr meta, \<lparr>h_world = w, h_disk = d\<rparr>)" "dk_faults d = []" "path_writable [''n.db''] d" "dk_files d [''n.db''] = None"
    by (rule sample_export)
  then show ?thesis
    using exported_backup_restores [OF run(1), of d "[''n.db'']"] run
    by (auto simp: sample_host_def)
qed

theorem export_returns_witness:
  "\<exists>meta h' container. export_hvb_with_recovery_key toy_lib toy_backup [''v.db''] [''b.hvb''] ''legal winner'' sample_host =
      (Inr meta, h') \<and> has_private [''b.hvb''] container (h_disk h')
    \<and> dk_files (h_disk h') (temp_path [''b.hvb'']) = None"
proof -
  obtain container w where seal: "seal_hvb_container toy_lib toy_backup SQLITE_HEADER ''legal winner''
      (h_world sample_host) = (Inr container, w)" by (rule sample_export)
  show ?thesis
    using export_returns [OF toy_backup_ok, of "''legal winner''" sample_host "[''v.db'']"
        "\<lparr>fi_content = SQLITE_HEADER, fi_mode = OWNER_ONLY_FILE\<rparr>" toy_lib container w "[''b.hvb'']"] seal
    by (simp add: sample_host_def toy_backup_def validate_sqlite_bytes_def path_writable_def path_file_name_def) blast
qed

text \<open>An import that fails on a full disk when it writes the new database: the old one is aside.\<close>

theorem import_keeps_database_witness:
  "\<exists>d d'. import_hvb_with_recovery_key toy_lib toy_backup [''b.hvb''] ''legal winner'' [''v.db''] d
        = (Inl (Io ''No space left on device''), d')
    \<and> dk_files d [''v.db''] = Some \<lparr>fi_content = SQLITE_HEADER, fi_mode = OWNER_ONLY_FILE\<rparr>
    \<and> dk_files d' [''v.db''] = None \<and> dk_files d' [''v.old''] = dk_files d [''v.db'']"
proof -
  obtain container w where sealed: "seal_hvb_container toy_lib toy_backup SQLITE_HEADER ''legal winner'' (empty_world ''now'')
      = (Inr container, w)" by (rule toy_seal_container [OF rng_works_empty])
  have opened: "open_hvb_container toy_lib toy_backup container ''legal winner'' = Inr SQLITE_HEADER"
    by (rule sealed_opens [OF toy_backup_ok _ sealed]) (simp add: validate_sqlite_bytes_def)
  let ?f = "\<lparr>fi_content = SQLITE_HEADER, fi_mode = OWNER_ONLY_FILE\<rparr>"
  let ?d = "(h_disk sample_host)\<lparr>dk_files := [[''v.db''] \<mapsto> ?f, [''b.hvb''] \<mapsto> \<lparr>fi_content = container, fi_mode = OWNER_ONLY_FILE\<rparr>],
     dk_faults := [None, None, Some (''No space left on device'', 0)]\<rparr>"
  have old: "with_extension ''old'' [''v.db''] = [''v.old'']"
    by (simp add: with_extension_def path_file_name_def file_stem_def)
  have "\<exists>d'. import_hvb_with_recovery_key toy_lib toy_backup [''b.hvb''] ''legal winner'' [''v.db''] ?d
      = (Inl (Io ''No space left on device''), d') \<and> dk_files d' [''v.db''] = None"
    by (simp add: import_hvb_with_recovery_key_def replace_existing_database_def ensure_parent_exists_def path_parent_def
        write_private_def bindE_run liftE_run returnE_run ensure_def opened toy_backup_def [THEN arg_cong [of _ _ bip39_valid]]
        fs_read_def fs_rename_def fs_rename_file_def fs_exists_def getsE_run open_truncated_def io_step_def nothing_done_def
        in_directory_def Let_def old put_file_def sample_host_def)
  then obtain d' where run: "import_hvb_with_recovery_key toy_lib toy_backup [''b.hvb''] ''legal winner'' [''v.db''] ?d
      = (Inl (Io ''No space left on device''), d')" "dk_files d' [''v.db''] = None" by blast
  have "dk_files d' [''v.db''] = Some ?f \<or> dk_files d' (with_extension ''old'' [''v.db'']) = Some ?f"
    by (rule import_keeps_database [OF _ _ run(1)]) (simp_all add: old)
  with run show ?thesis by (intro exI [of _ ?d] exI [of _ d']) (simp add: old)
qed

text \<open>A sealed container that two different libraries open, one of which fails outside the bounds.\<close>

definition bounded_lib :: crypto_lib where
  "bounded_lib = toy_lib\<lparr>argon2id := (\<lambda>cfg p s. if bounded_kdf cfg then argon2id toy_lib cfg p s else Inl ''memory'')\<rparr>"

theorem container_kdf_bounds_witness:
  "\<exists>container w. seal_hvb_container toy_lib toy_backup SQLITE_HEADER ''legal winner'' (empty_world ''now'') = (Inr container, w)
    \<and> open_hvb_container toy_lib toy_backup container ''legal winner'' = Inr SQLITE_HEADER
    \<and> open_hvb_container bounded_lib toy_backup container ''legal winner'' = Inr SQLITE_HEADER
    \<and> argon2id bounded_lib \<lparr>memory_cost_kib = 8, time_cost = 1, parallelism = 1, output_len = 32\<rparr> [] [] = Inl ''memory''
    \<and> (\<exists>cfg key salt. bounded_kdf cfg \<and> argon2id toy_lib cfg (as_bytes ''legal winner'') salt = Inr key)"
proof -
  obtain container w where sealed: "seal_hvb_container toy_lib toy_backup SQLITE_HEADER ''legal winner'' (empty_world ''now'')
      = (Inr container, w)" by (rule toy_seal_container [OF rng_works_empty])
  have opened: "open_hvb_container toy_lib toy_backup container ''legal winner'' = Inr SQLITE_HEADER"
    by (rule sealed_opens [OF toy_backup_ok _ sealed]) (simp add: validate_sqlite_bytes_def)
  have "kdf_agree toy_lib bounded_lib" by (simp add: kdf_agree_def bounded_lib_def)
  note claim = container_kdf_bounds [OF this, of toy_backup container "''legal winner''"]
  have "argon2id bounded_lib \<lparr>memory_cost_kib = 8, time_cost = 1, parallelism = 1, output_len = 32\<rparr> [] [] = Inl ''memory''"
    by (simp add: bounded_lib_def bounded_kdf_def)
  with claim opened sealed show ?thesis by (metis (no_types, lifting))
qed

end
