(* ===== verification/HV_BackupApp.thy ===== *)
theory HV_BackupApp
  imports HV_Backup
begin

text \<open>
  services/backup_application_service.rs: the check of the actor and the snapshot of the database
  around export and import.
\<close>

section \<open>The application service\<close>

text \<open>
  SQLite under the pool: the file \<open>VACUUM INTO\<close> makes of the database, and its error. A path is
  given to it as text; \<open>lossy\<close> is \<open>to_string_lossy\<close>.
\<close>

record sqlite_lib =
  sqlite_image :: "db \<Rightarrow> bytes"
  sqlite_failure :: "string \<Rightarrow> db_error"
  lossy :: "string \<Rightarrow> string"

record rotation_backup_ticket =
  rbt_backup_file_path :: string
  rbt_recovery_phrase :: string
  rbt_metadata_sha256_hex :: string
  rbt_created_at :: string

fun join_path :: "string list \<Rightarrow> string" where
  "join_path [] = []"
| "join_path [c] = c"
| "join_path (c # d # cs) = (if c = ''/'' then ''/'' else c @ ''/'') @ join_path (d # cs)"

fun split_slash :: "string \<Rightarrow> string \<Rightarrow> string list" where
  "split_slash acc [] = [rev acc]"
| "split_slash acc (c # cs) = (if c = CHR ''/'' then rev acc # split_slash [] cs else split_slash (c # acc) cs)"

text \<open>\<open>Path::new\<close>: empty components and inner dots vanish.\<close>

definition path_of :: "string \<Rightarrow> path" where
  "path_of s = (let parts = split_slash [] s in
     (if s \<noteq> [] \<and> hd s = CHR ''/'' then [''/''] else if hd parts = ''.'' then [''.''] else [])
     @ filter (\<lambda>c. c \<noteq> [] \<and> c \<noteq> ''.'') parts)"

definition snapshot_path :: "path \<Rightarrow> path" where
  "snapshot_path p = set_file_name
     (case Option.bind (path_file_name p) name_to_str of
        Some n \<Rightarrow> ''.'' @ n @ ''.snapshot'' | None \<Rightarrow> ''.heelonvault.snapshot'') p"

definition vacuum_into :: "sqlite_lib \<Rightarrow> path \<Rightarrow> (host, unit) eff" where
  "vacuum_into S p =
     bindE (getsE (\<lambda>h. sqlite_image S (w_db (h_world h)))) (\<lambda>image.
     let made = Some \<lparr>fi_content = image, fi_mode = 0b110100100\<rparr> in
     on_disk (map_errE (\<lambda>e. Database (sqlite_failure S (case e of Io msg \<Rightarrow> msg | _ \<Rightarrow> [])))
       (io_step (\<lambda>n. put_file p (map_option (fi_content_update (take n)) made))
         (\<lambda>d. if dk_files d p \<noteq> None \<or> dk_dirs d p \<noteq> None then (Inl ''output file already exists'', d)
              else if \<not> in_directory p d then (Inl ''unable to open database file'', d)
              else (Inr (), put_file p made d)))))"

text \<open>\<open>SnapshotGuard\<close>: its \<open>drop\<close> removes the file and ignores an error.\<close>

definition drop_guard :: "path \<Rightarrow> (host, unit) eff" where
  "drop_guard p = bindE (on_disk (attemptE (fs_remove_file p))) (\<lambda>_. returnE ())"

definition guarded :: "path \<Rightarrow> (host, 'a) eff \<Rightarrow> (host, 'a) eff" where
  "guarded p m = bindE (attemptE m) (\<lambda>r. bindE (drop_guard p) (\<lambda>_. liftE r))"

definition unless_ok :: "path \<Rightarrow> (host, 'a) eff \<Rightarrow> (host, 'a) eff" where
  "unless_ok p m = bindE (attemptE m) (\<lambda>r. case r of
     Inl e \<Rightarrow> bindE (drop_guard p) (\<lambda>_. throwE e) | Inr a \<Rightarrow> returnE a)"

definition take_snapshot :: "sqlite_lib \<Rightarrow> path \<Rightarrow> (host, path) eff" where
  "take_snapshot S snapshot =
     bindE (liftE (ok_or (name_to_str (join_path snapshot)) (Validation ''database path is not valid UTF-8'')))
       (\<lambda>path_text.
     let snapshot_arg = map (\<lambda>c. if c = CHR 0x5C then CHR ''/'' else c) path_text in
     bindE (liftE (ensure (\<not> (CHR 0x27 \<in> set snapshot_arg \<or> CHR 0x00 \<in> set snapshot_arg))
              (Validation ''database path contains characters that cannot be used for a snapshot''))) (\<lambda>_.
     bindE (vacuum_into S (path_of snapshot_arg)) (\<lambda>_.
     bindE (on_disk (fs_exists snapshot)) (\<lambda>produced.
     bindE (liftE (ensure produced (Storage ''database snapshot was not produced''))) (\<lambda>_.
     bindE (on_disk (set_permissions snapshot 0b110000000)) (\<lambda>_.
     returnE snapshot))))))"

definition snapshot_database :: "sqlite_lib \<Rightarrow> path \<Rightarrow> (host, path) eff" where
  "snapshot_database S p =
     (let snapshot = snapshot_path p in
     bindE (on_disk (fs_exists snapshot)) (\<lambda>stale.
     bindE (if stale then on_disk (fs_remove_file snapshot) else returnE ()) (\<lambda>_.
     unless_ok snapshot (take_snapshot S snapshot))))"

definition backup_actor :: "uuid \<Rightarrow> action \<Rightarrow> (host, user) eff" where
  "backup_actor actor_id action =
     bindE (in_world (on_db (user_get_by_id actor_id))) (\<lambda>actor_opt.
     bindE (liftE (ok_or actor_opt (NotFound ''actor user not found''))) (\<lambda>actor.
     bindE (liftE (check_permission actor action Global)) (\<lambda>_. returnE actor)))"

definition export_backup_secured :: "crypto_lib \<Rightarrow> backup_lib \<Rightarrow> sqlite_lib \<Rightarrow> uuid \<Rightarrow> path \<Rightarrow> path
    \<Rightarrow> string \<Rightarrow> (host, backup_metadata) eff" where
  "export_backup_secured L B S actor_id source target phrase =
     bindE (backup_actor actor_id BackupExport) (\<lambda>_.
     bindE (snapshot_database S source) (\<lambda>snapshot.
     guarded snapshot (export_hvb_with_recovery_key L B snapshot target phrase)))"

definition restore_backup_secured :: "crypto_lib \<Rightarrow> backup_lib \<Rightarrow> uuid \<Rightarrow> path \<Rightarrow> string \<Rightarrow> path
    \<Rightarrow> (host, backup_metadata) eff" where
  "restore_backup_secured L B actor_id source phrase target =
     bindE (backup_actor actor_id BackupRestore) (\<lambda>_.
     on_disk (import_hvb_with_recovery_key L B source phrase target))"

text \<open>\<open>now\<close>: seconds since the epoch, none when the clock is before it.\<close>

definition export_rotation_backup_secured :: "crypto_lib \<Rightarrow> backup_lib \<Rightarrow> sqlite_lib \<Rightarrow> nat option \<Rightarrow> uuid
    \<Rightarrow> path \<Rightarrow> path \<Rightarrow> (host, rotation_backup_ticket) eff" where
  "export_rotation_backup_secured L B S now actor_id source target =
     bindE (in_world (generate_recovery_key B)) (\<lambda>phrase.
     bindE (export_backup_secured L B S actor_id source target phrase) (\<lambda>metadata.
     bindE (liftE (ok_or now Internal)) (\<lambda>secs.
     returnE \<lparr>rbt_backup_file_path = lossy S (join_path target), rbt_recovery_phrase = phrase,
              rbt_metadata_sha256_hex = bm_sha256_hex metadata, rbt_created_at = show_nat secs\<rparr>)))"

definition restore_rotation_backup_secured :: "crypto_lib \<Rightarrow> backup_lib \<Rightarrow> uuid \<Rightarrow> rotation_backup_ticket
    \<Rightarrow> path \<Rightarrow> (host, backup_metadata) eff" where
  "restore_rotation_backup_secured L B actor_id ticket target =
     restore_backup_secured L B actor_id (path_of (rbt_backup_file_path ticket))
       (rbt_recovery_phrase ticket) target"

section \<open>The actor and the snapshot\<close>

text \<open>A disk that meets no fault meets none later.\<close>

definition clean :: "disk \<Rightarrow> bool" where "clean d \<longleftrightarrow> dk_faults d = []"

lemma keeps_io: "(\<And>d. dk_faults (snd (run d)) = dk_faults d) \<Longrightarrow> keeps clean (io_step partial run)"
  by (auto simp: keeps_def clean_def split: prod.split sum.split) (metis snd_conv)+

lemma keeps_clean [inv_intros]:
  "keeps clean (fs_read p)" "keeps clean (fs_remove_file p)" "keeps clean (fs_rename_file p q)" "keeps clean sync_all"
  "keeps clean (open_truncated m p)" "keeps clean (set_permissions p m)" "keeps clean (write_all p bs)"
  "keeps clean (create_private_dir_all p)" "keeps clean (fs_exists p)"
  unfolding disk_defs
  by (intro inv_intros keeps_io; auto split: option.split)+

lemma keeps_clean_write [inv_intros]: "keeps clean (write_private p bs)" "keeps clean (ensure_parent_exists p)"
  unfolding write_private_def ensure_parent_exists_def by (intro inv_intros)+

lemma keeps_clean_atomic [inv_intros]:
  "keeps clean m \<Longrightarrow> keeps clean (or_remove p m)" for m :: "(disk, 'a) eff"
  unfolding or_remove_def by (intro inv_intros)

lemma keeps_write_atomic [inv_intros]: "keeps clean (write_atomic p bs)"
  unfolding write_atomic_def Let_def by (intro inv_intros)

lemma frames_or_remove [frame_intros]:
  "q \<noteq> p \<Longrightarrow> frames (\<lambda>d. dk_files d q) m \<Longrightarrow> frames (\<lambda>d. dk_files d q) (or_remove p m)"
  unfolding or_remove_def by (intro frame_intros)

lemma frames_write_atomic [frame_intros]:
  "q \<noteq> p \<Longrightarrow> q \<noteq> temp_path p \<Longrightarrow> frames (\<lambda>d. dk_files d q) (write_atomic p bs)"
  unfolding write_atomic_def Let_def by (intro frame_intros)

lemma host_lifts [frame_intros]:
  "frames V m \<Longrightarrow> frames (\<lambda>h. V (h_disk h)) (on_disk m)" "frames (\<lambda>h. V (h_disk h)) (in_world m')"
  by (simp_all add: frames_def on_disk_run in_world_run)

lemma host_keeps [inv_intros]:
  "keeps clean m \<Longrightarrow> keeps (\<lambda>h. clean (h_disk h)) (on_disk m)" "keeps (\<lambda>h. clean (h_disk h)) (in_world m')"
  by (simp_all add: keeps_def on_disk_run in_world_run)

lemma frames_export [frame_intros]:
  "q \<noteq> target \<Longrightarrow> q \<noteq> temp_path target \<Longrightarrow>
     frames (\<lambda>h. dk_files (h_disk h) q) (export_hvb_with_recovery_key L B source target phrase)"
  unfolding export_hvb_with_recovery_key_def by (intro frame_intros)

lemma keeps_export [inv_intros]:
  "keeps (\<lambda>h. clean (h_disk h)) (export_hvb_with_recovery_key L B source target phrase)"
  unfolding export_hvb_with_recovery_key_def by (intro inv_intros)

lemma frames_vacuum [frame_intros]: "q \<noteq> p \<Longrightarrow> frames (\<lambda>h. dk_files (h_disk h) q) (vacuum_into S p)"
  unfolding vacuum_into_def Let_def by (intro frame_intros frames_io) auto

lemma keeps_vacuum [inv_intros]: "keeps (\<lambda>h. clean (h_disk h)) (vacuum_into S p)"
  unfolding vacuum_into_def Let_def by (intro inv_intros keeps_io) auto

lemma drop_guard_run:
  "frames (\<lambda>h. dk_files (h_disk h) q) (drop_guard p)" if "q \<noteq> p"
  unfolding drop_guard_def using that by (intro frame_intros)

lemma drop_guard_clean:
  assumes "clean (h_disk h)"
  shows "dk_files (h_disk (snd (drop_guard p h))) p = None"
  using assms by (cases "dk_files (h_disk h) p")
    (auto simp: drop_guard_def bindE_run on_disk_run attemptE_run returnE_run fs_remove_file_def clean_def)

lemma frames_guarded [frame_intros]:
  "q \<noteq> p \<Longrightarrow> frames (\<lambda>h. dk_files (h_disk h) q) m \<Longrightarrow> frames (\<lambda>h. dk_files (h_disk h) q) (guarded p m)"
  "q \<noteq> p \<Longrightarrow> frames (\<lambda>h. dk_files (h_disk h) q) m \<Longrightarrow> frames (\<lambda>h. dk_files (h_disk h) q) (unless_ok p m)"
  unfolding guarded_def unless_ok_def by (intro frame_intros drop_guard_run; simp)+

lemma guarded_clean:
  assumes "keeps (\<lambda>h. clean (h_disk h)) m" "clean (h_disk h)"
  shows "dk_files (h_disk (snd (guarded p m h))) p = None"
    and "unless_ok p m h = (Inl e, h') \<Longrightarrow> dk_files (h_disk h') p = None"
  using drop_guard_clean [of "snd (m h)" p] keepsD [OF assms]
  by (auto simp: guarded_def unless_ok_def bindE_run attemptE_run liftE_run throwE_run returnE_run drop_guard_def
      split: sum.splits)

text \<open>The path SQLite receives: the path of the snapshot with every backslash turned into a slash.\<close>

definition vacuum_path :: "path \<Rightarrow> path" where
  "vacuum_path p = path_of (map (\<lambda>c. if c = CHR 0x5C then CHR ''/'' else c) (join_path (snapshot_path p)))"

lemma bind_name: "bindE (liftE (ok_or (name_to_str n) e)) f = (if utf8_valid (as_bytes n) then f n else throwE e)"
  by (simp add: name_to_str_def bindE_run liftE_run throwE_run fun_eq_iff)

lemma frames_snapshot:
  assumes "q \<noteq> vacuum_path p" "q \<noteq> snapshot_path p"
  shows "frames (\<lambda>h. dk_files (h_disk h) q) (snapshot_database S p)"
  unfolding snapshot_database_def take_snapshot_def Let_def bind_name using assms
  by (intro frame_intros) (simp_all add: vacuum_path_def)

lemma keeps_snapshot_steps: "keeps (\<lambda>h. clean (h_disk h)) (snapshot_database S p)"
  unfolding snapshot_database_def take_snapshot_def Let_def bind_name unless_ok_def drop_guard_def by (intro inv_intros)

lemma unless_ok_Inr: "unless_ok p m h = (Inr a, h') \<Longrightarrow> m h = (Inr a, h')"
  by (cases "m h") (auto simp: unless_ok_def bindE_run attemptE_run throwE_run returnE_run split: sum.splits)

lemma bind_exists_host: "bindE (on_disk (fs_exists p)) f h =
    f (dk_files (h_disk h) p \<noteq> None \<or> dk_dirs (h_disk h) p \<noteq> None) h"
  by (simp add: fs_exists_def bindE_run getsE_run on_disk_run)

lemma snapshot_cases:
  assumes "clean (h_disk h)" "dk_dirs (h_disk h) (snapshot_path p) = None" "snapshot_database S p h = (r, h')"
  shows "case r of Inl e \<Rightarrow> dk_files (h_disk h') (snapshot_path p) = None | Inr s \<Rightarrow> s = snapshot_path p"
proof -
  let ?s = "snapshot_path p"
  let ?h1 = "if dk_files (h_disk h) ?s \<noteq> None then h\<lparr>h_disk := put_file ?s None (h_disk h)\<rparr> else h"
  let ?m = "take_snapshot S ?s"
  have run: "snapshot_database S p h = unless_ok ?s ?m ?h1"
  proof (cases "dk_files (h_disk h) ?s = None")
    case True
    then show ?thesis
      unfolding snapshot_database_def Let_def bind_exists_host using assms(2) by (simp add: bindE_return)
  next
    case False
    then have rm: "on_disk (fs_remove_file ?s) h = (Inr (), h\<lparr>h_disk := put_file ?s None (h_disk h)\<rparr>)"
      using remove_clean [of "h_disk h" ?s] assms(1) by (simp add: on_disk_run clean_def)
    have "snapshot_database S p h = bindE (on_disk (fs_remove_file ?s)) (\<lambda>_. unless_ok ?s ?m) h"
      unfolding snapshot_database_def Let_def bind_exists_host using False by simp
    then show ?thesis using False by (simp add: bindE_run rm)
  qed
  have keep: "keeps (\<lambda>h. clean (h_disk h)) ?m"
    unfolding take_snapshot_def Let_def by (intro inv_intros)
  have h1: "clean (h_disk ?h1)" using assms(1) by (simp add: clean_def)
  show ?thesis
  proof (cases r)
    case (Inl e)
    then have "unless_ok ?s ?m ?h1 = (Inl e, h')" using assms(3) unfolding run by (simp only:)
    then have "dk_files (h_disk h') ?s = None" by (rule guarded_clean(2) [OF keep h1])
    then show ?thesis unfolding Inl sum.case .
  next
    case (Inr a)
    then have "unless_ok ?s ?m ?h1 = (Inr a, h')" using assms(3) unfolding run by (simp only:)
    then have "?m ?h1 = (Inr a, h')" by (rule unless_ok_Inr)
    then have "a = ?s" by (auto simp only: take_snapshot_def Let_def bindE_Inr_iff returnE_iff sum.inject)
    then show ?thesis unfolding Inr sum.case .
  qed
qed

lemma backup_actor_run:
  assumes "action \<in> {BackupExport, BackupRestore}"
  shows "if \<exists>row. user_by_id actor_id (w_db (h_world h)) = Some row \<and> ur_role row = ''admin''
    then \<exists>u. backup_actor actor_id action h = (Inr u, h) else \<exists>e. backup_actor actor_id action h = (Inl e, h)"
proof -
  have same: "h\<lparr>h_world := (h_world h)\<lparr>w_db := w_db (h_world h)\<rparr>\<rparr> = h" by simp
  show ?thesis
    using assms
    by (auto simp: backup_actor_def bindE_run in_world_run on_db_run user_get_by_id_def eff_simps row_to_user_def
        parse_role_def check_permission_def denied_def split: option.split sum.split)
qed

lemma export_snapshot_only:
  assumes "dk_faults (h_disk h) = []"
    and "dk_dirs (h_disk h) (snapshot_path source) = None"
    and "export_backup_secured L B S actor_id source target phrase h = (r, h')"
  shows "(\<forall>q. q \<notin> {target, temp_path target, snapshot_path source, vacuum_path source} \<longrightarrow>
        dk_files (h_disk h') q = dk_files (h_disk h) q)
    \<and> (if \<exists>row. user_by_id actor_id (w_db (h_world h)) = Some row \<and> ur_role row = ''admin''
       then dk_files (h_disk h') (snapshot_path source) = None
       else h' = h \<and> (\<exists>e. r = Inl e)
         \<and> (\<exists>e. restore_backup_secured L B actor_id backup phrase target h = (Inl e, h)))"
proof -
  let ?s = "snapshot_path source"
  have cln: "clean (h_disk h)" using assms(1) by (simp add: clean_def)
  note actor = backup_actor_run [of BackupExport actor_id h] backup_actor_run [of BackupRestore actor_id h]
  show ?thesis
  proof (cases "\<exists>row. user_by_id actor_id (w_db (h_world h)) = Some row \<and> ur_role row = ''admin''")
    case False
    then obtain e e' where "backup_actor actor_id BackupExport h = (Inl e, h)"
      "backup_actor actor_id BackupRestore h = (Inl e', h)" using actor unfolding if_not_P [OF False] by blast
    then show ?thesis
      using False assms(3) by (auto simp: export_backup_secured_def restore_backup_secured_def bindE_run)
  next
    case True
    obtain r1 h1 where snap: "snapshot_database S source h = (r1, h1)" by (cases "snapshot_database S source h")
    have cln1: "clean (h_disk h1)" using keepsD [OF keeps_snapshot_steps, of h S source] cln snap by simp
    let ?g = "guarded ?s (export_hvb_with_recovery_key L B ?s target phrase)"
    have r: "(r, h') = (case r1 of Inl e \<Rightarrow> (Inl e, h1) | Inr _ \<Rightarrow> ?g h1)"
      using True actor(1) assms(3) snapshot_cases [OF cln assms(2) snap]
      by (cases r1) (auto simp: export_backup_secured_def bindE_run snap)
    have "dk_files (h_disk h1) q = dk_files (h_disk h) q" if "q \<noteq> vacuum_path source" "q \<noteq> ?s" for q
      using framesD [OF frames_snapshot [OF that] snap] .
    moreover have "dk_files (h_disk (snd (?g h1))) q = dk_files (h_disk h1) q"
      if "q \<noteq> target" "q \<noteq> temp_path target" "q \<noteq> ?s" for q
      using frames_guarded(1) [OF that(3) frames_export [OF that(1,2)]] by (simp add: frames_def)
    moreover have "dk_files (h_disk (snd (?g h1))) ?s = None" by (rule guarded_clean(1) [OF keeps_export cln1])
    ultimately show ?thesis
      using r snapshot_cases [OF cln assms(2) snap] True by (cases r1) (auto simp: prod_eq_iff)
  qed
qed

text \<open>
  C20: An export removes its snapshot of the database: on a disk that meets no fault, with no directory in
  the snapshot's place, whether the export succeeds or fails, and whatever the user's phrase or the target, no
  file is at the snapshot's path afterwards, and no file has changed but the target, its temporary sibling
  and the path that SQLite was given for the snapshot. That path is the snapshot's own unless a backslash in
  it was turned into a slash: then a copy in clear may stay there. An actor who is not an administrator of the
  application gets an error and touches nothing, neither on export nor on restore.
\<close>

theorem export_leaves_no_plaintext:
  assumes "dk_faults (h_disk h) = []"
    and "dk_dirs (h_disk h) (snapshot_path source) = None"
    and "export_backup_secured L B S actor_id source target phrase h = (r, h')"
  shows "(\<forall>q. q \<notin> {target, temp_path target, snapshot_path source, vacuum_path source} \<longrightarrow>
        dk_files (h_disk h') q = dk_files (h_disk h) q)
    \<and> (vacuum_path source = snapshot_path source \<longrightarrow> (\<forall>q. q \<notin> {target, temp_path target} \<longrightarrow>
        dk_files (h_disk h') q = None \<or> dk_files (h_disk h') q = dk_files (h_disk h) q))
    \<and> (if \<exists>row. user_by_id actor_id (w_db (h_world h)) = Some row \<and> ur_role row = ''admin''
       then dk_files (h_disk h') (snapshot_path source) = None
       else h' = h \<and> (\<exists>e. r = Inl e)
         \<and> (\<exists>e. restore_backup_secured L B actor_id backup phrase target h = (Inl e, h)))"
proof -
  note only = export_snapshot_only [OF assms, of backup]
  have "dk_files (h_disk h') q = None \<or> dk_files (h_disk h') q = dk_files (h_disk h) q"
    if "vacuum_path source = snapshot_path source" "q \<notin> {target, temp_path target}" for q
    using only that by (cases "q = snapshot_path source") (auto split: if_splits)
  then show ?thesis using only by blast
qed

theorem export_leaves_no_plaintext_witness:
  "\<exists>r h h'. export_backup_secured toy_lib toy_backup \<lparr>sqlite_image = (\<lambda>_. SQLITE_HEADER),
      sqlite_failure = (\<lambda>_. RowNotFound), lossy = (\<lambda>s. s)\<rparr> 7 [''v.db''] [''b.hvb''] ''legal winner'' h = (r, h')
    \<and> user_by_id 7 (w_db (h_world h)) = Some (new_user_row 7 ''amy'' Admin)
    \<and> dk_files (h_disk h') [''.v.db.snapshot''] = None \<and> dk_files (h_disk h') [''v.db''] = dk_files (h_disk h) [''v.db'']"
proof -
  let ?S = "\<lparr>sqlite_image = (\<lambda>_. SQLITE_HEADER), sqlite_failure = (\<lambda>_. RowNotFound), lossy = (\<lambda>s. s)\<rparr>"
  let ?h = "sample_host\<lparr>h_world := (empty_world ''now'')\<lparr>w_db := (empty_db ''now'')\<lparr>users := [new_user_row 7 ''amy'' Admin]\<rparr>\<rparr>\<rparr>"
  have paths: "snapshot_path [''v.db''] = [''.v.db.snapshot'']" "temp_path [''b.hvb''] = [''.b.hvb.partial'']"
    by (simp_all add: snapshot_path_def temp_path_def path_file_name_def name_to_str_def set_file_name_def as_bytes_def)
  have named: "vacuum_path [''v.db''] = [''.v.db.snapshot'']" by (simp add: vacuum_path_def paths path_of_def Let_def)
  obtain r h' where run: "export_backup_secured toy_lib toy_backup ?S 7 [''v.db''] [''b.hvb''] ''legal winner'' ?h = (r, h')"
    by (rule prod.exhaust)
  have amy: "user_by_id 7 (w_db (h_world ?h)) = Some (new_user_row 7 ''amy'' Admin)"
    by (simp add: user_by_id_def new_user_row_def)
  have "dk_files (h_disk h') (snapshot_path [''v.db'']) = None \<and> dk_files (h_disk h') [''v.db''] = dk_files (h_disk ?h) [''v.db'']"
    using export_leaves_no_plaintext [OF _ _ run, of "[]"] amy
    by (simp add: paths named sample_host_def new_user_row_def)
  then show ?thesis using run amy unfolding paths by blast
qed


end
