(* ===== verification/HV_Recovery.thy ===== *)
theory HV_Recovery
  imports HV_Backup HV_AuthPolicy
begin

text \<open>
  services/admin_service.rs: the first administrator with its recovery key, and the community stub;
  services/recovery_service.rs: a new master password on a restored backup.
\<close>

record bootstrap_result =
  br_user_id :: uuid
  br_username :: string
  br_master_key :: bytes
  br_recovery_phrase :: string

definition bootstrap_first_admin_with_recovery :: "crypto_lib \<Rightarrow> kdf_config \<Rightarrow> string \<Rightarrow> bytes \<Rightarrow> string
    \<Rightarrow> (world, bootstrap_result) eff" where
  "bootstrap_first_admin_with_recovery L cfg username password phrase =
     bindE (on_db user_list_all) (\<lambda>us.
     bindE (liftE (ensure (us = [])
              (Conflict ''vault already initialized; use the login form to access your account''))) (\<lambda>_.
     let trimmed = trim username in
     bindE (liftE (ensure (trimmed \<noteq> []) (Validation ''username must not be empty''))) (\<lambda>_.
     bindE (liftE (password_text password)) (\<lambda>pw.
     bindE generate_account_key (\<lambda>account_key.
     bindE (wrap_account_key L cfg pw account_key) (\<lambda>wrapped.
     let envelope = encode_password_envelope wrapped in
     bindE (upsert_password_envelope trimmed envelope) (\<lambda>_.
     bindE new_v4 (\<lambda>user_id.
     bindE (on_db (create_user_db user_id trimmed Admin)) (\<lambda>_.
     bindE (on_db (update_password_envelope user_id envelope)) (\<lambda>_.
     bindE (seal_with_recovery_phrase L cfg phrase account_key) (\<lambda>sealed.
     bindE (on_db (repo_set_recovery_key_envelope user_id sealed)) (\<lambda>_.
     bindE (build_recovery_verifier L phrase) (\<lambda>verifier.
     bindE (on_db (set_recovery_verifier user_id verifier)) (\<lambda>_.
     returnE \<lparr>br_user_id = user_id, br_username = trimmed, br_master_key = account_key,
              br_recovery_phrase = phrase\<rparr>))))))))))))))"

text \<open>\<open>CommunityAdminService\<close>: every operation answers the same error.\<close>

definition community_admin :: "(world, 'a) eff" where
  "community_admin = throwE (FeatureNotAvailable ''feature-name-user-management'')"

fun only_account :: "user list \<Rightarrow> user result" where
  "only_account [user] = Inr user"
| "only_account [] = Inl (Recovery NoAccount)"
| "only_account _ = Inl (Recovery MultipleAccounts)"

fun reopen_account :: "(uuid \<Rightarrow> string) \<Rightarrow> crypto_lib \<Rightarrow> kdf_config \<Rightarrow> user \<Rightarrow> string \<Rightarrow> string
    \<Rightarrow> password_envelope \<Rightarrow> (world, rekey_outcome) eff" where
  "reopen_account show_id L cfg user phrase new_password (Legacy _ master_key) =
     migrate_to_account_key show_id L cfg (usr_id user) master_key new_password (Some phrase)"
| "reopen_account show_id L cfg user phrase new_password (AccountKey _ _) =
     bindE (on_db (repo_get_recovery_key_envelope (usr_id user))) (\<lambda>sealed_opt.
     bindE (liftE (ok_or sealed_opt (Recovery RecoveryKeyMissing))) (\<lambda>sealed.
     bindE (liftE (map_err (\<lambda>_. Recovery InconsistentKeyMaterial)
              (open_with_recovery_phrase L cfg phrase sealed))) (\<lambda>account_key.
     replace_password L cfg (usr_id user) account_key new_password)))"

definition reset_master_password_from_backup :: "(uuid \<Rightarrow> string) \<Rightarrow> crypto_lib \<Rightarrow> kdf_config \<Rightarrow> string
    \<Rightarrow> string \<Rightarrow> (world, rekey_report) eff" where
  "reset_master_password_from_backup show_id L cfg phrase new_password =
     bindE (on_db user_list_all) (\<lambda>us.
     bindE (liftE (only_account us)) (\<lambda>user.
     bindE (on_db (get_password_envelope_by_user_id (usr_id user))) (\<lambda>stored_opt.
     bindE (liftE (ok_or stored_opt (Storage ''the restored account has no password envelope''))) (\<lambda>stored.
     bindE (liftE (decode_password_envelope stored)) (\<lambda>envelope.
     bindE (reopen_account show_id L cfg user phrase new_password envelope) (\<lambda>outcome.
     bindE (on_db (auth_reset_failed_attempts (usr_username user))) (\<lambda>_.
     returnE (ro_report outcome))))))))"

section \<open>The recovery verifier\<close>

lemma verifier_tag_length:
  "kdf_ok L \<Longrightarrow> derive_recovery_verifier_tag L phrase salt = Inr tag \<Longrightarrow> length tag = RECOVERY_VERIFIER_TAG_LEN"
  by (auto simp: derive_recovery_verifier_tag_def argon2_into_def map_err_def kdf_ok_def
      split: if_splits option.splits sum.splits)

lemma verifier_Inr:
  assumes "crypto_lib_ok L" "build_recovery_verifier L phrase w = (Inr verifier, w')"
  shows "verify_recovery_phrase L phrase verifier = Inr True" "w_db w' = w_db w" "w_auth w' = w_auth w"
proof -
  obtain salt tag where v: "generate_recovery_salt w = (Inr salt, w')"
    "derive_recovery_verifier_tag L phrase salt = Inr tag" "verifier = [RECOVERY_VERIFIER_VERSION] @ salt @ tag"
    using assms(2) by (auto simp: build_recovery_verifier_def eff_iffs)
  have salt: "length salt = RECOVERY_SALT_LEN" "w' = tick w"
    using fill_or_Inr v(1) by (auto simp: generate_recovery_salt_def)
  have "length tag = RECOVERY_VERIFIER_TAG_LEN"
    using assms(1) v(2) verifier_tag_length by (auto simp: crypto_lib_ok_def)
  then show "verify_recovery_phrase L phrase verifier = Inr True"
    using v(2) salt(1) by (simp add: verify_recovery_phrase_def v(3) RECOVERY_VERIFIER_LEN_def Let_def)
  show "w_db w' = w_db w" "w_auth w' = w_auth w" using salt(2) by simp_all
qed

section \<open>The first administrator\<close>

lemma no_users: "user_list_all d = (Inr [], d') \<Longrightarrow> users d = [] \<and> d' = d"
proof -
  assume "user_list_all d = (Inr [], d')"
  then have "mapR row_to_user (sort_key ur_username (users d)) = Inr []" "d' = d"
    by (auto simp: user_list_all_def eff_iffs)
  then have "length (sort_key ur_username (users d)) = 0" by (simp add: mapR_Inr_iff)
  then show ?thesis using \<open>d' = d\<close> by simp
qed

lemma update_only_user:
  assumes "update_user uid f err d = (Inr (), d')" "users d = [row]" "ur_id row = uid"
  shows "d' = d\<lparr>users := [f d row]\<rparr>"
  using assms by (simp add: update_user_Inr update_where_def)

text \<open>
  C5: The first administrator is complete: a bootstrap that succeeds found no account and leaves exactly
  one, an administrator under the trimmed name, whose password opens the account key that is returned,
  whose recovery phrase opens the same key, whose verifier accepts the phrase, and whose stored envelope is
  the one the authentication service holds.
\<close>

theorem bootstrap_sets_up_account:
  assumes "crypto_lib_ok L"
    and "bootstrap_first_admin_with_recovery L cfg username password phrase w = (Inr br, w')"
  shows "users (w_db w) = [] \<and> br_username br = trim username \<and> length (br_master_key br) = ACCOUNT_KEY_LEN
    \<and> opens L cfg w' (trim username) password (br_master_key br)
    \<and> (\<exists>row pe sealed verifier. users (w_db w') = [row] \<and> ur_id row = br_user_id br
        \<and> ur_username row = trim username \<and> ur_role row = ''admin''
        \<and> ur_password_envelope row = Some pe \<and> lookup_envelope (trim username) w' = Some pe
        \<and> ur_recovery_key_envelope row = Some sealed
        \<and> open_with_recovery_phrase L cfg phrase sealed = Inr (br_master_key br)
        \<and> ur_recovery_verifier row = Some verifier
        \<and> verify_recovery_phrase L phrase verifier = Inr True)"
proof -
  obtain d0 pw key w1 e w2 w3 uid w4 d5 d6 sealed w7 d8 verifier w9 d10 where
    none: "user_list_all (w_db w) = (Inr [], d0)" and name: "trim username \<noteq> []" and pw: "password_text password = Inr pw"
    and key: "generate_account_key (w\<lparr>w_db := d0\<rparr>) = (Inr key, w1)" and e: "wrap_account_key L cfg pw key w1 = (Inr e, w2)"
    and up: "upsert_password_envelope (trim username) (encode_password_envelope e) w2 = (Inr (), w3)"
    and uid: "new_v4 w3 = (Inr uid, w4)" and create: "create_user_db uid (trim username) Admin (w_db w4) = (Inr (), d5)"
    and env: "update_password_envelope uid (encode_password_envelope e) d5 = (Inr (), d6)"
    and sealed: "seal_with_recovery_phrase L cfg phrase key (w4\<lparr>w_db := d6\<rparr>) = (Inr sealed, w7)"
    and rec: "repo_set_recovery_key_envelope uid sealed (w_db w7) = (Inr (), d8)"
    and ver: "build_recovery_verifier L phrase (w7\<lparr>w_db := d8\<rparr>) = (Inr verifier, w9)"
    and last: "set_recovery_verifier uid verifier (w_db w9) = (Inr (), d10)" and w': "w' = w9\<lparr>w_db := d10\<rparr>"
    and br: "br = \<lparr>br_user_id = uid, br_username = trim username, br_master_key = key, br_recovery_phrase = phrase\<rparr>"
    using assms(2) unfolding bootstrap_first_admin_with_recovery_def Let_def
    by (auto simp: bindE_Inr_iff liftE_Inr_iff on_db_iff returnE_iff)
  have start: "users (w_db w) = []" "d0 = w_db w" using no_users [OF none] by simp_all
  have w1: "length key = ACCOUNT_KEY_LEN" "w_db w1 = w_db w"
    using fill_or_Inr [OF key [unfolded generate_account_key_def]] start(2) by simp_all
  obtain salt wrapped where "e = AccountKey salt wrapped" "length salt = 32" "payload_ok wrapped"
    "length (ciphertext wrapped) = length key + 16"
    and unlock: "unlock_password_envelope L cfg e pw = Inr (Some key)" and w2: "w_auth w2 = w_auth w1" "w_db w2 = w_db w1"
    by (rule wrap_account_key_Inr [OF assms(1) e])
  have wf: "envelope_wf e" by (rule wrapped_envelope_wf [OF assms(1) e]) (simp add: w1(1) ACCOUNT_KEY_LEN_def)
  have w3: "w3 = snd (put_envelope (trim username) (encode_password_envelope e) w2)" "\<not> shutdown_in_progress (w_auth w2)"
    using up by (auto simp: upsert_password_envelope_def eff_iffs not_shutting_down_iff)
  have w4: "w_db w4 = w_db w" "w_auth w4 = w_auth w3" using uid w1(2) w2(2) w3(1) by (auto simp: new_v4_run)
  let ?row = "new_user_row uid (trim username) Admin"
  let ?pe = "encode_password_envelope e"
  have "users d5 = [?row]" using create start(1) w4(1) by (auto simp: create_user_db_def eff_iffs split: if_splits)
  then have "users d6 = [?row\<lparr>ur_password_envelope := Some ?pe\<rparr>]"
    using update_only_user [OF env [unfolded update_password_envelope_def]] by (simp add: new_user_row_def)
  moreover have sealed_state: "w_db w7 = d6" "w_auth w7 = w_auth w4"
    "open_with_recovery_phrase L cfg phrase sealed = Inr key"
    using seal_Inr [OF assms(1) sealed refl] by (simp_all add: stored_state_def)
  ultimately have "users d8 = [?row\<lparr>ur_password_envelope := Some ?pe, ur_recovery_key_envelope := Some sealed\<rparr>]"
    using update_only_user [OF rec [unfolded repo_set_recovery_key_envelope_def]] by (simp add: new_user_row_def)
  moreover note verifier = verifier_Inr [OF assms(1) ver]
  ultimately have row: "users (w_db w') = [?row\<lparr>ur_password_envelope := Some ?pe,
      ur_recovery_key_envelope := Some sealed, ur_recovery_verifier := Some verifier\<rparr>]"
    using update_only_user [OF last [unfolded set_recovery_verifier_def]] w' by (simp add: new_user_row_def)
  have auth: "w_auth w' = w_auth w3" using w' verifier(3) sealed_state(2) w4(2) by simp
  then have "opens L cfg w' (trim username) password key"
    using unlock pw w3 decode_encode [OF wf]
    by (auto simp: opens_iff lookup_cong [OF auth] password_text_def password_to_secret_string_def)
  moreover have "lookup_envelope (trim username) w' = Some ?pe" by (simp add: lookup_cong [OF auth] w3(1))
  ultimately show ?thesis
    using start(1) w1(1) row sealed_state(3) verifier(1) by (simp add: br new_user_row_def)
qed

section \<open>A new password on a restored backup\<close>

lemma policy_only:
  "access_to u vid (d\<lparr>auth_policy := ps\<rparr>) = access_to u vid d"
  "envelope_for u vid (d\<lparr>auth_policy := ps\<rparr>) = envelope_for u vid d"
  "user_by_id u (d\<lparr>auth_policy := ps\<rparr>) = user_by_id u d"
proof -
  have "vault_by_id vid (d\<lparr>auth_policy := ps\<rparr>) = vault_by_id vid d"
    "share_of k u (d\<lparr>auth_policy := ps\<rparr>) = share_of k u d" for k
    by (simp_all add: vault_by_id_def share_of_def)
  moreover from this have "granted_access u v (d\<lparr>auth_policy := ps\<rparr>) = granted_access u v d" for v
    by (simp add: granted_access_def)
  ultimately show "access_to u vid (d\<lparr>auth_policy := ps\<rparr>) = access_to u vid d"
    "envelope_for u vid (d\<lparr>auth_policy := ps\<rparr>) = envelope_for u vid d"
    "user_by_id u (d\<lparr>auth_policy := ps\<rparr>) = user_by_id u d"
    by (simp_all add: access_to_def envelope_for_def user_by_id_def split: option.split)
qed

lemma auth_reset_effect:
  obtains ps where "auth_reset_failed_attempts u d = (Inr (), d\<lparr>auth_policy := ps\<rparr>)"
proof -
  have "\<exists>ps. snd (auth_reset_failed_attempts u d) = d\<lparr>auth_policy := ps\<rparr>"
    by (auto simp: auth_reset_failed_attempts_def ensure_row_exists_def fetch_auth_row_def update_auth_row_def
        bindE_run modifyE_run getsE_run liftE_run returnE_run split: sum.split intro: exI [of _ "auth_policy d"])
  then show ?thesis using auth_reset_is_Inr [of u d] that by (metis prod.collapse)
qed

lemma rekeyed_policy: "rekeyed L uid k k' pe d (d'\<lparr>auth_policy := ps\<rparr>) = rekeyed L uid k k' pe d d'"
  unfolding rekeyed_def moved_to_def policy_only by simp

text \<open>The key the backup holds: in clear for a legacy account, sealed under the phrase otherwise.\<close>

definition held_key :: "crypto_lib \<Rightarrow> kdf_config \<Rightarrow> string \<Rightarrow> user_row \<Rightarrow> bytes \<Rightarrow> bool" where
  "held_key L cfg phrase row key \<longleftrightarrow> (\<exists>stored. ur_password_envelope row = Some stored
     \<and> (case decode_password_envelope stored of
          Inr (Legacy _ master_key) \<Rightarrow> key = master_key
        | Inr (AccountKey _ _) \<Rightarrow> (\<exists>sealed. ur_recovery_key_envelope row = Some sealed
            \<and> open_with_recovery_phrase L cfg phrase sealed = Inr key)
        | Inl _ \<Rightarrow> False))"

lemma opened_length:
  assumes "crypto_lib_ok L" "open_with_recovery_phrase L cfg phrase sealed = Inr key"
  shows "length sealed = RECOVERY_KEY_HEADER_LEN + length key + 16"
proof -
  obtain kek where "decrypt L \<lparr>nonce = take NONCE_LEN (drop (1 + KDF_SALT_LEN) sealed),
      ciphertext = drop RECOVERY_KEY_HEADER_LEN sealed\<rparr> kek = Inr key" "RECOVERY_KEY_HEADER_LEN < length sealed"
    using assms(2) by (auto simp: open_with_recovery_phrase_def Let_def bindR_Inr_iff split: if_splits)
  then show ?thesis using decrypt_length [OF assms(1)] by fastforce
qed

lemma reopen_post:
  assumes "crypto_lib_ok L" "db_ok (w_db w)" "user_by_id (usr_id user) (w_db w) = Some row"
    and "ur_password_envelope row = Some stored" "decode_password_envelope stored = Inr envelope"
    and "\<forall>sealed. ur_recovery_key_envelope row = Some sealed \<longrightarrow> length sealed < 2 ^ 16"
    and "reopen_account show_id L cfg user phrase new_password envelope w = (r, w')"
  shows "w_auth w' = w_auth w \<and> (case r of
      Inl e \<Rightarrow> w_db w' = w_db w
    | Inr out \<Rightarrow> \<exists>key. held_key L cfg phrase row key \<and> new_credentials L cfg new_password out
        \<and> rekeyed L (usr_id user) key (ro_session_key out) (ro_password_envelope out) (w_db w) (w_db w'))"
proof (cases envelope)
  case (Legacy salt mk)
  have "rekey_post L cfg (usr_id user) mk new_password w (r, w')"
    using migrate_post [OF assms(1,2), of cfg "usr_id user" mk new_password show_id "Some phrase"] assms(7) Legacy by simp
  moreover have "held_key L cfg phrase row mk" using assms(4,5) Legacy by (simp add: held_key_def)
  ultimately show ?thesis by (auto simp: rekey_post_def split: sum.splits)
next
  case (AccountKey salt wrapped)
  have get: "on_db (repo_get_recovery_key_envelope (usr_id user)) w = (Inr (ur_recovery_key_envelope row), w)"
    using assms(3) by (simp add: on_db_run repo_get_recovery_key_envelope_def get_user_column_def eff_simps)
  show ?thesis
  proof (cases "ur_recovery_key_envelope row")
    case None
    then show ?thesis using assms(7) AccountKey by (auto simp: bindE_run get liftE_run)
  next
    case (Some sealed)
    show ?thesis
    proof (cases "open_with_recovery_phrase L cfg phrase sealed")
      case (Inl e)
      then show ?thesis using assms(7) AccountKey Some by (auto simp: bindE_run get liftE_run)
    next
      case (Inr key)
      have "rekey_post L cfg (usr_id user) key new_password w (replace_password L cfg (usr_id user) key new_password w)"
        using opened_length [OF assms(1) Inr] assms(6) Some
        by (intro replace_post [OF assms(1,2)]) (simp add: RECOVERY_KEY_HEADER_LEN_def len_defs)
      moreover have "replace_password L cfg (usr_id user) key new_password w = (r, w')"
        using assms(7) AccountKey Some Inr by (simp add: bindE_run get liftE_run)
      moreover have "held_key L cfg phrase row key" using assms(4,5) AccountKey Some Inr by (simp add: held_key_def)
      ultimately show ?thesis by (auto simp: rekey_post_def split: sum.splits)
    qed
  qed
qed

lemma reset_steps:
  assumes "reset_master_password_from_backup show_id L cfg phrase new_password w = (r, w')"
  shows "(\<exists>e. r = Inl e) \<and> w' = w
    \<or> (\<exists>user row stored envelope outcome w1. users (w_db w) = [row] \<and> usr_id user = ur_id row
        \<and> usr_username user = ur_username row \<and> ur_password_envelope row = Some stored
        \<and> decode_password_envelope stored = Inr envelope
        \<and> reopen_account show_id L cfg user phrase new_password envelope w = (outcome, w1)
        \<and> (case outcome of
              Inl e \<Rightarrow> r = Inl e \<and> w' = w1
            | Inr out \<Rightarrow> \<exists>ps. auth_reset_failed_attempts (ur_username row) (w_db w1) = (Inr (), (w_db w1)\<lparr>auth_policy := ps\<rparr>)
                \<and> r = Inr (ro_report out) \<and> w' = w1\<lparr>w_db := (w_db w1)\<lparr>auth_policy := ps\<rparr>\<rparr>))"
proof (cases "(\<exists>e. r = Inl e) \<and> w' = w")
  case False
  have reading: "reads (user_list_all :: (db, user list) eff)" "reads (get_password_envelope_by_user_id uid)" for uid
    by (intro frame_intros) (simp add: get_password_envelope_by_user_id_def get_user_column_def frames_getsE)
  obtain user stored envelope where
    us: "fst (user_list_all (w_db w)) = Inr [user]"
    and stored: "fst (get_password_envelope_by_user_id (usr_id user) (w_db w)) = Inr (Some stored)"
    and envelope: "decode_password_envelope stored = Inr envelope"
    and run: "bindE (reopen_account show_id L cfg user phrase new_password envelope) (\<lambda>outcome.
      bindE (on_db (auth_reset_failed_attempts (usr_username user))) (\<lambda>_. returnE (ro_report outcome))) w = (r, w')"
    using assms False unfolding reset_master_password_from_backup_def
    by (simp only: bind_reads_run reading reads_on_db frames_liftE)
      (auto simp: on_db_run liftE_run split: sum.splits elim!: only_account.elims; metis)
  have "list_all2 (\<lambda>x y. row_to_user x = Inr y) (sort_key ur_username (users (w_db w))) [user]"
    using us by (simp add: user_list_all_def eff_simps mapR_Inr_iff)
  then obtain row where sorted: "sort_key ur_username (users (w_db w)) = [row]" and row: "row_to_user row = Inr user"
    by (auto simp: list_all2_Cons2)
  have "length (users (w_db w)) = 1" using arg_cong [OF sorted, of length] by simp
  then obtain x where x: "users (w_db w) = [x]" by (auto simp: length_Suc_conv)
  then have users: "users (w_db w) = [row]" using sorted by simp
  have names: "usr_id user = ur_id row" "usr_username user = ur_username row"
    using row by (auto simp: row_to_user_def bindR_Inr_iff)
  have "ur_password_envelope row = Some stored"
    using stored users names(1) by (simp add: get_password_envelope_by_user_id_def get_user_column_def eff_simps user_by_id_def)
  moreover obtain outcome w1 where out: "reopen_account show_id L cfg user phrase new_password envelope w = (outcome, w1)"
    by (rule prod.exhaust)
  moreover have "case outcome of
      Inl e \<Rightarrow> r = Inl e \<and> w' = w1
    | Inr out \<Rightarrow> \<exists>ps. auth_reset_failed_attempts (ur_username row) (w_db w1) = (Inr (), (w_db w1)\<lparr>auth_policy := ps\<rparr>)
        \<and> r = Inr (ro_report out) \<and> w' = w1\<lparr>w_db := (w_db w1)\<lparr>auth_policy := ps\<rparr>\<rparr>"
  proof -
    obtain ps where "auth_reset_failed_attempts (ur_username row) (w_db w1) = (Inr (), (w_db w1)\<lparr>auth_policy := ps\<rparr>)"
      by (rule auth_reset_effect)
    then show ?thesis using run out names by (cases outcome) (auto simp: bindE_run on_db_run returnE_run)
  qed
  ultimately show ?thesis using users names envelope by blast
qed simp

text \<open>
  C4: The recovery phrase gives the account back: on a restored backup a reset of the master password
  succeeds only when there is one account; the key the backup holds, in clear or sealed under the phrase,
  opened its vaults, every vault key is readable afterwards under a key that the new password unlocks,
  nothing else of the vaults and secrets changes and the lockout counter of the account is cleared; a reset
  that fails changes no row.
\<close>

theorem reset_reopens_account:
  assumes "crypto_lib_ok L" and "world_ok w"
    and "\<forall>row \<in> set (users (w_db w)). \<forall>sealed. ur_recovery_key_envelope row = Some sealed \<longrightarrow> length sealed < 2 ^ 16"
    and "reset_master_password_from_backup show_id L cfg phrase new_password w = (r, w')"
  shows "w_auth w' = w_auth w \<and> (case r of
      Inl e \<Rightarrow> w_db w' = w_db w
    | Inr report \<Rightarrow> \<exists>row old_key out. users (w_db w) = [row] \<and> held_key L cfg phrase row old_key
        \<and> new_credentials L cfg new_password out \<and> ro_report out = report
        \<and> rekeyed L (ur_id row) old_key (ro_session_key out) (ro_password_envelope out) (w_db w) (w_db w')
        \<and> (trim (ur_username row) \<noteq> [] \<longrightarrow> ap_failed_attempts (auth_row_of (ur_username row) (w_db w')) = 0))"
  using reset_steps [OF assms(4)]
proof (elim disjE exE conjE, goal_cases)
  case (1 e)
  then show ?case by simp
next
  case (2 user row stored envelope outcome w1)
  have id: "user_by_id (usr_id user) (w_db w) = Some row" using 2(1,2) by (simp add: user_by_id_def)
  have db: "db_ok (w_db w)" using assms(2) by (simp add: world_ok_def)
  have sealed: "\<forall>sealed. ur_recovery_key_envelope row = Some sealed \<longrightarrow> length sealed < 2 ^ 16"
    using assms(3) 2(1) by simp
  note post = reopen_post [OF assms(1) db id 2(4,5) sealed 2(6)]
  show ?case
  proof (cases outcome)
    case (Inl e)
    then show ?thesis using post 2(7) by simp
  next
    case (Inr out)
    then obtain ps where ps: "auth_reset_failed_attempts (ur_username row) (w_db w1) = (Inr (), (w_db w1)\<lparr>auth_policy := ps\<rparr>)"
      "r = Inr (ro_report out)" "w' = w1\<lparr>w_db := (w_db w1)\<lparr>auth_policy := ps\<rparr>\<rparr>" using 2(7) by auto
    have "ap_failed_attempts (auth_row_of (ur_username row) (w_db w')) = 0" if "trim (ur_username row) \<noteq> []"
      using auth_reset_run [OF that, of "ur_username row" "w_db w1"] ps(1,3) by simp
    then show ?thesis
      using post Inr 2(1,2) by (auto simp: ps(2,3) rekeyed_policy)
  qed
qed

section \<open>Examples\<close>

lemma toy_verifier:
  assumes "rng_works w"
  obtains verifier where "build_recovery_verifier toy_lib phrase w = (Inr verifier, tick w)"
proof -
  obtain salt where salt: "generate_recovery_salt w = (Inr salt, tick w)" "length salt = RECOVERY_SALT_LEN"
    using fill_or_works [OF assms, of "''recovery salt generation failed: ''" RECOVERY_SALT_LEN]
    unfolding generate_recovery_salt_def by blast
  then have "\<exists>tag. derive_recovery_verifier_tag toy_lib phrase salt = Inr tag"
    by (simp add: derive_recovery_verifier_tag_def argon2_into_def toy_lib_def)
  then show ?thesis using salt(1) that by (auto simp: build_recovery_verifier_def bindE_run liftE_run returnE_run)
qed

lemma bootstrap_half:
  assumes "wrap_account_key L default_kdf_config ''secret'' = wrap_account_key toy_lib default_kdf_config ''secret''"
  obtains key uid pe w4 where "rng_works w4"
    "w_db w4 = (empty_db ''now'')\<lparr>users := [(new_user_row uid ''amy'' Admin)\<lparr>ur_password_envelope := Some pe\<rparr>]\<rparr>"
    "bootstrap_first_admin_with_recovery L default_kdf_config ''amy'' (as_bytes ''secret'') phrase (empty_world ''now'') =
      bindE (seal_with_recovery_phrase L default_kdf_config phrase key) (\<lambda>sealed.
      bindE (on_db (repo_set_recovery_key_envelope uid sealed)) (\<lambda>_.
      bindE (build_recovery_verifier L phrase) (\<lambda>verifier.
      bindE (on_db (set_recovery_verifier uid verifier)) (\<lambda>_.
      returnE \<lparr>br_user_id = uid, br_username = ''amy'', br_master_key = key, br_recovery_phrase = phrase\<rparr>)))) w4"
proof -
  let ?w = "empty_world ''now''"
  have name: "trim ''amy'' = ''amy''" by (simp add: trim_def trim_with.simps white_space_def)
  have pw: "password_text (as_bytes ''secret'') = Inr ''secret''"
    unfolding password_text_def by (subst from_utf8_as_bytes) (simp_all add: as_bytes_def)
  have none: "on_db user_list_all ?w = (Inr [], ?w)"
    by (simp add: on_db_run user_list_all_def eff_simps empty_world_def empty_db_def)
  obtain key where key: "generate_account_key ?w = (Inr key, tick ?w)" "length key = ACCOUNT_KEY_LEN"
    using fill_or_works [of ?w "''account key generation failed: ''" ACCOUNT_KEY_LEN]
    unfolding generate_account_key_def by auto
  have "rng_works (tick ?w)" by simp
  then obtain e w2 where e: "wrap_account_key toy_lib default_kdf_config ''secret'' key (tick ?w) = (Inr e, w2)" "rng_works w2"
    by (rule toy_wrap)
  obtain salt wrapped where "e = AccountKey salt wrapped" "length salt = 32" "payload_ok wrapped"
    "length (ciphertext wrapped) = length key + 16" "unlock_password_envelope toy_lib default_kdf_config e ''secret'' = Inr (Some key)"
    and w2: "w_auth w2 = w_auth (tick ?w)" "w_db w2 = w_db (tick ?w)"
    by (rule wrap_account_key_Inr [OF toy_lib_ok e(1)])
  have wf: "envelope_wf e" by (rule wrapped_envelope_wf [OF toy_lib_ok e(1)]) (simp add: key(2) ACCOUNT_KEY_LEN_def)
  obtain w3 where w3: "w3 = snd (put_envelope ''amy'' (encode_password_envelope e) w2)" by blast
  have up: "upsert_password_envelope ''amy'' (encode_password_envelope e) w2 = (Inr (), w3)"
    unfolding w3 by (rule upsert_encoded [OF wf]) (simp_all add: w2(1) name)
  have w3_parts: "w_db w3 = empty_db ''now''" "rng_works w3"
    using e(2) by (simp_all add: w3 w2(2) put_envelope_def eff_simps)
  obtain uid where uid: "new_v4 w3 = (Inr uid, tick w3)" by (simp add: new_v4_run)
  let ?d = "\<lambda>row. (empty_db ''now'')\<lparr>users := [row]\<rparr>"
  let ?r0 = "new_user_row uid ''amy'' Admin"
  let ?r1 = "?r0\<lparr>ur_password_envelope := Some (encode_password_envelope e)\<rparr>"
  have create: "on_db (create_user_db uid ''amy'' Admin) (tick w3) = (Inr (), (tick w3)\<lparr>w_db := ?d ?r0\<rparr>)"
    by (simp add: on_db_run create_user_db_def eff_simps w3_parts(1) empty_db_def)
  have env: "on_db (update_password_envelope uid (encode_password_envelope e)) ((tick w3)\<lparr>w_db := ?d ?r0\<rparr>) =
      (Inr (), (tick w3)\<lparr>w_db := ?d ?r1\<rparr>)"
    by (simp add: on_db_run update_password_cases user_ids_def update_where_def new_user_row_def)
  show ?thesis
  proof (rule that)
    show "bootstrap_first_admin_with_recovery L default_kdf_config ''amy'' (as_bytes ''secret'') phrase ?w =
      bindE (seal_with_recovery_phrase L default_kdf_config phrase key) (\<lambda>sealed.
      bindE (on_db (repo_set_recovery_key_envelope uid sealed)) (\<lambda>_.
      bindE (build_recovery_verifier L phrase) (\<lambda>verifier.
      bindE (on_db (set_recovery_verifier uid verifier)) (\<lambda>_.
      returnE \<lparr>br_user_id = uid, br_username = ''amy'', br_master_key = key, br_recovery_phrase = phrase\<rparr>))))
      ((tick w3)\<lparr>w_db := ?d ?r1\<rparr>)"
      unfolding bootstrap_first_admin_with_recovery_def bindE_run [of "on_db user_list_all"] bindE_run [of generate_account_key]
        bindE_run [of "wrap_account_key l c p k" for l c p k] bindE_run [of "upsert_password_envelope u v" for u v]
        bindE_run [of new_v4] bindE_run [of "on_db (create_user_db i u r)" for i u r] bindE_run [of "liftE r" for r]
        bindE_run [of "on_db (update_password_envelope i v)" for i v]
      by (simp only: liftE_run none name pw key(1) assms e(1) up uid create env Let_def ensure_def fst_conv snd_conv
          sum.case simp_thms list.distinct if_True)
  qed (use w3_parts(2) in simp_all)
qed

theorem bootstrap_sets_up_account_witness:
  "\<exists>br w' row. bootstrap_first_admin_with_recovery toy_lib default_kdf_config ''amy'' (as_bytes ''secret'') ''legal winner''
      (empty_world ''now'') = (Inr br, w')
    \<and> opens toy_lib default_kdf_config w' ''amy'' (as_bytes ''secret'') (br_master_key br)
    \<and> users (w_db w') = [row] \<and> ur_role row = ''admin''"
proof -
  obtain key uid pe w4 where half: "rng_works w4"
    "w_db w4 = (empty_db ''now'')\<lparr>users := [(new_user_row uid ''amy'' Admin)\<lparr>ur_password_envelope := Some pe\<rparr>]\<rparr>"
    "bootstrap_first_admin_with_recovery toy_lib default_kdf_config ''amy'' (as_bytes ''secret'') ''legal winner''
      (empty_world ''now'') =
      bindE (seal_with_recovery_phrase toy_lib default_kdf_config ''legal winner'' key) (\<lambda>sealed.
      bindE (on_db (repo_set_recovery_key_envelope uid sealed)) (\<lambda>_.
      bindE (build_recovery_verifier toy_lib ''legal winner'') (\<lambda>verifier.
      bindE (on_db (set_recovery_verifier uid verifier)) (\<lambda>_.
      returnE \<lparr>br_user_id = uid, br_username = ''amy'', br_master_key = key, br_recovery_phrase = ''legal winner''\<rparr>)))) w4"
    by (rule bootstrap_half [OF refl])
  let ?d = "\<lambda>row. (empty_db ''now'')\<lparr>users := [row]\<rparr>"
  let ?r1 = "(new_user_row uid ''amy'' Admin)\<lparr>ur_password_envelope := Some pe\<rparr>"
  obtain sealed w7 where seal: "seal_with_recovery_phrase toy_lib default_kdf_config ''legal winner'' key w4 = (Inr sealed, w7)"
    "rng_works w7" by (rule toy_seal [OF half(1)])
  have w7: "w_db w7 = ?d ?r1"
    using seal_Inr(2) [OF toy_lib_ok seal(1) refl] half(2) by (simp add: stored_state_def)
  let ?r2 = "?r1\<lparr>ur_recovery_key_envelope := Some sealed\<rparr>"
  have rec: "on_db (repo_set_recovery_key_envelope uid sealed) w7 = (Inr (), w7\<lparr>w_db := ?d ?r2\<rparr>)"
    by (simp add: on_db_run w7 repo_set_recovery_key_envelope_def update_user_def eff_simps count_where_def
        update_where_def new_user_row_def)
  have "rng_works (w7\<lparr>w_db := ?d ?r2\<rparr>)" using seal(2) by simp
  then obtain v where v: "build_recovery_verifier toy_lib ''legal winner'' (w7\<lparr>w_db := ?d ?r2\<rparr>) =
      (Inr v, tick (w7\<lparr>w_db := ?d ?r2\<rparr>))" by (rule toy_verifier)
  obtain w' where last: "on_db (set_recovery_verifier uid v) (tick (w7\<lparr>w_db := ?d ?r2\<rparr>)) = (Inr (), w')"
    by (simp add: on_db_run set_recovery_verifier_def update_user_def eff_simps count_where_def new_user_row_def)
  have run: "bootstrap_first_admin_with_recovery toy_lib default_kdf_config ''amy'' (as_bytes ''secret'') ''legal winner''
      (empty_world ''now'') =
      (Inr \<lparr>br_user_id = uid, br_username = ''amy'', br_master_key = key, br_recovery_phrase = ''legal winner''\<rparr>, w')"
    unfolding half(3) by (simp only: bindE_run seal(1) rec v last returnE_run fst_conv snd_conv sum.case)
  have "trim ''amy'' = ''amy''" by (simp add: trim_def trim_with.simps white_space_def)
  then show ?thesis
    using bootstrap_sets_up_account [OF toy_lib_ok run] run by auto
qed

lemma toy_replace:
  assumes "rng_works w" "w_db w = (empty_db ''now'')\<lparr>users := [row]\<rparr>" "length key = 32"
  obtains out w' where "replace_password toy_lib default_kdf_config (ur_id row) key pw w = (Inr out, w')"
proof -
  obtain e w2 where e: "wrap_account_key toy_lib default_kdf_config pw key w = (Inr e, w2)"
    using toy_wrap [OF assms(1)] by blast
  have db2: "w_db w2 = (empty_db ''now'')\<lparr>users := [row]\<rparr>"
    using auth_mem_frames(5) [of toy_lib default_kdf_config pw key w] e assms(2) by simp
  have same: "w\<lparr>w_db := (empty_db ''now'')\<lparr>users := [row]\<rparr>\<rparr> = w" using assms(2) by (cases w) simp
  have "get_accessible_vaults (ur_id row) ((empty_db ''now'')\<lparr>users := [row]\<rparr>) = (Inr [], (empty_db ''now'')\<lparr>users := [row]\<rparr>)"
    by (simp add: get_accessible_vaults_def eff_simps accessible_rows_def empty_db_def)
  then have "unwrap_accessible_vaults toy_lib (ur_id row) key w = (Inr ([], 0), w)"
    by (simp add: unwrap_accessible_vaults_def bindE_run on_db_run assms(2) returnE_run same)
  moreover let ?pe = "encode_password_envelope e"
  let ?w3 = "w2\<lparr>w_db := (empty_db ''now'')\<lparr>users := [row\<lparr>ur_password_envelope := Some ?pe\<rparr>]\<rparr>\<rparr>"
  have "on_db (update_password_envelope (ur_id row) ?pe) w2 = (Inr (), ?w3)"
    by (simp add: on_db_run update_password_cases db2 user_ids_def update_where_def)
  moreover have row3: "user_by_id (ur_id row) (w_db ?w3) = Some (row\<lparr>ur_password_envelope := Some ?pe\<rparr>)"
    by (simp add: user_by_id_def)
  moreover have "verify_stored_envelope (ur_id row) ?pe ?w3 = (Inr (), ?w3)"
    by (rule verify_stored_run [OF row3]) simp
  moreover have "on_db (repo_get_recovery_key_envelope (ur_id row)) ?w3 = (Inr (ur_recovery_key_envelope row), ?w3)"
    using row3 by (simp add: on_db_run repo_get_recovery_key_envelope_def get_user_column_def eff_simps)
  ultimately show ?thesis
    using e that by (simp add: replace_password_def bindE_run returnE_run Let_def)
qed

text \<open>The backup of an account whose key is sealed under the phrase, with no vault.\<close>

theorem reset_reopens_account_witness:
  "\<exists>w w' report row key out. reset_master_password_from_backup (\<lambda>_. ''id'') toy_lib default_kdf_config ''legal winner'' ''new'' w =
      (Inr report, w')
    \<and> users (w_db w) = [row] \<and> held_key toy_lib default_kdf_config ''legal winner'' row key
    \<and> new_credentials toy_lib default_kdf_config ''new'' out
    \<and> rekeyed toy_lib (ur_id row) key (ro_session_key out) (ro_password_envelope out) (w_db w) (w_db w')"

proof -
  let ?key = "replicate 32 7 :: bytes"
  obtain e w1 where e: "wrap_account_key toy_lib default_kdf_config ''old'' ?key (empty_world ''now'') = (Inr e, w1)" "rng_works w1"
    by (rule toy_wrap [OF rng_works_empty])
  obtain sealed w2 where seal: "seal_with_recovery_phrase toy_lib default_kdf_config ''legal winner'' ?key w1 = (Inr sealed, w2)"
    "rng_works w2" by (rule toy_seal [OF e(2)])
  have wf: "envelope_wf e" by (rule wrapped_envelope_wf [OF toy_lib_ok e(1)]) simp
  obtain salt wrapped where form: "e = AccountKey salt wrapped" "length salt = 32" "payload_ok wrapped"
    "length (ciphertext wrapped) = length ?key + 16" "unlock_password_envelope toy_lib default_kdf_config e ''old'' = Inr (Some ?key)"
    "w_auth w1 = w_auth (empty_world ''now'')" "w_db w1 = w_db (empty_world ''now'')"
    by (rule wrap_account_key_Inr [OF toy_lib_ok e(1)])
  let ?row = "(new_user_row 7 ''amy'' User)\<lparr>ur_password_envelope := Some (encode_password_envelope e),
      ur_recovery_key_envelope := Some sealed\<rparr>"
  let ?d = "(empty_db ''now'')\<lparr>users := [?row]\<rparr>"
  let ?w = "w2\<lparr>w_db := ?d\<rparr>"
  have "rng_works ?w" "w_db ?w = ?d" "length ?key = 32" using seal(2) by simp_all
  then obtain out w3 where out: "replace_password toy_lib default_kdf_config (ur_id ?row) ?key ''new'' ?w = (Inr out, w3)"
    by (rule toy_replace)
  obtain ps where ps: "auth_reset_failed_attempts ''amy'' (w_db w3) = (Inr (), (w_db w3)\<lparr>auth_policy := ps\<rparr>)"
    by (rule auth_reset_effect)
  have opened: "open_with_recovery_phrase toy_lib default_kdf_config ''legal winner'' sealed = Inr ?key"
    using seal_Inr(1) [OF toy_lib_ok seal(1) refl] .
  obtain u where u: "row_to_user ?row = Inr u" "usr_id u = 7" "usr_username u = ''amy''"
    by (simp add: row_to_user_def new_user_row_def parse_role_def)
  have list: "on_db user_list_all ?w = (Inr [u], ?w)"
    using u(1) by (simp add: on_db_run user_list_all_def eff_simps)
  have stored: "on_db (get_password_envelope_by_user_id 7) ?w = (Inr (Some (encode_password_envelope e)), ?w)"
    "on_db (repo_get_recovery_key_envelope 7) ?w = (Inr (Some sealed), ?w)"
    by (simp_all add: on_db_run get_password_envelope_by_user_id_def repo_get_recovery_key_envelope_def
        get_user_column_def eff_simps user_by_id_def new_user_row_def)
  have reopen: "reopen_account (\<lambda>_. ''id'') toy_lib default_kdf_config u ''legal winner'' ''new'' e ?w = (Inr out, w3)"
    using stored(2) opened out by (simp add: form(1) u(2) bindE_run liftE_run new_user_row_def)
  have run: "reset_master_password_from_backup (\<lambda>_. ''id'') toy_lib default_kdf_config ''legal winner'' ''new'' ?w =
      (Inr (ro_report out), w3\<lparr>w_db := (w_db w3)\<lparr>auth_policy := ps\<rparr>\<rparr>)"
    unfolding reset_master_password_from_backup_def
    by (simp add: bindE_run liftE_run list u stored(1) decode_encode [OF wf] reopen on_db_run [of "auth_reset_failed_attempts n" for n]
        ps returnE_run)
  have "world_ok ?w"
    by (simp add: world_ok_def empty_db_def db_ok_def db_part_defs user_row_ok_def new_user_row_def)
  moreover have "\<forall>row \<in> set (users (w_db ?w)). \<forall>sealed. ur_recovery_key_envelope row = Some sealed \<longrightarrow> length sealed < 2 ^ 16"
    using opened_length [OF toy_lib_ok opened] by (simp add: RECOVERY_KEY_HEADER_LEN_def len_defs)
  ultimately show ?thesis
    using reset_reopens_account [OF toy_lib_ok _ _ run] run by fastforce
qed

definition forgetful_lib :: crypto_lib where
  "forgetful_lib = toy_lib\<lparr>argon2id := (\<lambda>cfg p s. if take 12 p = as_bytes ''heelonvault/'' then Inl ''out of memory''
     else argon2id toy_lib cfg p s)\<rparr>"

text \<open>
  C22: The bootstrap is not one transaction: when the sealing of the recovery key fails (here Argon2 fails
  on it), the account is there without a recovery key, and every later bootstrap is refused.
\<close>

theorem bootstrap_not_atomic:
  "\<exists>w w' row. bootstrap_first_admin_with_recovery forgetful_lib default_kdf_config ''amy'' (as_bytes ''secret'')
      ''legal winner'' w = (Inl (Crypto ''argon2id derivation failed: out of memory''), w')
    \<and> users (w_db w) = [] \<and> users (w_db w') = [row] \<and> ur_recovery_key_envelope row = None
    \<and> (\<forall>L cfg username password phrase.
        bootstrap_first_admin_with_recovery L cfg username password phrase w' =
          (Inl (Conflict ''vault already initialized; use the login form to access your account''), w'))"
proof -
  let ?L = forgetful_lib
  have "derive_key ?L default_kdf_config ''secret'' salt = derive_key toy_lib default_kdf_config ''secret'' salt" for salt
    by (simp add: derive_key_def argon2_instance_def forgetful_lib_def as_bytes_def)
  moreover have "encrypt ?L = encrypt toy_lib"
    by (simp add: encrypt_def aes_key_def forgetful_lib_def fun_eq_iff)
  ultimately have wrap: "wrap_account_key ?L default_kdf_config ''secret'' = wrap_account_key toy_lib default_kdf_config ''secret''"
    by (intro ext) (simp only: wrap_account_key_def)
  obtain key uid pe w4 where half: "rng_works w4"
    "w_db w4 = (empty_db ''now'')\<lparr>users := [(new_user_row uid ''amy'' Admin)\<lparr>ur_password_envelope := Some pe\<rparr>]\<rparr>"
    "bootstrap_first_admin_with_recovery ?L default_kdf_config ''amy'' (as_bytes ''secret'') ''legal winner''
      (empty_world ''now'') =
      bindE (seal_with_recovery_phrase ?L default_kdf_config ''legal winner'' key) (\<lambda>sealed.
      bindE (on_db (repo_set_recovery_key_envelope uid sealed)) (\<lambda>_.
      bindE (build_recovery_verifier ?L ''legal winner'') (\<lambda>verifier.
      bindE (on_db (set_recovery_verifier uid verifier)) (\<lambda>_.
      returnE \<lparr>br_user_id = uid, br_username = ''amy'', br_master_key = key, br_recovery_phrase = ''legal winner''\<rparr>)))) w4"
    by (rule bootstrap_half [OF wrap])
  obtain salt where salt: "generate_kdf_salt w4 = (Inr salt, tick w4)" "length salt = 32" "salt \<noteq> []"
    by (rule salt_works [OF half(1)])
  have "derive_recovery_kek ?L default_kdf_config ''legal winner'' salt =
      Inl (Crypto ''argon2id derivation failed: out of memory'')"
    using salt(3) by (simp add: derive_recovery_kek_def derive_key_def argon2_instance_def forgetful_lib_def toy_lib_def
        default_kdf_config_def RECOVERY_KEK_DOMAIN_def as_bytes_def len_defs)
  then have "seal_with_recovery_phrase ?L default_kdf_config ''legal winner'' key w4 =
      (Inl (Crypto ''argon2id derivation failed: out of memory''), tick w4)"
    using salt by (simp add: seal_with_recovery_phrase_def bindE_run liftE_run ensure_def len_defs)
  then have run: "bootstrap_first_admin_with_recovery ?L default_kdf_config ''amy'' (as_bytes ''secret'') ''legal winner''
      (empty_world ''now'') = (Inl (Crypto ''argon2id derivation failed: out of memory''), tick w4)"
    by (simp add: half(3) bindE_run)
  let ?row = "(new_user_row uid ''amy'' Admin)\<lparr>ur_password_envelope := Some pe\<rparr>"
  obtain u where u: "row_to_user ?row = Inr u"
    by (simp add: row_to_user_def new_user_row_def parse_role_def)
  have same: "(tick w4)\<lparr>w_db := (empty_db ''now'')\<lparr>users := [?row]\<rparr>\<rparr> = tick w4" using half(2) by (cases w4) (simp add: tick_def)
  have "on_db user_list_all (tick w4) = (Inr [u], tick w4)"
    using u by (simp add: on_db_run user_list_all_def eff_simps half(2) same)
  then have refused: "bootstrap_first_admin_with_recovery L cfg n p ph (tick w4) =
      (Inl (Conflict ''vault already initialized; use the login form to access your account''), tick w4)" for L cfg n p ph
    by (simp add: bootstrap_first_admin_with_recovery_def bindE_run liftE_run ensure_def)
  have "users (w_db (empty_world ''now'')) = []" by (simp add: empty_db_def)
  moreover have "users (w_db (tick w4)) = [?row]" "ur_recovery_key_envelope ?row = None"
    by (simp_all add: half(2) new_user_row_def)
  ultimately show ?thesis using run refused by blast
qed

end
