(* ===== verification/HV_UrlCheck.thy ===== *)
theory HV_UrlCheck
  imports HV_Prelude
begin

text \<open>
  The crate heelonvault-url-check: which addresses are public (ip_filter.rs), what is kept of a URL
  (target.rs) and the bounded check itself (lib.rs), over a network whose answers and delays are given.
\<close>

unbundle bit_operations_syntax

section \<open>Addresses\<close>

datatype ip_addr = V4 "32 word" | V6 "128 word"

definition ipv4_from :: "byte list \<Rightarrow> 32 word" where
  "ipv4_from net = foldl (\<lambda>acc b. push_bit 8 acc OR ucast b) 0 net"

definition ipv6_from :: "16 word list \<Rightarrow> 128 word" where
  "ipv6_from net = foldl (\<lambda>acc b. push_bit 16 acc OR ucast b) 0 net"

definition in_v4 :: "32 word \<Rightarrow> byte list \<Rightarrow> nat \<Rightarrow> bool" where
  "in_v4 ip net prefix =
     (let mask = (if prefix = 0 then 0 else push_bit (32 - prefix) (- 1))
      in (ip AND mask) = (ipv4_from net AND mask))"

definition in_v6 :: "128 word \<Rightarrow> 16 word list \<Rightarrow> nat \<Rightarrow> bool" where
  "in_v6 ip net prefix =
     (let mask = (if prefix = 0 then 0 else push_bit (128 - prefix) (- 1))
      in (ip AND mask) = (ipv6_from net AND mask))"

definition NON_PUBLIC_V4 :: "(byte list \<times> nat) list" where
  "NON_PUBLIC_V4 =
     [([0, 0, 0, 0], 8), ([10, 0, 0, 0], 8), ([100, 64, 0, 0], 10), ([127, 0, 0, 0], 8),
      ([169, 254, 0, 0], 16), ([172, 16, 0, 0], 12), ([192, 0, 0, 0], 24), ([192, 0, 2, 0], 24),
      ([192, 31, 196, 0], 24), ([192, 52, 193, 0], 24), ([192, 88, 99, 0], 24), ([192, 168, 0, 0], 16),
      ([192, 175, 48, 0], 24), ([198, 18, 0, 0], 15), ([198, 51, 100, 0], 24), ([203, 0, 113, 0], 24),
      ([224, 0, 0, 0], 4), ([240, 0, 0, 0], 4)]"

definition is_public_ipv4 :: "32 word \<Rightarrow> bool" where
  "is_public_ipv4 ip \<longleftrightarrow> \<not> list_ex (\<lambda>(net, prefix). in_v4 ip net prefix) NON_PUBLIC_V4"

definition NON_PUBLIC_V6_IN_GLOBAL :: "(16 word list \<times> nat) list" where
  "NON_PUBLIC_V6_IN_GLOBAL =
     [([0x2001, 0, 0, 0, 0, 0, 0, 0], 23), ([0x2001, 0x0db8, 0, 0, 0, 0, 0, 0], 32),
      ([0x2002, 0, 0, 0, 0, 0, 0, 0], 16), ([0x3fff, 0, 0, 0, 0, 0, 0, 0], 20)]"

text \<open>\<open>Ipv6Addr::to_ipv4_mapped\<close>: the low 32 bits of an address in \<open>::ffff:0:0/96\<close>.\<close>

definition to_ipv4_mapped :: "128 word \<Rightarrow> 32 word option" where
  "to_ipv4_mapped ip = (if drop_bit 32 ip = 0xffff then Some (ucast ip) else None)"

definition is_public_ipv6 :: "128 word \<Rightarrow> bool" where
  "is_public_ipv6 ip \<longleftrightarrow> (case to_ipv4_mapped ip of
     Some v4 \<Rightarrow> is_public_ipv4 v4
   | None \<Rightarrow>
       if in_v6 ip [0x0064, 0xff9b, 0, 0, 0, 0, 0, 0] 96 then is_public_ipv4 (ucast ip)
       else if \<not> in_v6 ip [0x2000, 0, 0, 0, 0, 0, 0, 0] 3 then False
       else \<not> list_ex (\<lambda>(net, prefix). in_v6 ip net prefix) NON_PUBLIC_V6_IN_GLOBAL)"

fun is_public_ip :: "ip_addr \<Rightarrow> bool" where
  "is_public_ip (V4 v4) = is_public_ipv4 v4"
| "is_public_ip (V6 v6) = is_public_ipv6 v6"

section \<open>The target of a URL\<close>

datatype check_error =
    InvalidUrl | HttpsRequired | CredentialsNotAllowed | NonPublicAddress
  | Resolution | Connection | Tls | TimedOut

fun show_check_error :: "check_error \<Rightarrow> string" where
  "show_check_error InvalidUrl = ''invalid URL''"
| "show_check_error HttpsRequired = ''only https URLs can be checked''"
| "show_check_error CredentialsNotAllowed = ''URLs containing credentials are not checked''"
| "show_check_error NonPublicAddress = ''destination is not a public address''"
| "show_check_error Resolution = ''host name resolution failed''"
| "show_check_error Connection = ''connection failed''"
| "show_check_error Tls = ''TLS handshake failed''"
| "show_check_error TimedOut = ''check timed out''"

text \<open>What the crate url makes of a text; its parser is a parameter.\<close>

datatype url_host = Domain string | Ipv4 "32 word" | Ipv6 "128 word"

record url =
  url_scheme :: string
  url_username :: string
  url_password :: "string option"
  url_port :: "16 word option"
  url_host :: "url_host option"
  url_host_str :: "string option"

definition MAX_URL_LEN :: nat where "MAX_URL_LEN = 2048"
definition DEFAULT_HTTPS_PORT :: "16 word" where "DEFAULT_HTTPS_PORT = 443"

datatype target_host = TargetDomain string | TargetIp ip_addr

record target =
  tg_host :: target_host
  tg_port :: "16 word"

definition LOCAL_NAMES :: "string list" where
  "LOCAL_NAMES = [''localhost'', ''local'', ''home.arpa'', ''internal'']"

definition strip_suffix :: "string \<Rightarrow> string \<Rightarrow> string option" where
  "strip_suffix s name = (if length name \<le> length s \<and> drop (length s - length name) s = name
     then Some (take (length s - length name) s) else None)"

definition is_local_name :: "string \<Rightarrow> bool" where
  "is_local_name domain \<longleftrightarrow> list_ex (\<lambda>name. domain = name
     \<or> (case strip_suffix domain name of None \<Rightarrow> False | Some prefix \<Rightarrow> prefix \<noteq> [] \<and> last prefix = CHR ''.''))
     LOCAL_NAMES"

definition trim_end_dots :: "string \<Rightarrow> string" where
  "trim_end_dots s = rev (dropWhile (\<lambda>c. c = CHR ''.'') (rev s))"

definition parse_target :: "(string \<Rightarrow> url option) \<Rightarrow> string \<Rightarrow> check_error + target" where
  "parse_target url_parse raw_url =
     (if MAX_URL_LEN < length raw_url then Inl InvalidUrl
      else case url_parse raw_url of
        None \<Rightarrow> Inl InvalidUrl
      | Some url \<Rightarrow>
          if url_scheme url \<noteq> ''https'' then Inl HttpsRequired
          else if url_username url \<noteq> [] \<or> url_password url \<noteq> None then Inl CredentialsNotAllowed
          else
            let port = (case url_port url of Some p \<Rightarrow> p | None \<Rightarrow> DEFAULT_HTTPS_PORT)
            in if port = 0 then Inl InvalidUrl
               else case url_host url of
                 Some (Domain d) \<Rightarrow>
                   let domain = trim_end_dots d
                   in if domain = [] then Inl InvalidUrl
                      else if is_local_name domain then Inl NonPublicAddress
                      else Inr \<lparr>tg_host = TargetDomain domain, tg_port = port\<rparr>
               | Some (Ipv4 v4) \<Rightarrow> Inr \<lparr>tg_host = TargetIp (V4 v4), tg_port = port\<rparr>
               | Some (Ipv6 v6) \<Rightarrow> Inr \<lparr>tg_host = TargetIp (V6 v6), tg_port = port\<rparr>
               | None \<Rightarrow> Inl InvalidUrl)"

section \<open>The check\<close>

definition TOTAL_TIMEOUT :: nat where "TOTAL_TIMEOUT = 8000"
definition ATTEMPT_TIMEOUT :: nat where "ATTEMPT_TIMEOUT = 4000"
definition SHUTDOWN_TIMEOUT :: nat where "SHUTDOWN_TIMEOUT = 500"
definition MAX_DNS_RESULTS :: nat where "MAX_DNS_RESULTS = 16"
definition MAX_CONNECT_ATTEMPTS :: nat where "MAX_CONNECT_ATTEMPTS = 2"

text \<open>
  The network: the answer of the system resolver and its delay, what a connection to a socket gives and
  how long it takes, in milliseconds, and how long the shutdown of the stream takes; \<open>server_name_ok\<close> is \<open>ServerName::try_from\<close> and \<open>tls_config_ok\<close>
  whether \<open>tls_connector\<close> gets its configuration. The clock is the time
  since the start of the check; every event that is started is logged.
\<close>

datatype server_name = NamedServer string | AddressedServer ip_addr

record network =
  dns_answer :: "string \<Rightarrow> 16 word \<Rightarrow> ip_addr list option"
  dns_delay :: "string \<Rightarrow> nat"
  tcp_accepts :: "ip_addr \<times> 16 word \<Rightarrow> bool"
  tls_accepts :: "server_name \<Rightarrow> ip_addr \<times> 16 word \<Rightarrow> bool"
  attempt_delay :: "ip_addr \<times> 16 word \<Rightarrow> nat"
  shutdown_delay :: nat
  server_name_ok :: "string \<Rightarrow> bool"
  tls_config_ok :: bool

datatype event = Lookup string "16 word" | Connect "ip_addr \<times> 16 word" server_name

record progress =
  pg_clock :: nat
  pg_events :: "event list"

text \<open>An operation is cut by the deadline of the whole check, or ends with a result.\<close>

datatype 'a ending = Cut | Ends "check_error + 'a"

definition spend :: "event \<Rightarrow> nat \<Rightarrow> (check_error + 'a) \<Rightarrow> progress \<Rightarrow> 'a ending \<times> progress" where
  "spend e delay res p =
     (if TOTAL_TIMEOUT < pg_clock p + delay
      then (Cut, p\<lparr>pg_clock := TOTAL_TIMEOUT, pg_events := pg_events p @ [e]\<rparr>)
      else (Ends res, p\<lparr>pg_clock := pg_clock p + delay, pg_events := pg_events p @ [e]\<rparr>))"

fun unique_ips :: "ip_addr list \<Rightarrow> ip_addr list \<Rightarrow> ip_addr list" where
  "unique_ips acc [] = acc"
| "unique_ips acc (ip # ips) = unique_ips (if ip \<in> set acc then acc else acc @ [ip]) ips"

definition validate_resolved :: "ip_addr list \<Rightarrow> check_error + ip_addr list" where
  "validate_resolved raw =
     (if raw = [] then Inl Resolution
      else if list_ex (\<lambda>ip. \<not> is_public_ip ip) raw then Inl NonPublicAddress
      else Inr (unique_ips [] raw))"

definition resolve :: "network \<Rightarrow> string \<Rightarrow> 16 word \<Rightarrow> progress \<Rightarrow> ip_addr list ending \<times> progress" where
  "resolve N domain port =
     spend (Lookup domain port) (dns_delay N domain)
       (case dns_answer N domain port of
          None \<Rightarrow> Inl Resolution
        | Some answers \<Rightarrow>
            if MAX_DNS_RESULTS < length answers then Inl Resolution else validate_resolved answers)"

definition attempt :: "network \<Rightarrow> server_name \<Rightarrow> ip_addr \<times> 16 word \<Rightarrow> check_error + unit" where
  "attempt N name socket =
     (if \<not> tcp_accepts N socket then Inl Connection
      else if \<not> tls_accepts N name socket then Inl Tls else Inr ())"

text \<open>One round of the loop: \<open>timeout(attempt_timeout, attempt)\<close>.\<close>

definition timed_attempt :: "network \<Rightarrow> server_name \<Rightarrow> ip_addr \<times> 16 word \<Rightarrow> progress \<Rightarrow> unit ending \<times> progress" where
  "timed_attempt N name socket =
     (if ATTEMPT_TIMEOUT < attempt_delay N socket
      then spend (Connect socket name) ATTEMPT_TIMEOUT (Inl TimedOut)
      else spend (Connect socket name) (attempt_delay N socket) (attempt N name socket))"

fun connect_first :: "network \<Rightarrow> server_name \<Rightarrow> 16 word \<Rightarrow> ip_addr list \<Rightarrow> check_error \<Rightarrow> progress
    \<Rightarrow> unit ending \<times> progress" where
  "connect_first N name port [] last_error p = (Ends (Inl last_error), p)"
| "connect_first N name port (ip # ips) last_error p =
     (case timed_attempt N name (ip, port) p of
        (Cut, p') \<Rightarrow> (Cut, p')
      | (Ends (Inr _), p') \<Rightarrow> (Ends (Inr ()), p')
      | (Ends (Inl e), p') \<Rightarrow> connect_first N name port ips e p')"

definition connect_and_handshake :: "network \<Rightarrow> target \<Rightarrow> progress \<Rightarrow> unit ending \<times> progress" where
  "connect_and_handshake N target p =
     (let connect = (\<lambda>name ips p. if \<not> tls_config_ok N then (Ends (Inl Tls), p)
            else connect_first N name (tg_port target) (take MAX_CONNECT_ATTEMPTS ips) Connection p)
      in case tg_host target of
        TargetIp ip \<Rightarrow>
          if \<not> is_public_ip ip then (Ends (Inl NonPublicAddress), p)
          else connect (AddressedServer ip) [ip] p
      | TargetDomain domain \<Rightarrow>
          if \<not> server_name_ok N domain then (Ends (Inl InvalidUrl), p)
          else case resolve N domain (tg_port target) p of
            (Cut, p') \<Rightarrow> (Cut, p')
          | (Ends (Inl e), p') \<Rightarrow> (Ends (Inl e), p')
          | (Ends (Inr ips), p') \<Rightarrow> connect (NamedServer domain) ips p')"

text \<open>The farewell on the stream, after the handshake and outside the deadline of the check; its outcome is ignored.\<close>

definition close_stream :: "network \<Rightarrow> progress \<Rightarrow> progress" where
  "close_stream N p = p\<lparr>pg_clock := pg_clock p + min (shutdown_delay N) SHUTDOWN_TIMEOUT\<rparr>"

definition check_https :: "(string \<Rightarrow> url option) \<Rightarrow> network \<Rightarrow> string \<Rightarrow> (check_error + unit) \<times> progress" where
  "check_https url_parse N raw_url =
     (let start = \<lparr>pg_clock = 0, pg_events = []\<rparr>
      in case parse_target url_parse raw_url of
        Inl e \<Rightarrow> (Inl e, start)
      | Inr target \<Rightarrow> (case connect_and_handshake N target start of
            (Cut, p) \<Rightarrow> (Inl TimedOut, p)
          | (Ends (Inl e), p) \<Rightarrow> (Inl e, p)
          | (Ends (Inr _), p) \<Rightarrow> (Inr (), close_stream N p)))"

section \<open>The blocks that are not public\<close>

lemma masked_eq:
  fixes a b :: "'a::len word"
  shows "(a AND push_bit n (- 1) = b AND push_bit n (- 1)) \<longleftrightarrow> unat a div 2 ^ n = unat b div 2 ^ n"
proof -
  have low: "drop_bit n (a AND push_bit n (- 1)) = drop_bit n a" for a :: "'a word"
    by (rule bit_word_eqI) (auto simp: bit_simps dest: bit_imp_possible_bit bit_imp_le_length)
  have high: "a AND push_bit n (- 1) = push_bit n (drop_bit n a)" for a :: "'a word"
    by (rule bit_word_eqI) (auto simp: bit_simps dest: bit_imp_possible_bit)
  have "(a AND push_bit n (- 1) = b AND push_bit n (- 1)) \<longleftrightarrow> drop_bit n a = drop_bit n b"
    using low [of a] low [of b] high [of a] high [of b] by metis
  also have "\<dots> \<longleftrightarrow> unat (drop_bit n a) = unat (drop_bit n b)" by (simp add: word_unat_eq_iff)
  finally show ?thesis unfolding unat_drop_bit_eq by (simp add: drop_bit_eq_div)
qed

lemma block_range:
  fixes n c k :: nat
  assumes "0 < k"
  shows "n div k = c \<longleftrightarrow> c * k \<le> n \<and> n \<le> c * k + (k - 1)"
proof -
  have "n div k = c \<longleftrightarrow> k * c \<le> n \<and> n < k * c + k"
    using assms div_nat_eqI [of k c n] times_div_less_eq_dividend [of k n] dividend_less_times_div [of k n]
    by auto
  then show ?thesis using assms by (auto simp: mult.commute)
qed

lemma in_v4_range:
  "in_v4 ip net prefix \<longleftrightarrow> unat ip div 2 ^ (32 - prefix) = unat (ipv4_from net) div 2 ^ (32 - prefix)"
proof (cases "prefix = 0")
  case True
  have "unat ip < 2 ^ 32" "unat (ipv4_from net) < 2 ^ 32"
    using unsigned_less [of ip] unsigned_less [of "ipv4_from net"] by simp_all
  with True show ?thesis by (simp add: in_v4_def)
next
  case False
  show ?thesis unfolding in_v4_def Let_def if_not_P [OF False] masked_eq ..
qed


lemma in_v6_range:
  "in_v6 ip net prefix \<longleftrightarrow> unat ip div 2 ^ (128 - prefix) = unat (ipv6_from net) div 2 ^ (128 - prefix)"
proof (cases "prefix = 0")
  case True
  have "unat ip < 2 ^ 128" "unat (ipv6_from net) < 2 ^ 128"
    using unsigned_less [of ip] unsigned_less [of "ipv6_from net"] by simp_all
  with True show ?thesis by (simp add: in_v6_def)
next
  case False
  show ?thesis unfolding in_v6_def Let_def if_not_P [OF False] masked_eq ..
qed


lemma in_v4_interval:
  "in_v4 ip net prefix \<longleftrightarrow>
     (let k = 2 ^ (32 - prefix); lo = unat (ipv4_from net) div k * k in lo \<le> unat ip \<and> unat ip \<le> lo + (k - 1))"
  unfolding in_v4_range Let_def by (rule block_range) simp

lemma in_v6_interval:
  "in_v6 ip net prefix \<longleftrightarrow>
     (let k = 2 ^ (128 - prefix); lo = unat (ipv6_from net) div k * k in lo \<le> unat ip \<and> unat ip \<le> lo + (k - 1))"
  unfolding in_v6_range Let_def by (rule block_range) simp

definition dotted :: "nat \<Rightarrow> nat \<Rightarrow> nat \<Rightarrow> nat \<Rightarrow> nat" where
  "dotted a b c d = ((a * 256 + b) * 256 + c) * 256 + d"

definition outside :: "(nat \<times> nat) list \<Rightarrow> nat \<Rightarrow> bool" where
  "outside blocks n \<longleftrightarrow> list_all (\<lambda>(lo, hi). \<not> (lo \<le> n \<and> n \<le> hi)) blocks"

definition hextets :: "nat list \<Rightarrow> nat" where
  "hextets hs = foldl (\<lambda>acc h. acc * 65536 + h) 0 hs"

definition special_v4 :: "(nat \<times> nat) list" where
  "special_v4 =
     [(dotted 0 0 0 0, dotted 0 255 255 255), (dotted 10 0 0 0, dotted 10 255 255 255),
      (dotted 100 64 0 0, dotted 100 127 255 255), (dotted 127 0 0 0, dotted 127 255 255 255),
      (dotted 169 254 0 0, dotted 169 254 255 255), (dotted 172 16 0 0, dotted 172 31 255 255),
      (dotted 192 0 0 0, dotted 192 0 0 255), (dotted 192 0 2 0, dotted 192 0 2 255),
      (dotted 192 31 196 0, dotted 192 31 196 255), (dotted 192 52 193 0, dotted 192 52 193 255),
      (dotted 192 88 99 0, dotted 192 88 99 255), (dotted 192 168 0 0, dotted 192 168 255 255),
      (dotted 192 175 48 0, dotted 192 175 48 255), (dotted 198 18 0 0, dotted 198 19 255 255),
      (dotted 198 51 100 0, dotted 198 51 100 255), (dotted 203 0 113 0, dotted 203 0 113 255),
      (dotted 224 0 0 0, dotted 239 255 255 255), (dotted 240 0 0 0, dotted 255 255 255 255)]"

lemma is_public_ipv4_ranges:
  "is_public_ipv4 ip \<longleftrightarrow> outside special_v4 (unat ip)"
  by (simp add: is_public_ipv4_def NON_PUBLIC_V4_def outside_def special_v4_def dotted_def in_v4_interval ipv4_from_def)

definition special_v6 :: "(nat \<times> nat) list" where
  "special_v6 =
     [(hextets [0x2001, 0, 0, 0, 0, 0, 0, 0], hextets [0x2001, 0x1ff, 0xffff, 0xffff, 0xffff, 0xffff, 0xffff, 0xffff]),
      (hextets [0x2001, 0xdb8, 0, 0, 0, 0, 0, 0], hextets [0x2001, 0xdb8, 0xffff, 0xffff, 0xffff, 0xffff, 0xffff, 0xffff]),
      (hextets [0x2002, 0, 0, 0, 0, 0, 0, 0], hextets [0x2002, 0xffff, 0xffff, 0xffff, 0xffff, 0xffff, 0xffff, 0xffff]),
      (hextets [0x3fff, 0, 0, 0, 0, 0, 0, 0], hextets [0x3fff, 0xfff, 0xffff, 0xffff, 0xffff, 0xffff, 0xffff, 0xffff])]"

definition carries_v4 :: "nat \<Rightarrow> bool" where
  "carries_v4 n \<longleftrightarrow>
     hextets [0, 0, 0, 0, 0, 0xffff, 0, 0] \<le> n \<and> n \<le> hextets [0, 0, 0, 0, 0, 0xffff, 0xffff, 0xffff]
   \<or> hextets [0x64, 0xff9b, 0, 0, 0, 0, 0, 0] \<le> n \<and> n \<le> hextets [0x64, 0xff9b, 0, 0, 0, 0, 0xffff, 0xffff]"

definition public_v6 :: "nat \<Rightarrow> bool" where
  "public_v6 n \<longleftrightarrow> (if carries_v4 n then outside special_v4 (n mod 2 ^ 32)
     else hextets [0x2000, 0, 0, 0, 0, 0, 0, 0] \<le> n
        \<and> n \<le> hextets [0x3fff, 0xffff, 0xffff, 0xffff, 0xffff, 0xffff, 0xffff, 0xffff]
        \<and> outside special_v6 n)"

lemma to_ipv4_mapped_range:
  "to_ipv4_mapped ip = (if unat ip div 2 ^ 32 = 0xffff then Some (ucast ip) else None)"
proof -
  have "drop_bit 32 ip = 0xffff \<longleftrightarrow> unat (drop_bit 32 ip) = 0xffff" by (simp add: word_unat_eq_iff)
  then show ?thesis unfolding to_ipv4_mapped_def unat_drop_bit_eq by (simp add: drop_bit_eq_div)
qed

lemma is_public_ipv6_ranges:
  "is_public_ipv6 ip \<longleftrightarrow> public_v6 (unat ip)"
proof -
  have low: "unat (ucast ip :: 32 word) = unat ip mod 2 ^ 32"
    by (simp add: unsigned_ucast_eq take_bit_eq_mod)
  have mapped: "unat ip div 2 ^ 32 = 0xffff \<longleftrightarrow>
      hextets [0, 0, 0, 0, 0, 0xffff, 0, 0] \<le> unat ip \<and> unat ip \<le> hextets [0, 0, 0, 0, 0, 0xffff, 0xffff, 0xffff]"
    by (subst block_range) (simp_all add: hextets_def)
  have nat64: "in_v6 ip [0x0064, 0xff9b, 0, 0, 0, 0, 0, 0] 96 \<longleftrightarrow>
      hextets [0x64, 0xff9b, 0, 0, 0, 0, 0, 0] \<le> unat ip \<and> unat ip \<le> hextets [0x64, 0xff9b, 0, 0, 0, 0, 0xffff, 0xffff]"
    by (simp add: in_v6_interval ipv6_from_def hextets_def)
  have global: "in_v6 ip [0x2000, 0, 0, 0, 0, 0, 0, 0] 3 \<longleftrightarrow> hextets [0x2000, 0, 0, 0, 0, 0, 0, 0] \<le> unat ip
      \<and> unat ip \<le> hextets [0x3fff, 0xffff, 0xffff, 0xffff, 0xffff, 0xffff, 0xffff, 0xffff]"
    by (simp add: in_v6_interval ipv6_from_def hextets_def)
  have carved: "list_ex (\<lambda>(net, prefix). in_v6 ip net prefix) NON_PUBLIC_V6_IN_GLOBAL \<longleftrightarrow> \<not> outside special_v6 (unat ip)"
    by (simp add: NON_PUBLIC_V6_IN_GLOBAL_def outside_def special_v6_def in_v6_interval ipv6_from_def hextets_def)
  show ?thesis
    unfolding is_public_ipv6_def to_ipv4_mapped_range mapped nat64 global carved public_v6_def carries_v4_def
      is_public_ipv4_ranges
    by (auto simp: low)
qed

section \<open>Where a check connects\<close>

fun connection :: "event \<Rightarrow> (ip_addr \<times> 16 word) option" where
  "connection (Connect socket name) = Some socket"
| "connection (Lookup domain port) = None"

definition connections :: "progress \<Rightarrow> (ip_addr \<times> 16 word) list" where
  "connections p = List.map_filter connection (pg_events p)"

lemma connections_spend:
  assumes "spend e delay res p = (r, p')"
  shows "connections p' = connections p @ (case connection e of None \<Rightarrow> [] | Some s \<Rightarrow> [s])"
    and "pg_clock p \<le> TOTAL_TIMEOUT \<Longrightarrow> pg_clock p' \<le> TOTAL_TIMEOUT"
    and "r = Cut \<or> r = Ends res"
  using assms by (auto simp: spend_def connections_def map_filter_def split: if_splits option.splits)

lemma timed_attempt_facts:
  assumes "timed_attempt N name socket p = (r, p')"
  shows "connections p' = connections p @ [socket]"
    and "pg_clock p \<le> TOTAL_TIMEOUT \<Longrightarrow> pg_clock p' \<le> TOTAL_TIMEOUT"
    and "r = Ends (Inr ()) \<Longrightarrow> attempt N name socket = Inr ()"
  using assms unfolding timed_attempt_def
  by (auto split: if_splits dest: connections_spend)

lemma connect_first_facts:
  assumes "connect_first N name port ips e p = (r, p')"
  shows "\<exists>tried rest. ips = tried @ rest \<and> connections p' = connections p @ map (\<lambda>ip. (ip, port)) tried
      \<and> (pg_clock p \<le> TOTAL_TIMEOUT \<longrightarrow> pg_clock p' \<le> TOTAL_TIMEOUT)
      \<and> (r = Ends (Inr ()) \<longrightarrow> (\<exists>ip\<in>set tried. attempt N name (ip, port) = Inr ()))"
  using assms
proof (induction ips arbitrary: e p)
  case Nil
  then show ?case by auto
next
  case (Cons ip ips)
  obtain r1 p1 where one: "timed_attempt N name (ip, port) p = (r1, p1)" by fastforce
  note first = timed_attempt_facts [OF one]
  show ?case
  proof (cases "\<exists>e. r1 = Ends (Inl e)")
    case True
    then obtain e1 where "r1 = Ends (Inl e1)" by blast
    with Cons.prems one have "connect_first N name port ips e1 p1 = (r, p')" by simp
    from Cons.IH [OF this] obtain tried rest where later: "ips = tried @ rest"
      "connections p' = connections p1 @ map (\<lambda>ip. (ip, port)) tried"
      "pg_clock p1 \<le> TOTAL_TIMEOUT \<longrightarrow> pg_clock p' \<le> TOTAL_TIMEOUT"
      "r = Ends (Inr ()) \<longrightarrow> (\<exists>ip\<in>set tried. attempt N name (ip, port) = Inr ())"
      by blast
    show ?thesis
      by (rule exI [of _ "ip # tried"], rule exI [of _ rest]) (use first later in auto)
  next
    case False
    with Cons.prems one have "p' = p1" "r = r1" by (auto split: ending.splits sum.splits)
    then show ?thesis
      by (intro exI [of _ "[ip]"] exI [of _ ips]) (use first in auto)
  qed
qed

lemma set_unique_ips:
  "set (unique_ips acc ips) = set acc \<union> set ips"
  by (induction acc ips rule: unique_ips.induct) auto

lemma validate_resolved_public:
  assumes "validate_resolved raw = Inr ips"
  shows "\<forall>ip\<in>set raw. is_public_ip ip" and "set ips = set raw"
  using assms by (auto simp: validate_resolved_def list_ex_iff set_unique_ips split: if_splits)

definition answer_public :: "network \<Rightarrow> target \<Rightarrow> bool" where
  "answer_public N target \<longleftrightarrow> (case tg_host target of
     TargetIp ip \<Rightarrow> is_public_ip ip
   | TargetDomain domain \<Rightarrow> (case dns_answer N domain (tg_port target) of
         None \<Rightarrow> False
       | Some answers \<Rightarrow> answers \<noteq> [] \<and> length answers \<le> MAX_DNS_RESULTS \<and> list_all is_public_ip answers))"

definition candidates :: "network \<Rightarrow> target \<Rightarrow> ip_addr set" where
  "candidates N target = (case tg_host target of
     TargetIp ip \<Rightarrow> {ip}
   | TargetDomain domain \<Rightarrow> (case dns_answer N domain (tg_port target) of None \<Rightarrow> {} | Some answers \<Rightarrow> set answers))"

lemma resolve_facts:
  assumes "resolve N domain port p = (r, p')"
  shows "connections p' = connections p"
    and "pg_clock p \<le> TOTAL_TIMEOUT \<Longrightarrow> pg_clock p' \<le> TOTAL_TIMEOUT"
    and "r = Ends (Inr ips) \<Longrightarrow> \<exists>answers. dns_answer N domain port = Some answers \<and> answers \<noteq> []
           \<and> length answers \<le> MAX_DNS_RESULTS \<and> list_all is_public_ip answers \<and> set ips = set answers"
  using connections_spend [OF assms [unfolded resolve_def]]
  by (auto simp: validate_resolved_def list_ex_iff list_all_iff set_unique_ips split: option.splits if_splits)

lemma handshake_facts:
  assumes "connect_and_handshake N target p = (r, p')"
  shows "\<exists>tried. connections p' = connections p @ map (\<lambda>ip. (ip, tg_port target)) tried
      \<and> length tried \<le> MAX_CONNECT_ATTEMPTS \<and> set tried \<subseteq> candidates N target
      \<and> (tried \<noteq> [] \<longrightarrow> answer_public N target)
      \<and> (pg_clock p \<le> TOTAL_TIMEOUT \<longrightarrow> pg_clock p' \<le> TOTAL_TIMEOUT)
      \<and> (r = Ends (Inr ()) \<longrightarrow> (\<exists>ip\<in>set tried. \<exists>name. attempt N name (ip, tg_port target) = Inr ()))"
proof -
  define connect where "connect = (\<lambda>name ips p. if \<not> tls_config_ok N then (Ends (Inl Tls), p)
        else connect_first N name (tg_port target) (take MAX_CONNECT_ATTEMPTS ips) Connection p)"
  have connects: "\<exists>tried. connections p' = connections p1 @ map (\<lambda>ip. (ip, tg_port target)) tried
      \<and> length tried \<le> MAX_CONNECT_ATTEMPTS \<and> set tried \<subseteq> set ips
      \<and> (pg_clock p1 \<le> TOTAL_TIMEOUT \<longrightarrow> pg_clock p' \<le> TOTAL_TIMEOUT)
      \<and> (r = Ends (Inr ()) \<longrightarrow> (\<exists>ip\<in>set tried. \<exists>name. attempt N name (ip, tg_port target) = Inr ()))"
    if run: "connect name ips p1 = (r, p')" for name ips p1
  proof (cases "tls_config_ok N")
    case True
    with run have "connect_first N name (tg_port target) (take MAX_CONNECT_ATTEMPTS ips) Connection p1 = (r, p')"
      by (simp add: connect_def)
    from connect_first_facts [OF this] obtain tried rest where t: "take MAX_CONNECT_ATTEMPTS ips = tried @ rest"
      "connections p' = connections p1 @ map (\<lambda>ip. (ip, tg_port target)) tried"
      "pg_clock p1 \<le> TOTAL_TIMEOUT \<longrightarrow> pg_clock p' \<le> TOTAL_TIMEOUT"
      "r = Ends (Inr ()) \<longrightarrow> (\<exists>ip\<in>set tried. attempt N name (ip, tg_port target) = Inr ())"
      by blast
    have "length (tried @ rest) \<le> MAX_CONNECT_ATTEMPTS" "set (tried @ rest) \<subseteq> set ips"
      unfolding t(1) [symmetric] by (auto dest: in_set_takeD)
    with t(2-) show ?thesis by (intro exI [of _ tried]) auto
  qed (use run in \<open>auto simp: connect_def intro!: exI [of _ "[]"]\<close>)
  note handshake = assms [unfolded connect_and_handshake_def, folded connect_def, unfolded Let_def]
  show ?thesis
  proof (cases "tg_host target")
    case (TargetIp ip)
    then show ?thesis
      using handshake connects [of "AddressedServer ip" "[ip]" p]
      by (cases "is_public_ip ip") (auto simp: candidates_def answer_public_def)
  next
    case (TargetDomain domain)
    show ?thesis
    proof (cases "server_name_ok N domain")
      case ok: True
      obtain r1 p1 where res: "resolve N domain (tg_port target) p = (r1, p1)" by fastforce
      note resolved = resolve_facts [OF res]
      show ?thesis
      proof (cases "\<exists>ips. r1 = Ends (Inr ips)")
        case True
        then obtain ips where ips: "r1 = Ends (Inr ips)" by blast
        with handshake res ok TargetDomain have "connect (NamedServer domain) ips p1 = (r, p')" by simp
        from connects [OF this] resolved(1,2) resolved(3) [OF ips] TargetDomain show ?thesis
          by (fastforce simp: candidates_def answer_public_def)
      next
        case False
        with handshake res ok TargetDomain have "p' = p1" "r \<noteq> Ends (Inr ())"
          by (auto split: ending.splits sum.splits)
        with resolved(1,2) show ?thesis by auto
      qed
    qed (use handshake TargetDomain in auto)
  qed
qed


definition check_start :: progress where
  "check_start = \<lparr>pg_clock = 0, pg_events = []\<rparr>"

lemma connections_clock [simp]: "connections (p\<lparr>pg_clock := n\<rparr>) = connections p"
  by (simp add: connections_def)

lemma check_https_steps:
  "check_https url_parse N raw_url = (case parse_target url_parse raw_url of
     Inl e \<Rightarrow> (Inl e, check_start)
   | Inr target \<Rightarrow> (case connect_and_handshake N target check_start of
       (Cut, p) \<Rightarrow> (Inl TimedOut, p) | (Ends (Inl e), p) \<Rightarrow> (Inl e, p)
     | (Ends (Inr _), p) \<Rightarrow> (Inr (), close_stream N p)))"
  unfolding check_https_def check_start_def Let_def ..

text \<open>C9: a check of a URL starts at most two connections. A check that fails ends within eight seconds of its
start; one that succeeds has its handshake within eight seconds and may spend half a second more on closing the
stream, for which the deadline no longer counts. Every connection goes to the port of the URL and to a public
address that is the address in the URL or one the resolver gave, and for a name only when all of the at most
sixteen answers are public; a check that succeeds completed a handshake on one of these connections.\<close>

theorem check_https_contacts_public_only:
  "case (parse_target url_parse raw_url, check_https url_parse N raw_url) of
     (Inl e, r, p) \<Rightarrow> r = Inl e \<and> pg_events p = [] \<and> pg_clock p = 0
   | (Inr target, r, p) \<Rightarrow>
       pg_clock p \<le> (if r = Inr () then 8000 + min (shutdown_delay N) 500 else 8000) \<and> length (connections p) \<le> 2
       \<and> (\<forall>(ip, port)\<in>set (connections p). port = tg_port target \<and> is_public_ip ip \<and> ip \<in> candidates N target
            \<and> answer_public N target)
       \<and> (r = Inr () \<longrightarrow> (\<exists>socket\<in>set (connections p). \<exists>name. tcp_accepts N socket \<and> tls_accepts N name socket))"
proof (cases "parse_target url_parse raw_url")
  case (Inl e)
  then show ?thesis by (simp add: check_https_steps check_start_def)
next
  case (Inr target)
  obtain r p where run: "connect_and_handshake N target check_start = (r, p)" by fastforce
  obtain tried where t: "connections p = map (\<lambda>ip. (ip, tg_port target)) tried" "length tried \<le> MAX_CONNECT_ATTEMPTS"
    "set tried \<subseteq> candidates N target" "tried \<noteq> [] \<longrightarrow> answer_public N target" "pg_clock p \<le> TOTAL_TIMEOUT"
    "r = Ends (Inr ()) \<longrightarrow> (\<exists>ip\<in>set tried. \<exists>name. attempt N name (ip, tg_port target) = Inr ())"
    using handshake_facts [OF run] by (auto simp: check_start_def connections_def map_filter_def)
  have public: "is_public_ip ip" if "ip \<in> set tried" for ip
    using that t(3,4) by (cases tried) (auto simp: candidates_def answer_public_def list_all_iff split: target_host.splits option.splits)
  have accepted: "tcp_accepts N s \<and> tls_accepts N name s" if "attempt N name s = Inr ()" for name s
    using that by (simp add: attempt_def split: if_splits)
  have conns: "length (connections p) \<le> 2 \<and> (\<forall>(ip, port)\<in>set (connections p). port = tg_port target
      \<and> is_public_ip ip \<and> ip \<in> candidates N target \<and> answer_public N target)"
    using t(1-4) public by (auto simp: MAX_CONNECT_ATTEMPTS_def)
  have clock: "pg_clock p \<le> 8000" using t(5) by (simp add: TOTAL_TIMEOUT_def)
  show ?thesis
  proof (cases "r = Ends (Inr ())")
    case True
    with t(6) obtain ip name where "ip \<in> set tried" "attempt N name (ip, tg_port target) = Inr ()" by blast
    then have "\<exists>socket\<in>set (connections p). \<exists>name. tcp_accepts N socket \<and> tls_accepts N name socket"
      unfolding t(1) using accepted by fastforce
    then show ?thesis
      using conns clock True by (simp add: check_https_steps Inr run close_stream_def SHUTDOWN_TIMEOUT_def)
  next
    case False
    then have "\<exists>e. check_https url_parse N raw_url = (Inl e, p)"
      by (auto simp: check_https_steps Inr run split: ending.split sum.split)
    then obtain e where "check_https url_parse N raw_url = (Inl e, p)" ..
    then show ?thesis using conns clock by (simp add: Inr)
  qed
qed

definition sample_url :: "string \<Rightarrow> url option" where
  "sample_url u = Some \<lparr>url_scheme = ''https'', url_username = [], url_password = None, url_port = None,
     url_host = Some (Domain u), url_host_str = Some u\<rparr>"

definition sample_network :: network where
  "sample_network = \<lparr>dns_answer = (\<lambda>d port. Some [V4 0x01010101, V4 0x01010101, V4 0x02020202]), dns_delay = (\<lambda>d. 20),
     tcp_accepts = (\<lambda>s. fst s = V4 0x02020202), tls_accepts = (\<lambda>name s. True), attempt_delay = (\<lambda>s. 30), shutdown_delay = 700,
     server_name_ok = (\<lambda>d. True), tls_config_ok = True\<rparr>"

lemma sample_target:
  "parse_target sample_url ''heelonys.fr'' = Inr \<lparr>tg_host = TargetDomain ''heelonys.fr'', tg_port = 443\<rparr>"
  by code_simp

theorem check_https_contacts_public_only_witness:
  "connections (snd (check_https sample_url sample_network ''heelonys.fr''))
     = [(V4 0x01010101, 443), (V4 0x02020202, 443)]
   \<and> fst (check_https sample_url sample_network ''heelonys.fr'') = Inr ()
   \<and> is_public_ip (V4 0x02020202)
   \<and> (\<exists>s name. tcp_accepts sample_network s \<and> tls_accepts sample_network name s)"
proof -
  have run: "check_https sample_url sample_network ''heelonys.fr'' = (Inr (),
      \<lparr>pg_clock = 580, pg_events = [Lookup ''heelonys.fr'' 443, Connect (V4 0x01010101, 443) (NamedServer ''heelonys.fr''),
        Connect (V4 0x02020202, 443) (NamedServer ''heelonys.fr'')]\<rparr>)"
    by code_simp
  note fact = check_https_contacts_public_only [where url_parse = sample_url and raw_url = "''heelonys.fr''"
      and N = sample_network,
      unfolded sample_target run]
  have "connections \<lparr>pg_clock = 580, pg_events = [Lookup ''heelonys.fr'' 443, Connect (V4 0x01010101, 443) (NamedServer ''heelonys.fr''),
        Connect (V4 0x02020202, 443) (NamedServer ''heelonys.fr'')]\<rparr> = [(V4 0x01010101, 443), (V4 0x02020202, 443)]"
    by (simp add: connections_def map_filter_def)
  with fact show ?thesis unfolding run by auto
qed

text \<open>C10: the filter of addresses by masks accepts exactly the addresses outside the reserved blocks: for
version 4 the eighteen intervals of dotted addresses, for version 6 the global unicast range without the
four blocks carved out of it, where an address that carries one of version 4 (mapped, or under the
translation prefix) is judged as that address.\<close>

theorem public_addresses_are_unreserved:
  "is_public_ip ip \<longleftrightarrow> (case ip of V4 a \<Rightarrow> outside special_v4 (unat a) | V6 b \<Rightarrow> public_v6 (unat b))"
  by (cases ip) (simp_all add: is_public_ipv4_ranges is_public_ipv6_ranges)

end
