(* ===== verification/HV_SecurityCenter.thy ===== *)
theory HV_SecurityCenter
  imports HV_SecretService HV_UrlCheck "HOL-Library.Multiset"
begin

text \<open>
  services/security_center.rs: the local diagnosis of the secrets of a user, over the vault service, the
  secret service and the crypto service. The crates zxcvbn, url, serde_json, time and sha2 and the Unicode
  tables are parameters. The flag of a scan can be set from another thread at any moment; what its
  loads give is a parameter too.
\<close>

section \<open>Libraries\<close>

record estimate =
  zx_score :: byte
  zx_feedback :: "(string option \<times> string list) option"

text \<open>A JSON value as far as the code looks at it; the members of an object have distinct keys.\<close>

datatype json = JsonObject "(string \<times> json) list" | JsonString string | JsonOther

record scan_lib =
  zxcvbn :: "string \<Rightarrow> string list \<Rightarrow> estimate"
  url_parse :: "string \<Rightarrow> url option"
  json_parse :: "string \<Rightarrow> json option"
  rfc3339 :: "string \<Rightarrow> int option"
  sha256 :: "bytes \<Rightarrow> bytes"
  unicode_of :: unicode

definition chars :: "scan_lib \<Rightarrow> string \<Rightarrow> nat list" where
  "chars S s = lossy_chars (unicode_of S) (as_bytes s)"

section \<open>Passwords\<close>

definition APP_TERMS :: "string list" where
  "APP_TERMS = [''heelon'', ''vault'', ''heelonvault'', ''test'', ''azerty'', ''qwerty'', ''qwertz'',
     ''123456'', ''password'', ''motdepasse'']"

record password_assessment =
  pa_score :: byte
  pa_estimator_score :: byte
  pa_policy_cap :: byte
  pa_feedback :: "string option"

definition WEAK_SCORE_THRESHOLD :: byte where "WEAK_SCORE_THRESHOLD = 3"

definition categories :: "scan_lib \<Rightarrow> string \<Rightarrow> nat" where
  "categories S password = length (filter (\<lambda>present. present)
     [list_ex (is_uppercase (unicode_of S)) (chars S password),
      list_ex (is_lowercase (unicode_of S)) (chars S password),
      list_ex (\<lambda>c. 48 \<le> c \<and> c \<le> 57) (chars S password),
      list_ex (\<lambda>c. \<not> is_alphanumeric (unicode_of S) c) (chars S password)])"

definition policy_cap :: "scan_lib \<Rightarrow> string \<Rightarrow> byte" where
  "policy_cap S password =
     (let categories = categories S password; len = length (chars S password)
      in if len < 12 then 1
         else if len < 14 then (if 4 \<le> categories then 3 else 2)
         else if len = 14 then (if 3 \<le> categories then 3 else 2)
         else if 3 \<le> categories then 4
         else 2)"

definition assess_password :: "scan_lib \<Rightarrow> string \<Rightarrow> string \<Rightarrow> password_assessment" where
  "assess_password S password username =
     (let inputs = (if username \<noteq> [] then APP_TERMS @ [username] else APP_TERMS);
          estimate = zxcvbn S password inputs;
          cap = policy_cap S password
      in \<lparr>pa_score = min (zx_score estimate) cap,
          pa_estimator_score = zx_score estimate,
          pa_policy_cap = cap,
          pa_feedback = (case zx_feedback estimate of
             None \<Rightarrow> None
           | Some (Some warning, _) \<Rightarrow> Some warning
           | Some (None, []) \<Rightarrow> None
           | Some (None, suggestion # _) \<Rightarrow> Some suggestion)\<rparr>)"

definition is_weak_password :: "scan_lib \<Rightarrow> string \<Rightarrow> bool" where
  "is_weak_password S password \<longleftrightarrow>
     policy_cap S password < WEAK_SCORE_THRESHOLD
   \<or> pa_score (assess_password S password []) < WEAK_SCORE_THRESHOLD"

section \<open>URLs\<close>

datatype url_status =
    EmptyUrl | Invalid | UnsupportedScheme | Credentials | Http | LocalHost
  | InternationalDomain | HttpsUnverified

fun needs_attention :: "url_status \<Rightarrow> bool" where
  "needs_attention EmptyUrl = False"
| "needs_attention HttpsUnverified = False"
| "needs_attention _ = True"

definition ends_with :: "string \<Rightarrow> string \<Rightarrow> bool" where
  "ends_with s name \<longleftrightarrow> strip_suffix s name \<noteq> None"

definition starts_with :: "string \<Rightarrow> string \<Rightarrow> bool" where
  "starts_with s prefix \<longleftrightarrow> take (length prefix) s = prefix"

fun split_char :: "char \<Rightarrow> string \<Rightarrow> string list" where
  "split_char c [] = [[]]"
| "split_char c (x # s) = (if x = c then [] # split_char c s
     else (case split_char c s of [] \<Rightarrow> [[x]] | label # labels \<Rightarrow> (x # label) # labels))"

definition is_domain :: "url_host \<Rightarrow> bool" where
  "is_domain host = (case host of Domain _ \<Rightarrow> True | _ \<Rightarrow> False)"

definition assess_url :: "scan_lib \<Rightarrow> string \<Rightarrow> url_status" where
  "assess_url S raw =
     (if trim raw = [] then EmptyUrl
      else case url_parse S (trim raw) of
        None \<Rightarrow> Invalid
      | Some url \<Rightarrow>
          if url_scheme url \<noteq> ''http'' \<and> url_scheme url \<noteq> ''https'' then UnsupportedScheme
          else case url_host_str url of
            None \<Rightarrow> Invalid
          | Some host \<Rightarrow>
              if url_username url \<noteq> [] \<or> url_password url \<noteq> None then Credentials
              else if CHR ''.'' \<notin> set host
                \<or> ends_with host ''.local''
                \<or> ends_with host ''.localhost''
                \<or> ends_with host ''.internal''
                \<or> ends_with host ''.home.arpa''
                \<or> (case url_host url of None \<Rightarrow> False | Some h \<Rightarrow> \<not> is_domain h)
              then LocalHost
              else if url_scheme url = ''http'' then Http
              else if list_ex (\<lambda>label. starts_with label ''xn--'') (split_char (CHR ''.'') host)
              then InternationalDomain
              else HttpsUnverified)"

section \<open>The report\<close>

datatype finding =
    WeakPassword | ReusedPassword | Expired | ExpiringSoon | InvalidExpiry
  | Url url_status | Unreadable | InvalidMetadata

record security_entry =
  se_secret_id :: uuid
  se_vault_id :: uuid
  se_title :: string
  se_vault_name :: string
  se_findings :: "finding list"
  se_reuse_group :: "nat option"

record security_report =
  rp_entries :: "security_entry list"
  rp_vaults_analyzed :: nat
  rp_unavailable_vaults :: nat
  rp_analyzed :: nat
  rp_unreadable :: nat

definition default_report :: security_report where
  "default_report = \<lparr>rp_entries = [], rp_vaults_analyzed = 0, rp_unavailable_vaults = 0,
     rp_analyzed = 0, rp_unreadable = 0\<rparr>"

definition affected :: "security_report \<Rightarrow> nat" where
  "affected report = length (filter (\<lambda>entry. se_findings entry \<noteq> []) (rp_entries report))"

definition is_complete :: "security_report \<Rightarrow> bool" where
  "is_complete report \<longleftrightarrow> rp_unavailable_vaults report = 0 \<and> rp_unreadable report = 0
   \<and> list_all (\<lambda>entry. \<not> list_ex (\<lambda>finding. finding = InvalidExpiry \<or> finding = InvalidMetadata)
        (se_findings entry)) (rp_entries report)"

text \<open>Instants in nanoseconds.\<close>

definition THIRTY_DAYS :: int where "THIRTY_DAYS = 30 * 86400 * 1000000000"

definition expiry_finding :: "scan_lib \<Rightarrow> string \<Rightarrow> int \<Rightarrow> finding option" where
  "expiry_finding S raw now = (case rfc3339 S raw of
     Some expiry \<Rightarrow>
       if expiry \<le> now then Some Expired
       else if expiry \<le> now + THIRTY_DAYS then Some ExpiringSoon
       else None
   | None \<Rightarrow> Some InvalidExpiry)"

definition metadata_url_findings :: "scan_lib \<Rightarrow> string \<Rightarrow> finding list" where
  "metadata_url_findings S raw = (case json_parse S raw of
     Some (JsonObject members) \<Rightarrow> (case map_of members ''url'' of
         None \<Rightarrow> []
       | Some (JsonString raw_url) \<Rightarrow>
           let status = assess_url S raw_url in if needs_attention status then [Url status] else []
       | Some _ \<Rightarrow> [InvalidMetadata])
   | _ \<Rightarrow> [InvalidMetadata])"

definition metadata_findings :: "scan_lib \<Rightarrow> secret_item \<Rightarrow> int \<Rightarrow> finding list" where
  "metadata_findings S item now =
     (case si_expires_at item of
        None \<Rightarrow> []
      | Some raw \<Rightarrow> if raw = [] then [] else
          (case expiry_finding S raw now of None \<Rightarrow> [] | Some finding \<Rightarrow> [finding]))
     @ (case si_metadata_json item of None \<Rightarrow> [] | Some raw \<Rightarrow> metadata_url_findings S raw)"

section \<open>The scan\<close>

text \<open>
  The map from fingerprints to the entries that carry them and the verdict, \<open>HashMap\<close>, as an association
  list; \<open>enter\<close> is \<open>entry(fingerprint).or_insert_with(..)\<close> and the push of the index.
\<close>

type_synonym fingerprints = "(bytes \<times> nat list \<times> bool) list"

fun enter :: "bytes \<Rightarrow> bool \<Rightarrow> nat \<Rightarrow> fingerprints \<Rightarrow> bool \<times> fingerprints" where
  "enter fingerprint verdict i [] = (verdict, [(fingerprint, [i], verdict)])"
| "enter fingerprint verdict i ((f, indices, weak) # ps) =
     (if f = fingerprint then (weak, (f, indices @ [i], weak) # ps)
      else (case enter fingerprint verdict i ps of (w, ps') \<Rightarrow> (w, (f, indices, weak) # ps')))"

text \<open>The text of a password item: what its blob decrypts to, if that is a non-empty UTF-8 text.\<close>

definition readable_password :: "crypto_lib \<Rightarrow> bytes \<Rightarrow> secret_item \<Rightarrow> string option" where
  "readable_password L key item =
     (case bindR (decode_secret_payload (si_secret_blob item)) (\<lambda>payload. decrypt L payload key) of
        Inr plaintext \<Rightarrow> (case from_utf8 plaintext of
            Some text \<Rightarrow> if text \<noteq> [] then Some text else None
          | None \<Rightarrow> None)
      | Inl _ \<Rightarrow> None)"

definition scan_item :: "scan_lib \<Rightarrow> crypto_lib \<Rightarrow> int \<Rightarrow> bytes \<Rightarrow> string \<Rightarrow> secret_item
    \<Rightarrow> security_report \<times> fingerprints \<Rightarrow> security_report \<times> fingerprints" where
  "scan_item S L now key vault_name item acc =
     (let report = fst acc;
          findings = metadata_findings S item now;
          (findings, unreadable, prints) =
            (if si_secret_type item = Password then
               (case readable_password L key item of
                  Some text \<Rightarrow>
                    (case enter (sha256 S (as_bytes text)) (is_weak_password S text)
                            (length (rp_entries report)) (snd acc) of
                       (weak, prints) \<Rightarrow> (if weak then findings @ [WeakPassword] else findings, 0, prints))
                | None \<Rightarrow> (findings @ [Unreadable], 1, snd acc))
             else (findings, 0, snd acc))
      in (report\<lparr>rp_entries := rp_entries report @ [\<lparr>se_secret_id = si_id item,
              se_vault_id = si_vault_id item,
              se_title = (case si_title item of Some t \<Rightarrow> t | None \<Rightarrow> []),
              se_vault_name = vault_name,
              se_findings = findings,
              se_reuse_group = None\<rparr>],
            rp_unreadable := rp_unreadable report + unreadable,
            rp_analyzed := rp_analyzed report + 1\<rparr>, prints))"

text \<open>The scan runs in the world, next to its control: the number of loads of the flag so far and
the progress it has published.\<close>

record scan_host =
  sc_world :: world
  sc_loads :: nat
  sc_processed :: nat

definition scan_world :: "(world, 'a) eff \<Rightarrow> (scan_host, 'a) eff" where
  "scan_world m = (\<lambda>h. case m (sc_world h) of (r, w) \<Rightarrow> (r, h\<lparr>sc_world := w\<rparr>))"

definition control_check :: "(nat \<Rightarrow> bool) \<Rightarrow> (scan_host, unit) eff" where
  "control_check cancelled = (\<lambda>h. (ensure (\<not> cancelled (sc_loads h)) (Validation ''security analysis cancelled''),
     h\<lparr>sc_loads := sc_loads h + 1\<rparr>))"

fun scan_items :: "scan_lib \<Rightarrow> crypto_lib \<Rightarrow> (nat \<Rightarrow> bool) \<Rightarrow> int \<Rightarrow> bytes \<Rightarrow> string \<Rightarrow> secret_item list
    \<Rightarrow> security_report \<times> fingerprints \<Rightarrow> (scan_host, security_report \<times> fingerprints) eff" where
  "scan_items S L cancelled now key vault_name [] acc = returnE acc"
| "scan_items S L cancelled now key vault_name (item # items) acc =
     bindE (control_check cancelled) (\<lambda>_.
     let acc' = scan_item S L now key vault_name item acc in
     bindE (modifyE (\<lambda>h. h\<lparr>sc_processed := rp_analyzed (fst acc')\<rparr>)) (\<lambda>_.
     scan_items S L cancelled now key vault_name items acc'))"

definition vault_unavailable :: "security_report \<times> fingerprints \<Rightarrow> security_report \<times> fingerprints" where
  "vault_unavailable acc =
     ((fst acc)\<lparr>rp_unavailable_vaults := rp_unavailable_vaults (fst acc) + 1\<rparr>, snd acc)"

definition vault_analyzed :: "security_report \<times> fingerprints \<Rightarrow> security_report \<times> fingerprints" where
  "vault_analyzed acc =
     ((fst acc)\<lparr>rp_vaults_analyzed := rp_vaults_analyzed (fst acc) + 1\<rparr>, snd acc)"

definition scan_vault :: "scan_lib \<Rightarrow> audit_svc \<Rightarrow> crypto_lib \<Rightarrow> (nat \<Rightarrow> bool) \<Rightarrow> uuid \<Rightarrow> bytes \<Rightarrow> int \<Rightarrow> vault
    \<Rightarrow> security_report \<times> fingerprints \<Rightarrow> (scan_host, security_report \<times> fingerprints) eff" where
  "scan_vault S A L cancelled uid master_key now vault acc =
     bindE (control_check cancelled) (\<lambda>_.
     bindE (attemptE (scan_world (open_vault_for_user A L uid (v_id vault) master_key))) (\<lambda>opened.
     case opened of
       Inl _ \<Rightarrow> returnE (vault_unavailable acc)
     | Inr key \<Rightarrow>
         bindE (attemptE (scan_world (on_db (list_by_vault_id (v_id vault))))) (\<lambda>listed.
         case listed of
           Inl _ \<Rightarrow> returnE (vault_unavailable acc)
         | Inr items \<Rightarrow> scan_items S L cancelled now key (v_name vault) items (vault_analyzed acc))))"

fun scan_vaults :: "scan_lib \<Rightarrow> audit_svc \<Rightarrow> crypto_lib \<Rightarrow> (nat \<Rightarrow> bool) \<Rightarrow> uuid \<Rightarrow> bytes \<Rightarrow> int \<Rightarrow> vault list
    \<Rightarrow> security_report \<times> fingerprints \<Rightarrow> (scan_host, security_report \<times> fingerprints) eff" where
  "scan_vaults S A L cancelled uid master_key now [] acc = returnE acc"
| "scan_vaults S A L cancelled uid master_key now (vault # vs) acc =
     bindE (scan_vault S A L cancelled uid master_key now vault acc)
       (scan_vaults S A L cancelled uid master_key now vs)"

section \<open>The groups of reused passwords\<close>

definition reuse_groups :: "fingerprints \<Rightarrow> nat list list" where
  "reuse_groups prints =
     sort_key hd (filter (\<lambda>indices. 1 < length indices) (map (\<lambda>(_, indices, _). indices) prints))"

definition mark_reused :: "nat \<Rightarrow> nat \<Rightarrow> security_entry list \<Rightarrow> security_entry list" where
  "mark_reused g i entries = entries[i := (entries ! i)
     \<lparr>se_findings := se_findings (entries ! i) @ [ReusedPassword], se_reuse_group := Some g\<rparr>]"

fun assign_groups :: "nat \<Rightarrow> nat list list \<Rightarrow> security_entry list \<Rightarrow> security_entry list" where
  "assign_groups g [] entries = entries"
| "assign_groups g (indices # gs) entries =
     assign_groups (g + 1) gs (fold (mark_reused g) indices entries)"

definition analyze :: "scan_lib \<Rightarrow> audit_svc \<Rightarrow> crypto_lib \<Rightarrow> (nat \<Rightarrow> bool) \<Rightarrow> uuid \<Rightarrow> bytes \<Rightarrow> int
    \<Rightarrow> (scan_host, security_report) eff" where
  "analyze S A L cancelled uid master_key now =
     bindE (control_check cancelled) (\<lambda>_.
     bindE (scan_world (list_user_vaults uid)) (\<lambda>vs.
     bindE (scan_vaults S A L cancelled uid master_key now vs (default_report, [])) (\<lambda>acc.
     bindE (control_check cancelled) (\<lambda>_.
     returnE ((fst acc)\<lparr>rp_entries := assign_groups 0 (reuse_groups (snd acc)) (rp_entries (fst acc))\<rparr>)))))"

section \<open>Reuse groups\<close>

definition carriers :: "'a option list \<Rightarrow> 'a \<Rightarrow> nat list" where
  "carriers F f = filter (\<lambda>i. F ! i = Some f) [0..<length F]"

definition prints_of :: "fingerprints \<Rightarrow> bytes option list \<Rightarrow> bool" where
  "prints_of prints F \<longleftrightarrow> distinct (map fst prints) \<and> (\<forall>f. f \<in> fst ` set prints \<longleftrightarrow> Some f \<in> set F)
     \<and> (\<forall>f indices weak. (f, indices, weak) \<in> set prints \<longrightarrow> indices = carriers F f)"

lemma carriers_snoc:
  "carriers (F @ [x]) f = carriers F f @ (if x = Some f then [length F] else [])"
  by (auto simp: carriers_def nth_append intro: filter_cong)

lemma carriers_Nil_iff: "carriers F f = [] \<longleftrightarrow> Some f \<notin> set F"
  by (auto simp: carriers_def filter_empty_conv in_set_conv_nth)

lemma enter_keys:
  "set (map fst (snd (enter f verdict i ps))) = insert f (set (map fst ps))"
  "distinct (map fst ps) \<Longrightarrow> distinct (map fst (snd (enter f verdict i ps)))"
proof (induction ps)
  case (Cons p ps)
  obtain g indices w where p: "p = (g, indices, w)" by (cases p)
  obtain w' ps' where e: "enter f verdict i ps = (w', ps')" by fastforce
  { case 1 show ?case using Cons.IH(1) by (auto simp: p e) }
  { case 2 then show ?case using Cons.IH by (auto simp: p e) }
qed simp_all

lemma enter_rows:
  assumes "distinct (map fst ps)" "(g, indices, w) \<in> set (snd (enter f verdict i ps))"
  shows "if g = f then (w = fst (enter f verdict i ps)
           \<and> (f \<notin> fst ` set ps \<and> indices = [i] \<and> w = verdict
             \<or> (\<exists>is. indices = is @ [i] \<and> (f, is, w) \<in> set ps)))
         else (g, indices, w) \<in> set ps"
  using assms
proof (induction ps)
  case (Cons p ps)
  obtain g' indices' w' where p: "p = (g', indices', w')" by (cases p)
  obtain w1 ps1 where e: "enter f verdict i ps = (w1, ps1)" by fastforce
  show ?case
  proof (cases "g' = f")
    case True
    with Cons.prems show ?thesis by (auto simp: p image_iff)
  next
    case False
    with Cons show ?thesis by (auto simp: p e split: if_splits) force+
  qed
qed simp

lemma enter_prints:
  assumes "prints_of ps F"
  shows "prints_of (snd (enter f verdict (length F) ps)) (F @ [Some f])"
  unfolding prints_of_def
proof (intro conjI allI impI)
  show "distinct (map fst (snd (enter f verdict (length F) ps)))"
    using assms by (auto simp: prints_of_def intro: enter_keys(2))
  show "g \<in> fst ` set (snd (enter f verdict (length F) ps)) \<longleftrightarrow> Some g \<in> set (F @ [Some f])" for g
    using assms enter_keys(1) [of f verdict "length F" ps] by (auto simp: prints_of_def)
  fix g indices w
  assume row: "(g, indices, w) \<in> set (snd (enter f verdict (length F) ps))"
  have d: "distinct (map fst ps)" using assms by (simp add: prints_of_def)
  show "indices = carriers (F @ [Some f]) g"
  proof (cases "g = f")
    case True
    with enter_rows [OF d row] assms show ?thesis
      by (auto simp: prints_of_def carriers_snoc carriers_Nil_iff)
  next
    case False
    with enter_rows [OF d row] assms show ?thesis by (auto simp: prints_of_def carriers_snoc)
  qed
qed

lemma prints_of_None: "prints_of ps F \<Longrightarrow> prints_of ps (F @ [None])"
  by (auto simp: prints_of_def carriers_snoc)

text \<open>The reference: a position is reused when another one carries the same value; the leader of a
group is its first position.\<close>

definition same_at :: "'a option list \<Rightarrow> nat \<Rightarrow> nat list" where
  "same_at F j = filter (\<lambda>i. F ! i = F ! j) [0..<length F]"

definition reused_at :: "'a option list \<Rightarrow> nat \<Rightarrow> bool" where
  "reused_at F i \<longleftrightarrow> F ! i \<noteq> None \<and> 1 < length (same_at F i)"

definition leader :: "'a option list \<Rightarrow> nat \<Rightarrow> bool" where
  "leader F j \<longleftrightarrow> reused_at F j \<and> hd (same_at F j) = j"

definition group_number :: "'a option list \<Rightarrow> nat \<Rightarrow> nat" where
  "group_number F i = length (filter (leader F) [0..<hd (same_at F i)])"

lemma same_at_carriers: "F ! j = Some f \<Longrightarrow> same_at F j = carriers F f"
  by (simp add: same_at_def carriers_def)

lemma same_at_self: "i < length F \<Longrightarrow> i \<in> set (same_at F i)"
  by (simp add: same_at_def)

lemma same_at_cong: "F ! i = F ! j \<Longrightarrow> same_at F i = same_at F j"
  by (simp add: same_at_def)

lemma hd_same_at:
  assumes "i < length F"
  shows "hd (same_at F i) < length F" "F ! hd (same_at F i) = F ! i" "same_at F (hd (same_at F i)) = same_at F i"
proof -
  have "hd (same_at F i) \<in> set (same_at F i)"
    using same_at_self [OF assms] by (cases "same_at F i") auto
  then show "hd (same_at F i) < length F" "F ! hd (same_at F i) = F ! i" by (simp_all add: same_at_def)
  then show "same_at F (hd (same_at F i)) = same_at F i" by (intro same_at_cong)
qed

lemma leader_of:
  assumes "i < length F" "reused_at F i"
  shows "leader F (hd (same_at F i))"
  using assms hd_same_at [OF assms(1)] by (simp add: leader_def reused_at_def)

lemma reuse_groups_leaders:
  assumes "prints_of ps F"
  shows "reuse_groups ps = map (same_at F) (filter (leader F) [0..<length F])"
proof -
  let ?xs = "filter (\<lambda>indices. 1 < length indices) (map (\<lambda>(_, indices, _). indices) ps)"
  let ?ys = "map (same_at F) (filter (leader F) [0..<length F])"
  have row: "(f, indices, w) \<in> set ps \<Longrightarrow> indices = carriers F f \<and> Some f \<in> set F" for f indices w
    using assms by (force simp: prints_of_def)
  have xs: "map (\<lambda>(_, indices, _). indices) ps = map (carriers F) (map fst ps)"
    using row by (auto simp: comp_def)
  have inj: "inj_on (carriers F) (fst ` set ps)"
  proof (rule inj_onI)
    fix f g assume "f \<in> fst ` set ps" "g \<in> fst ` set ps" "carriers F f = carriers F g"
    moreover from this(1) have "Some f \<in> set F" using assms by (simp add: prints_of_def)
    ultimately have "hd (carriers F f) \<in> set (carriers F f)" "hd (carriers F f) \<in> set (carriers F g)"
      by (simp_all add: carriers_Nil_iff [symmetric])
       (metis carriers_Nil_iff hd_in_set)+
    then show "f = g" by (simp add: carriers_def)
  qed
  have "distinct (map (carriers F) (map fst ps))"
    using assms inj by (simp add: distinct_map prints_of_def comp_inj_on)
  then have dx: "distinct ?xs" by (simp add: xs)
  have heads: "leader F j \<Longrightarrow> hd (same_at F j) = j" for j by (simp add: leader_def)
  have dy: "distinct ?ys" by (auto simp: distinct_map intro!: inj_onI) (metis heads)
  have "set ?xs = set ?ys"
  proof (intro equalityI subsetI)
    fix ixs assume "ixs \<in> set ?xs"
    then obtain f w where f: "(f, ixs, w) \<in> set ps" "1 < length ixs" by auto
    with row have "ixs = carriers F f" "Some f \<in> set F" by auto
    then obtain i where i: "i < length F" "F ! i = Some f" by (auto simp: in_set_conv_nth)
    with \<open>ixs = carriers F f\<close> have "ixs = same_at F i" by (simp add: same_at_carriers)
    with i f have "leader F (hd ixs)" "hd ixs < length F" "same_at F (hd ixs) = ixs"
      using leader_of [of i F] hd_same_at [of i F] by (auto simp: reused_at_def)
    then show "ixs \<in> set ?ys" by force
  next
    fix ixs assume "ixs \<in> set ?ys"
    then obtain j where j: "j < length F" "leader F j" "ixs = same_at F j" by auto
    then obtain f where f: "F ! j = Some f" by (auto simp: leader_def reused_at_def)
    then have "f \<in> fst ` set ps" using assms j(1) by (auto simp: prints_of_def) (metis nth_mem)
    then obtain indices w where "(f, indices, w) \<in> set ps" by auto
    moreover have "1 < length ixs" using j by (simp add: leader_def reused_at_def)
    moreover have "ixs = indices" using row [OF calculation(1)] j f by (simp add: same_at_carriers)
    ultimately show "ixs \<in> set ?xs" by force
  qed
  then have "mset ?xs = mset ?ys" using set_eq_iff_mset_eq_distinct [OF dx dy] by blast
  moreover have hds: "map hd ?ys = filter (leader F) [0..<length F]"
    unfolding map_map by (rule map_idI) (auto simp: heads)
  moreover have "inj_on hd (set ?xs)"
    unfolding \<open>set ?xs = set ?ys\<close> by (auto intro!: inj_onI simp: heads)
  moreover have "sorted (map hd ?ys)" unfolding hds by (intro sorted_wrt_filter) simp
  ultimately show ?thesis unfolding reuse_groups_def by (intro sort_key_inj_key_eq)
qed

definition marked :: "nat \<Rightarrow> security_entry \<Rightarrow> security_entry" where
  "marked g e = e\<lparr>se_findings := se_findings e @ [ReusedPassword], se_reuse_group := Some g\<rparr>"

lemma mark_reused_nth:
  "i < length entries \<Longrightarrow> mark_reused g a entries ! i = (if i = a then marked g (entries ! i) else entries ! i)"
  by (simp add: mark_reused_def marked_def)

lemma mark_reused_length [simp]: "length (mark_reused g a entries) = length entries"
  by (simp add: mark_reused_def)

lemma fold_mark_length [simp]: "length (fold (mark_reused g) indices entries) = length entries"
  by (induction indices arbitrary: entries) simp_all

lemma fold_mark_nth:
  assumes "distinct indices" "i < length entries"
  shows "fold (mark_reused g) indices entries ! i = (if i \<in> set indices then marked g (entries ! i) else entries ! i)"
  using assms
  by (induction indices arbitrary: entries) (auto simp: mark_reused_nth)

lemma assign_groups_length [simp]: "length (assign_groups g gs entries) = length entries"
  by (induction gs arbitrary: g entries) simp_all

lemma assign_groups_outside:
  assumes "\<forall>indices\<in>set gs. distinct indices" "i < length entries" "\<forall>indices\<in>set gs. i \<notin> set indices"
  shows "assign_groups g gs entries ! i = entries ! i"
  using assms by (induction gs arbitrary: g entries) (simp_all add: fold_mark_nth)

lemma assign_groups_inside:
  assumes "\<forall>indices\<in>set (gs @ indices # hs). distinct indices" "i < length entries" "i \<in> set indices"
    "\<forall>js\<in>set gs \<union> set hs. i \<notin> set js"
  shows "assign_groups g (gs @ indices # hs) entries ! i = marked (g + length gs) (entries ! i)"
  using assms
proof (induction gs arbitrary: g entries)
  case Nil
  then show ?case by (simp add: assign_groups_outside fold_mark_nth)
next
  case (Cons js gs)
  then show ?case by (simp add: fold_mark_nth)
qed

lemma leaders_split:
  assumes "m < n" "leader F m"
  shows "filter (leader F) [0..<n] = filter (leader F) [0..<m] @ m # filter (leader F) [Suc m..<n]"
proof -
  have "[0..<n] = [0..<m] @ m # [Suc m..<n]"
    using assms(1) by (metis less_imp_le_nat upt_add_eq_append upt_conv_Cons le_add_diff_inverse zero_le)
  then show ?thesis using assms(2) by simp
qed

lemma assign_groups_reference:
  assumes "prints_of ps F" "i < length F" "length entries = length F"
  shows "assign_groups 0 (reuse_groups ps) entries ! i =
    (if reused_at F i then marked (group_number F i) (entries ! i) else entries ! i)"
proof -
  note groups = reuse_groups_leaders [OF assms(1)]
  have other: "leader F j \<Longrightarrow> j < length F \<Longrightarrow> i \<in> set (same_at F j) \<Longrightarrow> reused_at F i \<and> j = hd (same_at F i)" for j
    using same_at_cong [of F j i] by (auto simp: leader_def reused_at_def same_at_def)
  show ?thesis
  proof (cases "reused_at F i")
    case True
    let ?m = "hd (same_at F i)"
    note m = hd_same_at [OF assms(2)] and lead = leader_of [OF assms(2) True]
    have "assign_groups 0 (reuse_groups ps) entries ! i = marked (0 + length (map (same_at F) (filter (leader F) [0..<?m]))) (entries ! i)"
      unfolding groups leaders_split [OF m(1) lead] map_append list.map
    proof (rule assign_groups_inside)
      show "i \<in> set (same_at F ?m)" using m(3) same_at_self [OF assms(2)] by simp
      show "\<forall>js\<in>set (map (same_at F) (filter (leader F) [0..<?m])) \<union> set (map (same_at F) (filter (leader F) [Suc ?m..<length F])). i \<notin> set js"
        using other m(1) by fastforce
    qed (use assms in \<open>auto simp: same_at_def\<close>)
    with True show ?thesis by (simp add: group_number_def)
  next
    case False
    then have "assign_groups 0 (reuse_groups ps) entries ! i = entries ! i"
      unfolding groups using other assms by (intro assign_groups_outside) (auto simp: same_at_def)
    with False show ?thesis by simp
  qed
qed

section \<open>The scan and its reference\<close>

type_synonym scanned = "bytes \<times> string \<times> secret_item"

definition text_of :: "crypto_lib \<Rightarrow> scanned \<Rightarrow> string option" where
  "text_of L x = (case x of (key, _, item) \<Rightarrow>
     if si_secret_type item = Password then readable_password L key item else None)"

definition unreadable :: "crypto_lib \<Rightarrow> scanned \<Rightarrow> bool" where
  "unreadable L x = (case x of (key, _, item) \<Rightarrow> si_secret_type item = Password \<and> readable_password L key item = None)"

definition own_findings :: "scan_lib \<Rightarrow> crypto_lib \<Rightarrow> int \<Rightarrow> scanned \<Rightarrow> finding list" where
  "own_findings S L now x = metadata_findings S (snd (snd x)) now
     @ (case text_of L x of Some text \<Rightarrow> if is_weak_password S text then [WeakPassword] else [] | None \<Rightarrow> [])
     @ (if unreadable L x then [Unreadable] else [])"

definition own_entry :: "scan_lib \<Rightarrow> crypto_lib \<Rightarrow> int \<Rightarrow> scanned \<Rightarrow> security_entry" where
  "own_entry S L now x = (case x of (key, name, item) \<Rightarrow>
     \<lparr>se_secret_id = si_id item, se_vault_id = si_vault_id item,
      se_title = (case si_title item of Some t \<Rightarrow> t | None \<Rightarrow> []), se_vault_name = name,
      se_findings = own_findings S L now x, se_reuse_group = None\<rparr>)"

definition print_of :: "scan_lib \<Rightarrow> crypto_lib \<Rightarrow> scanned \<Rightarrow> bytes option" where
  "print_of S L x = map_option (\<lambda>text. sha256 S (as_bytes text)) (text_of L x)"

text \<open>No two different texts of the scan have the same SHA-256 digest.\<close>

definition collision_free :: "scan_lib \<Rightarrow> crypto_lib \<Rightarrow> scanned list \<Rightarrow> bool" where
  "collision_free S L T \<longleftrightarrow>
     list_all (\<lambda>x. list_all (\<lambda>y. print_of S L x = print_of S L y \<longrightarrow> text_of L x = text_of L y) T) T"

definition scan_inv :: "scan_lib \<Rightarrow> crypto_lib \<Rightarrow> int \<Rightarrow> scanned list \<Rightarrow> security_report \<times> fingerprints \<Rightarrow> bool" where
  "scan_inv S L now T acc \<longleftrightarrow>
     rp_entries (fst acc) = map (own_entry S L now) T
   \<and> prints_of (snd acc) (map (print_of S L) T)
   \<and> (\<forall>f indices weak. (f, indices, weak) \<in> set (snd acc) \<longrightarrow>
        (\<exists>x\<in>set T. \<exists>text. text_of L x = Some text \<and> sha256 S (as_bytes text) = f \<and> weak = is_weak_password S text))
   \<and> rp_analyzed (fst acc) = length T
   \<and> rp_unreadable (fst acc) = length (filter (unreadable L) T)"

definition scan_at :: "scan_lib \<Rightarrow> crypto_lib \<Rightarrow> int \<Rightarrow> scanned \<Rightarrow> security_report \<times> fingerprints \<Rightarrow> security_report \<times> fingerprints" where
  "scan_at S L now x acc = (case x of (key, name, item) \<Rightarrow> scan_item S L now key name item acc)"

lemma scan_at_cases:
  "scan_at S L now x acc =
     (case text_of L x of
        Some text \<Rightarrow>
          (case enter (sha256 S (as_bytes text)) (is_weak_password S text) (length (rp_entries (fst acc))) (snd acc) of
             (weak, prints) \<Rightarrow>
               ((fst acc)\<lparr>rp_entries := rp_entries (fst acc) @ [(own_entry S L now x)
                   \<lparr>se_findings := metadata_findings S (snd (snd x)) now @ (if weak then [WeakPassword] else [])\<rparr>],
                 rp_analyzed := rp_analyzed (fst acc) + 1\<rparr>, prints))
      | None \<Rightarrow>
          ((fst acc)\<lparr>rp_entries := rp_entries (fst acc) @ [own_entry S L now x],
             rp_unreadable := rp_unreadable (fst acc) + (if unreadable L x then 1 else 0),
             rp_analyzed := rp_analyzed (fst acc) + 1\<rparr>, snd acc))"
  by (auto simp: scan_at_def scan_item_def text_of_def unreadable_def own_entry_def own_findings_def Let_def
      split: prod.split option.split)

lemma collision_free_append: "collision_free S L (T @ U) \<Longrightarrow> collision_free S L T"
  by (auto simp: collision_free_def list_all_iff)

lemma collision_freeD:
  "collision_free S L T \<Longrightarrow> x \<in> set T \<Longrightarrow> y \<in> set T \<Longrightarrow> print_of S L x = print_of S L y
    \<Longrightarrow> text_of L x = text_of L y"
  unfolding collision_free_def list_all_iff by blast

lemma text_not_unreadable: "text_of L x = Some text \<Longrightarrow> \<not> unreadable L x"
  by (auto simp: text_of_def unreadable_def split: prod.splits if_splits)

lemma enter_weak:
  assumes "distinct (map fst ps)"
  shows "fst (enter f verdict i ps) = verdict \<and> f \<notin> fst ` set ps
       \<or> (\<exists>indices. (f, indices, fst (enter f verdict i ps)) \<in> set ps)"
  using assms
proof (induction ps)
  case (Cons p ps)
  obtain g indices w where p: "p = (g, indices, w)" by (cases p)
  obtain w' ps' where e: "enter f verdict i ps = (w', ps')" by fastforce
  show ?case using Cons by (auto simp: p e)
qed simp

lemma scan_inv_step:
  assumes inv: "scan_inv S L now T acc" and free: "collision_free S L (T @ [x])"
  shows "scan_inv S L now (T @ [x]) (scan_at S L now x acc)"
proof (cases "text_of L x")
  case None
  then have "print_of S L x = None" by (simp add: print_of_def)
  with inv None show ?thesis
    by (fastforce simp: scan_inv_def scan_at_cases prints_of_None)
next
  case (Some pw)
  let ?f = "sha256 S (as_bytes pw)"
  have len: "length (rp_entries (fst acc)) = length (map (print_of S L) T)"
    using inv by (simp add: scan_inv_def)
  have d: "distinct (map fst (snd acc))" using inv by (simp add: scan_inv_def prints_of_def)
  obtain weak ps where e: "enter ?f (is_weak_password S pw) (length (rp_entries (fst acc))) (snd acc) = (weak, ps)"
    by fastforce
  have known: "w = is_weak_password S pw" if row: "(?f, indices, w) \<in> set (snd acc)" for indices w
  proof -
    obtain y t where y: "y \<in> set T" "text_of L y = Some t" "sha256 S (as_bytes t) = ?f" "w = is_weak_password S t"
      using inv row unfolding scan_inv_def by blast
    have "print_of S L y = print_of S L x" using y(2,3) Some by (simp add: print_of_def)
    then have "text_of L y = text_of L x" using y(1) by (intro collision_freeD [OF free]) simp_all
    with y Some show ?thesis by simp
  qed
  have weak: "weak = is_weak_password S pw"
    using enter_weak [OF d, of ?f "is_weak_password S pw" "length (rp_entries (fst acc))"] e known by auto
  have rows: "\<exists>y\<in>set (T @ [x]). \<exists>t. text_of L y = Some t \<and> sha256 S (as_bytes t) = f \<and> w = is_weak_password S t"
    if row: "(f, indices, w) \<in> set ps" for f indices w
  proof (cases "f = ?f")
    case True
    have "w = weak"
      using enter_rows [OF d, of f indices w ?f "is_weak_password S pw" "length (rp_entries (fst acc))"] e row True by simp
    with True weak Some show ?thesis by auto
  next
    case False
    then have "(f, indices, w) \<in> set (snd acc)"
      using enter_rows [OF d, of f indices w ?f "is_weak_password S pw" "length (rp_entries (fst acc))"] e row by simp
    with inv show ?thesis unfolding scan_inv_def by (metis UnCI set_append)
  qed
  have prints: "prints_of ps (map (print_of S L) (T @ [x]))"
    using enter_prints [of "snd acc" "map (print_of S L) T" ?f "is_weak_password S pw"] inv e len Some
    by (simp add: scan_inv_def print_of_def)
  have entry: "(own_entry S L now x)\<lparr>se_findings := metadata_findings S (snd (snd x)) now @ (if weak then [WeakPassword] else [])\<rparr>
      = own_entry S L now x"
    using Some weak text_not_unreadable [OF Some] by (auto simp: own_entry_def own_findings_def split: prod.split)
  have step: "scan_at S L now x acc = ((fst acc)\<lparr>rp_entries := rp_entries (fst acc) @ [own_entry S L now x],
      rp_analyzed := rp_analyzed (fst acc) + 1\<rparr>, ps)"
    by (simp add: scan_at_cases Some e entry)
  show ?thesis unfolding scan_inv_def step
  proof (intro conjI allI impI)
    fix f indices w assume "(f, indices, w) \<in> set (snd ((fst acc)\<lparr>rp_entries := rp_entries (fst acc) @ [own_entry S L now x],
      rp_analyzed := rp_analyzed (fst acc) + 1\<rparr>, ps))"
    then show "\<exists>y\<in>set (T @ [x]). \<exists>t. text_of L y = Some t \<and> sha256 S (as_bytes t) = f \<and> w = is_weak_password S t"
      by (intro rows) simp
  qed (use inv prints text_not_unreadable [OF Some] in \<open>simp_all add: scan_inv_def\<close>)
qed

lemma scan_inv_fold:
  assumes "scan_inv S L now T acc" "collision_free S L (T @ U)"
  shows "scan_inv S L now (T @ U) (fold (scan_at S L now) U acc)"
  using assms
proof (induction U arbitrary: T acc)
  case (Cons x U)
  have "scan_inv S L now (T @ [x]) (scan_at S L now x acc)"
    using Cons.prems collision_free_append [of S L "T @ [x]" U] by (intro scan_inv_step) simp_all
  from Cons.IH [OF this] Cons.prems(2) show ?case by simp
qed simp


definition uncancelled :: "(nat \<Rightarrow> bool) \<Rightarrow> nat \<Rightarrow> nat \<Rightarrow> bool" where
  "uncancelled c a n \<longleftrightarrow> (\<forall>k. a \<le> k \<and> k < a + n \<longrightarrow> \<not> c k)"

lemma uncancelled_simps [simp]:
  "uncancelled c a 0"
  "uncancelled c a (Suc n) \<longleftrightarrow> \<not> c a \<and> uncancelled c (Suc a) n"
  "uncancelled c a (m + n) \<longleftrightarrow> uncancelled c a m \<and> uncancelled c (a + m) n"
proof -
  show "uncancelled c a 0" by (auto simp: uncancelled_def)
  show "uncancelled c a (Suc n) \<longleftrightarrow> \<not> c a \<and> uncancelled c (Suc a) n"
    unfolding uncancelled_def by (metis Suc_le_eq add_Suc_right add_Suc_shift le_eq_less_or_eq less_add_Suc1)
  show "uncancelled c a (m + n) \<longleftrightarrow> uncancelled c a m \<and> uncancelled c (a + m) n"
    unfolding uncancelled_def by (auto simp: not_le) (metis add.assoc linorder_not_le)
qed

lemma scan_world_run: "scan_world m h = (fst (m (sc_world h)), h\<lparr>sc_world := snd (m (sc_world h))\<rparr>)"
  by (simp add: scan_world_def split: prod.split)

definition after_loads :: "nat \<Rightarrow> security_report \<times> fingerprints \<Rightarrow> scan_host \<Rightarrow> scan_host" where
  "after_loads n acc h = h\<lparr>sc_loads := sc_loads h + n, sc_processed := rp_analyzed (fst acc)\<rparr>"

lemma scan_items_run:
  assumes "sc_processed h = rp_analyzed (fst acc)"
  shows "let acc' = fold (scan_at S L now) (map (\<lambda>item. (key, name, item)) items) acc in
    (uncancelled c (sc_loads h) (length items) \<longrightarrow>
      scan_items S L c now key name items acc h = (Inr acc', after_loads (length items) acc' h))
    \<and> (\<not> uncancelled c (sc_loads h) (length items) \<longrightarrow>
      fst (scan_items S L c now key name items acc h) = Inl (Validation ''security analysis cancelled''))"
  using assms
proof (induction items arbitrary: acc h)
  case Nil
  then show ?case by (simp add: after_loads_def returnE_run)
next
  case (Cons item items)
  let ?acc = "scan_item S L now key name item acc"
  let ?h = "h\<lparr>sc_loads := sc_loads h + 1, sc_processed := rp_analyzed (fst ?acc)\<rparr>"
  have "scan_items S L c now key name (item # items) acc h =
      (if c (sc_loads h) then (Inl (Validation ''security analysis cancelled''), h\<lparr>sc_loads := sc_loads h + 1\<rparr>)
       else scan_items S L c now key name items ?acc ?h)"
    by (simp add: bindE_run control_check_def ensure_def modifyE_run Let_def)
  with Cons.IH [of ?h ?acc] show ?case
    by (auto simp: scan_at_def after_loads_def Let_def)
qed

text \<open>What opening a vault and listing it gives, and the same for all vaults in turn.\<close>

definition vault_items :: "audit_svc \<Rightarrow> crypto_lib \<Rightarrow> uuid \<Rightarrow> bytes \<Rightarrow> vault \<Rightarrow> world \<Rightarrow> scanned list option \<times> world" where
  "vault_items A L uid master_key v w =
     (case open_vault_for_user A L uid (v_id v) master_key w of
        (Inl _, w1) \<Rightarrow> (None, w1)
      | (Inr key, w1) \<Rightarrow> (case on_db (list_by_vault_id (v_id v)) w1 of
            (Inl _, w2) \<Rightarrow> (None, w2)
          | (Inr items, w2) \<Rightarrow> (Some (map (\<lambda>item. (key, v_name v, item)) items), w2)))"

fun gather :: "audit_svc \<Rightarrow> crypto_lib \<Rightarrow> uuid \<Rightarrow> bytes \<Rightarrow> vault list \<Rightarrow> world \<Rightarrow> scanned list option list \<times> world" where
  "gather A L uid master_key [] w = ([], w)"
| "gather A L uid master_key (v # vs) w =
     (case vault_items A L uid master_key v w of (found, w1) \<Rightarrow>
      case gather A L uid master_key vs w1 of (rest, w2) \<Rightarrow> (found # rest, w2))"

definition found_items :: "scanned list option list \<Rightarrow> scanned list" where
  "found_items founds = concat (map (\<lambda>found. case found of None \<Rightarrow> [] | Some xs \<Rightarrow> xs) founds)"

lemma found_items_simps [simp]:
  "found_items [] = []" "found_items (None # founds) = found_items founds"
  "found_items (Some xs # founds) = xs @ found_items founds"
  by (simp_all add: found_items_def)

definition vault_done :: "scan_lib \<Rightarrow> crypto_lib \<Rightarrow> int \<Rightarrow> scanned list option
    \<Rightarrow> security_report \<times> fingerprints \<Rightarrow> security_report \<times> fingerprints" where
  "vault_done S L now found acc = (case found of
     None \<Rightarrow> vault_unavailable acc
   | Some xs \<Rightarrow> fold (scan_at S L now) xs (vault_analyzed acc))"

definition vault_loads :: "scanned list option \<Rightarrow> nat" where
  "vault_loads found = Suc (case found of None \<Rightarrow> 0 | Some xs \<Rightarrow> length xs)"

abbreviation cancelled_error :: app_error where
  "cancelled_error \<equiv> Validation ''security analysis cancelled''"

lemma scan_vault_run:
  assumes p: "sc_processed h = rp_analyzed (fst acc)"
    and found: "vault_items A L uid mk v (sc_world h) = (found, w)"
  shows "let acc' = vault_done S L now found acc in
    (uncancelled c (sc_loads h) (vault_loads found) \<longrightarrow>
      scan_vault S A L c uid mk now v acc h = (Inr acc', (after_loads (vault_loads found) acc' h)\<lparr>sc_world := w\<rparr>))
    \<and> (\<not> uncancelled c (sc_loads h) (vault_loads found) \<longrightarrow>
      fst (scan_vault S A L c uid mk now v acc h) = Inl cancelled_error)"
proof -
  obtain r1 w1 where op: "open_vault_for_user A L uid (v_id v) mk (sc_world h) = (r1, w1)" by fastforce
  show ?thesis
  proof (cases r1)
    case (Inl e)
    with found op have "found = None" "w = w1" by (simp_all add: vault_items_def)
    with p op Inl show ?thesis
      by (auto simp: scan_vault_def bindE_run control_check_def ensure_def attemptE_run scan_world_run returnE_run
          vault_done_def vault_loads_def after_loads_def vault_unavailable_def)
  next
    case (Inr key)
    obtain r2 w2 where li: "on_db (list_by_vault_id (v_id v)) w1 = (r2, w2)" by fastforce
    show ?thesis
    proof (cases r2)
      case (Inl e)
      with found op li \<open>r1 = Inr key\<close> have "found = None" "w = w2" by (simp_all add: vault_items_def)
      with p op li Inl \<open>r1 = Inr key\<close> show ?thesis
        by (auto simp: scan_vault_def bindE_run control_check_def ensure_def attemptE_run scan_world_run returnE_run
            vault_done_def vault_loads_def after_loads_def vault_unavailable_def)
    next
      case items: (Inr items)
      with found op li Inr have f: "found = Some (map (\<lambda>item. (key, v_name v, item)) items)" "w = w2"
        by (simp_all add: vault_items_def)
      let ?h = "h\<lparr>sc_loads := sc_loads h + 1, sc_world := w2\<rparr>"
      have "scan_vault S A L c uid mk now v acc h = (if c (sc_loads h) then (Inl cancelled_error, h\<lparr>sc_loads := sc_loads h + 1\<rparr>)
          else scan_items S L c now key (v_name v) items (vault_analyzed acc) ?h)"
        using op li Inr items
        by (simp add: scan_vault_def bindE_run control_check_def ensure_def attemptE_run scan_world_run)
      moreover have "sc_processed ?h = rp_analyzed (fst (vault_analyzed acc))" using p by (simp add: vault_analyzed_def)
      ultimately show ?thesis
        using scan_items_run [of ?h "vault_analyzed acc" S L now key "v_name v" items c] f
        by (auto simp: vault_done_def vault_loads_def after_loads_def Let_def)
    qed
  qed
qed

definition total_loads :: "scanned list option list \<Rightarrow> nat" where
  "total_loads founds = sum_list (map vault_loads founds)"

lemma vault_done_processed:
  "sc_processed (after_loads n acc h) = rp_analyzed (fst acc)" "sc_loads (after_loads n acc h) = sc_loads h + n"
  "sc_world (after_loads n acc h) = sc_world h"
  by (simp_all add: after_loads_def)

lemma scan_vaults_run:
  assumes "sc_processed h = rp_analyzed (fst acc)" "gather A L uid mk vs (sc_world h) = (founds, w)"
  shows "let acc' = fold (vault_done S L now) founds acc in
    (uncancelled c (sc_loads h) (total_loads founds) \<longrightarrow>
      scan_vaults S A L c uid mk now vs acc h = (Inr acc', (after_loads (total_loads founds) acc' h)\<lparr>sc_world := w\<rparr>))
    \<and> (\<not> uncancelled c (sc_loads h) (total_loads founds) \<longrightarrow>
      fst (scan_vaults S A L c uid mk now vs acc h) = Inl cancelled_error)"
  using assms
proof (induction vs arbitrary: acc h founds)
  case Nil
  then show ?case by (simp add: after_loads_def returnE_run total_loads_def)
next
  case (Cons v vs)
  obtain found w1 where v: "vault_items A L uid mk v (sc_world h) = (found, w1)" by fastforce
  obtain rest w2 where g: "gather A L uid mk vs w1 = (rest, w2)" by fastforce
  have f: "founds = found # rest" "w = w2" using Cons.prems(2) v g by simp_all
  let ?acc = "vault_done S L now found acc"
  let ?h = "(after_loads (vault_loads found) ?acc h)\<lparr>sc_world := w1\<rparr>"
  note one = scan_vault_run [OF Cons.prems(1) v, of S now c, unfolded Let_def]
  show ?case
  proof (cases "uncancelled c (sc_loads h) (vault_loads found)")
    case True
    with one have "scan_vaults S A L c uid mk now (v # vs) acc h = scan_vaults S A L c uid mk now vs ?acc ?h"
      by (simp add: bindE_run)
    with Cons.IH [of ?h ?acc rest] g True f show ?thesis
      by (simp add: vault_done_processed total_loads_def Let_def after_loads_def add.assoc)
  next
    case False
    with one have "fst (scan_vaults S A L c uid mk now (v # vs) acc h) = Inl cancelled_error"
      by (simp add: bindE_run)
    with False f show ?thesis by (simp add: total_loads_def Let_def)
  qed
qed

lemma scan_inv_vaults:
  assumes "scan_inv S L now T acc" "collision_free S L (T @ found_items founds)"
  shows "scan_inv S L now (T @ found_items founds) (fold (vault_done S L now) founds acc)
    \<and> rp_vaults_analyzed (fst (fold (vault_done S L now) founds acc))
        = rp_vaults_analyzed (fst acc) + length (filter (\<lambda>f. f \<noteq> None) founds)
    \<and> rp_unavailable_vaults (fst (fold (vault_done S L now) founds acc))
        = rp_unavailable_vaults (fst acc) + length (filter (\<lambda>f. f = None) founds)"
  using assms
proof (induction founds arbitrary: T acc)
  case (Cons found founds)
  have counts: "rp_vaults_analyzed (fst (fold (scan_at S L now) xs a)) = rp_vaults_analyzed (fst a)"
    "rp_unavailable_vaults (fst (fold (scan_at S L now) xs a)) = rp_unavailable_vaults (fst a)" for xs a
    by (induction xs arbitrary: a) (simp_all add: scan_at_def scan_item_def Let_def split: prod.split)
  show ?case
  proof (cases found)
    case None
    have "scan_inv S L now T (vault_unavailable acc)"
      using Cons.prems(1) by (simp add: scan_inv_def vault_unavailable_def)
    with Cons.IH [of T "vault_unavailable acc"] Cons.prems(2) None show ?thesis
      by (simp add: vault_done_def) (simp add: vault_unavailable_def)
  next
    case (Some xs)
    have "scan_inv S L now T (vault_analyzed acc)"
      using Cons.prems(1) by (simp add: scan_inv_def vault_analyzed_def)
    moreover have "collision_free S L (T @ xs)"
      using Cons.prems(2) Some collision_free_append [of S L "T @ xs"] by simp
    ultimately have "scan_inv S L now (T @ xs) (fold (scan_at S L now) xs (vault_analyzed acc))"
      by (rule scan_inv_fold)
    with Cons.IH [of "T @ xs" "fold (scan_at S L now) xs (vault_analyzed acc)"] Cons.prems(2) Some show ?thesis
      by (simp add: vault_done_def counts) (simp add: vault_analyzed_def)
  qed
qed simp

definition diagnosis :: "scan_lib \<Rightarrow> crypto_lib \<Rightarrow> int \<Rightarrow> scanned list \<Rightarrow> nat \<Rightarrow> security_entry" where
  "diagnosis S L now T i = (let texts = map (text_of L) T in
     if reused_at texts i then marked (group_number texts i) (own_entry S L now (T ! i))
     else own_entry S L now (T ! i))"


lemma same_text_at:
  assumes "collision_free S L T" "i < length T"
  shows "same_at (map (print_of S L) T) i = same_at (map (text_of L) T) i"
proof -
  have "print_of S L (T ! j) = print_of S L (T ! i) \<longleftrightarrow> text_of L (T ! j) = text_of L (T ! i)" if "j < length T" for j
    using collision_freeD [OF assms(1), of "T ! j" "T ! i"] that assms(2) by (auto simp: print_of_def)
  with assms(2) show ?thesis by (auto simp: same_at_def intro!: filter_cong)
qed

lemma same_reuse:
  assumes "collision_free S L T" "i < length T"
  shows "reused_at (map (print_of S L) T) i \<longleftrightarrow> reused_at (map (text_of L) T) i"
    and "group_number (map (print_of S L) T) i = group_number (map (text_of L) T) i"
proof -
  have reused: "reused_at (map (print_of S L) T) j \<longleftrightarrow> reused_at (map (text_of L) T) j" if "j < length T" for j
    using same_text_at [OF assms(1) that] that by (auto simp: reused_at_def print_of_def)
  then show "reused_at (map (print_of S L) T) i \<longleftrightarrow> reused_at (map (text_of L) T) i" using assms(2) by blast
  have "hd (same_at (map (text_of L) T) i) < length T" using hd_same_at [of i "map (text_of L) T"] assms(2) by simp
  then show "group_number (map (print_of S L) T) i = group_number (map (text_of L) T) i"
    unfolding group_number_def same_text_at [OF assms]
    using reused same_text_at [OF assms(1)] by (intro arg_cong [of _ _ length] filter_cong) (auto simp: leader_def)
qed

lemma scanned_entries:
  assumes "scan_inv S L now T acc" "collision_free S L T"
  shows "assign_groups 0 (reuse_groups (snd acc)) (rp_entries (fst acc)) = map (diagnosis S L now T) [0..<length T]"
proof (rule nth_equalityI)
  have entries: "rp_entries (fst acc) = map (own_entry S L now) T"
    and prints: "prints_of (snd acc) (map (print_of S L) T)" using assms(1) by (simp_all add: scan_inv_def)
  show "length (assign_groups 0 (reuse_groups (snd acc)) (rp_entries (fst acc))) = length (map (diagnosis S L now T) [0..<length T])"
    by (simp add: entries)
  fix i assume "i < length (assign_groups 0 (reuse_groups (snd acc)) (rp_entries (fst acc)))"
  then have i: "i < length T" by (simp add: entries)
  then show "assign_groups 0 (reuse_groups (snd acc)) (rp_entries (fst acc)) ! i = map (diagnosis S L now T) [0..<length T] ! i"
    using assign_groups_reference [OF prints, of i "rp_entries (fst acc)"] same_reuse [OF assms(2) i]
    by (simp add: entries diagnosis_def)
qed

lemma analyze_unfolded:
  "analyze S A L c uid mk now h =
    (if c (sc_loads h) then (Inl cancelled_error, h\<lparr>sc_loads := sc_loads h + 1\<rparr>)
     else (case list_user_vaults uid (sc_world h) of
         (Inl e, w) \<Rightarrow> (Inl e, h\<lparr>sc_loads := sc_loads h + 1, sc_world := w\<rparr>)
       | (Inr vs, w) \<Rightarrow>
           (case scan_vaults S A L c uid mk now vs (default_report, []) (h\<lparr>sc_loads := sc_loads h + 1, sc_world := w\<rparr>) of
              (Inl e, h') \<Rightarrow> (Inl e, h')
            | (Inr acc, h') \<Rightarrow> if c (sc_loads h') then (Inl cancelled_error, h'\<lparr>sc_loads := sc_loads h' + 1\<rparr>)
                else (Inr ((fst acc)\<lparr>rp_entries := assign_groups 0 (reuse_groups (snd acc)) (rp_entries (fst acc))\<rparr>),
                      h'\<lparr>sc_loads := sc_loads h' + 1\<rparr>))))"
  by (simp add: analyze_def bindE_run control_check_def ensure_def scan_world_run returnE_run split: prod.split sum.split)

text \<open>The report a scan of the items \<open>T\<close> found behind the vaults has to give.\<close>

definition reference_report :: "scan_lib \<Rightarrow> crypto_lib \<Rightarrow> int \<Rightarrow> scanned list option list \<Rightarrow> security_report" where
  "reference_report S L now founds = (let T = found_items founds in
     \<lparr>rp_entries = map (diagnosis S L now T) [0..<length T],
      rp_vaults_analyzed = length (filter (\<lambda>f. f \<noteq> None) founds),
      rp_unavailable_vaults = length (filter (\<lambda>f. f = None) founds),
      rp_analyzed = length T,
      rp_unreadable = length (filter (unreadable L) T)\<rparr>)"

lemma scan_inv_start: "scan_inv S L now [] (default_report, [])"
  by (simp add: scan_inv_def default_report_def prints_of_def)

text \<open>C6: a scan of the security centre that is not cancelled always gives a report, which is the
reference report over the items of the accessible vaults: an entry for each item in order, with the findings of its
metadata, weak exactly when its own password is weak, reused exactly when another item of any vault has
the same password, and the items of a group, and no others, carry the group's number, the numbers following
the first items of the groups; the counters count the vaults and items. A cancellation seen by one of
the loads of the flag gives the error instead.\<close>

theorem analyze_gives_reference_report:
  assumes "list_user_vaults uid (sc_world h) = (Inr vs, w)" and "gather A L uid master_key vs w = (founds, w')"
    and "collision_free S L (found_items founds)" and "sc_processed h = 0"
  shows "if uncancelled cancelled (sc_loads h) (total_loads founds + 2)
    then \<exists>h'. analyze S A L cancelled uid master_key now h = (Inr (reference_report S L now founds), h')
      \<and> sc_processed h' = length (found_items founds) \<and> sc_world h' = w'
    else fst (analyze S A L cancelled uid master_key now h) = Inl (Validation ''security analysis cancelled'')"
proof -
  let ?h = "h\<lparr>sc_loads := sc_loads h + 1, sc_world := w\<rparr>"
  let ?acc = "fold (vault_done S L now) founds (default_report, [])"
  have loads: "uncancelled cancelled (sc_loads h) (total_loads founds + 2) \<longleftrightarrow>
      \<not> cancelled (sc_loads h) \<and> uncancelled cancelled (sc_loads h + 1) (total_loads founds)
      \<and> \<not> cancelled (sc_loads h + 1 + total_loads founds)"
    using uncancelled_simps(3) [of cancelled "sc_loads h + 1" "total_loads founds" 1] by (simp add: numeral_2_eq_2)
  have run: "uncancelled cancelled (sc_loads h + 1) (total_loads founds) \<Longrightarrow>
      scan_vaults S A L cancelled uid master_key now vs (default_report, []) ?h
        = (Inr ?acc, (after_loads (total_loads founds) ?acc ?h)\<lparr>sc_world := w'\<rparr>)"
    "\<not> uncancelled cancelled (sc_loads h + 1) (total_loads founds) \<Longrightarrow>
      fst (scan_vaults S A L cancelled uid master_key now vs (default_report, []) ?h) = Inl cancelled_error"
    using scan_vaults_run [of ?h "(default_report, [])" A L uid master_key vs founds w' S now cancelled] assms(2,4)
    by (simp_all add: default_report_def Let_def)
  have inv: "scan_inv S L now (found_items founds) ?acc"
    "rp_vaults_analyzed (fst ?acc) = length (filter (\<lambda>f. f \<noteq> None) founds)"
    "rp_unavailable_vaults (fst ?acc) = length (filter (\<lambda>f. f = None) founds)"
    using scan_inv_vaults [OF scan_inv_start, of S L founds now] assms(3) by (simp_all add: default_report_def)
  have report: "(fst ?acc)\<lparr>rp_entries := assign_groups 0 (reuse_groups (snd ?acc)) (rp_entries (fst ?acc))\<rparr>
      = reference_report S L now founds"
    unfolding scanned_entries [OF inv(1) assms(3)] using inv
    by (simp add: reference_report_def scan_inv_def Let_def)
  show ?thesis
  proof (cases "uncancelled cancelled (sc_loads h + 1) (total_loads founds)")
    case True
    with run(1) assms(1) inv(1) show ?thesis
      unfolding loads by (simp add: analyze_unfolded report) (simp add: after_loads_def scan_inv_def)
  next
    case False
    with run(2) assms(1) show ?thesis
      unfolding loads by (auto simp: analyze_unfolded split: prod.split sum.split)
  qed
qed

definition sample_scan :: scan_lib where
  "sample_scan = \<lparr>zxcvbn = (\<lambda>_ _. \<lparr>zx_score = 4, zx_feedback = None\<rparr>), url_parse = sample_url,
     json_parse = (\<lambda>_. None), rfc3339 = (\<lambda>_. None), sha256 = (\<lambda>bs. bs),
     unicode_of = \<lparr>lossy_chars = map unat, is_uppercase = (\<lambda>c. 65 \<le> c \<and> c \<le> 90),
       is_lowercase = (\<lambda>c. 97 \<le> c \<and> c \<le> 122), is_numeric = (\<lambda>c. 48 \<le> c \<and> c \<le> 57),
       is_alphanumeric = (\<lambda>c. 48 \<le> c \<and> c \<le> 57 \<or> 65 \<le> c \<and> c \<le> 90 \<or> 97 \<le> c \<and> c \<le> 122)\<rparr>\<rparr>"

definition sample_password :: "uuid \<Rightarrow> string \<Rightarrow> secret_row" where
  "sample_password sid password = new_secret_row
     \<lparr>si_id = sid, si_vault_id = 10, si_secret_type = Password, si_title = Some ''site'',
      si_metadata_json = None, si_tags = None, si_expires_at = None, si_created_at = None,
      si_modified_at = None, si_usage_count = 0, si_blob_storage = Inline, si_secret_blob = [],
      si_deleted_at = None\<rparr>
     (replicate 12 0 @ replicate 16 7 @ as_bytes password) ''then''"

definition scanned_world :: world where
  "scanned_world = (empty_world ''now'')\<lparr>w_db := (empty_db ''now'')
     \<lparr>users := [new_user_row 1 ''amy'' Admin],
      vaults := [\<lparr>vr_id = 10, vr_owner_user_id = 1, vr_name = ''home'',
        vr_vault_key_envelope = Some (replicate 12 0 @ replicate 16 5 @ replicate 32 7),
        vr_vault_key_version = 1, vr_sort_order = 0, vr_deleted_at = None\<rparr>],
      secret_items := [sample_password 1 ''azerty'', sample_password 2 ''azerty'']\<rparr>\<rparr>"

definition scan_start :: scan_host where
  "scan_start = \<lparr>sc_world = scanned_world, sc_loads = 0, sc_processed = 0\<rparr>"

lemma scanned_vaults: "fst (list_user_vaults 1 scanned_world) = Inr [\<lparr>v_id = 10, v_owner_user_id = 1, v_name = ''home''\<rparr>]"
  by code_simp

definition sample_founds :: "scanned list option list" where
  "sample_founds = fst (gather sample_audit toy_lib 1 (replicate 32 5)
     [\<lparr>v_id = 10, v_owner_user_id = 1, v_name = ''home''\<rparr>] (snd (list_user_vaults 1 scanned_world)))"

definition scanned_item :: "uuid \<Rightarrow> scanned" where
  "scanned_item sid = (replicate 32 7, ''home'',
     \<lparr>si_id = sid, si_vault_id = 10, si_secret_type = Password, si_title = Some ''site'',
      si_metadata_json = None, si_tags = None, si_expires_at = None, si_created_at = Some ''then'',
      si_modified_at = Some ''then'', si_usage_count = 0, si_blob_storage = Inline,
      si_secret_blob = replicate 12 0 @ replicate 16 7 @ as_bytes ''azerty'', si_deleted_at = None\<rparr>)"

lemma sample_founds_eq: "sample_founds = [Some [scanned_item 2, scanned_item 1]]"
  by code_simp

lemma scanned_text: "text_of toy_lib (scanned_item sid) = Some ''azerty''"
proof -
  have "from_utf8 (as_bytes ''azerty'') = Some ''azerty''" by code_simp
  then show ?thesis
    by (simp add: text_of_def scanned_item_def readable_password_def decode_secret_payload_def decrypt_def aes_key_def
        toy_lib_def len_defs)
qed

lemma scanned_weak: "is_weak_password sample_scan ''azerty''"
  by code_simp

lemma scanned_findings:
  "se_findings (own_entry sample_scan toy_lib 0 (scanned_item sid)) = [WeakPassword]"
  "se_secret_id (own_entry sample_scan toy_lib 0 (scanned_item sid)) = sid"
  using scanned_text [of sid] scanned_weak text_not_unreadable [OF scanned_text, of sid]
  by (simp_all add: own_entry_def own_findings_def) (simp_all add: scanned_item_def metadata_findings_def)

lemma sample_founds_checked:
  "collision_free sample_scan toy_lib (found_items sample_founds)"
  "map (\<lambda>e. (se_secret_id e, se_findings e, se_reuse_group e))
     (rp_entries (reference_report sample_scan toy_lib 0 sample_founds))
   = [(2, [WeakPassword, ReusedPassword], Some 0), (1, [WeakPassword, ReusedPassword], Some 0)]"
proof -
  show "collision_free sample_scan toy_lib (found_items sample_founds)"
    by (simp add: sample_founds_eq collision_free_def scanned_text)
  have two: "reused_at [Some ''azerty'', Some ''azerty''] 0" "reused_at [Some ''azerty'', Some ''azerty''] 1"
    "group_number [Some ''azerty'', Some ''azerty''] 0 = 0" "group_number [Some ''azerty'', Some ''azerty''] 1 = 0"
    by (simp_all add: reused_at_def group_number_def same_at_def)
  show "map (\<lambda>e. (se_secret_id e, se_findings e, se_reuse_group e))
     (rp_entries (reference_report sample_scan toy_lib 0 sample_founds))
   = [(2, [WeakPassword, ReusedPassword], Some 0), (1, [WeakPassword, ReusedPassword], Some 0)]"
    using two by (simp add: sample_founds_eq reference_report_def diagnosis_def scanned_text scanned_findings marked_def)
qed

theorem analyze_gives_reference_report_witness:
  "\<exists>report h'. analyze sample_scan sample_audit toy_lib (\<lambda>_. False) 1 (replicate 32 5) 0 scan_start = (Inr report, h')
   \<and> map (\<lambda>e. (se_secret_id e, se_findings e, se_reuse_group e)) (rp_entries report)
     = [(2, [WeakPassword, ReusedPassword], Some 0), (1, [WeakPassword, ReusedPassword], Some 0)]"
proof -
  let ?vs = "[\<lparr>v_id = 10, v_owner_user_id = 1, v_name = ''home''\<rparr>]"
  let ?w = "snd (list_user_vaults 1 scanned_world)"
  have listed: "list_user_vaults 1 (sc_world scan_start) = (Inr ?vs, ?w)"
    using scanned_vaults by (simp add: scan_start_def prod_eq_iff)
  have found: "gather sample_audit toy_lib 1 (replicate 32 5) ?vs ?w
      = (sample_founds, snd (gather sample_audit toy_lib 1 (replicate 32 5) ?vs ?w))"
    by (simp only: sample_founds_def prod.collapse)
  have start: "sc_processed scan_start = 0" by (simp add: scan_start_def)
  have free: "uncancelled (\<lambda>_. False) a n" for a n by (simp add: uncancelled_def)
  show ?thesis
    using analyze_gives_reference_report [OF listed found sample_founds_checked(1) start,
        where cancelled = "\<lambda>_. False" and now = 0]
      sample_founds_checked(2) free by auto
qed

lemma cap_categories: "categories S password \<le> 4"
  unfolding categories_def by (rule order_trans [OF length_filter_le]) simp

text \<open>the quick test for weak passwords gives the verdict of the full assessment without a user name, and
the final score is bounded by the rules on length and classes of characters: a password shorter than 12
characters scores at most 1, fewer than three classes of characters give at most 2, exactly three at most 2
below 14 characters, and 14 characters at most 3, whatever the estimator says.\<close>

theorem weak_password_assessed:
  "is_weak_password S password = (pa_score (assess_password S password []) < WEAK_SCORE_THRESHOLD)
   \<and> pa_score (assess_password S password username) \<le> zx_score (zxcvbn S password
        (if username = [] then APP_TERMS else APP_TERMS @ [username]))
   \<and> pa_score (assess_password S password username) \<le>
      (if length (chars S password) < 12 then 1
       else if categories S password < 3 then 2
       else if length (chars S password) < 14 \<and> categories S password = 3 then 2
       else if length (chars S password) \<le> 14 then 3 else 4)"
proof -
  have cap: "policy_cap S password \<le> (if length (chars S password) < 12 then 1
       else if categories S password < 3 then 2
       else if length (chars S password) < 14 \<and> categories S password = 3 then 2
       else if length (chars S password) \<le> 14 then 3 else 4)"
    using cap_categories [of S password] unfolding policy_cap_def Let_def
    by (cases "categories S password < 3"; cases "categories S password = 3") simp_all
  have score: "pa_score (assess_password S password u) = min (zx_score (zxcvbn S password
      (if u = [] then APP_TERMS else APP_TERMS @ [u]))) (policy_cap S password)" for u
    by (simp add: assess_password_def Let_def)
  show ?thesis
    unfolding is_weak_password_def score
    by (intro conjI order_trans [OF min.cobounded2 cap] min.cobounded1) (auto simp: min_less_iff_disj)
qed

end
