(* ===== verification/HV_Import.thy ===== *)
theory HV_Import
  imports HV_SecretService HV_UrlCheck HV_Backup "HOL-Library.Sublist"
begin

text \<open>
  services/import_service.rs: reading a CSV export of passwords, the report of rejected rows, and the import of the
  rows as secrets of a vault. The crates csv, encoding_rs, url and serde_json, the clock, the environment
  and the texts of paths and of database errors are parameters.
\<close>

section \<open>Libraries\<close>

text \<open>
  \<open>csv_headers\<close> and \<open>csv_records\<close> are what the reader of the crate csv answers for a source, flexible and with
  headers: the cells of the first record, and of each further one; an error has a text and perhaps the
  line it is at.
\<close>

record csv_error =
  ce_text :: string
  ce_line :: "nat option"

record csv_import_metadata =
  cm_login :: string
  cm_url :: string
  cm_notes :: string
  cm_category :: string
  cm_source :: string

record import_lib =
  csv_headers :: "string \<Rightarrow> string + string list"
  csv_records :: "string \<Rightarrow> (csv_error + string list) list"
  windows_1252 :: "bytes \<Rightarrow> string"
  url_parse_or :: "string \<Rightarrow> string + url"
  metadata_to_json :: "csv_import_metadata \<Rightarrow> string + string"
  db_error_text :: "db_error \<Rightarrow> string"
  directory_len :: "path \<Rightarrow> nat"
  path_of :: "string \<Rightarrow> path"
  display_path :: "path \<Rightarrow> string"
  log_dir_variable :: "string option"
  current_dir :: "string + path"
  local_stamp :: string
  local_rfc3339 :: string

section \<open>Data\<close>

record import_csv_failure =
  cf_source_row :: nat
  cf_title :: string
  cf_reason :: string

record import_csv_preview =
  cp_total_rows :: nat
  cp_importable_rows :: nat
  cp_failed_rows :: nat

record import_csv_report =
  cr_total_rows :: nat
  cr_imported :: nat
  cr_failed :: nat
  cr_failures :: "import_csv_failure list"
  cr_reject_report_path :: "string option"

datatype import_progress_event =
    Started nat nat nat
  | Progress nat nat nat nat "string option"

record csv_row =
  rw_source_row :: nat
  rw_name :: string
  rw_url :: string
  rw_username :: string
  rw_password :: string
  rw_notes :: string
  rw_category :: "string option"
  rw_tags :: "string option"

datatype csv_reject_type = ParsingInvalid | WrongColumnCount

fun reject_label :: "csv_reject_type \<Rightarrow> string" where
  "reject_label ParsingInvalid = ''Parsing invalid''"
| "reject_label WrongColumnCount = ''Wrong column count''"

record csv_reject_detail =
  rj_source_row :: nat
  rj_reject_type :: csv_reject_type
  rj_reason :: string
  rj_detected_columns :: "nat option"
  rj_raw_line_chars :: "nat option"

record csv_parse_outcome =
  po_total_rows :: nat
  po_rows :: "csv_row list"
  po_failures :: "import_csv_failure list"
  po_rejects :: "csv_reject_detail list"

definition MAX_CSV_FILE_SIZE_BYTES :: nat where "MAX_CSV_FILE_SIZE_BYTES = 10 * 1024 * 1024"
definition MAX_CSV_ROWS :: nat where "MAX_CSV_ROWS = 10000"
definition MAX_FIELD_LEN :: nat where "MAX_FIELD_LEN = 2048"
definition EXPECTED_CSV_COLUMNS :: nat where "EXPECTED_CSV_COLUMNS = 7"

section \<open>Reading the source\<close>

definition io_text :: "app_error \<Rightarrow> string" where
  "io_text e = (case e of Io msg \<Rightarrow> msg | _ \<Rightarrow> [])"

definition metadata_len :: "import_lib \<Rightarrow> path \<Rightarrow> (disk, nat) eff" where
  "metadata_len I p = io_step nothing_done (\<lambda>d. (case dk_files d p of
     Some f \<Rightarrow> Inr (length (fi_content f))
   | None \<Rightarrow> if dk_dirs d p = None then Inl no_entry else Inr (directory_len I p), d))"

definition validate_csv_file_size :: "import_lib \<Rightarrow> path \<Rightarrow> (disk, unit) eff" where
  "validate_csv_file_size I p =
     bindE (map_errE (\<lambda>e. Storage (''failed to stat csv file: '' @ io_text e)) (metadata_len I p)) (\<lambda>len.
     liftE (ensure (len \<le> MAX_CSV_FILE_SIZE_BYTES)
       (Validation (''csv file is too large (max '' @ show_nat MAX_CSV_FILE_SIZE_BYTES @ '' bytes)''))))"

definition read_csv_source :: "import_lib \<Rightarrow> path \<Rightarrow> (disk, string) eff" where
  "read_csv_source I p =
     bindE (map_errE (\<lambda>e. Storage (''failed to read csv file: '' @ io_text e)) (fs_read p)) (\<lambda>bs.
     returnE (case from_utf8 bs of Some content \<Rightarrow> content | None \<Rightarrow> windows_1252 I bs))"

text \<open>\<open>str::lines\<close>: split at line feeds, a carriage return before one dropped, no last empty line; and
\<open>chars().count()\<close> of a well-formed text.\<close>

fun split_lines :: "string \<Rightarrow> string list" where
  "split_lines [] = []"
| "split_lines (c # s) = (if c = CHR 0x0A then [] # split_lines s
     else (case split_lines s of [] \<Rightarrow> [[c]] | line # rest \<Rightarrow> (c # line) # rest))"

text \<open>Each line but an unterminated last one loses its carriage return.\<close>

definition drop_return :: "string \<Rightarrow> string" where
  "drop_return line = (if line \<noteq> [] \<and> last line = CHR 0x0D then butlast line else line)"

definition source_lines :: "string \<Rightarrow> string list" where
  "source_lines s = (let ls = split_lines s in
     if s = [] \<or> last s = CHR 0x0A then map drop_return ls
     else map drop_return (butlast ls) @ [last ls])"

definition count_chars :: "string \<Rightarrow> nat" where
  "count_chars s = length (filter (\<lambda>b. \<not> cont_byte b) (as_bytes s))"

definition raw_line_chars :: "string list \<Rightarrow> nat \<Rightarrow> nat option" where
  "raw_line_chars ls csv_row =
     (if csv_row - 1 < length ls then Some (count_chars (ls ! (csv_row - 1))) else None)"

section \<open>Rows\<close>

text \<open>\<open>normalize_header\<close>: the byte order mark of UTF-8 and blanks are trimmed.\<close>

definition normalize_header :: "string \<Rightarrow> string" where
  "normalize_header header = trim (trim_with [[0xEF, 0xBB, 0xBF]] header)"

definition eq_ignore_ascii_case :: "string \<Rightarrow> string \<Rightarrow> bool" where
  "eq_ignore_ascii_case s t \<longleftrightarrow> map ascii_lower s = map ascii_lower t"

definition REQUIRED_COLUMNS :: "string list" where
  "REQUIRED_COLUMNS = [''name'', ''url'', ''username'', ''password'', ''notes'', ''category'', ''tags'']"

definition column_index :: "string list \<Rightarrow> string \<Rightarrow> nat result" where
  "column_index headers name =
     (case List.find (\<lambda>i. eq_ignore_ascii_case (headers ! i) name) [0..<length headers] of
        Some i \<Rightarrow> Inr i
      | None \<Rightarrow> Inl (Validation (''csv is missing required column: '' @ name)))"

definition optional_field :: "string list \<Rightarrow> nat \<Rightarrow> string" where
  "optional_field record i = (if i < length record then trim (record ! i) else [])"

definition optional_text :: "string list \<Rightarrow> nat \<Rightarrow> string option" where
  "optional_text record i =
     (if i < length record \<and> trim (record ! i) \<noteq> [] then Some (trim (record ! i)) else None)"

definition required_non_empty_field :: "string list \<Rightarrow> nat \<Rightarrow> string \<Rightarrow> nat \<Rightarrow> string result" where
  "required_non_empty_field record i field_name csv_row =
     (if \<not> i < length record
      then Inl (Validation (''csv row '' @ show_nat csv_row @ '' is missing required field: '' @ field_name))
      else if trim (record ! i) = []
      then Inl (Validation (''csv row '' @ show_nat csv_row @ '' has an empty required field: '' @ field_name))
      else Inr (trim (record ! i)))"

definition validate_field_length :: "string \<Rightarrow> string \<Rightarrow> unit result" where
  "validate_field_length name content =
     ensure (length content \<le> MAX_FIELD_LEN)
       (Validation (''csv field '' @ [CHR 0x27] @ name @ [CHR 0x27] @ '' exceeds maximum length of '' @ show_nat MAX_FIELD_LEN))"

definition validate_optional_url :: "import_lib \<Rightarrow> string \<Rightarrow> unit result" where
  "validate_optional_url I content =
     (if content = [] then Inr ()
      else case url_parse_or I content of
        Inl e \<Rightarrow> Inl (Validation (''invalid url format in csv: '' @ e))
      | Inr url \<Rightarrow> ensure (url_scheme url = ''http'' \<or> url_scheme url = ''https'')
          (Validation ''url must start with http:// or https://''))"

record columns =
  name_idx :: nat
  url_idx :: nat
  username_idx :: nat
  password_idx :: nat
  notes_idx :: nat
  category_idx :: nat
  tags_idx :: nat

definition columns_of :: "string list \<Rightarrow> columns result" where
  "columns_of headers =
     bindR (mapR (\<lambda>field. ensure (list_ex (\<lambda>h. eq_ignore_ascii_case h field) headers)
         (Validation (''csv is missing required column: '' @ field))) REQUIRED_COLUMNS) (\<lambda>_.
     bindR (column_index headers ''name'') (\<lambda>n.
     bindR (column_index headers ''url'') (\<lambda>u.
     bindR (column_index headers ''username'') (\<lambda>l.
     bindR (column_index headers ''password'') (\<lambda>p.
     bindR (column_index headers ''notes'') (\<lambda>m.
     bindR (column_index headers ''category'') (\<lambda>c.
     bindR (column_index headers ''tags'') (\<lambda>t.
     Inr \<lparr>name_idx = n, url_idx = u, username_idx = l, password_idx = p, notes_idx = m,
          category_idx = c, tags_idx = t\<rparr>))))))))"

definition validate_fields :: "import_lib \<Rightarrow> csv_row \<Rightarrow> unit result" where
  "validate_fields I row =
     bindR (validate_field_length ''name'' (rw_name row)) (\<lambda>_.
     bindR (validate_field_length ''url'' (rw_url row)) (\<lambda>_.
     bindR (validate_field_length ''username'' (rw_username row)) (\<lambda>_.
     bindR (validate_field_length ''password'' (rw_password row)) (\<lambda>_.
     bindR (validate_field_length ''notes'' (rw_notes row)) (\<lambda>_.
     bindR (validate_optional_url I (rw_url row)) (\<lambda>_.
     bindR (case rw_category row of None \<Rightarrow> Inr () | Some c \<Rightarrow> validate_field_length ''category'' c) (\<lambda>_.
     case rw_tags row of None \<Rightarrow> Inr () | Some t \<Rightarrow> validate_field_length ''tags'' t)))))))"

text \<open>What a record of the right length becomes: a row, or the title and the reason of a failure.\<close>

definition parse_fields :: "import_lib \<Rightarrow> columns \<Rightarrow> nat \<Rightarrow> string list \<Rightarrow> string \<times> string + csv_row" where
  "parse_fields I cols csv_row record =
     (case required_non_empty_field record (name_idx cols) ''name'' csv_row of
        Inl e \<Rightarrow> Inl (''Imported secret'', show_app_error (db_error_text I) e)
      | Inr name \<Rightarrow>
     (case required_non_empty_field record (username_idx cols) ''username'' csv_row of
        Inl e \<Rightarrow> Inl (name, show_app_error (db_error_text I) e)
      | Inr username \<Rightarrow>
     (case required_non_empty_field record (password_idx cols) ''password'' csv_row of
        Inl e \<Rightarrow> Inl (name, show_app_error (db_error_text I) e)
      | Inr password \<Rightarrow>
        let row = \<lparr>rw_source_row = csv_row, rw_name = name,
              rw_url = optional_field record (url_idx cols), rw_username = username,
              rw_password = password, rw_notes = optional_field record (notes_idx cols),
              rw_category = optional_text record (category_idx cols),
              rw_tags = optional_text record (tags_idx cols)\<rparr>
        in (case validate_fields I row of
              Inl e \<Rightarrow> Inl (name, show_app_error (db_error_text I) e)
            | Inr _ \<Rightarrow> if password = [] then Inl (name, ''password is empty'') else Inr row))))"

text \<open>The records that are rejected before their cells are read.\<close>

definition rejected :: "string list \<Rightarrow> nat \<Rightarrow> csv_error + string list \<Rightarrow> csv_reject_detail option" where
  "rejected ls row_number record =
     (let fallback_row = row_number + 2
      in case record of
        Inl e \<Rightarrow>
          let csv_row = (case ce_line e of Some line \<Rightarrow> line | None \<Rightarrow> fallback_row)
          in Some \<lparr>rj_source_row = csv_row, rj_reject_type = ParsingInvalid,
               rj_reason = ''parsing invalid: '' @ ce_text e, rj_detected_columns = None,
               rj_raw_line_chars = raw_line_chars ls csv_row\<rparr>
      | Inr cells \<Rightarrow>
          if length cells \<noteq> EXPECTED_CSV_COLUMNS
          then Some \<lparr>rj_source_row = fallback_row, rj_reject_type = WrongColumnCount,
               rj_reason = ''wrong column count: expected '' @ show_nat EXPECTED_CSV_COLUMNS
                 @ '', got '' @ show_nat (length cells),
               rj_detected_columns = Some (length cells),
               rj_raw_line_chars = raw_line_chars ls fallback_row\<rparr>
          else None)"

definition add_record :: "import_lib \<Rightarrow> string list \<Rightarrow> columns \<Rightarrow> nat \<Rightarrow> csv_error + string list
    \<Rightarrow> csv_parse_outcome \<Rightarrow> csv_parse_outcome" where
  "add_record I ls cols row_number record po =
     (case rejected ls row_number record of
        Some reject \<Rightarrow> po\<lparr>po_failures := po_failures po @ [\<lparr>cf_source_row = rj_source_row reject,
            cf_title = ''Imported secret'', cf_reason = rj_reason reject\<rparr>],
          po_rejects := po_rejects po @ [reject]\<rparr>
      | None \<Rightarrow> (case record of Inl _ \<Rightarrow> po | Inr cells \<Rightarrow>
          (case parse_fields I cols (row_number + 2) cells of
             Inl (title, reason) \<Rightarrow> po\<lparr>po_failures := po_failures po @
               [\<lparr>cf_source_row = row_number + 2, cf_title = title, cf_reason = reason\<rparr>]\<rparr>
           | Inr row \<Rightarrow> po\<lparr>po_rows := po_rows po @ [row]\<rparr>)))"

fun parse_records :: "import_lib \<Rightarrow> string list \<Rightarrow> columns \<Rightarrow> nat \<Rightarrow> (csv_error + string list) list
    \<Rightarrow> csv_parse_outcome \<Rightarrow> csv_parse_outcome" where
  "parse_records I ls cols row_number [] po = po"
| "parse_records I ls cols row_number (record # records) po =
     (if MAX_CSV_ROWS \<le> length (po_rows po) + length (po_failures po) then po
      else parse_records I ls cols (row_number + 1) records (add_record I ls cols row_number record po))"

definition parse_csv :: "import_lib \<Rightarrow> string \<Rightarrow> csv_parse_outcome result" where
  "parse_csv I csv_source =
     bindR (case csv_headers I csv_source of
         Inl e \<Rightarrow> Inl (Validation (''failed to read csv headers: '' @ e)) | Inr headers \<Rightarrow> Inr headers) (\<lambda>headers.
     bindR (columns_of (map normalize_header headers)) (\<lambda>cols.
     let po = parse_records I (source_lines csv_source) cols 0 (csv_records I csv_source)
           \<lparr>po_total_rows = 0, po_rows = [], po_failures = [], po_rejects = []\<rparr>
     in Inr (po\<lparr>po_total_rows := length (po_rows po) + length (po_failures po)\<rparr>)))"

definition parse_csv_rows :: "import_lib \<Rightarrow> path \<Rightarrow> (disk, csv_parse_outcome) eff" where
  "parse_csv_rows I csv_file_path =
     bindE (validate_csv_file_size I csv_file_path) (\<lambda>_.
     bindE (read_csv_source I csv_file_path) (\<lambda>csv_source. liftE (parse_csv I csv_source)))"

definition preview_csv :: "import_lib \<Rightarrow> path \<Rightarrow> (disk, import_csv_preview) eff" where
  "preview_csv I csv_file_path =
     bindE (parse_csv_rows I csv_file_path) (\<lambda>outcome.
     returnE \<lparr>cp_total_rows = po_total_rows outcome, cp_importable_rows = length (po_rows outcome),
              cp_failed_rows = length (po_failures outcome)\<rparr>)"

section \<open>The report of rejected rows\<close>

definition resolve_reject_report_dir :: "import_lib \<Rightarrow> path result" where
  "resolve_reject_report_dir I =
     (case log_dir_variable I of
        Some path_raw \<Rightarrow>
          if trim path_raw \<noteq> [] then Inr (path_of I (trim path_raw))
          else (case current_dir I of Inl e \<Rightarrow> Inl (Storage (''failed to resolve current directory: '' @ e))
            | Inr dir \<Rightarrow> Inr (dir @ [''logs'']))
      | None \<Rightarrow> (case current_dir I of Inl e \<Rightarrow> Inl (Storage (''failed to resolve current directory: '' @ e))
            | Inr dir \<Rightarrow> Inr (dir @ [''logs''])))"

definition reject_lines :: "csv_reject_detail \<Rightarrow> string list" where
  "reject_lines reject =
     [''- CSV row '' @ show_nat (rj_source_row reject),
      ''  Type: '' @ reject_label (rj_reject_type reject),
      ''  Reason: '' @ rj_reason reject]
     @ (case rj_detected_columns reject of None \<Rightarrow> []
        | Some n \<Rightarrow> [''  Detected columns: '' @ show_nat n])
     @ (case rj_raw_line_chars reject of
          Some n \<Rightarrow> [''  Raw line: <redacted, '' @ show_nat n @ '' characters; see row ''
            @ show_nat (rj_source_row reject) @ '' of the source file>'']
        | None \<Rightarrow> [''  Raw line: <unavailable>''])
     @ [[]]"

fun join_lines :: "string list \<Rightarrow> string" where
  "join_lines [] = []"
| "join_lines [l] = l"
| "join_lines (l # ls) = l @ [CHR 0x0A] @ join_lines ls"

definition report_text :: "import_lib \<Rightarrow> path \<Rightarrow> csv_reject_detail list \<Rightarrow> string" where
  "report_text I csv_file_path rejects = join_lines
     ([''HeelonVault CSV Import Reject Report'',
       ''Generated at: '' @ local_rfc3339 I,
       ''Source file: '' @ display_path I csv_file_path,
       ''Rejected rows: '' @ show_nat (length rejects),
       []] @ concat (map reject_lines rejects))"

definition write_reject_report_to_dir :: "import_lib \<Rightarrow> path \<Rightarrow> path \<Rightarrow> csv_reject_detail list
    \<Rightarrow> (disk, string option) eff" where
  "write_reject_report_to_dir I report_dir csv_file_path rejects =
     (if rejects = [] then returnE None
      else
        bindE (map_errE (\<lambda>e. Storage (''failed to create csv reject report directory ''
            @ display_path I report_dir @ '': '' @ io_text e)) (create_private_dir_all report_dir)) (\<lambda>_.
        let report_path = report_dir @ [''csv_import_rejects_'' @ local_stamp I @ ''.txt''] in
        bindE (map_errE (\<lambda>e. Storage (''failed to write csv reject report ''
            @ display_path I report_path @ '': '' @ io_text e))
          (write_private report_path (as_bytes (report_text I csv_file_path rejects)))) (\<lambda>_.
        returnE (Some (display_path I report_path)))))"

definition write_reject_report :: "import_lib \<Rightarrow> path \<Rightarrow> csv_reject_detail list \<Rightarrow> (disk, string option) eff" where
  "write_reject_report I csv_file_path rejects =
     bindE (liftE (resolve_reject_report_dir I)) (\<lambda>report_dir.
     write_reject_report_to_dir I report_dir csv_file_path rejects)"

section \<open>The import\<close>

record import_state =
  im_host :: host
  im_events :: "import_progress_event list"

definition on_host :: "(host, 'a) eff \<Rightarrow> (import_state, 'a) eff" where
  "on_host m = (\<lambda>s. case m (im_host s) of (r, h) \<Rightarrow> (r, s\<lparr>im_host := h\<rparr>))"

definition send :: "bool \<Rightarrow> import_progress_event \<Rightarrow> (import_state, unit) eff" where
  "send progress e = (if progress then modifyE (\<lambda>s. s\<lparr>im_events := im_events s @ [e]\<rparr>) else returnE ())"

definition title_display :: "csv_row \<Rightarrow> string" where
  "title_display row = (if rw_name row = [] then ''Imported secret'' else rw_name row)"

definition row_metadata :: "csv_row \<Rightarrow> csv_import_metadata" where
  "row_metadata row = \<lparr>cm_login = rw_username row, cm_url = rw_url row, cm_notes = rw_notes row,
     cm_category = (case rw_category row of None \<Rightarrow> [] | Some c \<Rightarrow> c), cm_source = ''csv_import''\<rparr>"

fun import_rows :: "import_lib \<Rightarrow> audit_svc \<Rightarrow> crypto_lib \<Rightarrow> bool \<Rightarrow> uuid \<Rightarrow> bytes \<Rightarrow> nat \<Rightarrow> nat \<Rightarrow> csv_row list
    \<Rightarrow> nat \<times> import_csv_failure list \<Rightarrow> (import_state, nat \<times> import_csv_failure list) eff" where
  "import_rows I A L progress vid vault_key total_rows processed [] acc = returnE acc"
| "import_rows I A L progress vid vault_key total_rows processed (row # rows) acc =
     bindE (liftE (map_err (\<lambda>e. Validation (''failed to serialize csv metadata: '' @ e))
         (metadata_to_json I (row_metadata row)))) (\<lambda>metadata.
     bindE (attemptE (on_host (in_world (create_secret A L vid Password
         (if rw_name row = [] then Some ''Imported secret'' else Some (rw_name row))
         (Some metadata) (rw_tags row) None (as_bytes (rw_password row)) vault_key)))) (\<lambda>create_result.
     let acc' = (case create_result of
           Inr _ \<Rightarrow> (fst acc + 1, snd acc)
         | Inl e \<Rightarrow> (fst acc, snd acc @ [\<lparr>cf_source_row = rw_source_row row, cf_title = title_display row,
             cf_reason = show_app_error (db_error_text I) e\<rparr>])) in
     bindE (send progress (Progress (processed + 1) total_rows (fst acc') (length (snd acc')) (Some (title_display row)))) (\<lambda>_.
     import_rows I A L progress vid vault_key total_rows (processed + 1) rows acc')))"

definition chosen_vault :: "uuid option \<Rightarrow> vault list \<Rightarrow> vault result" where
  "chosen_vault target_vault_id vs =
     (case target_vault_id of
        Some vid \<Rightarrow> ok_or (List.find (\<lambda>v. v_id v = vid) vs)
          (NotFound ''specified vault not found or not accessible'')
      | None \<Rightarrow> (case vs of v # _ \<Rightarrow> Inr v | [] \<Rightarrow> Inl (NotFound ''no vault found for csv import'')))"

definition import_csv :: "import_lib \<Rightarrow> audit_svc \<Rightarrow> crypto_lib \<Rightarrow> path \<Rightarrow> uuid \<Rightarrow> bytes \<Rightarrow> uuid option \<Rightarrow> bool
    \<Rightarrow> (import_state, import_csv_report) eff" where
  "import_csv I A L csv_file_path admin_user_id admin_master_key target_vault_id progress =
     bindE (on_host (on_disk (parse_csv_rows I csv_file_path))) (\<lambda>outcome.
     bindE (send progress (Started (po_total_rows outcome) (length (po_rows outcome)) (length (po_failures outcome)))) (\<lambda>_.
     if po_rows outcome = [] \<and> po_failures outcome = []
     then returnE \<lparr>cr_total_rows = 0, cr_imported = 0, cr_failed = 0, cr_failures = [], cr_reject_report_path = None\<rparr>
     else
     bindE (on_host (on_disk (write_reject_report I csv_file_path (po_rejects outcome)))) (\<lambda>reject_report_path.
     bindE (on_host (in_world (list_user_vaults admin_user_id))) (\<lambda>vs.
     bindE (liftE (chosen_vault target_vault_id vs)) (\<lambda>first_vault.
     bindE (on_host (in_world (open_vault_for_user A L admin_user_id (v_id first_vault) admin_master_key))) (\<lambda>vault_key.
     bindE (import_rows I A L progress (v_id first_vault) vault_key (po_total_rows outcome)
         (length (po_failures outcome)) (po_rows outcome) (0, po_failures outcome)) (\<lambda>(imported, failures).
     returnE \<lparr>cr_total_rows = po_total_rows outcome, cr_imported = imported, cr_failed = length failures,
       cr_failures = failures, cr_reject_report_path = reject_report_path\<rparr>)))))))"

section \<open>What the services leave alone\<close>

definition untouched :: "world \<Rightarrow> secret_row list \<times> db" where
  "untouched w = (secret_items (w_db w), (w_db w)\<lparr>secret_items := [], audit_log := []\<rparr>)"

lemma untouched_log: "w_db w' = (w_db w)\<lparr>audit_log := rows\<rparr> \<Longrightarrow> untouched w' = untouched w"
  by (simp add: untouched_def)

lemma reads_untouched [frame_intros]: "reads m \<Longrightarrow> frames untouched (on_db m)"
  by (simp add: frames_def untouched_def on_db_run)

lemma frames_accessible: "reads (get_accessible_vaults uid)" "reads (get_vault_with_permission uid vid)"
  "reads (get_vault_key_envelope vid)" "reads (get_key_share vid uid)"
  unfolding get_accessible_vaults_def get_vault_with_permission_def get_vault_key_envelope_def get_key_share_def
  by (intro frame_intros)+

lemma reads_w_db: "reads m \<Longrightarrow> frames w_db (on_db m)"
  by (simp add: frames_def on_db_run)

lemma frames_list_user_vaults: "frames w_db (list_user_vaults uid)"
  unfolding list_user_vaults_def listing_user_def existing_user_def
  by (intro frame_intros frames_accessible reads_w_db)

lemma frames_record:
  assumes "audit_ok A"
  shows "frames untouched (record_event A actor action tt ti detail)"
proof -
  have "untouched (snd (record_event A actor action tt ti detail w)) = untouched w" for w
    using recorded_db [OF assms, of actor action tt ti detail w] by (metis prod.collapse untouched_log)
  then show ?thesis by (simp add: frames_def)
qed

lemma frames_open_vault:
  assumes "audit_ok A"
  shows "frames untouched (open_vault_for_user A L uid vid mk)"
  unfolding open_vault_for_user_def existing_user_def required_permission_def
  by (intro frame_intros frames_accessible frames_record assms)

section \<open>Creating one secret\<close>

definition row_of_secret :: "crypto_lib \<Rightarrow> uuid \<Rightarrow> bytes \<Rightarrow> secret_type \<Rightarrow> string option \<Rightarrow> string option
    \<Rightarrow> string option \<Rightarrow> string option \<Rightarrow> bytes \<Rightarrow> secret_row \<Rightarrow> bool" where
  "row_of_secret L vid key type title metadata tags expires plaintext s \<longleftrightarrow>
     sr_vault_id s = vid \<and> sr_secret_type s = to_secret_type_db type \<and> sr_title s = title
   \<and> sr_metadata_json s = metadata \<and> sr_tags s = tags \<and> sr_expires_at s = expires \<and> active_secret s
   \<and> secret_value L key s = Inr plaintext"

lemma insert_secret_cases:
  assumes "insert_secret_blob item blob d = (r, d')"
  shows "case r of Inl _ \<Rightarrow> d' = d
       | Inr _ \<Rightarrow> d' = d\<lparr>secret_items := secret_items d @ [new_secret_row item blob (db_clock d)]\<rparr>"
  using assms by (auto simp: insert_secret_blob_def eff_iffs throwE_def bindE_run getsE_run modifyE_run split: if_splits)

lemma create_secret_effect:
  assumes ok: "crypto_lib_ok L" "audit_ok A"
    and run: "create_secret A L vid type title metadata tags expires plaintext key w = (r, w')"
  shows "case r of Inl _ \<Rightarrow> untouched w' = untouched w
       | Inr _ \<Rightarrow> snd (untouched w') = snd (untouched w)
           \<and> (\<exists>s. secret_items (w_db w') = secret_items (w_db w) @ [s]
                \<and> row_of_secret L vid key type title metadata tags expires plaintext s)"
proof (cases "plaintext = []")
  case True
  with run show ?thesis
    by (auto simp: create_secret_def validate_plaintext_secret_def bindE_run liftE_run)
next
  case False
  obtain r1 w1 where enc: "encrypt L plaintext key w = (r1, w1)" by fastforce
  have db1: "w_db w1 = w_db w" using encrypt_frame(1) [of L plaintext key w] enc by simp
  show ?thesis
  proof (cases r1)
    case (Inl e)
    with run False enc db1 show ?thesis
      by (auto simp: create_secret_def validate_plaintext_secret_def bindE_run liftE_run untouched_def)
  next
    case (Inr payload)
    define item where "item = \<lparr>si_id = rng_uuid (w_rng w1) (rng_pos (w_rng w1)), si_vault_id = vid,
      si_secret_type = type, si_title = title, si_metadata_json = metadata, si_tags = tags, si_expires_at = expires,
      si_created_at = None, si_modified_at = None, si_usage_count = 0,
      si_blob_storage = blob_storage_for_type type, si_secret_blob = serialize_payload payload, si_deleted_at = None\<rparr>"
    have sel: "si_id item = rng_uuid (w_rng w1) (rng_pos (w_rng w1))" "si_title item = title" by (simp_all add: item_def)
    obtain r2 w2 where ins: "on_db (insert_secret_blob item (serialize_payload payload)) (tick w1) = (r2, w2)" by fastforce
    then have ins': "insert_secret_blob item (serialize_payload payload) (w_db w) = (r2, w_db w2)"
      using db1 by (auto simp: on_db_iff)
    have steps: "create_secret A L vid type title metadata tags expires plaintext key w =
        bindE (\<lambda>_. (r2, w2)) (\<lambda>_. bindE (ignoring_errors (record_event A None SecretCreated (Some ''secret'')
          (Some (uuid_to_string A (si_id item))) (Some (''{'' @ quote @ ''title'' @ quote @ '':'' @ quote
           @ (case si_title item of Some t \<Rightarrow> t | None \<Rightarrow> ''Sans titre'') @ quote @ ''}'')))) (\<lambda>_. returnE item)) w"
      using False ins
      by (simp add: create_secret_def validate_plaintext_secret_def bindE_step enc Inr bindE_pure new_v4_run
          item_def [symmetric] Let_def) (simp add: bindE_def sel)
    show ?thesis
    proof (cases r2)
      case (Inl e)
      with steps run insert_secret_cases [OF ins'] show ?thesis by (auto simp: bindE_def untouched_def)
    next
      case (Inr u)
      have db2: "w_db w2 = (w_db w)\<lparr>secret_items := secret_items (w_db w)
          @ [new_secret_row item (serialize_payload payload) (db_clock (w_db w))]\<rparr>"
        using insert_secret_cases [OF ins'] Inr by simp
      obtain w3 rows where rec: "ignoring_errors (record_event A None SecretCreated (Some ''secret'')
          (Some (uuid_to_string A (si_id item))) (Some (''{'' @ quote @ ''title'' @ quote @ '':'' @ quote
           @ (case si_title item of Some t \<Rightarrow> t | None \<Rightarrow> ''Sans titre'') @ quote @ ''}''))) w2 = (Inr (), w3)"
        and db3: "w_db w3 = (w_db w2)\<lparr>audit_log := rows\<rparr>"
        using ignored_record [OF ok(2)] by blast
      have "r = Inr item" "w' = w3" using steps run rec Inr by (simp_all add: bindE_def returnE_def)
      moreover have "row_of_secret L vid key type title metadata tags expires plaintext
          (new_secret_row item (serialize_payload payload) (db_clock (w_db w)))"
        using stored_payload [OF ok(1) enc [unfolded \<open>r1 = Inr payload\<close>]]
        by (simp add: row_of_secret_def secret_value_def item_of_new_row item_def)
          (simp add: new_secret_row_def active_secret_def)
      ultimately show ?thesis by (auto simp: untouched_def db2 db3)
    qed
  qed
qed

section \<open>Importing the rows\<close>

lemma on_host_run: "on_host m s = (fst (m (im_host s)), s\<lparr>im_host := snd (m (im_host s))\<rparr>)"
  by (simp add: on_host_def split: prod.split)

abbreviation world_of :: "import_state \<Rightarrow> world" where
  "world_of s \<equiv> h_world (im_host s)"

lemma host_world_run:
  "fst (on_host (in_world m) s) = fst (m (world_of s))"
  "world_of (snd (on_host (in_world m) s)) = snd (m (world_of s))"
  by (simp_all add: on_host_run in_world_run)

lemma on_disk_world: "world_of (snd (on_host (on_disk m) s)) = world_of s"
  by (simp add: on_host_run on_disk_run)

lemma send_run: "fst (send progress e s) = Inr ()" "im_host (snd (send progress e s)) = im_host s"
  by (cases progress; simp add: send_def returnE_def modifyE_def)+

definition stored_row :: "import_lib \<Rightarrow> crypto_lib \<Rightarrow> uuid \<Rightarrow> bytes \<Rightarrow> csv_row \<Rightarrow> secret_row \<Rightarrow> bool" where
  "stored_row I L vid key row s \<longleftrightarrow>
     (\<exists>metadata. metadata_to_json I (row_metadata row) = Inr metadata
        \<and> row_of_secret L vid key Password (Some (title_display row)) (Some metadata) (rw_tags row) None
            (as_bytes (rw_password row)) s)"

text \<open>A row that was not stored: the failure in the report gives the error with which the secret service refused it.\<close>

definition refused_row :: "import_lib \<Rightarrow> audit_svc \<Rightarrow> crypto_lib \<Rightarrow> uuid \<Rightarrow> bytes \<Rightarrow> csv_row \<Rightarrow> import_csv_failure \<Rightarrow> bool" where
  "refused_row I A L vid key row failure \<longleftrightarrow>
     (\<exists>metadata w e. metadata_to_json I (row_metadata row) = Inr metadata
        \<and> fst (create_secret A L vid Password (Some (title_display row)) (Some metadata) (rw_tags row) None
            (as_bytes (rw_password row)) key w) = Inl e
        \<and> failure = \<lparr>cf_source_row = rw_source_row row, cf_title = title_display row,
            cf_reason = show_app_error (db_error_text I) e\<rparr>)"

fun row_result :: "import_lib \<Rightarrow> audit_svc \<Rightarrow> crypto_lib \<Rightarrow> uuid \<Rightarrow> bytes \<Rightarrow> csv_row
    \<Rightarrow> import_csv_failure + secret_row \<Rightarrow> bool" where
  "row_result I A L vid key row (Inr s) = stored_row I L vid key row s"
| "row_result I A L vid key row (Inl failure) = refused_row I A L vid key row failure"

fun lefts :: "('a + 'b) list \<Rightarrow> 'a list" where
  "lefts [] = []"
| "lefts (Inl x # rs) = x # lefts rs"
| "lefts (Inr _ # rs) = lefts rs"

fun rights :: "('a + 'b) list \<Rightarrow> 'b list" where
  "rights [] = []"
| "rights (Inl _ # rs) = rights rs"
| "rights (Inr x # rs) = x # rights rs"

lemma lefts_rights_length: "length (lefts rs) + length (rights rs) = length rs"
  by (induction rs rule: lefts.induct) simp_all

lemma import_rows_effect:
  assumes ok: "crypto_lib_ok L" "audit_ok A"
    and "import_rows I A L progress vid key total_rows processed rows acc s = (Inr acc', s')"
  shows "\<exists>results. list_all2 (row_result I A L vid key) rows results
    \<and> secret_items (w_db (world_of s')) = secret_items (w_db (world_of s)) @ rights results
    \<and> snd (untouched (world_of s')) = snd (untouched (world_of s))
    \<and> fst acc' = fst acc + length (rights results)
    \<and> snd acc' = snd acc @ lefts results"
  using assms(3)
proof (induction rows arbitrary: processed acc s)
  case Nil
  then show ?case by (intro exI [of _ "[]"]) (auto simp: returnE_def)
next
  case (Cons row rows)
  let ?create = "create_secret A L vid Password (Some (title_display row))"
  obtain metadata where meta: "metadata_to_json I (row_metadata row) = Inr metadata"
    using Cons.prems by (auto simp: eff_iffs map_err_def split: sum.splits)
  have title: "(if rw_name row = [] then Some ''Imported secret'' else Some (rw_name row)) = Some (title_display row)"
    by (simp add: title_display_def)
  obtain r w where run: "?create (Some metadata) (rw_tags row) None (as_bytes (rw_password row)) key (world_of s) = (r, w)"
    by fastforce
  define acc1 where "acc1 = (case r of Inr _ \<Rightarrow> (fst acc + 1, snd acc)
    | Inl e \<Rightarrow> (fst acc, snd acc @ [\<lparr>cf_source_row = rw_source_row row, cf_title = title_display row,
         cf_reason = show_app_error (db_error_text I) e\<rparr>]))"
  define s1 where "s1 = snd (send progress (Progress (Suc processed) total_rows (fst acc1) (length (snd acc1)) (Some (title_display row)))
    (s\<lparr>im_host := (im_host s)\<lparr>h_world := w\<rparr>\<rparr>))"
  have s1: "im_host s1 = (im_host s)\<lparr>h_world := w\<rparr>" by (simp add: s1_def send_run)
  have "import_rows I A L progress vid key total_rows processed (row # rows) acc s =
      import_rows I A L progress vid key total_rows (processed + 1) rows acc1 s1"
    unfolding import_rows.simps title Let_def
    by (simp add: bindE_run liftE_run meta map_err_def attemptE_run on_host_run in_world_run run send_run
        acc1_def [symmetric] s1_def [symmetric])
  with Cons.prems have "import_rows I A L progress vid key total_rows (processed + 1) rows acc1 s1 = (Inr acc', s')" by simp
  from Cons.IH [OF this] obtain results where later: "list_all2 (row_result I A L vid key) rows results"
    "secret_items (w_db (world_of s')) = secret_items (w_db w) @ rights results"
    "snd (untouched (world_of s')) = snd (untouched w)"
    "fst acc' = fst acc1 + length (rights results)" "snd acc' = snd acc1 @ lefts results"
    by (auto simp: s1)
  note effect = create_secret_effect [OF ok run]
  show ?case
  proof (cases r)
    case (Inl e)
    let ?failure = "\<lparr>cf_source_row = rw_source_row row, cf_title = title_display row,
         cf_reason = show_app_error (db_error_text I) e\<rparr>"
    have "refused_row I A L vid key row ?failure"
      unfolding refused_row_def using meta run Inl by (metis fst_conv)
    with effect later Inl show ?thesis
      by (intro exI [of _ "Inl ?failure # results"]) (auto simp: acc1_def untouched_def)
  next
    case (Inr item)
    with effect obtain row' where "secret_items (w_db w) = secret_items (w_db (world_of s)) @ [row']"
      "snd (untouched w) = snd (untouched (world_of s))"
      "row_of_secret L vid key Password (Some (title_display row)) (Some metadata) (rw_tags row) None
         (as_bytes (rw_password row)) row'" by auto
    moreover from this(3) meta have "stored_row I L vid key row row'" unfolding stored_row_def by blast
    ultimately show ?thesis
      using later Inr by (intro exI [of _ "Inr row' # results"]) (auto simp: acc1_def)
  qed
qed

section \<open>Reading the records\<close>

definition row_ok :: "import_lib \<Rightarrow> csv_row \<Rightarrow> bool" where
  "row_ok I row \<longleftrightarrow> rw_name row \<noteq> [] \<and> rw_username row \<noteq> [] \<and> rw_password row \<noteq> []
     \<and> length (rw_name row) \<le> 2048 \<and> length (rw_username row) \<le> 2048 \<and> length (rw_password row) \<le> 2048
     \<and> length (rw_notes row) \<le> 2048 \<and> length (rw_url row) \<le> 2048
     \<and> (rw_url row \<noteq> [] \<longrightarrow> (\<exists>url. url_parse_or I (rw_url row) = Inr url \<and> url_scheme url \<in> {''http'', ''https''}))"

lemma parse_fields_ok:
  "parse_fields I cols n record = Inr row \<Longrightarrow> row_ok I row"
  by (auto simp: parse_fields_def row_ok_def Let_def validate_fields_def bindR_Inr_iff validate_field_length_def
      MAX_FIELD_LEN_def validate_optional_url_def required_non_empty_field_def split: sum.splits if_splits)

text \<open>What the importer makes of one record, by its position: a failure or a row.\<close>

definition record_outcome :: "import_lib \<Rightarrow> string list \<Rightarrow> columns \<Rightarrow> nat \<Rightarrow> csv_error + string list
    \<Rightarrow> import_csv_failure + csv_row" where
  "record_outcome I ls cols i rec =
     (case rejected ls i rec of
        Some reject \<Rightarrow> Inl \<lparr>cf_source_row = rj_source_row reject, cf_title = ''Imported secret'', cf_reason = rj_reason reject\<rparr>
      | None \<Rightarrow>
          (case parse_fields I cols (i + 2) (projr rec) of
             Inl (title, reason) \<Rightarrow> Inl \<lparr>cf_source_row = i + 2, cf_title = title, cf_reason = reason\<rparr>
           | Inr row \<Rightarrow> Inr row))"

definition record_outcomes :: "import_lib \<Rightarrow> string \<Rightarrow> columns \<Rightarrow> (import_csv_failure + csv_row) list" where
  "record_outcomes I source cols =
     map (\<lambda>(i, rec). record_outcome I (source_lines source) cols i rec) (enumerate 0 (take 10000 (csv_records I source)))"

lemma add_record_outcome:
  "po_rows (add_record I ls cols n rec po) = po_rows po @ rights [record_outcome I ls cols n rec]"
  "po_failures (add_record I ls cols n rec po) = po_failures po @ lefts [record_outcome I ls cols n rec]"
  by (cases rec; auto simp: add_record_def record_outcome_def rejected_def Let_def split: sum.split option.split)+

lemma parse_records_full: "MAX_CSV_ROWS \<le> length (po_rows po) + length (po_failures po) \<Longrightarrow>
    parse_records I ls cols n records po = po"
  by (cases records) simp_all

lemma parse_records_outcomes:
  assumes "length (po_rows po) + length (po_failures po) \<le> MAX_CSV_ROWS"
  defines "room \<equiv> MAX_CSV_ROWS - (length (po_rows po) + length (po_failures po))"
  shows "po_rows (parse_records I ls cols n records po) = po_rows po @
      rights (map (\<lambda>(i, rec). record_outcome I ls cols i rec) (enumerate n (take room records)))
    \<and> po_failures (parse_records I ls cols n records po) = po_failures po @
      lefts (map (\<lambda>(i, rec). record_outcome I ls cols i rec) (enumerate n (take room records)))"
  using assms(1) unfolding room_def
proof (induction records arbitrary: n po)
  case (Cons rec records)
  let ?po = "add_record I ls cols n rec po"
  have count: "length (po_rows ?po) + length (po_failures ?po) = Suc (length (po_rows po) + length (po_failures po))"
    by (cases "record_outcome I ls cols n rec") (simp_all add: add_record_outcome)
  show ?case
  proof (cases "MAX_CSV_ROWS \<le> length (po_rows po) + length (po_failures po)")
    case False
    then have "MAX_CSV_ROWS - (length (po_rows po) + length (po_failures po))
        = Suc (MAX_CSV_ROWS - Suc (length (po_rows po) + length (po_failures po)))" by simp
    with False Cons.IH [of ?po "Suc n"] show ?thesis
      by (cases "record_outcome I ls cols n rec") (simp_all add: count, simp_all add: add_record_outcome)
  qed simp
qed simp

lemma record_outcome_ok: "record_outcome I ls cols i rec = Inr row \<Longrightarrow> row_ok I row"
  by (auto simp: record_outcome_def dest: parse_fields_ok split: option.splits sum.splits)

lemma rights_set: "x \<in> set (rights rs) \<longleftrightarrow> Inr x \<in> set rs"
  by (induction rs rule: rights.induct) auto

lemma record_outcomes_ok: "list_all (row_ok I) (rights (record_outcomes I source cols))"
  by (auto simp: list_all_iff rights_set record_outcomes_def dest: record_outcome_ok dest!: sym [of "Inr _"])

text \<open>The rejected records, from the line lengths and the shape of the records alone.\<close>

lemma parse_records_rejects:
  assumes "length (po_rows po) + length (po_failures po) \<le> MAX_CSV_ROWS"
  shows "po_rejects (parse_records I ls cols n records po) = po_rejects po @
    List.map_filter (\<lambda>(i, rec). rejected ls i rec)
      (zip [n..<n + length records] (take (MAX_CSV_ROWS - (length (po_rows po) + length (po_failures po))) records))"
  using assms
proof (induction records arbitrary: n po)
  case (Cons rec records)
  let ?po = "add_record I ls cols n rec po"
  have count: "length (po_rows ?po) + length (po_failures ?po) = Suc (length (po_rows po) + length (po_failures po))"
    by (cases "record_outcome I ls cols n rec") (simp_all add: add_record_outcome)
  have here: "po_rejects ?po = po_rejects po @ (case rejected ls n rec of None \<Rightarrow> [] | Some r \<Rightarrow> [r])"
    by (auto simp: add_record_def split: sum.split option.split)
  show ?case
  proof (cases "MAX_CSV_ROWS \<le> length (po_rows po) + length (po_failures po)")
    case True
    then show ?thesis by (simp add: map_filter_def)
  next
    case False
    then have "MAX_CSV_ROWS - (length (po_rows po) + length (po_failures po))
        = Suc (MAX_CSV_ROWS - Suc (length (po_rows po) + length (po_failures po)))" by simp
    moreover have "[n..<n + length (rec # records)] = n # [Suc n..<Suc n + length records]"
      by (subst upt_conv_Cons) simp_all
    ultimately show ?thesis
      using False Cons.IH [of ?po "n + 1"] by (simp add: count here map_filter_def split: option.split)
  qed
qed (simp add: map_filter_def)

section \<open>The claims\<close>

definition csv_columns :: "import_lib \<Rightarrow> string \<Rightarrow> columns result" where
  "csv_columns I source = bindR (case csv_headers I source of
       Inl e \<Rightarrow> Inl (Validation (''failed to read csv headers: '' @ e)) | Inr headers \<Rightarrow> Inr headers) (\<lambda>headers.
     columns_of (map normalize_header headers))"

lemma parse_csv_facts:
  assumes "parse_csv I source = Inr po"
  obtains cols where "csv_columns I source = Inr cols"
    "po_rows po = rights (record_outcomes I source cols)" "po_failures po = lefts (record_outcomes I source cols)"
    "po_total_rows po = min MAX_CSV_ROWS (length (csv_records I source))"
    "po_rejects po = List.map_filter (\<lambda>(i, cells). rejected (source_lines source) i cells)
      (zip [0..<length (csv_records I source)] (take MAX_CSV_ROWS (csv_records I source)))"
proof -
  let ?start = "\<lparr>po_total_rows = 0, po_rows = [], po_failures = [], po_rejects = []\<rparr>"
  obtain cols where cols: "csv_columns I source = Inr cols"
    and po: "po = (let po = parse_records I (source_lines source) cols 0 (csv_records I source) ?start
      in po\<lparr>po_total_rows := length (po_rows po) + length (po_failures po)\<rparr>)"
    using assms by (auto simp: parse_csv_def csv_columns_def bindR_Inr_iff Let_def split: sum.splits)
  have "length (po_rows ?start) + length (po_failures ?start) \<le> MAX_CSV_ROWS" by simp
  from parse_records_outcomes [OF this, of I "source_lines source" cols 0 "csv_records I source"]
    parse_records_rejects [OF this, of I "source_lines source" cols 0 "csv_records I source"]
  have rows: "po_rows po = rights (record_outcomes I source cols)"
    and failures: "po_failures po = lefts (record_outcomes I source cols)"
    and rejects: "po_rejects po = List.map_filter (\<lambda>(i, cells). rejected (source_lines source) i cells)
      (zip [0..<length (csv_records I source)] (take MAX_CSV_ROWS (csv_records I source)))"
    unfolding po by (simp_all add: Let_def record_outcomes_def MAX_CSV_ROWS_def)
  have "po_total_rows po = length (po_rows po) + length (po_failures po)" unfolding po by (simp add: Let_def)
  then have "po_total_rows po = min MAX_CSV_ROWS (length (csv_records I source))"
    using lefts_rights_length [of "record_outcomes I source cols"] unfolding rows failures
    by (simp add: record_outcomes_def MAX_CSV_ROWS_def min.commute)
  then show thesis by (rule that [OF cols rows failures _ rejects])
qed

text \<open>The shape of a record: its error, or the number of its cells.\<close>

definition shape :: "csv_error + string list \<Rightarrow> csv_error + nat" where
  "shape cells = map_sum (\<lambda>e. e) length cells"

lemma rejected_shape:
  assumes "shape cells = shape cells'" "map count_chars ls = map count_chars ls'"
  shows "rejected ls i cells = rejected ls' i cells'"
proof -
  have len: "length ls = length ls'" using assms(2) by (metis length_map)
  have "count_chars (ls ! n) = count_chars (ls' ! n)" if "n < length ls" for n
    using assms(2) that len by (metis nth_map)
  with len have raw: "raw_line_chars ls n = raw_line_chars ls' n" for n by (simp add: raw_line_chars_def)
  show ?thesis
    using assms(1) by (cases cells; cases cells') (simp_all add: shape_def rejected_def raw)
qed

lemma rejected_shapes:
  assumes "list_all2 (\<lambda>c c'. shape c = shape c') cs cs'" "map count_chars ls = map count_chars ls'"
  shows "List.map_filter (\<lambda>(i, c). rejected ls i c) (zip is cs) = List.map_filter (\<lambda>(i, c). rejected ls' i c) (zip is cs')"
  using assms
proof (induction "is" arbitrary: cs cs')
  case (Cons i "is")
  show ?case
  proof (cases cs)
    case Nil
    with Cons.prems show ?thesis by (simp add: map_filter_def)
  next
    case cs: (Cons c rest)
    with Cons.prems(1) obtain c' rest' where tail: "cs' = c' # rest'" "shape c = shape c'"
      "list_all2 (\<lambda>c c'. shape c = shape c') rest rest'" by (auto simp: list_all2_Cons1)
    with Cons.IH [OF tail(3) assms(2)] rejected_shape [OF tail(2) assms(2), of i] cs show ?thesis
      by (simp add: map_filter_def)
  qed
qed (simp add: map_filter_def)

text \<open>C8: the report of rejected rows tells nothing of the values in the file: two files whose lines have the same
numbers of characters and whose records have the same errors or numbers of cells give the same report,
whatever their names, users and passwords are.\<close>

theorem reject_report_tells_no_values:
  assumes "map count_chars (source_lines source) = map count_chars (source_lines source')"
    and "map shape (csv_records I source) = map shape (csv_records I source')"
    and "parse_csv I source = Inr po" and "parse_csv I source' = Inr po'"
  shows "po_rejects po = po_rejects po' \<and> po_total_rows po = po_total_rows po'
    \<and> write_reject_report I csv_file_path (po_rejects po) = write_reject_report I csv_file_path (po_rejects po')"
proof -
  have len: "length (csv_records I source) = length (csv_records I source')" using assms(2) by (metis length_map)
  have "list_all2 (\<lambda>c c'. shape c = shape c') (csv_records I source) (csv_records I source')"
    using assms(2) by (simp add: list_all2_conv_all_nth list_eq_iff_nth_eq)
  then have "list_all2 (\<lambda>c c'. shape c = shape c') (take MAX_CSV_ROWS (csv_records I source)) (take MAX_CSV_ROWS (csv_records I source'))"
    by (rule list_all2_takeI)
  note same = rejected_shapes [OF this assms(1)]
  have "po_rejects po = po_rejects po' \<and> po_total_rows po = po_total_rows po'"
    by (rule parse_csv_facts [OF assms(3)]; rule parse_csv_facts [OF assms(4)]) (simp add: same len)
  then show ?thesis by simp
qed

definition decoded :: "import_lib \<Rightarrow> bytes \<Rightarrow> string" where
  "decoded I bs = (case from_utf8 bs of Some content \<Rightarrow> content | None \<Rightarrow> windows_1252 I bs)"

lemma metadata_len_Inr:
  "metadata_len I p d = (Inr n, d') \<Longrightarrow> dk_files d' p = dk_files d p \<and> (\<forall>f. dk_files d p = Some f \<longrightarrow> n = length (fi_content f))"
  by (auto simp: metadata_len_def io_step_def nothing_done_def split: list.splits option.splits prod.splits sum.splits if_splits)

lemma parse_csv_rows_Inr:
  assumes "parse_csv_rows I p d = (Inr po, d')"
  obtains f where "dk_files d p = Some f" "length (fi_content f) \<le> MAX_CSV_FILE_SIZE_BYTES"
    "parse_csv I (decoded I (fi_content f)) = Inr po"
proof -
  have err: "(map_errE h m s = (Inr a, s')) = (m s = (Inr a, s'))" for h s s' a and m :: "('s, 'c) eff"
    by (cases "m s") (auto simp: map_errE_def split: sum.splits)
  obtain n d1 bs d2 where one: "metadata_len I p d = (Inr n, d1)" "n \<le> MAX_CSV_FILE_SIZE_BYTES"
    and two: "fs_read p d1 = (Inr bs, d2)" and three: "parse_csv I (decoded I bs) = Inr po"
    using assms by (auto simp: parse_csv_rows_def validate_csv_file_size_def read_csv_source_def eff_iffs err decoded_def)
  from fs_read_Inr [OF two] metadata_len_Inr [OF one(1)] one(2) three show ?thesis
    by (auto intro: that)
qed

text \<open>The steps of an import that succeeded.\<close>

lemma import_csv_steps:
  assumes "import_csv I A L p admin_user_id admin_master_key target_vault_id progress s = (Inr report, s')"
  obtains (parsed) po s1 where "on_host (on_disk (parse_csv_rows I p)) s = (Inr po, s1)"
    "po_rows po = []" "po_failures po = []" "world_of s' = world_of s"
    "report = \<lparr>cr_total_rows = 0, cr_imported = 0, cr_failed = 0, cr_failures = [], cr_reject_report_path = None\<rparr>"
  | (stored) po s1 s2 path s3 vs s4 v key s5 imported failures where
    "on_host (on_disk (parse_csv_rows I p)) s = (Inr po, s1)" "world_of s2 = world_of s1"
    "on_host (on_disk (write_reject_report I p (po_rejects po))) s2 = (Inr path, s3)"
    "on_host (in_world (list_user_vaults admin_user_id)) s3 = (Inr vs, s4)" "chosen_vault target_vault_id vs = Inr v"
    "on_host (in_world (open_vault_for_user A L admin_user_id (v_id v) admin_master_key)) s4 = (Inr key, s5)"
    "import_rows I A L progress (v_id v) key (po_total_rows po) (length (po_failures po)) (po_rows po)
       (0, po_failures po) s5 = (Inr (imported, failures), s')"
    "report = \<lparr>cr_total_rows = po_total_rows po, cr_imported = imported, cr_failed = length failures,
       cr_failures = failures, cr_reject_report_path = path\<rparr>"
proof -
  obtain po s1 where parsed: "on_host (on_disk (parse_csv_rows I p)) s = (Inr po, s1)"
    and rest: "bindE (send progress (Started (po_total_rows po) (length (po_rows po)) (length (po_failures po)))) (\<lambda>_.
     if po_rows po = [] \<and> po_failures po = []
     then returnE \<lparr>cr_total_rows = 0, cr_imported = 0, cr_failed = 0, cr_failures = [], cr_reject_report_path = None\<rparr>
     else
     bindE (on_host (on_disk (write_reject_report I p (po_rejects po)))) (\<lambda>reject_report_path.
     bindE (on_host (in_world (list_user_vaults admin_user_id))) (\<lambda>vs.
     bindE (liftE (chosen_vault target_vault_id vs)) (\<lambda>first_vault.
     bindE (on_host (in_world (open_vault_for_user A L admin_user_id (v_id first_vault) admin_master_key))) (\<lambda>vault_key.
     bindE (import_rows I A L progress (v_id first_vault) vault_key (po_total_rows po)
         (length (po_failures po)) (po_rows po) (0, po_failures po)) (\<lambda>(imported, failures).
     returnE \<lparr>cr_total_rows = po_total_rows po, cr_imported = imported, cr_failed = length failures,
       cr_failures = failures, cr_reject_report_path = reject_report_path\<rparr>)))))) s1 = (Inr report, s')"
    using assms unfolding import_csv_def bindE_Inr_iff by blast
  define s2 where "s2 = snd (send progress (Started (po_total_rows po) (length (po_rows po)) (length (po_failures po))) s1)"
  have w2: "world_of s2 = world_of s1" by (simp add: s2_def send_run)
  have w1: "world_of s1 = world_of s" using on_disk_world [of "parse_csv_rows I p" s] parsed by simp
  show thesis
  proof (cases "po_rows po = [] \<and> po_failures po = []")
    case True
    with rest have "report = \<lparr>cr_total_rows = 0, cr_imported = 0, cr_failed = 0, cr_failures = [], cr_reject_report_path = None\<rparr>"
      "s' = s2" by (auto simp: bindE_run send_run returnE_def s2_def)
    with True w2 w1 show thesis by (intro that(1) [OF parsed]) simp_all
  next
    case False
    then obtain path s3 vs s4 v key s5 imported failures where
      "on_host (on_disk (write_reject_report I p (po_rejects po))) s2 = (Inr path, s3)"
      "on_host (in_world (list_user_vaults admin_user_id)) s3 = (Inr vs, s4)"
      "chosen_vault target_vault_id vs = Inr v"
      "on_host (in_world (open_vault_for_user A L admin_user_id (v_id v) admin_master_key)) s4 = (Inr key, s5)"
      "import_rows I A L progress (v_id v) key (po_total_rows po) (length (po_failures po)) (po_rows po)
         (0, po_failures po) s5 = (Inr (imported, failures), s')"
      "report = \<lparr>cr_total_rows = po_total_rows po, cr_imported = imported, cr_failed = length failures,
       cr_failures = failures, cr_reject_report_path = path\<rparr>"
      using rest by (auto simp: bindE_run [of "send _ _"] send_run s2_def [symmetric] eff_iffs split: prod.splits)
    then show thesis by (rule that(2) [OF parsed w2])
  qed
qed

lemma on_disk_parse:
  assumes "on_host (on_disk (parse_csv_rows I p)) s = (Inr po, s1)"
  obtains f cols where "dk_files (h_disk (im_host s)) p = Some f" "length (fi_content f) \<le> 10 * 1024 * 1024"
    "csv_columns I (decoded I (fi_content f)) = Inr cols"
    "po_rows po = rights (record_outcomes I (decoded I (fi_content f)) cols)"
    "po_failures po = lefts (record_outcomes I (decoded I (fi_content f)) cols)"
    "po_total_rows po = min 10000 (length (csv_records I (decoded I (fi_content f))))"
    "fst (preview_csv I p (h_disk (im_host s))) = Inr \<lparr>cp_total_rows = po_total_rows po,
       cp_importable_rows = length (po_rows po), cp_failed_rows = length (po_failures po)\<rparr>"
    "world_of s1 = world_of s"
proof -
  have "\<exists>d1. parse_csv_rows I p (h_disk (im_host s)) = (Inr po, d1)"
    using assms by (auto simp: on_host_run on_disk_run prod_eq_iff)
  then obtain d1 where d1: "parse_csv_rows I p (h_disk (im_host s)) = (Inr po, d1)" ..
  then obtain f where f: "dk_files (h_disk (im_host s)) p = Some f"
    "length (fi_content f) \<le> MAX_CSV_FILE_SIZE_BYTES" "parse_csv I (decoded I (fi_content f)) = Inr po"
    by (rule parse_csv_rows_Inr)
  have preview: "fst (preview_csv I p (h_disk (im_host s))) = Inr \<lparr>cp_total_rows = po_total_rows po,
       cp_importable_rows = length (po_rows po), cp_failed_rows = length (po_failures po)\<rparr>"
    by (simp add: preview_csv_def bindE_run d1 returnE_def)
  have world: "world_of s1 = world_of s" using on_disk_world [of "parse_csv_rows I p" s] assms by simp
  have size: "length (fi_content f) \<le> 10 * 1024 * 1024" using f(2) by (simp add: MAX_CSV_FILE_SIZE_BYTES_def)
  from f(3) obtain cols where cols: "csv_columns I (decoded I (fi_content f)) = Inr cols"
    "po_rows po = rights (record_outcomes I (decoded I (fi_content f)) cols)"
    "po_failures po = lefts (record_outcomes I (decoded I (fi_content f)) cols)"
    "po_total_rows po = min MAX_CSV_ROWS (length (csv_records I (decoded I (fi_content f))))"
    by (rule parse_csv_facts)
  show thesis
    by (rule that [OF f(1) size cols(1-3) cols(4) [unfolded MAX_CSV_ROWS_def] preview world])
qed

lemma opened_untouched:
  assumes "audit_ok A"
    and "on_host (in_world (list_user_vaults uid)) s3 = (Inr vs, s4)"
    and "on_host (in_world (open_vault_for_user A L uid vid master_key)) s4 = (Inr key, s5)"
  shows "untouched (world_of s5) = untouched (world_of s3)"
    and "\<exists>w. w_db w = w_db (world_of s3) \<and> fst (open_vault_for_user A L uid vid master_key w) = Inr key"
proof -
  have w4: "w_db (world_of s4) = w_db (world_of s3)"
    using frames_list_user_vaults [of uid] host_world_run(2) [of "list_user_vaults uid" s3] assms(2)
    by (simp add: frames_def)
  have "untouched (world_of s5) = untouched (world_of s4)"
    using frames_open_vault [OF assms(1), of L uid vid master_key]
      host_world_run(2) [of "open_vault_for_user A L uid vid master_key" s4] assms(3)
    by (simp add: frames_def)
  with w4 show "untouched (world_of s5) = untouched (world_of s3)" by (simp add: untouched_def)
  have "fst (open_vault_for_user A L uid vid master_key (world_of s4)) = Inr key"
    using host_world_run(1) [of "open_vault_for_user A L uid vid master_key" s4] assms(3) by simp
  with w4 show "\<exists>w. w_db w = w_db (world_of s3) \<and> fst (open_vault_for_user A L uid vid master_key w) = Inr key" by blast
qed

text \<open>
  C7: An import that succeeds accounts for every record of the file, at most the first ten thousand: the
  file has at most 10 MiB and its header names the columns; each record is a failure of the report or a row
  within the limits; each row became one new secret at the end of the vault's table, in order, with its
  name and tags, its user, URL, notes and category as metadata and its password under the key of the vault,
  or stands in the report with the error of the secret service that refused it. The report counts just
  these, a preview of the same file counts the same records, rows and failures, the vault key is the one
  the master key of the user opens, and no other table but the audit log has changed.
\<close>

theorem import_csv_stores_rows:
  assumes "crypto_lib_ok L" and "audit_ok A"
    and "import_csv I A L csv_file_path admin_user_id admin_master_key target_vault_id progress s = (Inr report, s')"
  shows "\<exists>f source cols results vid key.
      dk_files (h_disk (im_host s)) csv_file_path = Some f \<and> length (fi_content f) \<le> 10 * 1024 * 1024
    \<and> source = decoded I (fi_content f) \<and> csv_columns I source = Inr cols
    \<and> list_all (row_ok I) (rights (record_outcomes I source cols))
    \<and> list_all2 (row_result I A L vid key) (rights (record_outcomes I source cols)) results
    \<and> secret_items (w_db (world_of s')) = secret_items (w_db (world_of s)) @ rights results
    \<and> snd (untouched (world_of s')) = snd (untouched (world_of s))
    \<and> cr_total_rows report = min 10000 (length (csv_records I source))
    \<and> cr_imported report = length (rights results)
    \<and> cr_failures report = lefts (record_outcomes I source cols) @ lefts results
    \<and> cr_failed report = length (cr_failures report)
    \<and> cr_imported report + cr_failed report = cr_total_rows report
    \<and> fst (preview_csv I csv_file_path (h_disk (im_host s))) = Inr \<lparr>cp_total_rows = cr_total_rows report,
        cp_importable_rows = length (rights (record_outcomes I source cols)),
        cp_failed_rows = length (lefts (record_outcomes I source cols))\<rparr>
    \<and> (rights (record_outcomes I source cols) \<noteq> [] \<longrightarrow> (\<exists>w. w_db w = w_db (world_of s)
         \<and> fst (open_vault_for_user A L admin_user_id vid admin_master_key w) = Inr key))"
  using assms(3)
proof (cases rule: import_csv_steps)
  case (parsed po s1)
  from parsed(1) obtain f cols where f: "dk_files (h_disk (im_host s)) csv_file_path = Some f"
    "length (fi_content f) \<le> 10 * 1024 * 1024" "csv_columns I (decoded I (fi_content f)) = Inr cols"
    and po: "po_rows po = rights (record_outcomes I (decoded I (fi_content f)) cols)"
    "po_failures po = lefts (record_outcomes I (decoded I (fi_content f)) cols)"
    "po_total_rows po = min 10000 (length (csv_records I (decoded I (fi_content f))))"
    "fst (preview_csv I csv_file_path (h_disk (im_host s))) = Inr \<lparr>cp_total_rows = po_total_rows po,
       cp_importable_rows = length (po_rows po), cp_failed_rows = length (po_failures po)\<rparr>"
    by (rule on_disk_parse)
  have "length (record_outcomes I (decoded I (fi_content f)) cols) = 0"
    using lefts_rights_length [of "record_outcomes I (decoded I (fi_content f)) cols"] parsed(2,3) po(1,2) by simp
  then have "csv_records I (decoded I (fi_content f)) = []" by (auto simp: record_outcomes_def enumerate_eq_zip min_def split: if_splits)
  then show ?thesis
    using f po parsed(2-5) by (intro exI [of _ f] exI [of _ "decoded I (fi_content f)"] exI [of _ cols] exI [of _ "[]"]) simp
next
  case (stored po s1 s2 path s3 vs s4 v key s5 imported failures)
  from stored(1) obtain f cols where f: "dk_files (h_disk (im_host s)) csv_file_path = Some f"
    "length (fi_content f) \<le> 10 * 1024 * 1024" "csv_columns I (decoded I (fi_content f)) = Inr cols"
    and po: "po_rows po = rights (record_outcomes I (decoded I (fi_content f)) cols)"
    "po_failures po = lefts (record_outcomes I (decoded I (fi_content f)) cols)"
    "po_total_rows po = min 10000 (length (csv_records I (decoded I (fi_content f))))"
    "fst (preview_csv I csv_file_path (h_disk (im_host s))) = Inr \<lparr>cp_total_rows = po_total_rows po,
       cp_importable_rows = length (po_rows po), cp_failed_rows = length (po_failures po)\<rparr>"
    and w1: "world_of s1 = world_of s"
    by (rule on_disk_parse)
  have w3: "world_of s3 = world_of s"
    using on_disk_world [of "write_reject_report I csv_file_path (po_rejects po)" s2] stored(2,3) w1 by simp
  note open_facts = opened_untouched [OF assms(2) stored(4,6)]
  obtain results where results: "list_all2 (row_result I A L (v_id v) key) (po_rows po) results"
    "secret_items (w_db (world_of s')) = secret_items (w_db (world_of s5)) @ rights results"
    "snd (untouched (world_of s')) = snd (untouched (world_of s5))"
    "imported = length (rights results)" "failures = po_failures po @ lefts results"
    using import_rows_effect [OF assms(1,2) stored(7)] by auto
  have "length (lefts results) + length (rights results) = length (po_rows po)"
    using lefts_rights_length [of results] list_all2_lengthD [OF results(1)] by simp
  moreover have "length (po_failures po) + length (po_rows po) = po_total_rows po"
    using lefts_rights_length [of "record_outcomes I (decoded I (fi_content f)) cols"] po(1-3)
    by (simp add: record_outcomes_def min.commute)
  ultimately show ?thesis
    using f po results open_facts record_outcomes_ok [of I "decoded I (fi_content f)" cols] unfolding w3
    by (intro exI [of _ f] exI [of _ "decoded I (fi_content f)"] exI [of _ cols] exI [of _ results]
        exI [of _ "v_id v"] exI [of _ key]) (simp add: stored(8) untouched_def)
qed

section \<open>An example\<close>

fun comma_cells :: "string \<Rightarrow> string list" where
  "comma_cells [] = [[]]"
| "comma_cells (c # s) = (if c = CHR 0x2C then [] # comma_cells s
     else (case comma_cells s of [] \<Rightarrow> [[c]] | cell # cells \<Rightarrow> (c # cell) # cells))"

definition sample_import :: import_lib where
  "sample_import = \<lparr>csv_headers = (\<lambda>s. case source_lines s of [] \<Rightarrow> Inr [] | l # _ \<Rightarrow> Inr (comma_cells l)),
     csv_records = (\<lambda>s. map (\<lambda>l. Inr (comma_cells l)) (tl (source_lines s))),
     windows_1252 = map (\<lambda>b. char_of (unat b)), url_parse_or = (\<lambda>u. Inl ''relative URL without a base''),
     metadata_to_json = (\<lambda>m. Inr (cm_login m)), db_error_text = (\<lambda>_. ''error''), directory_len = (\<lambda>_. 4096),
     path_of = (\<lambda>p. [p]), display_path = concat, log_dir_variable = None, current_dir = Inr [''/'', ''home''],
     local_stamp = ''20260101_120000'', local_rfc3339 = ''2026-01-01T12:00:00+01:00''\<rparr>"

definition sample_csv :: "string \<Rightarrow> string" where
  "sample_csv password = join_lines [''Name,url,username,password,notes,category,tags'',
     ''Mail,,amy,'' @ password @ '',,,'', ''bank,'' @ password]"

definition reader_host :: host where
  "reader_host = \<lparr>h_world = (empty_world ''now'')\<lparr>w_db := (empty_db ''now'')
     \<lparr>users := [new_user_row 1 ''amy'' Admin, new_user_row 2 ''bob'' User],
      vaults := [\<lparr>vr_id = 10, vr_owner_user_id = 1, vr_name = ''home'', vr_vault_key_envelope = Some [],
        vr_vault_key_version = 1, vr_sort_order = 0, vr_deleted_at = None\<rparr>],
      vault_key_shares := [\<lparr>kr_vault_id = 10, kr_user_id = 2,
        kr_key_envelope = replicate 12 0 @ replicate 16 5 @ replicate 32 7,
        kr_granted_by = Some 1, kr_granted_via_team = None, kr_granted_at = ''then'', kr_role = ''read''\<rparr>]\<rparr>\<rparr>,
     h_disk = \<lparr>dk_files = [[''in.csv''] \<mapsto> \<lparr>fi_content = as_bytes (sample_csv ''abc''), fi_mode = 0b110000000\<rparr>],
       dk_dirs = [[''/''] \<mapsto> 0b111000000, [''/'', ''home''] \<mapsto> 0b111000000], dk_faults = []\<rparr>\<rparr>"


lemma sample_headers:
  "map normalize_header [''Name'', ''url'', ''username'', ''password'', ''notes'', ''category'', ''tags''] =
    [''Name'', ''url'', ''username'', ''password'', ''notes'', ''category'', ''tags'']"
  by code_simp

definition sample_columns :: columns where
  "sample_columns = \<lparr>name_idx = 0, url_idx = 1, username_idx = 2, password_idx = 3, notes_idx = 4,
     category_idx = 5, tags_idx = 6\<rparr>"

lemma sample_columns_of:
  "columns_of [''Name'', ''url'', ''username'', ''password'', ''notes'', ''category'', ''tags''] = Inr sample_columns"
  by code_simp

lemma sample_lines:
  "source_lines (sample_csv ''abc'') = [''Name,url,username,password,notes,category,tags'', ''Mail,,amy,abc,,,'', ''bank,abc'']"
  "source_lines (sample_csv ''xyz'') = [''Name,url,username,password,notes,category,tags'', ''Mail,,amy,xyz,,,'', ''bank,xyz'']"
  by code_simp+

lemma sample_cells:
  "csv_headers sample_import (sample_csv ''abc'') = Inr [''Name'', ''url'', ''username'', ''password'', ''notes'', ''category'', ''tags'']"
  "csv_records sample_import (sample_csv ''abc'') = [Inr [''Mail'', [], ''amy'', ''abc'', [], [], []], Inr [''bank'', ''abc'']]"
  "csv_headers sample_import (sample_csv ''xyz'') = Inr [''Name'', ''url'', ''username'', ''password'', ''notes'', ''category'', ''tags'']"
  "csv_records sample_import (sample_csv ''xyz'') = [Inr [''Mail'', [], ''amy'', ''xyz'', [], [], []], Inr [''bank'', ''xyz'']]"
  by (simp_all add: sample_import_def sample_lines)

lemma sample_trimmed: "trim ''Mail'' = ''Mail''" "trim ''amy'' = ''amy''" "trim ''abc'' = ''abc''" "trim ''xyz'' = ''xyz''" "trim [] = []"
  by code_simp+

definition sample_row :: "string \<Rightarrow> csv_row" where
  "sample_row password = \<lparr>rw_source_row = 2, rw_name = ''Mail'', rw_url = [], rw_username = ''amy'',
     rw_password = password, rw_notes = [], rw_category = None, rw_tags = None\<rparr>"

lemma sample_fields:
  assumes "trim password = password" "password \<noteq> []" "length password \<le> 2048"
  shows "parse_fields sample_import sample_columns 2 [''Mail'', [], ''amy'', password, [], [], []] = Inr (sample_row password)"
  using assms
  by (simp add: parse_fields_def sample_columns_def required_non_empty_field_def optional_field_def optional_text_def
      sample_trimmed validate_fields_def validate_field_length_def MAX_FIELD_LEN_def validate_optional_url_def sample_row_def)

lemma sample_add_row:
  assumes "trim password = password" "password \<noteq> []" "length password \<le> 2048"
  shows "add_record sample_import ls sample_columns 0 (Inr [''Mail'', [], ''amy'', password, [], [], []]) po
    = po\<lparr>po_rows := po_rows po @ [sample_row password]\<rparr>"
  using sample_fields [OF assms]
  by (simp add: add_record_def rejected_def EXPECTED_CSV_COLUMNS_def numeral_2_eq_2)

lemma sample_add_reject:
  "\<exists>fl rj. add_record sample_import ls cols 1 (Inr [a, b]) po =
     po\<lparr>po_failures := po_failures po @ [fl], po_rejects := po_rejects po @ [rj]\<rparr>"
  by (auto simp: add_record_def rejected_def EXPECTED_CSV_COLUMNS_def)

lemma sample_parsed:
  assumes "password = ''abc'' \<or> password = ''xyz''"
  shows "\<exists>po. parse_csv sample_import (sample_csv password) = Inr po \<and> po_rows po = [sample_row password]
    \<and> length (po_failures po) = 1 \<and> po_total_rows po = 2 \<and> po_rejects po \<noteq> []"
proof -
  have password: "trim password = password" "password \<noteq> []" "length password \<le> 2048"
    using assms sample_trimmed by auto
  have records: "parse_records sample_import ls sample_columns 0
      [Inr [''Mail'', [], ''amy'', password, [], [], []], Inr [''bank'', password]]
      \<lparr>po_total_rows = 0, po_rows = [], po_failures = [], po_rejects = []\<rparr>
    = add_record sample_import ls sample_columns 1 (Inr [''bank'', password])
        \<lparr>po_total_rows = 0, po_rows = [sample_row password], po_failures = [], po_rejects = []\<rparr>" for ls
    using sample_add_row [OF password, of ls] by (simp add: MAX_CSV_ROWS_def)
  obtain fl rj where reject: "add_record sample_import (source_lines (sample_csv password)) sample_columns 1 (Inr [''bank'', password])
        \<lparr>po_total_rows = 0, po_rows = [sample_row password], po_failures = [], po_rejects = []\<rparr>
      = \<lparr>po_total_rows = 0, po_rows = [sample_row password], po_failures = [fl], po_rejects = [rj]\<rparr>"
    using sample_add_reject [of "source_lines (sample_csv password)" sample_columns "''bank''" password
        "\<lparr>po_total_rows = 0, po_rows = [sample_row password], po_failures = [], po_rejects = []\<rparr>"] by auto
  have headers: "csv_headers sample_import (sample_csv password) = Inr [''Name'', ''url'', ''username'', ''password'', ''notes'', ''category'', ''tags'']"
    and cells: "csv_records sample_import (sample_csv password)
      = [Inr [''Mail'', [], ''amy'', password, [], [], []], Inr [''bank'', password]]"
    using assms sample_cells by auto
  show ?thesis
    unfolding parse_csv_def headers cells sum.case bindR_simps sample_headers sample_columns_of Let_def records reject
    by simp
qed

theorem reject_report_tells_no_values_witness:
  "\<exists>po po'. parse_csv sample_import (sample_csv ''abc'') = Inr po \<and> parse_csv sample_import (sample_csv ''xyz'') = Inr po'
   \<and> po_rows po \<noteq> po_rows po' \<and> po_rejects po \<noteq> [] \<and> po_rejects po = po_rejects po'"
proof -
  have lines: "map count_chars (source_lines (sample_csv ''abc'')) = map count_chars (source_lines (sample_csv ''xyz''))"
    unfolding sample_lines by code_simp
  have shapes: "map shape (csv_records sample_import (sample_csv ''abc'')) = map shape (csv_records sample_import (sample_csv ''xyz''))"
    by (simp add: sample_cells shape_def)
  obtain po po' where po: "parse_csv sample_import (sample_csv ''abc'') = Inr po" "parse_csv sample_import (sample_csv ''xyz'') = Inr po'"
    "po_rows po = [sample_row ''abc'']" "po_rows po' = [sample_row ''xyz'']" "po_rejects po \<noteq> []"
    using sample_parsed [of "''abc''"] sample_parsed [of "''xyz''"] by auto
  have "sample_row ''abc'' \<noteq> sample_row ''xyz''" by (simp add: sample_row_def)
  with reject_report_tells_no_values [OF lines shapes po(1,2)] po show ?thesis by auto
qed

definition reader_state :: import_state where
  "reader_state = \<lparr>im_host = reader_host, im_events = []\<rparr>"

lemma reader_runs:
  "fst (list_user_vaults 2 (h_world reader_host)) = Inr [\<lparr>v_id = 10, v_owner_user_id = 1, v_name = ''home''\<rparr>]"
  by code_simp

lemma reader_opens:
  "fst (open_vault_for_user sample_audit toy_lib 2 10 (replicate 32 5) (snd (list_user_vaults 2 (h_world reader_host)))) = Inr (replicate 32 7)"
  by code_simp

definition opened_world :: world where
  "opened_world = snd (open_vault_for_user sample_audit toy_lib 2 10 (replicate 32 5) (snd (list_user_vaults 2 (h_world reader_host))))"

lemma reader_creates:
  "map_sum (\<lambda>e. e) si_vault_id (fst (create_secret sample_audit toy_lib 10 Password (Some ''Mail'') (Some ''amy'') None None
     (as_bytes ''abc'') (replicate 32 7) opened_world)) = Inr 10"
  by code_simp

definition reader_disk :: disk where "reader_disk = h_disk reader_host"

lemma reader_disk_sel: "dk_faults reader_disk = []"
  "dk_files reader_disk = [[''in.csv''] \<mapsto> \<lparr>fi_content = as_bytes (sample_csv ''abc''), fi_mode = 0b110000000\<rparr>]"
  "dk_dirs reader_disk = [[''/''] \<mapsto> 0b111000000, [''/'', ''home''] \<mapsto> 0b111000000]"
  by (simp_all add: reader_disk_def reader_host_def)

lemma sample_decoded:
  "decoded sample_import (as_bytes (sample_csv ''abc'')) = sample_csv ''abc''" "length (as_bytes (sample_csv ''abc'')) \<le> 100"
proof -
  have "utf8_valid (as_bytes (sample_csv ''abc''))" by code_simp
  then show "decoded sample_import (as_bytes (sample_csv ''abc'')) = sample_csv ''abc''"
    by (simp add: decoded_def from_utf8_as_bytes)
  show "length (as_bytes (sample_csv ''abc'')) \<le> 100" by (simp add: sample_csv_def as_bytes_def)
qed

lemma reader_parses:
  "\<exists>po. parse_csv_rows sample_import [''in.csv''] reader_disk = (Inr po, reader_disk) \<and> po_rows po = [sample_row ''abc'']
    \<and> length (po_failures po) = 1 \<and> po_total_rows po = 2"
proof -
  obtain po where po: "parse_csv sample_import (sample_csv ''abc'') = Inr po" "po_rows po = [sample_row ''abc'']"
    "length (po_failures po) = 1" "po_total_rows po = 2" using sample_parsed [of "''abc''"] by auto
  have "metadata_len sample_import [''in.csv''] reader_disk = (Inr (length (as_bytes (sample_csv ''abc''))), reader_disk)"
    by (simp add: metadata_len_def io_step_clean reader_disk_sel)
  moreover have "fs_read [''in.csv''] reader_disk = (Inr (as_bytes (sample_csv ''abc'')), reader_disk)"
    using read_clean [of reader_disk "[''in.csv'']" "\<lparr>fi_content = as_bytes (sample_csv ''abc''), fi_mode = 0b110000000\<rparr>"]
    by (simp add: reader_disk_sel)
  ultimately have "parse_csv_rows sample_import [''in.csv''] reader_disk = (Inr po, reader_disk)"
    using sample_decoded po(1)
    by (simp add: parse_csv_rows_def validate_csv_file_size_def read_csv_source_def bindE_run map_errE_run liftE_run
        returnE_run MAX_CSV_FILE_SIZE_BYTES_def decoded_def [symmetric])
  with po show ?thesis by blast
qed

lemma reader_reports: "\<exists>path d. write_reject_report sample_import p rejects reader_disk = (Inr path, d)"
proof (cases "rejects = []")
  case True
  then show ?thesis
    by (simp add: write_reject_report_def write_reject_report_to_dir_def resolve_reject_report_dir_def sample_import_def
        bindE_run liftE_run returnE_run)
next
  case False
  let ?dir = "[''/'', ''home'', ''logs'']"
  let ?d = "make_dirs OWNER_ONLY_DIR 3 ?dir reader_disk"
  let ?p = "?dir @ [''csv_import_rejects_20260101_120000.txt'']"
  have dir: "create_private_dir_all ?dir reader_disk = (Inr (), ?d)"
    by (simp add: create_private_dir_all_def io_step_clean reader_disk_sel numeral_3_eq_3 take_Cons' list_ex_iff)
  have "dk_faults ?d = []" "in_directory ?p ?d" "dk_dirs ?d ?p = None"
    by (simp_all add: make_dirs_def reader_disk_sel in_directory_def path_parent_def)
  note put = write_private_clean [OF this]
  have sel: "resolve_reject_report_dir sample_import = Inr ?dir" "local_stamp sample_import = ''20260101_120000''"
    by (simp_all add: resolve_reject_report_dir_def sample_import_def)
  show ?thesis
    using False dir put
    by (simp add: write_reject_report_def write_reject_report_to_dir_def sel Let_def bindE_run liftE_run returnE_run map_errE_run)
qed


lemma reader_imports:
  "\<exists>report s'. import_csv sample_import sample_audit toy_lib [''in.csv''] 2 (replicate 32 5) None False reader_state = (Inr report, s')
    \<and> cr_imported report = 1"
proof -
  let ?v = "\<lparr>v_id = 10, v_owner_user_id = 1, v_name = ''home''\<rparr>"
  obtain po where po: "parse_csv_rows sample_import [''in.csv''] reader_disk = (Inr po, reader_disk)"
    "po_rows po = [sample_row ''abc'']" "length (po_failures po) = 1" "po_total_rows po = 2" using reader_parses by blast
  obtain path d where rep: "write_reject_report sample_import [''in.csv''] (po_rejects po) reader_disk = (Inr path, d)"
    using reader_reports by blast
  have host: "im_host reader_state = reader_host" "h_disk reader_host = reader_disk"
    by (simp_all add: reader_state_def reader_disk_def)
  obtain item w where create: "create_secret sample_audit toy_lib 10 Password (Some ''Mail'') (Some ''amy'') None None
      (as_bytes ''abc'') (replicate 32 7) opened_world = (Inr item, w)"
    using reader_creates
    by (cases "create_secret sample_audit toy_lib 10 Password (Some ''Mail'') (Some ''amy'') None None
      (as_bytes ''abc'') (replicate 32 7) opened_world") (auto simp: map_sum_def split: sum.splits)
  have meta: "metadata_to_json sample_import (row_metadata (sample_row ''abc'')) = Inr ''amy''"
    by (simp add: sample_import_def row_metadata_def sample_row_def)
  have row: "rw_name (sample_row ''abc'') = ''Mail''" "rw_tags (sample_row ''abc'') = None" "rw_password (sample_row ''abc'') = ''abc''"
    by (simp_all add: sample_row_def)
  have parsed: "on_host (on_disk (parse_csv_rows sample_import [''in.csv''])) reader_state = (Inr po, reader_state)"
    using po(1) host by (simp add: on_host_run on_disk_run)
  have "\<exists>s1. on_host (on_disk (write_reject_report sample_import [''in.csv''] (po_rejects po))) reader_state = (Inr path, s1)
      \<and> h_world (im_host s1) = h_world reader_host"
    using rep host by (simp add: on_host_run on_disk_run)
  then obtain s1 where s1: "on_host (on_disk (write_reject_report sample_import [''in.csv''] (po_rejects po))) reader_state = (Inr path, s1)"
    "h_world (im_host s1) = h_world reader_host" by blast
  have "\<exists>s2. on_host (in_world (list_user_vaults 2)) s1 = (Inr [?v], s2) \<and> h_world (im_host s2) = snd (list_user_vaults 2 (h_world reader_host))"
    using reader_runs s1(2) by (simp add: on_host_run in_world_run)
  then obtain s2 where s2: "on_host (in_world (list_user_vaults 2)) s1 = (Inr [?v], s2)"
    "h_world (im_host s2) = snd (list_user_vaults 2 (h_world reader_host))" by blast
  have "\<exists>s3. on_host (in_world (open_vault_for_user sample_audit toy_lib 2 10 (replicate 32 5))) s2 = (Inr (replicate 32 7), s3)
      \<and> h_world (im_host s3) = opened_world"
    using reader_opens s2(2) by (simp add: on_host_run in_world_run opened_world_def)
  then obtain s3 where s3: "on_host (in_world (open_vault_for_user sample_audit toy_lib 2 10 (replicate 32 5))) s2 = (Inr (replicate 32 7), s3)"
    "h_world (im_host s3) = opened_world" by blast
  have "\<exists>s4. import_rows sample_import sample_audit toy_lib False 10 (replicate 32 7) 2 (Suc 0) [sample_row ''abc''] (0, po_failures po) s3
      = (Inr (1, po_failures po), s4)"
    using create s3(2)
    by (simp add: bindE_run liftE_run meta attemptE_run on_host_run in_world_run row send_def returnE_run Let_def)
  then obtain s4 where s4: "import_rows sample_import sample_audit toy_lib False 10 (replicate 32 7) 2 (Suc 0) [sample_row ''abc''] (0, po_failures po) s3
      = (Inr (1, po_failures po), s4)" by blast
  show ?thesis
    using po(2-4)
    by (simp add: import_csv_def bindE_run parsed send_def returnE_run s1(1) s2(1) chosen_vault_def liftE_run s3(1) s4
        del: import_rows.simps)
qed

text \<open>The witness is a user with a mere share for reading.\<close>

theorem import_csv_stores_rows_witness:
  "\<exists>report s' new. import_csv sample_import sample_audit toy_lib [''in.csv''] 2 (replicate 32 5) None False reader_state = (Inr report, s')
    \<and> cr_imported report = 1 \<and> cr_imported report + cr_failed report = cr_total_rows report
    \<and> secret_items (w_db (world_of s')) = [new] \<and> secret_items (w_db (world_of reader_state)) = []
    \<and> map kr_role (vault_key_shares (w_db (world_of reader_state))) = [''read'']"
proof -
  obtain report s' where run: "import_csv sample_import sample_audit toy_lib [''in.csv''] 2 (replicate 32 5) None False reader_state
      = (Inr report, s')" "cr_imported report = 1" using reader_imports by blast
  have start: "secret_items (w_db (world_of reader_state)) = []"
    "map kr_role (vault_key_shares (w_db (world_of reader_state))) = [''read'']"
    by (simp_all add: reader_state_def reader_host_def empty_db_def)
  note claim = import_csv_stores_rows [OF toy_lib_ok sample_audit_ok run(1)]
  from claim have "cr_imported report + cr_failed report = cr_total_rows report" by blast
  moreover from claim obtain results :: "(import_csv_failure + secret_row) list"
    where "secret_items (w_db (world_of s')) = secret_items (w_db (world_of reader_state)) @ rights results"
      "cr_imported report = length (rights results)" by blast
  moreover from this(2) run(2) have "length (rights results) = Suc 0" by simp
  then obtain x where "rights results = [x]" by (auto simp: length_Suc_conv)
  ultimately show ?thesis using run start by (intro exI [of _ report] exI [of _ s'] exI [of _ x]) simp
qed

end
