(* ===== verification/HV_Login.thy ===== *)
theory HV_Login
  imports HV_UserService HV_Totp HV_IpLimit
begin

text \<open>
  The login of the desktop application: ui/dialogs/login_dialog/core.rs (the password page) and
  login_flow.rs (the page of the second factor), the composition of user service, throttling,
  authentication and second factor. The widgets are not modelled: a submit is what the handlers read from
  the fields, a result is the outcome they are given. The clock readings of an attempt are a record.
\<close>

section \<open>The attempts\<close>

record session =
  as_user_id :: uuid
  as_username :: string
  as_identity_label :: string
  as_master_key :: bytes

datatype login_outcome =
    LoginSuccess session
  | LoginInvalidCredentials int
  | LoginInvalidTotp int
  | LoginLocked int
  | LoginRequiresTotp

record login_env =
  le_totp :: totp_lib
  le_crypto :: crypto_lib
  le_kdf :: kdf_config
  le_issuer :: string
  le_show_id :: "uuid \<Rightarrow> string"

record login_clock =
  lc_now :: timestamp
  lc_failed :: timestamp
  lc_failed_state :: timestamp
  lc_checked :: int
  lc_recorded :: int

definition upgrade_login_key :: "login_env \<Rightarrow> string \<Rightarrow> bytes \<Rightarrow> bytes \<Rightarrow> (world, bytes) eff" where
  "upgrade_login_key E username password old_key =
     bindE (attemptE (upgrade_legacy_credentials (le_show_id E) (le_crypto E) (le_kdf E) username password))
       (\<lambda>r. case r of
          Inr (Some account_key) \<Rightarrow> returnE account_key
        | Inr None \<Rightarrow> returnE old_key
        | Inl _ \<Rightarrow> returnE old_key)"

definition identity_label :: "user \<Rightarrow> string" where
  "identity_label u =
     (case usr_display_name u of
        Some v \<Rightarrow> if trim v \<noteq> [] then v else usr_username u
      | None \<Rightarrow> usr_username u)"

definition failed_login :: "login_clock \<Rightarrow> string \<Rightarrow> (int \<Rightarrow> login_outcome) \<Rightarrow> (totp_state, login_outcome) eff" where
  "failed_login c username outcome =
     bindE (on_world (on_db (auth_record_failed_attempt (lc_failed c) (lc_failed_state c) username)))
       (\<lambda>state. returnE (outcome (aps_remaining_lock_secs state)))"

text \<open>From the identifier to the canonical username, and the lock before anything is checked.\<close>

definition with_unlocked :: "login_clock \<Rightarrow> string \<Rightarrow> (string \<Rightarrow> (totp_state, login_outcome) eff)
    \<Rightarrow> (totp_state, login_outcome) eff" where
  "with_unlocked c identifier body =
     bindE (on_world (service_resolve_username identifier)) (\<lambda>resolved.
     case resolved of
       None \<Rightarrow> returnE (LoginInvalidCredentials 0)
     | Some username \<Rightarrow>
         bindE (on_world (on_db (auth_get_state (lc_now c) username))) (\<lambda>state.
         if aps_is_locked state then returnE (LoginLocked (aps_remaining_lock_secs state))
         else body username))"

definition open_session :: "login_env \<Rightarrow> string \<Rightarrow> bytes \<Rightarrow> bytes \<Rightarrow> (totp_state, login_outcome) eff" where
  "open_session E username password key =
     bindE (on_world (upgrade_login_key E username password key)) (\<lambda>master_key.
     bindE (on_world (get_user_profile_by_username username)) (\<lambda>profile.
     bindE (on_world (on_db (auth_reset_failed_attempts username))) (\<lambda>_.
     returnE (LoginSuccess \<lparr>as_user_id = usr_id profile, as_username = username,
        as_identity_label = identity_label profile, as_master_key = master_key\<rparr>))))"

definition open_if_valid :: "login_env \<Rightarrow> login_clock \<Rightarrow> string \<Rightarrow> bytes \<Rightarrow> (totp_state, login_outcome) eff" where
  "open_if_valid E c username password =
     bindE (on_world (derive_key_if_valid (le_crypto E) (le_kdf E) username password)) (\<lambda>key_opt.
     case key_opt of
       None \<Rightarrow> failed_login c username LoginInvalidCredentials
     | Some key \<Rightarrow> open_session E username password key)"

definition password_step :: "login_env \<Rightarrow> login_clock \<Rightarrow> string \<Rightarrow> bytes \<Rightarrow> (totp_state, login_outcome) eff" where
  "password_step E c identifier password =
     with_unlocked c identifier (\<lambda>username.
     bindE (on_world (verify_password (le_crypto E) (le_kdf E) username password)) (\<lambda>password_valid.
     if \<not> password_valid then failed_login c username LoginInvalidCredentials
     else
       bindE (is_totp_enabled_for_username username) (\<lambda>has_totp.
       if has_totp then returnE LoginRequiresTotp
       else open_if_valid E c username password)))"

definition is_valid_totp :: "string \<Rightarrow> bool" where
  "is_valid_totp totp \<longleftrightarrow> length totp = 6 \<and> list_all is_ascii_digit totp"

definition totp_step :: "login_env \<Rightarrow> login_clock \<Rightarrow> string \<Rightarrow> bytes \<Rightarrow> string \<Rightarrow> (totp_state, login_outcome) eff" where
  "totp_step E c identifier password totp =
     with_unlocked c identifier (\<lambda>username.
     if \<not> is_valid_totp totp then failed_login c username LoginInvalidTotp
     else
       bindE (verify_login_totp (le_totp E) (le_crypto E) (le_kdf E) (le_issuer E) (lc_checked c) (lc_recorded c)
                username password totp) (\<lambda>totp_ok.
       if \<not> totp_ok then failed_login c username LoginInvalidTotp
       else open_if_valid E c username password))"

section \<open>The submit button\<close>

record login_form =
  lf_on_totp_page :: bool
  lf_lock_active :: bool
  lf_username :: string
  lf_password :: string
  lf_totp :: string

datatype submission = NotSent | UsernameRequired | PasswordRequired | Answered "login_outcome result"

definition handle_submit :: "login_env \<Rightarrow> login_clock \<Rightarrow> login_form \<Rightarrow> totp_state \<Rightarrow> submission \<times> totp_state" where
  "handle_submit E c f s =
     (if lf_lock_active f then (NotSent, s)
      else if trim (lf_username f) = [] then (UsernameRequired, s)
      else if lf_password f = [] then (PasswordRequired, s)
      else case password_step E c (trim (lf_username f)) (as_bytes (lf_password f)) s of
        (r, s') \<Rightarrow> (Answered r, s'))"

definition handle_totp_submit :: "login_env \<Rightarrow> login_clock \<Rightarrow> login_form \<Rightarrow> totp_state \<Rightarrow> submission \<times> totp_state" where
  "handle_totp_submit E c f s =
     (case totp_step E c (trim (lf_username f)) (as_bytes (lf_password f)) (trim (lf_totp f)) s of
        (r, s') \<Rightarrow> (Answered r, s'))"

definition login_submit :: "login_env \<Rightarrow> login_clock \<Rightarrow> login_form \<Rightarrow> totp_state \<Rightarrow> submission \<times> totp_state" where
  "login_submit E c f s = (if lf_on_totp_page f then handle_totp_submit E c f s else handle_submit E c f s)"

section \<open>What an attempt reads\<close>

definition login_name :: "string \<Rightarrow> db \<Rightarrow> string option" where
  "login_name i d = (if trim i = [] then None
     else case sort_key (\<lambda>m. m) (login_matches (trim i) (users d)) of [] \<Rightarrow> None | m # _ \<Rightarrow> Some (snd m))"

lemma resolve_run: "service_resolve_username i w = (Inr (login_name i (w_db w)), w)"
  by (simp add: service_resolve_username_def resolve_username_for_login_identifier_def login_name_def Let_def eff_simps)

text \<open>Everything but the table of failed attempts, which every attempt writes.\<close>

definition besides_policy :: "totp_state \<Rightarrow> totp_state" where
  "besides_policy s = s\<lparr>ts_world := (ts_world s)\<lparr>w_db := (w_db (ts_world s))\<lparr>auth_policy := []\<rparr>\<rparr>\<rparr>"

lemma besides_policyD:
  assumes "besides_policy s' = besides_policy s"
  shows "w_auth (ts_world s') = w_auth (ts_world s)" "users (w_db (ts_world s')) = users (w_db (ts_world s))"
    "replay_guard s' = replay_guard s" "w_rng (ts_world s') = w_rng (ts_world s)"
    "vaults (w_db (ts_world s')) = vaults (w_db (ts_world s))"
    "vault_key_shares (w_db (ts_world s')) = vault_key_shares (w_db (ts_world s))"
proof -
  show "w_auth (ts_world s') = w_auth (ts_world s)"
    using arg_cong [OF assms, of "\<lambda>s. w_auth (ts_world s)"] by (simp add: besides_policy_def)
  show "users (w_db (ts_world s')) = users (w_db (ts_world s))"
    using arg_cong [OF assms, of "\<lambda>s. users (w_db (ts_world s))"] by (simp add: besides_policy_def)
  show "replay_guard s' = replay_guard s"
    using arg_cong [OF assms, of replay_guard] by (simp add: besides_policy_def)
  show "w_rng (ts_world s') = w_rng (ts_world s)"
    using arg_cong [OF assms, of "\<lambda>s. w_rng (ts_world s)"] by (simp add: besides_policy_def)
  show "vaults (w_db (ts_world s')) = vaults (w_db (ts_world s))"
    using arg_cong [OF assms, of "\<lambda>s. vaults (w_db (ts_world s))"] by (simp add: besides_policy_def)
  show "vault_key_shares (w_db (ts_world s')) = vault_key_shares (w_db (ts_world s))"
    using arg_cong [OF assms, of "\<lambda>s. vault_key_shares (w_db (ts_world s))"] by (simp add: besides_policy_def)
qed


abbreviation policy_row :: "string \<Rightarrow> totp_state \<Rightarrow> auth_row" where
  "policy_row u s \<equiv> auth_row_of u (w_db (ts_world s))"

lemma policy_ops_only:
  "\<exists>ps. snd (ensure_row_exists u d) = d\<lparr>auth_policy := ps\<rparr>"
  "\<exists>ps. snd (auth_get_state t u d) = d\<lparr>auth_policy := ps\<rparr>"
  "\<exists>ps. snd (auth_record_failed_attempt t t' u d) = d\<lparr>auth_policy := ps\<rparr>"
  "\<exists>ps. snd (auth_reset_failed_attempts u d) = d\<lparr>auth_policy := ps\<rparr>"
proof -
  have 1: "\<exists>ps. snd (ensure_row_exists u d) = d\<lparr>auth_policy := ps\<rparr>" for d
    by (auto simp: ensure_row_exists_def eff_simps intro: exI [of _ "auth_policy d"])
  then show "\<exists>ps. snd (ensure_row_exists u d) = d\<lparr>auth_policy := ps\<rparr>" .
  have 2: "\<exists>ps. snd (auth_get_state t u d) = d\<lparr>auth_policy := ps\<rparr>" for t d
    using 1 [of d]
    by (auto simp: auth_get_state_def fetch_auth_row_def bindE_run getsE_run liftE_run returnE_run split: sum.split
        intro: exI [of _ "auth_policy d"])
  then show "\<exists>ps. snd (auth_get_state t u d) = d\<lparr>auth_policy := ps\<rparr>" .
  show "\<exists>ps. snd (auth_record_failed_attempt t t' u d) = d\<lparr>auth_policy := ps\<rparr>"
  proof -
    obtain d1 where d1: "ensure_row_exists u d = (Inr (), d1)" by (rule ensure_row_exists_run)
    then obtain ps where ps: "d1 = d\<lparr>auth_policy := ps\<rparr>" using 1 [of d] by auto
    show ?thesis
    proof (cases "trim u = []")
      case True
      then show ?thesis by (simp add: auth_blank_run(1) exI [of _ "auth_policy d"])
    next
      case False
      then obtain qs where "snd (auth_record_failed_attempt t t' u d) = snd (auth_get_state t' u (d\<lparr>auth_policy := qs\<rparr>))"
        using d1 ps by (simp add: auth_record_failed_attempt_def update_auth_row_def bindE_run modifyE_run)
      then show ?thesis using 2 [of t' "d\<lparr>auth_policy := qs\<rparr>"] by auto
    qed
  qed
  show "\<exists>ps. snd (auth_reset_failed_attempts u d) = d\<lparr>auth_policy := ps\<rparr>"
    using 1 [of d]
    by (auto simp: auth_reset_failed_attempts_def fetch_auth_row_def update_auth_row_def bindE_run modifyE_run getsE_run
        liftE_run returnE_run split: sum.split intro: exI [of _ "auth_policy d"])
qed

lemma frames_policy [frame_intros]:
  "frames besides_policy (on_world (on_db (auth_get_state t u)))"
  "frames besides_policy (on_world (on_db (auth_record_failed_attempt t t' u)))"
  "frames besides_policy (on_world (on_db (auth_reset_failed_attempts u)))"
proof -
  have lift: "frames besides_policy (on_world (on_db m))" if "\<And>d. \<exists>ps. snd (m d) = d\<lparr>auth_policy := ps\<rparr>" for m :: "(db, 'b) eff"
    unfolding frames_def
  proof
    fix s :: totp_state
    have "\<exists>ps. snd (m (w_db (ts_world s))) = (w_db (ts_world s))\<lparr>auth_policy := ps\<rparr>" by (rule that)
    then obtain ps where "snd (m (w_db (ts_world s))) = (w_db (ts_world s))\<lparr>auth_policy := ps\<rparr>" by blast
    then show "besides_policy (snd (on_world (on_db m) s)) = besides_policy s"
      by (simp add: on_world_run on_db_run besides_policy_def)
  qed
  show "frames besides_policy (on_world (on_db (auth_get_state t u)))"
    "frames besides_policy (on_world (on_db (auth_record_failed_attempt t t' u)))"
    "frames besides_policy (on_world (on_db (auth_reset_failed_attempts u)))"
    by (intro lift policy_ops_only)+
qed


text \<open>A lock that is in force answers before anything is looked at.\<close>

definition unlocked_state :: "login_clock \<Rightarrow> string \<Rightarrow> totp_state \<Rightarrow> totp_state" where
  "unlocked_state c u s = snd (on_world (on_db (auth_get_state (lc_now c) u)) s)"

lemma unlocked_state_same:
  "besides_policy (unlocked_state c u s) = besides_policy s" "policy_row u' (unlocked_state c u s) = policy_row u' s"
proof -
  show "besides_policy (unlocked_state c u s) = besides_policy s"
    using frames_policy(1) [of "lc_now c" u] by (simp add: frames_def unlocked_state_def)
  show "policy_row u' (unlocked_state c u s) = policy_row u' s"
    by (cases "trim u = []") (simp_all add: unlocked_state_def on_world_run on_db_run auth_blank_run auth_get_state_run(2))
qed

lemma with_unlocked_run:
  "with_unlocked c i body s = (case login_name i (w_db (ts_world s)) of
      None \<Rightarrow> (Inr (LoginInvalidCredentials 0), s)
    | Some u \<Rightarrow> if auth_locked u (lc_now c) (w_db (ts_world s))
        then (Inr (LoginLocked (remaining_lock_secs (ap_failed_attempts (policy_row u s))
          (ap_last_attempt_at (policy_row u s)) (unix_secs (lc_now c)))), unlocked_state c u s)
        else body u (unlocked_state c u s))"
proof (cases "login_name i (w_db (ts_world s))")
  case (Some u)
  let ?d = "w_db (ts_world s)"
  obtain st where st: "fst (auth_get_state (lc_now c) u ?d) = Inr st" "auth_locked u (lc_now c) ?d = aps_is_locked st"
    using auth_get_state_is_Inr by blast
  have "aps_remaining_lock_secs st = remaining_lock_secs (ap_failed_attempts (policy_row u s))
      (ap_last_attempt_at (policy_row u s)) (unix_secs (lc_now c))" if "aps_is_locked st"
  proof (cases "trim u = []")
    case True
    then show ?thesis using st that by (simp add: auth_locked_iff)
  next
    case False
    then show ?thesis using st(1) by (auto simp: auth_get_state_run(1))
  qed
  then show ?thesis
    using Some st by (simp add: with_unlocked_def bindE_run resolve_run on_world_run on_db_run unlocked_state_def returnE_run)
qed (simp add: with_unlocked_def bindE_run on_world_run resolve_run returnE_run)

lemma failed_login_run:
  assumes "trim u \<noteq> []"
  shows "\<exists>n. fst (failed_login c u outcome s) = Inr (outcome n)"
    and "policy_row u (snd (failed_login c u outcome s)) = (policy_row u s)\<lparr>
      ap_failed_attempts := ap_failed_attempts (policy_row u s) + 1, ap_last_attempt_at := Some (unix_secs (lc_failed c))\<rparr>"
proof -
  obtain st where "fst (auth_record_failed_attempt (lc_failed c) (lc_failed_state c) u (w_db (ts_world s))) = Inr st"
    using auth_record_is_Inr by blast
  then show "\<exists>n. fst (failed_login c u outcome s) = Inr (outcome n)"
    "policy_row u (snd (failed_login c u outcome s)) = (policy_row u s)\<lparr>
      ap_failed_attempts := ap_failed_attempts (policy_row u s) + 1, ap_last_attempt_at := Some (unix_secs (lc_failed c))\<rparr>"
    using assms by (auto simp: failed_login_def bindE_run on_world_run on_db_run returnE_run auth_record_run)
qed

section \<open>Five failures lock the login\<close>


lemma stored_or_denied_run: "stored_or_denied u w =
    (case lookup_envelope u w of None \<Rightarrow> Inl (Authorization InvalidCredentials)
      | Some bs \<Rightarrow> decode_password_envelope bs, w)"
proof (cases "lookup_envelope u w")
  case (Some bs)
  then show ?thesis
    by (cases "decode_password_envelope bs") (simp_all add: stored_or_denied_def stored_envelope_run bindE_run liftE_run ok_or_def)
qed (simp add: stored_or_denied_def stored_envelope_run bindE_run liftE_run ok_or_def)

lemma verify_password_run: "verify_password L cfg u pw w =
    (if shutdown_in_progress (w_auth w) then Inl ShutdownInProgress
     else bindR (case lookup_envelope u w of None \<Rightarrow> Inl (Authorization InvalidCredentials)
        | Some bs \<Rightarrow> decode_password_envelope bs) (\<lambda>e.
      bindR (password_to_secret_string pw) (\<lambda>p. bindR (unlock_password_envelope L cfg e p) (\<lambda>k. Inr (k \<noteq> None)))), w)"
proof (cases "shutdown_in_progress (w_auth w)")
  case False
  have "bindE (stored_or_denied u) (\<lambda>e. bindE (liftE (password_to_secret_string pw)) (\<lambda>p.
      bindE (liftE (unlock_password_envelope L cfg e p)) (\<lambda>k. returnE (k \<noteq> None)))) w =
    (bindR (fst (stored_or_denied u w)) (\<lambda>e. bindR (password_to_secret_string pw) (\<lambda>p.
      bindR (unlock_password_envelope L cfg e p) (\<lambda>k. Inr (k \<noteq> None)))), w)"
    by (auto simp: bindE_run stored_or_denied_run liftE_run returnE_run bindR_def split: sum.split)
  then show ?thesis
    using False by (simp add: verify_password_def stored_or_denied_run ensure_not_shutting_down_def ensure_def eff_simps)
qed (simp add: verify_password_def ensure_not_shutting_down_def ensure_def eff_simps)










section \<open>What a success proves\<close>

text \<open>The migration of old credentials at login: on a success the password opens the new key, otherwise
  the memory of the service is untouched.\<close>

lemma upgrade_opens:
  assumes "crypto_lib_ok L" "db_ok (w_db w)" "trim u \<noteq> []" "opens L cfg w u pw key"
    and run: "upgrade_legacy_credentials show_id L cfg u pw w = (r, w')"
  shows "case r of Inr (Some k) \<Rightarrow> opens L cfg w' u pw k | _ \<Rightarrow> w_auth w' = w_auth w"
proof -
  obtain bs e p where b: "\<not> shutdown_in_progress (w_auth w)" "lookup_envelope u w = Some bs"
    "decode_password_envelope bs = Inr e" "password_to_secret_string pw = Inr p"
    using assms(4) by (auto simp: opens_iff)
  have got: "get_password_envelope u w = (Inr bs, w)" using b by (simp add: get_password_envelope_Inr)
  have key: "derive_key_if_valid L cfg u pw w = (Inr (Some key), w)"
    using assms(4) readsD [OF reads_auth(1), of L cfg u pw w] by (simp add: opens_def prod_eq_iff)
  have pt: "password_text pw = Inr p" using b(4) by (simp add: password_text_def password_to_secret_string_def)
  show ?thesis
  proof (cases "\<exists>user. \<not> is_account_key e \<and> fst (is_single_account w) = Inr True
      \<and> fst (on_db (user_get_by_username u) w) = Inr (Some user)")
    case True
    then obtain user where user: "\<not> is_account_key e" "is_single_account w = (Inr True, w)"
      "on_db (user_get_by_username u) w = (Inr (Some user), w)"
      using readsD [OF reads_auth(5), of w] readsD [OF reads_on_db [OF reads_user_get(2)], of u w]
      by (auto simp: prod_eq_iff)
    obtain out w1 where m: "migrate_to_account_key show_id L cfg (usr_id user) key p None w = (out, w1)"
      by (cases "migrate_to_account_key show_id L cfg (usr_id user) key p None w")
    have post: "rekey_post L cfg (usr_id user) key p w (out, w1)"
      using migrate_post [OF assms(1,2), of cfg "usr_id user" key p show_id None] m by simp
    have step: "bindE (migrate_to_account_key show_id L cfg (usr_id user) key p None) (\<lambda>outcome.
        bindE (upsert_password_envelope u (ro_password_envelope outcome)) (\<lambda>_.
        returnE (Some (ro_session_key outcome)))) w = (r, w')"
      using run user got key pt b(3)
      by (simp add: upgrade_legacy_credentials_def bindE_run liftE_run returnE_run found_or_def ok_or_def)
    have run': "(r, w') = (case out of Inl e \<Rightarrow> (Inl e, w1) | Inr outcome \<Rightarrow>
        bindE (upsert_password_envelope u (ro_password_envelope outcome)) (\<lambda>_.
        returnE (Some (ro_session_key outcome))) w1)"
      using step unfolding bindE_run [of "migrate_to_account_key show_id L cfg (usr_id user) key p None"] m by (cases out) simp_all
    show ?thesis
    proof (cases out)
      case (Inl err)
      then show ?thesis using run' post by (simp add: bindE_run rekey_post_def)
    next
      case (Inr o')
      obtain e' where e': "ro_password_envelope o' = encode_password_envelope e'" "envelope_wf e'"
        "unlock_password_envelope L cfg e' p = Inr (Some (ro_session_key o'))" and up: "w_auth w1 = w_auth w"
        using post Inr by (auto simp: rekey_post_def new_credentials_def)
      have "upsert_password_envelope u (encode_password_envelope e') w1 =
          (Inr (), snd (put_envelope u (encode_password_envelope e') w1))"
        by (rule upsert_encoded [OF e'(2)]) (use b(1) up assms(3) in simp_all)
      then have "r = Inr (Some (ro_session_key o'))" "w' = snd (put_envelope u (encode_password_envelope e') w1)"
        using run' Inr e'(1) by (simp_all add: bindE_run returnE_run)
      then show ?thesis using e'(3) b(1,4) up by (auto simp: opens_iff decode_encode [OF e'(2)])
    qed
  next
    case False
    obtain single where single: "is_single_account w = (single, w)"
      using readsD [OF reads_auth(5), of w] by (metis prod.collapse)
    obtain found where found: "on_db (user_get_by_username u) w = (found, w)"
      using readsD [OF reads_on_db [OF reads_user_get(2)], of u w] by (metis prod.collapse)
    have "(\<exists>x. r = Inl x) \<or> r = Inr None" "w' = w"
      using run False got single found b(3)
      by (auto simp: upgrade_legacy_credentials_def bindE_run liftE_run returnE_run found_or_def ok_or_def
          split: sum.splits if_splits option.splits)
    then show ?thesis by auto
  qed
qed


lemma upgrade_login_opens:
  assumes "crypto_lib_ok (le_crypto E)" "db_ok (w_db w)" "trim u \<noteq> []" "opens (le_crypto E) (le_kdf E) w u pw key"
    and "upgrade_login_key E u pw key w = (Inr k, w')"
  shows "opens (le_crypto E) (le_kdf E) w' u pw k"
proof -
  obtain r where up: "upgrade_legacy_credentials (le_show_id E) (le_crypto E) (le_kdf E) u pw w = (r, w')"
    and k: "(case r of Inr (Some account_key) \<Rightarrow> account_key | _ \<Rightarrow> key) = k"
    using assms(5) by (auto simp: upgrade_login_key_def bindE_run attemptE_run returnE_run prod_eq_iff
        split: sum.splits option.splits)
  have post: "case r of Inr (Some k) \<Rightarrow> opens (le_crypto E) (le_kdf E) w' u pw k | _ \<Rightarrow> w_auth w' = w_auth w"
    by (rule upgrade_opens [OF assms(1-4) up])
  have "opens (le_crypto E) (le_kdf E) w' u pw key" if "w_auth w' = w_auth w"
    using assms(4) lookup_cong [OF that] that by (simp add: opens_iff)
  then show ?thesis using post k by (auto split: sum.splits option.splits)
qed

text \<open>The second factor touches neither the credentials nor the constraints.\<close>

abbreviation ts_ok :: "totp_state \<Rightarrow> bool" where "ts_ok s \<equiv> world_ok (ts_world s)"

abbreviation ts_auth :: "totp_state \<Rightarrow> auth_mem" where "ts_auth s \<equiv> w_auth (ts_world s)"

lemma reads_keeps: "reads m \<Longrightarrow> keeps I m"
  by (simp add: frames_def keeps_def)

lemma keeps_on_world [inv_intros]: "keeps world_ok m \<Longrightarrow> keeps ts_ok (on_world m)"
  by (simp add: keeps_def on_world_run)

lemma keeps_totp [inv_intros]:
  "keeps ts_ok (reject_replay_and_record u code t)" "keeps ts_ok (load_totp_secret_by_username u)"
  "keeps ts_ok (load_totp_secret_by_user_id uid)" "keeps ts_ok (set_totp_secret p secret)"
proof -
  show "keeps ts_ok (reject_replay_and_record u code t)"
    by (auto simp: keeps_def reject_replay_and_record_def Let_def)
  show "keeps ts_ok (load_totp_secret_by_username u)" "keeps ts_ok (load_totp_secret_by_user_id uid)"
    unfolding load_totp_secret_by_username_def load_totp_secret_by_user_id_def by (intro inv_intros)+
  have "db_ok (d\<lparr>users := update_where p (\<lambda>u. u\<lparr>ur_totp_secret := secret\<rparr>) (users d)\<rparr>)" if "db_ok d" for d
  proof (rule db_ok_users [OF that])
    let ?us = "update_where p (\<lambda>u. u\<lparr>ur_totp_secret := secret\<rparr>) (users d)"
    have same: "map ur_id ?us = map ur_id (users d)" "map ur_username ?us = map ur_username (users d)"
      "map ur_email ?us = map ur_email (users d)" "map ur_role ?us = map ur_role (users d)"
      by (intro map_update_where_same; simp)+
    have "list_all user_row_ok ?us \<longleftrightarrow> list_all (\<lambda>r. r = ''user'' \<or> r = ''admin'') (map ur_role ?us)"
      by (simp add: list_all_iff user_row_ok_def)
    also have "\<dots> \<longleftrightarrow> list_all user_row_ok (users d)" unfolding same by (simp add: list_all_iff user_row_ok_def)
    finally show "users_ok (d\<lparr>users := ?us\<rparr>)" using that same by (simp add: db_ok_def users_ok_def)
    show "user_ids d \<subseteq> ur_id ` set ?us" using arg_cong [OF same(1), of set] by (simp add: user_ids_def)
  qed
  then show "keeps ts_ok (set_totp_secret p secret)"
    unfolding set_totp_secret_def by (intro inv_intros) (simp_all add: keeps_def modifyE_run)
qed

lemma keeps_verify_totp [inv_intros]: "keeps ts_ok (verify_login_totp T L cfg issuer t t' u pw code)"
  unfolding verify_login_totp_def legacy_login_def by (intro inv_intros reads_keeps reads_auth)

lemma frames_auth_lift:
  "frames w_auth m \<Longrightarrow> frames ts_auth (on_world m)" "frames stored_state m' \<Longrightarrow> frames w_auth m'" "reads m'' \<Longrightarrow> frames V m''"
  by (auto simp: frames_def on_world_run stored_state_def)

lemma frames_auth_totp [frame_intros]:
  "frames ts_auth (reject_replay_and_record u code t)" "frames ts_auth (load_totp_secret_by_username u)"
  "frames ts_auth (set_totp_secret p secret)"
  by (auto simp: frames_def reject_replay_and_record_def load_totp_secret_by_username_def set_totp_secret_def
      bindE_run getsE_run on_world_run on_db_run modifyE_run returnE_run Let_def)

lemma frames_auth_verify: "frames ts_auth (verify_login_totp T L cfg issuer t t' u pw code)"
  unfolding verify_login_totp_def legacy_login_def
  by (intro frame_intros frames_auth_lift(1) frames_auth_lift(2) frames_auth_lift(3) [OF reads_auth(1)])

lemma opens_cong: "w_auth w' = w_auth w \<Longrightarrow> opens L cfg w' u pw k = opens L cfg w u pw k"
  using lookup_cong [of w' w u] by (simp add: opens_iff)

text \<open>What both pages end with.\<close>

lemma open_if_valid_success:
  assumes "crypto_lib_ok (le_crypto E)" "ts_ok s" "trim u \<noteq> []"
    and run: "open_if_valid E c u pw s = (Inr (LoginSuccess ses), s')"
  shows "as_username ses = u" "\<exists>key. opens (le_crypto E) (le_kdf E) (ts_world s) u pw key"
    and "opens (le_crypto E) (le_kdf E) (ts_world s') u pw (as_master_key ses)"
    and "\<exists>row. user_by_username u (w_db (ts_world s')) = Some row \<and> ur_id row = as_user_id ses"
    and "ap_failed_attempts (policy_row u s') = 0" "replay_guard s' = replay_guard s"
proof -
  let ?w = "ts_world s"
  obtain r where r: "derive_key_if_valid (le_crypto E) (le_kdf E) u pw ?w = (r, ?w)"
    using readsD [OF reads_auth(1), of "le_crypto E" "le_kdf E" u pw ?w] by (metis prod.collapse)
  have "failed_login c u LoginInvalidCredentials s \<noteq> (Inr (LoginSuccess ses), s')"
    using failed_login_run(1) [OF assms(3), of c LoginInvalidCredentials s] by auto
  then obtain key where key: "derive_key_if_valid (le_crypto E) (le_kdf E) u pw ?w = (Inr (Some key), ?w)"
    and op: "open_session E u pw key s = (Inr (LoginSuccess ses), s')"
    using run r by (auto simp: open_if_valid_def bindE_run on_world_run split: sum.splits option.splits)
  have opens: "opens (le_crypto E) (le_kdf E) ?w u pw key" using key by (simp add: opens_def)
  then show "\<exists>key. opens (le_crypto E) (le_kdf E) ?w u pw key" ..
  obtain k w1 profile where up: "upgrade_login_key E u pw key ?w = (Inr k, w1)"
    and prof: "get_user_profile_by_username u w1 = (Inr profile, w1)"
    and s': "s' = s\<lparr>ts_world := w1\<lparr>w_db := snd (auth_reset_failed_attempts u (w_db w1))\<rparr>\<rparr>"
    and ses: "ses = \<lparr>as_user_id = usr_id profile, as_username = u, as_identity_label = identity_label profile, as_master_key = k\<rparr>"
  proof -
    have reads_profile: "reads (get_user_profile_by_username u)"
      unfolding get_user_profile_by_username_def by (intro frame_intros reads_on_db)
    obtain r1 w1 where 1: "upgrade_login_key E u pw key ?w = (r1, w1)" by (cases "upgrade_login_key E u pw key ?w")
    obtain r2 where 2: "get_user_profile_by_username u w1 = (r2, w1)"
      using readsD [OF reads_profile, of w1] by (metis prod.collapse)
    show thesis
      using op 1 2 that by (auto simp: open_session_def bindE_run on_world_run on_db_run returnE_run auth_reset_is_Inr split: sum.splits)
  qed
  show "as_username ses = u" "replay_guard s' = replay_guard s" using ses s' by simp_all
  have db: "db_ok (w_db ?w)" using assms(2) by (simp add: world_ok_def)
  have "opens (le_crypto E) (le_kdf E) w1 u pw k" by (rule upgrade_login_opens [OF assms(1) db assms(3) opens up])
  then show "opens (le_crypto E) (le_kdf E) (ts_world s') u pw (as_master_key ses)"
    using opens_cong [of "ts_world s'" w1] s' ses by simp
  show "ap_failed_attempts (policy_row u s') = 0" using s' auth_reset_run [OF assms(3)] by simp
  obtain row where "user_by_username u (w_db w1) = Some row" "ur_id row = usr_id profile"
    using prof by (auto simp: get_user_profile_by_username_def user_get_by_username_def found_or_def eff_iffs on_db_iff
        user_by_username_def row_to_user_def bindR_Inr_iff ok_or_def split: option.splits)
  moreover obtain ps where "snd (auth_reset_failed_attempts u (w_db w1)) = (w_db w1)\<lparr>auth_policy := ps\<rparr>"
    using policy_ops_only(4) by blast
  ultimately show "\<exists>row. user_by_username u (w_db (ts_world s')) = Some row \<and> ur_id row = as_user_id ses"
    using s' ses by (simp add: user_by_username_def)
qed


lemma totp_enabled_cong:
  "users (w_db (ts_world s')) = users (w_db (ts_world s)) \<Longrightarrow> totp_enabled u s' = totp_enabled u s"
  by (simp add: totp_enabled_def user_by_username_def)

text \<open>The code of a second factor that was accepted: checked, recorded, and not in use before.\<close>

definition code_accepted :: "login_env \<Rightarrow> login_clock \<Rightarrow> string \<Rightarrow> bytes \<Rightarrow> string \<Rightarrow> totp_state \<Rightarrow> totp_state \<Rightarrow> bool" where
  "code_accepted E c u pw code s s' \<longleftrightarrow> is_valid_totp code
     \<and> fst (verify_login_totp (le_totp E) (le_crypto E) (le_kdf E) (le_issuer E) (lc_checked c) (lc_recorded c) u pw code s) = Inr True
     \<and> (\<forall>e. guarded (replay_key u code) e s \<longrightarrow> e \<le> lc_recorded c)
     \<and> guarded (replay_key u code) (lc_recorded c + 90) s'"

lemma with_unlocked_success:
  assumes "with_unlocked c i body s = (Inr (LoginSuccess ses), s')"
  obtains u where "login_name i (w_db (ts_world s)) = Some u" "\<not> auth_locked u (lc_now c) (w_db (ts_world s))"
    "body u (unlocked_state c u s) = (Inr (LoginSuccess ses), s')"
  using assms by (auto simp: with_unlocked_run split: option.splits if_splits)

text \<open>What a success proves of the account it names, from the state it was checked in.\<close>

definition login_proved :: "login_env \<Rightarrow> login_clock \<Rightarrow> bytes \<Rightarrow> string option \<Rightarrow> session \<Rightarrow> totp_state \<Rightarrow> totp_state \<Rightarrow> bool" where
  "login_proved E c pw code ses s s' \<longleftrightarrow>
     (\<exists>key. opens (le_crypto E) (le_kdf E) (ts_world s) (as_username ses) pw key)
   \<and> opens (le_crypto E) (le_kdf E) (ts_world s') (as_username ses) pw (as_master_key ses)
   \<and> (\<exists>row. user_by_username (as_username ses) (w_db (ts_world s')) = Some row \<and> ur_id row = as_user_id ses)
   \<and> ap_failed_attempts (policy_row (as_username ses) s') = 0
   \<and> (totp_enabled (as_username ses) s \<longrightarrow>
        (\<exists>totp. code = Some totp \<and> code_accepted E c (as_username ses) pw totp s s'))"

lemma password_step_success:
  assumes "crypto_lib_ok (le_crypto E)" "ts_ok s" and name: "trim u \<noteq> []"
    and run: "password_step E c i pw s = (Inr (LoginSuccess ses), s')" "login_name i (w_db (ts_world s)) = Some u"
  shows "as_username ses = u \<and> \<not> auth_locked u (lc_now c) (w_db (ts_world s))
    \<and> login_proved E c pw None ses (unlocked_state c u s) s'"
proof -
  let ?s = "unlocked_state c u s"
  obtain free: "\<not> auth_locked u (lc_now c) (w_db (ts_world s))"
    and body: "bindE (on_world (verify_password (le_crypto E) (le_kdf E) u pw)) (\<lambda>password_valid.
       if \<not> password_valid then failed_login c u LoginInvalidCredentials
       else bindE (is_totp_enabled_for_username u) (\<lambda>has_totp.
         if has_totp then returnE LoginRequiresTotp else open_if_valid E c u pw)) ?s = (Inr (LoginSuccess ses), s')"
    using with_unlocked_success [OF run(1) [unfolded password_step_def]] run(2) by auto
  have refused: "failed_login c u LoginInvalidCredentials ?s \<noteq> (Inr (LoginSuccess ses), s')"
    using failed_login_run(1) [OF name, of c LoginInvalidCredentials ?s] by auto
  have same: "(?s)\<lparr>ts_world := snd (verify_password (le_crypto E) (le_kdf E) u pw (ts_world ?s))\<rparr> = ?s"
    by (simp add: verify_password_run)
  have off: "\<not> totp_enabled u ?s" and op: "open_if_valid E c u pw ?s = (Inr (LoginSuccess ses), s')"
    using body refused same by (auto simp: bindE_run on_world_run is_totp_enabled_for_username_def
        load_totp_secret_by_username_def getsE_run returnE_run totp_enabled_def split: sum.splits if_splits option.splits)
  have ok: "ts_ok ?s" using assms(2) keepsD [OF keeps_on_world [OF keeps_on_db [OF keeps_auth_policy(1)]]]
    by (simp add: unlocked_state_def)
  show ?thesis
    using open_if_valid_success [OF assms(1) ok name op] off free by (auto simp: login_proved_def)
qed

lemma totp_step_success:
  assumes "crypto_lib_ok (le_crypto E)" "ts_ok s" and name: "trim u \<noteq> []"
    and run: "totp_step E c i pw code s = (Inr (LoginSuccess ses), s')" "login_name i (w_db (ts_world s)) = Some u"
  shows "as_username ses = u \<and> \<not> auth_locked u (lc_now c) (w_db (ts_world s))
    \<and> login_proved E c pw (Some code) ses (unlocked_state c u s) s'"
proof -
  let ?s = "unlocked_state c u s"
  let ?v = "verify_login_totp (le_totp E) (le_crypto E) (le_kdf E) (le_issuer E) (lc_checked c) (lc_recorded c) u pw code"
  have refused: "failed_login c u LoginInvalidTotp t \<noteq> (Inr (LoginSuccess ses), s')" for t
    using failed_login_run(1) [OF name, of c LoginInvalidTotp t] by auto
  let ?body = "bindE ?v (\<lambda>totp_ok. if \<not> totp_ok then failed_login c u LoginInvalidTotp else open_if_valid E c u pw)"
  have free: "\<not> auth_locked u (lc_now c) (w_db (ts_world s))"
    and checked: "(if \<not> is_valid_totp code then failed_login c u LoginInvalidTotp else ?body) ?s = (Inr (LoginSuccess ses), s')"
    using run by (simp_all add: totp_step_def with_unlocked_run split: if_split_asm)
  have valid: "is_valid_totp code" using checked refused [of ?s] by (rule_tac ccontr) simp
  then have body: "?body ?s = (Inr (LoginSuccess ses), s')" using checked by simp
  obtain r2 s2 where v0: "?v ?s = (r2, s2)" by (cases "?v ?s")
  then have "r2 = Inr True" and op: "open_if_valid E c u pw s2 = (Inr (LoginSuccess ses), s')"
    using body refused [of s2] by (auto simp: bindE_run split: sum.splits if_splits)
  with v0 have v: "?v ?s = (Inr True, s2)" by simp
  have ok: "ts_ok ?s" using assms(2) keepsD [OF keeps_on_world [OF keeps_on_db [OF keeps_auth_policy(1)]]]
    by (simp add: unlocked_state_def)
  have ok2: "ts_ok s2" and auth2: "ts_auth s2 = ts_auth ?s"
    using keepsD [OF keeps_verify_totp ok, of "le_totp E" "le_crypto E" "le_kdf E" "le_issuer E" "lc_checked c"
        "lc_recorded c" u pw code] framesD [OF frames_auth_verify v] v
    by simp_all
  note post = open_if_valid_success [OF assms(1) ok2 name op]
  have "\<exists>key. opens (le_crypto E) (le_kdf E) (ts_world ?s) u pw key" using post(2) opens_cong [OF auth2] by blast
  moreover have "code_accepted E c u pw code ?s s'" if "totp_enabled u ?s"
    using verify_guard_once [OF v that] valid v post(6) by (auto simp: code_accepted_def guarded_def)
  ultimately show ?thesis using post free by (auto simp: login_proved_def)
qed


lemma login_name_user:
  assumes "login_name i d = Some u"
  shows "\<exists>row \<in> set (users d). ur_username row = u" "\<exists>row. user_by_username u d = Some row"
proof -
  have "\<exists>n. (n, u) \<in> set (login_matches (trim i) (users d))"
  proof -
    obtain m ms where "sort_key (\<lambda>m. m) (login_matches (trim i) (users d)) = m # ms" "u = snd m"
      using assms by (auto simp: login_name_def split: if_splits list.splits)
    then have "m \<in> set (login_matches (trim i) (users d))" by (metis list.set_intros(1) set_sort)
    then show ?thesis using \<open>u = snd m\<close> by (metis prod.collapse)
  qed
  then show row: "\<exists>row \<in> set (users d). ur_username row = u" by (auto simp: login_matches_def)
  then show "\<exists>row. user_by_username u d = Some row"
    by (auto simp: user_by_username_def find_row_None_iff not_None_eq [symmetric])
qed

text \<open>
  C35: A login that succeeds proves who logged in, whichever page was submitted: the identifier names the
  account of the session and its lock was not in force; the password opened the account's key before, and
  opens the session's key afterwards (the account key after a migration of old credentials); an account with
  a second factor was entered on the second page only, with a code of six digits that its secret accepted, that
  was not in the replay guard and is in it afterwards; the session carries the identifier of the row of that
  username, and the count of failures is back to zero.
\<close>

theorem login_success_proves_identity:
  assumes "crypto_lib_ok (le_crypto E)" and "ts_ok s"
    and "\<forall>row \<in> set (users (w_db (ts_world s))). trim (ur_username row) \<noteq> []"
    and "login_submit E c f s = (Answered (Inr (LoginSuccess ses)), s')"
  shows "login_name (trim (lf_username f)) (w_db (ts_world s)) = Some (as_username ses)
    \<and> \<not> auth_locked (as_username ses) (lc_now c) (w_db (ts_world s))
    \<and> (\<exists>s1. besides_policy s1 = besides_policy s
        \<and> login_proved E c (as_bytes (lf_password f)) (if lf_on_totp_page f then Some (trim (lf_totp f)) else None) ses s1 s')"
proof -
  let ?i = "trim (lf_username f)" and ?pw = "as_bytes (lf_password f)"
  have run: "if lf_on_totp_page f then totp_step E c ?i ?pw (trim (lf_totp f)) s = (Inr (LoginSuccess ses), s')
      else password_step E c ?i ?pw s = (Inr (LoginSuccess ses), s')"
    using assms(4) by (auto simp: login_submit_def handle_submit_def handle_totp_submit_def split: if_splits prod.splits)
  have "login_name ?i (w_db (ts_world s)) \<noteq> None"
  proof
    assume "login_name ?i (w_db (ts_world s)) = None"
    then show False
      using run by (cases "lf_on_totp_page f") (simp_all add: password_step_def totp_step_def with_unlocked_run)
  qed
  then obtain u where u: "login_name ?i (w_db (ts_world s)) = Some u" by blast
  then have "trim u \<noteq> []" using login_name_user(1) assms(3) by blast
  then have "as_username ses = u \<and> \<not> auth_locked u (lc_now c) (w_db (ts_world s))
      \<and> login_proved E c ?pw (if lf_on_totp_page f then Some (trim (lf_totp f)) else None) ses (unlocked_state c u s) s'"
    using run password_step_success [OF assms(1,2) _ _ u] totp_step_success [OF assms(1,2) _ _ u]
    by (cases "lf_on_totp_page f") simp_all
  then show ?thesis using u unlocked_state_same(1) by blast
qed


section \<open>Examples\<close>

text \<open>The right password of an unlocked account without a second factor, on an envelope of the current version, logs in.\<close>

lemma right_password_logs_in:
  assumes "ts_ok s" "login_name (trim (lf_username f)) (w_db (ts_world s)) = Some u" "trim u \<noteq> []"
    and "\<not> auth_locked u (lc_now c) (w_db (ts_world s))" "\<not> totp_enabled u s"
    and "opens (le_crypto E) (le_kdf E) (ts_world s) u (as_bytes (lf_password f)) key"
    and "lookup_envelope u (ts_world s) = Some bs" "decode_password_envelope bs = Inr (AccountKey salt wrapped)"
    and "\<not> lf_lock_active f" "lf_password f \<noteq> []" "\<not> lf_on_totp_page f"
  shows "\<exists>ses s'. login_submit E c f s = (Answered (Inr (LoginSuccess ses)), s') \<and> as_master_key ses = key"
proof -
  let ?s = "unlocked_state c u s" and ?pw = "as_bytes (lf_password f)"
  have same: "ts_auth ?s = ts_auth s" "users (w_db (ts_world ?s)) = users (w_db (ts_world s))"
    by (rule besides_policyD [OF unlocked_state_same(1)])+
  have opens: "opens (le_crypto E) (le_kdf E) (ts_world ?s) u ?pw key" using assms(6) opens_cong [OF same(1)] by blast
  then have key: "derive_key_if_valid (le_crypto E) (le_kdf E) u ?pw (ts_world ?s) = (Inr (Some key), ts_world ?s)"
    using readsD [OF reads_auth(1), of "le_crypto E" "le_kdf E" u ?pw "ts_world ?s"] by (simp add: opens_def prod_eq_iff)
  have valid: "verify_password (le_crypto E) (le_kdf E) u ?pw (ts_world ?s) = (Inr True, ts_world ?s)"
    using opens_verify [OF opens] by (simp add: verify_password_run)
  have off: "is_totp_enabled_for_username u ?s = (Inr False, ?s)"
    using assms(5) same(2)
    by (auto simp: user_by_username_def is_totp_enabled_for_username_def load_totp_secret_by_username_def bindE_run getsE_run returnE_run
        totp_enabled_def split: option.splits)
  have env: "lookup_envelope u (ts_world ?s) = Some bs" using assms(7) lookup_cong [OF same(1)] by simp
  have up: "\<not> shutdown_in_progress (w_auth (ts_world ?s))" using opens by (simp add: opens_iff)
  then have "upgrade_legacy_credentials (le_show_id E) (le_crypto E) (le_kdf E) u ?pw (ts_world ?s) = (Inr None, ts_world ?s)"
    using env assms(8)
    by (simp add: upgrade_legacy_credentials_def bindE_run get_password_envelope_Inr [THEN iffD2] liftE_run returnE_run)
  then have upg: "upgrade_login_key E u ?pw key (ts_world ?s) = (Inr key, ts_world ?s)"
    by (simp add: upgrade_login_key_def bindE_run attemptE_run returnE_run)
  obtain row where row: "find_row ur_username u (users (w_db (ts_world ?s))) = Some row" "row \<in> set (users (w_db (ts_world s)))"
    using login_name_user(2) [OF assms(2)] same(2) find_row_Some_in by (fastforce simp: user_by_username_def)
  have "user_row_ok row" using assms(1) row(2) by (auto simp: world_ok_def db_ok_def users_ok_def list_all_iff)
  then obtain profile where "row_to_user row = Inr profile" by (auto simp: user_row_ok_def row_to_user_def parse_role_def)
  then have prof: "get_user_profile_by_username u (ts_world ?s) = (Inr profile, ts_world ?s)"
    using row(1) by (simp add: get_user_profile_by_username_def user_get_by_username_def found_or_def ok_or_def eff_simps on_db_run)
  have "trim (lf_username f) \<noteq> []" using assms(2) by (auto simp: login_name_def trim_Nil)
  then show ?thesis
    using assms(2,4,9,10,11) valid off key upg prof
    by (simp add: login_submit_def handle_submit_def password_step_def with_unlocked_run bindE_run on_world_run
        open_if_valid_def open_session_def on_db_run auth_reset_is_Inr returnE_run)
qed

definition sample_env :: login_env where
  "sample_env = \<lparr>le_totp = toy_totp, le_crypto = toy_lib, le_kdf = default_kdf_config, le_issuer = ''HV'', le_show_id = (\<lambda>_. ''id'')\<rparr>"

definition sample_clock :: login_clock where
  "sample_clock = \<lparr>lc_now = 0, lc_failed = 0, lc_failed_state = 0, lc_checked = 0, lc_recorded = 0\<rparr>"

definition sample_form :: "string \<Rightarrow> string \<Rightarrow> login_form" where
  "sample_form u pw = \<lparr>lf_on_totp_page = False, lf_lock_active = False, lf_username = u, lf_password = pw, lf_totp = []\<rparr>"




theorem login_success_proves_identity_witness:
  "\<exists>s s' ses s1. login_submit sample_env sample_clock (sample_form ''amy'' ''correct horse'') s = (Answered (Inr (LoginSuccess ses)), s')
    \<and> login_name ''amy'' (w_db (ts_world s)) = Some (as_username ses)
    \<and> login_proved sample_env sample_clock (as_bytes ''correct horse'') None ses s1 s'"
proof -
  let ?w0 = "(empty_world ''now'')\<lparr>w_db := (empty_db ''now'')\<lparr>users := [new_user_row 7 ''amy'' User]\<rparr>\<rparr>"
  have "rng_works ?w0" by simp
  then obtain e w1 where e: "wrap_account_key toy_lib default_kdf_config ''correct horse'' (replicate 32 7) ?w0 = (Inr e, w1)"
    by (rule toy_wrap)
  obtain salt wrapped where form: "e = AccountKey salt wrapped" "length salt = 32" "payload_ok wrapped"
      "length (ciphertext wrapped) = length (replicate 32 (7 :: byte)) + 16"
      "unlock_password_envelope toy_lib default_kdf_config e ''correct horse'' = Inr (Some (replicate 32 7))"
      "w_auth w1 = w_auth ?w0" "w_db w1 = w_db ?w0"
    by (rule wrap_account_key_Inr [OF toy_lib_ok e])
  have wf: "envelope_wf e" by (rule wrapped_envelope_wf [OF toy_lib_ok e]) simp
  let ?w = "snd (put_envelope ''amy'' (encode_password_envelope e) w1)"
  let ?s = "\<lparr>ts_world = ?w, replay_guard = []\<rparr>"
  have db: "w_db ?w = (empty_db ''now'')\<lparr>users := [new_user_row 7 ''amy'' User]\<rparr>" by (simp add: form(7))
  have name: "login_name ''amy'' (w_db ?w) = Some ''amy''" "trim ''amy'' = ''amy''" unfolding db by code_simp+
  have ok: "ts_ok ?s"
    by (simp add: form(7) world_ok_def db_ok_def db_part_defs user_row_ok_def new_user_row_def empty_db_def)
  have bytes: "from_utf8 (as_bytes ''correct horse'') = Some ''correct horse''"
    by (rule from_utf8_as_bytes) (simp add: as_bytes_def)
  have opens: "opens toy_lib default_kdf_config ?w ''amy'' (as_bytes ''correct horse'') (replicate 32 7)"
    using form(5) bytes by (simp add: opens_iff form(6) empty_world_def decode_encode [OF wf] password_to_secret_string_def)
  obtain ses s' where run: "login_submit sample_env sample_clock (sample_form ''amy'' ''correct horse'') ?s
      = (Answered (Inr (LoginSuccess ses)), s')"
    using right_password_logs_in [of ?s "sample_form ''amy'' ''correct horse''" "''amy''" sample_clock sample_env "replicate 32 7"
        "encode_password_envelope e" salt wrapped] ok name opens decode_encode [OF wf] form(1)
    by (auto simp: sample_form_def sample_env_def form(7) auth_locked_iff auth_row_of_def empty_db_def fresh_auth_row_def aps_is_locked_def
        MAX_FAILED_ATTEMPTS_def totp_enabled_def user_by_username_def new_user_row_def)
  have "\<forall>row \<in> set (users (w_db (ts_world ?s))). trim (ur_username row) \<noteq> []"
    using name(2) by (simp add: form(7) new_user_row_def)
  moreover have "crypto_lib_ok (le_crypto sample_env)" by (simp add: sample_env_def toy_lib_ok)
  ultimately obtain s1 where "login_name ''amy'' (w_db (ts_world ?s)) = Some (as_username ses)"
    "login_proved sample_env sample_clock (as_bytes ''correct horse'') None ses s1 s'"
    using login_success_proves_identity [OF _ ok _ run] name(2) by (auto simp: sample_form_def)
  then show ?thesis using run by blast
qed

end
