(* ===== verification/HV_System.thy ===== *)
theory HV_System
  imports HV_Login HV_Import HV_SecurityCenter HV_Recovery HV_TeamRepo HV_IpLimit
begin

section \<open>Every operation keeps the constraints\<close>

lemma stored_keeps: "frames stored_state m \<Longrightarrow> keeps world_ok m"
  by (auto simp: frames_def keeps_def world_ok_def stored_state_def)

lemma keeps_prod [inv_intros]: "(\<And>a b. keeps I (f a b)) \<Longrightarrow> keeps I (case x of (a, b) \<Rightarrow> f a b)"
  by (cases x) simp

lemma keeps_auth [inv_intros]:
  "keeps world_ok ensure_not_shutting_down" "keeps world_ok (stored_or_denied u)"
  "keeps world_ok (put_envelope u bs)" "keeps world_ok (derive_key_if_valid L cfg u pw)"
  "keeps world_ok (get_password_envelope u)" "keeps world_ok (found_or m x)" "keeps world_ok is_single_account"
proof -
  show "keeps world_ok (put_envelope u bs)"
    by (simp add: keeps_def world_ok_def put_envelope_def modifyE_def)
  show "keeps world_ok ensure_not_shutting_down" "keeps world_ok (derive_key_if_valid L cfg u pw)"
    "keeps world_ok (get_password_envelope u)" "keeps world_ok (found_or m x)" "keeps world_ok is_single_account"
    by (intro reads_keeps reads_auth)+
  show "keeps world_ok (stored_or_denied u)" unfolding stored_or_denied_def stored_envelope_def by (intro inv_intros)
qed

lemma keeps_upsert [inv_intros]: "keeps world_ok (upsert_password_envelope u bs)"
  unfolding upsert_password_envelope_def by (intro inv_intros)

lemma keeps_verify [inv_intros]: "keeps world_ok (verify_password L cfg u pw)"
  unfolding verify_password_def by (intro inv_intros)

lemma keeps_wrap [inv_intros]: "keeps world_ok generate_account_key" "keeps world_ok (wrap_account_key L cfg pw k)"
  "keeps world_ok (seal_with_recovery_phrase L cfg ph k)" "keeps world_ok (build_recovery_verifier L ph)"
  unfolding generate_account_key_def wrap_account_key_def build_recovery_verifier_def generate_recovery_salt_def
    seal_with_recovery_phrase_def
  by (intro inv_intros)+

lemma keeps_prepared [inv_intros]:
  "keeps world_ok (unwrap_accessible_vaults L uid k)" "keeps world_ok (check_secrets L vs)"
  "keeps world_ok (prepare L cfg uid k k' rec)"
  by (intro stored_keeps frame_intros)+

lemma keeps_verified [inv_intros]:
  "keeps world_ok (verify_stored_envelope uid e)" "keeps world_ok (verify_vaults show_id L uid k vs)"
  unfolding verify_stored_envelope_def verify_vaults_def verify_vault_def load_vault_envelope_def
    get_password_envelope_by_user_id_def
  by (intro inv_intros keeps_user_reads keeps_vault_reads)+


lemma keeps_rewrap [inv_intros]: "keeps world_ok (rewrap_account show_id L cfg uid k k' e rec)"
  unfolding rewrap_account_prepare Let_def by (intro inv_intros)

lemma keeps_columns [inv_intros]:
  "keeps db_ok (get_password_envelope_by_user_id uid)" "keeps db_ok (get_recovery_phrase_envelope uid)"
  "keeps db_ok (repo_get_totp_secret uid)" "keeps db_ok (repo_get_recovery_key_envelope uid)"
  by (intro reads_keeps frame_intros)+

lemma keeps_password_envelope [inv_intros]:
  "(\<And>a b. keeps I (f a b)) \<Longrightarrow> (\<And>a b. keeps I (g a b)) \<Longrightarrow>
     keeps I (case e of Legacy a b \<Rightarrow> f a b | AccountKey a b \<Rightarrow> g a b)"
  by (cases e) simp_all

lemma keeps_rekey [inv_intros]:
  "keeps world_ok (migrate_to_account_key show_id L cfg uid k pw ph)"
  "keeps world_ok (rekey_legacy_account show_id L cfg uid k pw)"
  "keeps world_ok (replace_password L cfg uid k pw)"
  unfolding migrate_to_account_key_def rekey_legacy_account_def replace_password_def Let_def
  by (intro inv_intros)+

lemma keeps_user_service [inv_intros]:
  "keeps world_ok (change_master_password show_id L cfg uid cur new)"
  "keeps world_ok (upgrade_legacy_credentials show_id L cfg u pw)"
  "keeps world_ok (service_update_user_profile L cfg uid upd)"
  "keeps world_ok (service_update_show_passwords uid v)"
  unfolding change_master_password_def upgrade_legacy_credentials_def service_update_user_profile_def
    service_update_show_passwords_def Let_def
  by (intro inv_intros)+

lemma keeps_reopen [inv_intros]: "keeps world_ok (reopen_account show_id L cfg u ph new_pw e)"
  by (cases e) (simp_all, intro inv_intros, intro inv_intros)

lemma keeps_admin [inv_intros]:
  "keeps world_ok (bootstrap_first_admin_with_recovery L cfg u pw ph)"
  "keeps world_ok (reset_master_password_from_backup show_id L cfg ph new_pw)"
  unfolding bootstrap_first_admin_with_recovery_def reset_master_password_from_backup_def Let_def
  by (intro inv_intros)+


lemma keeps_put [inv_intros]: "keeps world_ok (modifyE (\<lambda>w. w\<lparr>w_auth := f w\<rparr>))"
  by (simp add: keeps_def world_ok_def modifyE_run)

lemma keeps_credentials [inv_intros]:
  "keeps world_ok (auth_create_user L cfg u pw)" "keeps world_ok (change_password L cfg u pw pw')"
  "keeps world_ok signal_shutdown" "keeps world_ok (ensure_recovery_key L cfg uid k ph)"
  unfolding auth_create_user_def change_password_def signal_shutdown_def ensure_recovery_key_def store_envelope_def Let_def
  by (intro inv_intros)+

lemma keeps_events [inv_intros]:
  assumes "audit_ok A"
  shows "keeps world_ok (record_viewed A sid actor detail)" "keeps world_ok (record_field_copy A sid actor detail field)"
  unfolding record_viewed_def record_field_copy_def Let_def by (intro inv_intros keeps_record_event assms)+

lemma keeps_totp_service [inv_intros]:
  "keeps ts_ok (enable_totp T L issuer t uid u k secret code)" "keeps ts_ok (disable_totp uid)"
  "keeps ts_ok (create_setup_payload T issuer u)"
proof -
  have "keeps ts_ok (modifyE (\<lambda>s. s\<lparr>ts_world := tick (ts_world s)\<rparr>))"
    by (simp add: keeps_def modifyE_run world_ok_def)
  then show "keeps ts_ok (create_setup_payload T issuer u)" unfolding create_setup_payload_def by (intro inv_intros)
  show "keeps ts_ok (enable_totp T L issuer t uid u k secret code)" "keeps ts_ok (disable_totp uid)"
    unfolding enable_totp_def disable_totp_def by (intro inv_intros)+
qed

lemma keeps_login [inv_intros]: "keeps ts_ok (password_step E c i pw)" "keeps ts_ok (totp_step E c i pw code)"
proof -
  have upgrade: "keeps world_ok (upgrade_login_key E u pw k)" for u k unfolding upgrade_login_key_def by (intro inv_intros)
  have profile: "keeps world_ok (get_user_profile_by_username u)" for u
    unfolding get_user_profile_by_username_def by (intro inv_intros)
  have opened: "keeps ts_ok (open_if_valid E c u pw)" for u
    unfolding open_if_valid_def open_session_def failed_login_def by (intro inv_intros upgrade profile)
  show "keeps ts_ok (password_step E c i pw)" "keeps ts_ok (totp_step E c i pw code)"
    unfolding password_step_def totp_step_def with_unlocked_def failed_login_def service_resolve_username_def
      is_totp_enabled_for_username_def
    by (intro inv_intros opened)+
qed

lemma keeps_submit: "ts_ok s \<Longrightarrow> ts_ok (snd (login_submit E c f s))"
  using keepsD [OF keeps_login(1)] keepsD [OF keeps_login(2)]
  by (auto simp: login_submit_def handle_submit_def handle_totp_submit_def split: prod.splits) (metis snd_conv)+

text \<open>The import and the scan of the security centre run on a host and on a scan of their own, over the same world.\<close>

lemma keeps_listed [inv_intros]: "keeps world_ok (list_user_vaults uid)"
  unfolding list_user_vaults_def listing_user_def existing_user_def by (intro inv_intros)

lemma keeps_scan_lift [inv_intros]:
  "keeps world_ok m \<Longrightarrow> keeps (\<lambda>h. world_ok (sc_world h)) (scan_world m)"
  "keeps (\<lambda>h. world_ok (sc_world h)) (control_check cancelled)"
  "keeps (\<lambda>h. world_ok (sc_world h)) (modifyE (\<lambda>h. h\<lparr>sc_processed := n\<rparr>))"
  by (auto simp: keeps_def scan_world_def control_check_def modifyE_run split: prod.split)

lemma keeps_analyze:
  assumes "audit_ok A"
  shows "keeps (\<lambda>h. world_ok (sc_world h)) (analyze S A L cancelled uid key now)"
proof -
  have items: "keeps (\<lambda>h. world_ok (sc_world h)) (scan_items S L cancelled now k name xs acc)" for k name xs acc
    by (induction xs arbitrary: acc) (simp_all add: Let_def, (intro inv_intros | assumption)+)
  have vault: "keeps (\<lambda>h. world_ok (sc_world h)) (scan_vault S A L cancelled uid key now v acc)" for v acc
    unfolding scan_vault_def by (intro inv_intros keeps_vault_service [OF assms] items)
  have "keeps (\<lambda>h. world_ok (sc_world h)) (scan_vaults S A L cancelled uid key now vs acc)" for vs acc
    by (induction vs arbitrary: acc) (simp_all, (intro inv_intros vault | assumption)+)
  then show ?thesis unfolding analyze_def by (intro inv_intros)
qed

lemma keeps_import_lift [inv_intros]:
  "keeps world_ok m \<Longrightarrow> keeps (\<lambda>s. world_ok (h_world (im_host s))) (on_host (in_world m))"
  "keeps (\<lambda>s. world_ok (h_world (im_host s))) (on_host (on_disk m'))"
  "keeps (\<lambda>s. world_ok (h_world (im_host s))) (send progress e)"
  by (auto simp: keeps_def on_host_def in_world_def on_disk_def send_def modifyE_run returnE_run split: prod.split)

lemma keeps_import:
  assumes "audit_ok A"
  shows "keeps (\<lambda>s. world_ok (h_world (im_host s))) (import_csv I A L path uid key vid progress)"
proof -
  have rows: "keeps (\<lambda>s. world_ok (h_world (im_host s))) (import_rows I A L progress v k n p rows acc)" for v k n p rows acc
  proof (induction rows arbitrary: p acc)
    case (Cons row rows)
    show ?case unfolding import_rows.simps Let_def by (intro inv_intros keeps_secret_service [OF assms] Cons.IH)
  qed (simp add: inv_intros)
  show ?thesis unfolding import_csv_def by (intro inv_intros keeps_vault_service [OF assms] rows)
qed

section \<open>The steps of the program\<close>

text \<open>
  What the application does to the database outside the services that hold keys: throttling, logs, teams,
  shares, administration of accounts, and the passing of time (the text of \<open>CURRENT_TIMESTAMP\<close>).
\<close>

inductive repository_step :: "db \<Rightarrow> db \<Rightarrow> bool" where
  clock: "repository_step d (d\<lparr>db_clock := t\<rparr>)"
| auto_lock_read: "repository_step d (snd (get_auto_lock_delay u d))"
| auto_lock_set: "repository_step d (snd (update_auto_lock_delay u mins d))"
| limit_check: "repository_step d (snd (check_combined_rate_limit c now u ip d))"
| limit_record: "repository_step d (snd (combined_record_failed_attempt c pol now now' now'' u ip d))"
| limit_reset: "repository_step d (snd (reset_on_success u ip d))"
| limit_cleanup: "repository_step d (snd (ip_cleanup_expired c now d))"
| log_waits: "repository_step d (snd (log_sync actor action tt ti detail d))"
| log_later: "repository_step d (snd (log_async actor action tt ti detail d))"
| login_logged: "repository_step d (snd (record_successful_login uid addr dev d))"
| team_created: "repository_step d (snd (repo_create_team tid name by d))"
| team_deleted: "repository_step d (snd (repo_delete_team tid d))"
| member_added: "repository_step d (snd (repo_add_member tid uid role d))"
| member_removed: "repository_step d (snd (repo_remove_member tid uid d))"
| share_granted: "repository_step d (snd (insert_key_share vid uid bs by via level d))"
| share_rewrapped: "repository_step d (snd (update_key_share_envelope vid uid bs d))"
| share_revoked: "repository_step d (snd (delete_key_share vid uid d))"
| shares_revoked: "repository_step d (snd (delete_all_key_shares vid d))"
| team_revoked: "repository_step d (snd (delete_key_shares_for_user_via_team uid tid d))"
| shares_rotated: "repository_step d (snd (replace_all_key_shares vid new actor d))"
| user_created: "repository_step d (snd (create_user_db uid username account_role d))"
| user_role_set: "repository_step d (snd (update_user_role uid account_role d))"
| user_deleted: "repository_step d (snd (delete_user uid d))"
| secret_used: "repository_step d (snd (increment_usage_count sid d))"
| trash_emptied: "repository_step d (snd (repo_empty_trash vid d))"

text \<open>What the services that hold keys do.\<close>

inductive service_step :: "login_env \<Rightarrow> audit_svc \<Rightarrow> world \<Rightarrow> world \<Rightarrow> bool" for E A where
  repository: "repository_step (w_db w) d \<Longrightarrow> service_step E A w (w\<lparr>w_db := d\<rparr>)"
| bootstrap: "service_step E A w (snd (bootstrap_first_admin_with_recovery (le_crypto E) (le_kdf E) u pw phrase w))"
| recovery: "service_step E A w (snd (reset_master_password_from_backup (le_show_id E) (le_crypto E) (le_kdf E) phrase new_text w))"
| recovery_key: "service_step E A w (snd (ensure_recovery_key (le_crypto E) (le_kdf E) uid key phrase w))"
| credentials_created: "service_step E A w (snd (auth_create_user (le_crypto E) (le_kdf E) u pw w))"
| credentials_loaded: "service_step E A w (snd (upsert_password_envelope u bs w))"
| password_changed: "service_step E A w (snd (change_password (le_crypto E) (le_kdf E) u pw pw' w))"
| master_password_changed: "service_step E A w (snd (change_master_password (le_show_id E) (le_crypto E) (le_kdf E) uid pw pw' w))"
| profile_changed: "service_step E A w (snd (service_update_user_profile (le_crypto E) (le_kdf E) uid upd w))"
| preference_changed: "service_step E A w (snd (service_update_show_passwords uid b w))"
| closing: "service_step E A w (snd (signal_shutdown w))"
| vault_created: "service_step E A w (snd (create_vault A (le_crypto E) uid name key w))"
| vault_opened: "service_step E A w (snd (open_vault_for_user A (le_crypto E) uid vid key w))"
| vault_deleted: "service_step E A w (snd (service_delete_vault A uid vid w))"
| vault_sorted: "service_step E A w (snd (service_update_vault_sort_order uid vid n w))"
| secret_created: "service_step E A w (snd (create_secret A (le_crypto E) vid ty title meta tags expires plain key w))"
| secret_updated: "service_step E A w (snd (update_secret A (le_crypto E) sid title meta tags expires plain' key detail w))"
| secret_moved: "service_step E A w (snd (move_secret (le_crypto E) sid vid key key' w))"
| secret_read: "service_step E A w (snd (get_secret (le_crypto E) sid key w))"
| secret_trashed: "service_step E A w (snd (service_soft_delete A sid w))"
| secret_restored: "service_step E A w (snd (service_restore_secret sid vid w))"
| secret_deleted: "service_step E A w (snd (service_permanent_delete A sid vid w))"
| secret_viewed: "service_step E A w (snd (record_viewed A sid actor detail w))"
| secret_copied: "service_step E A w (snd (record_field_copy A sid actor detail field w))"
| import_run: "h_world (im_host st) = w \<Longrightarrow>
    service_step E A w (h_world (im_host (snd (import_csv I A (le_crypto E) file_path uid key vid_opt progress st))))"
| scan_run: "sc_world h = w \<Longrightarrow>
    service_step E A w (sc_world (snd (analyze S A (le_crypto E) cancelled uid key now h)))"

inductive app_step :: "login_env \<Rightarrow> audit_svc \<Rightarrow> totp_state \<Rightarrow> totp_state \<Rightarrow> bool" for E A where
  service: "service_step E A (ts_world s) w \<Longrightarrow> app_step E A s (s\<lparr>ts_world := w\<rparr>)"
| login: "app_step E A s (snd (login_submit E c f s))"
| totp_setup: "app_step E A s (snd (create_setup_payload (le_totp E) (le_issuer E) u s))"
| totp_enabled: "app_step E A s (snd (enable_totp (le_totp E) (le_crypto E) (le_issuer E) now uid u key secret code s))"
| totp_disabled: "app_step E A s (snd (disable_totp uid s))"

text \<open>The states reached from a start on an empty database, and in particular what was there at a restart.\<close>

definition started :: "db \<Rightarrow> rng \<Rightarrow> totp_state" where
  "started d g = \<lparr>ts_world = \<lparr>w_db = d, w_rng = g, w_auth = \<lparr>credentials = [], shutdown_in_progress = False\<rparr>\<rparr>,
     replay_guard = []\<rparr>"

inductive reachable :: "login_env \<Rightarrow> audit_svc \<Rightarrow> totp_state \<Rightarrow> bool" for E A where
  installed: "reachable E A (started (empty_db now) g)"
| restarted: "reachable E A s \<Longrightarrow> reachable E A (started (w_db (ts_world s)) g)"
| stepped: "reachable E A s \<Longrightarrow> app_step E A s s' \<Longrightarrow> reachable E A s'"

inductive_cases app_stepE: "app_step E A s s'"
inductive_cases service_stepE: "service_step E A w w'"
inductive_cases repository_stepE: "repository_step d d'"

section \<open>Invariant\<close>

lemma repository_step_ok: "repository_step d d' \<Longrightarrow> db_ok d \<Longrightarrow> db_ok d'"
proof (induction rule: repository_step.induct)
  case (clock d t)
  then show ?case by (simp add: db_ok_def db_part_defs)
qed (rule keepsD [where I = db_ok], (intro inv_intros)[1], assumption)+

lemma service_step_ok:
  assumes "service_step E A w w'" "audit_ok A" "world_ok w"
  shows "world_ok w'"
proof -
  note owned = keeps_vault_service [OF assms(2)] keeps_secret_service [OF assms(2)] keeps_events [OF assms(2)]
  show ?thesis
  using assms(1,3)
proof (induction rule: service_step.induct)
  case (repository w d)
  then show ?case using repository_step_ok by (auto simp: world_ok_def)
next
  case (import_run st w I file_path uid key vid_opt progress)
  then show ?case using keepsD [OF keeps_import [OF assms(2)]] by auto
next
  case (scan_run h w S cancelled uid key now)
  then show ?case using keepsD [OF keeps_analyze [OF assms(2)]] by auto
qed (rule keepsD [where I = world_ok], (intro owned inv_intros)[1], assumption)+
qed

lemma app_step_ok:
  assumes "app_step E A s s'" "audit_ok A" "ts_ok s"
  shows "ts_ok s'"
  using assms(1,3)
proof (induction rule: app_step.induct)
  case (service s w)
  then show ?case using service_step_ok assms(2) by auto
next
  case (login s c f)
  then show ?case by (rule keeps_submit)
qed (rule keepsD [where I = ts_ok], (intro inv_intros)[1], assumption)+

lemma reachable_ok: "reachable E A s \<Longrightarrow> audit_ok A \<Longrightarrow> ts_ok s"
  by (induction rule: reachable.induct) (auto simp: started_def world_ok_def empty_db_ok dest: app_step_ok)

section \<open>What the invariant gives\<close>

lemma user_rows_decode:
  assumes "db_ok d" "row \<in> set (users d)"
  shows "\<exists>u. row_to_user row = Inr u"
  using assms by (auto simp: db_ok_def users_ok_def list_all_iff user_row_ok_def row_to_user_def parse_role_def)

lemma mapR_defined: "(\<And>x. x \<in> set xs \<Longrightarrow> \<exists>y. f x = Inr y) \<Longrightarrow> \<exists>ys. mapR f xs = Inr ys \<and> length ys = length xs"
  by (induction xs) (simp, fastforce)

lemma users_listed:
  assumes "db_ok d"
  shows "\<exists>us. user_list_all d = (Inr us, d) \<and> length us = length (users d)"
proof -
  have "\<exists>us. mapR row_to_user (sort_key ur_username (users d)) = Inr us \<and> length us = length (sort_key ur_username (users d))"
    by (rule mapR_defined) (simp add: user_rows_decode [OF assms])
  then show ?thesis by (auto simp: user_list_all_def eff_simps)
qed

lemma user_found:
  assumes "db_ok d" "user_by_id uid d = Some row"
  shows "\<exists>u. user_get_by_id uid d = (Inr (Some u), d) \<and> usr_username u = ur_username row"
proof -
  have "row \<in> set (users d)" using assms(2) find_row_Some_in by (fastforce simp: user_by_id_def)
  then obtain u where "row_to_user row = Inr u" using user_rows_decode [OF assms(1)] by blast
  then show ?thesis using assms(2) by (auto simp: user_get_by_id_def eff_simps row_to_user_def bindR_Inr_iff)
qed

lemma secrets_listed:
  assumes "db_ok d" "\<forall>r \<in> set (secret_items d). counted r"
  shows "\<exists>items. list_by_vault_id vid d = (Inr items, d)
    \<and> length items = count_where (\<lambda>r. sr_vault_id r = vid \<and> active_secret r) (secret_items d)"
proof -
  let ?rows = "secrets_desc sr_created_at (filter (\<lambda>r. sr_vault_id r = vid \<and> active_secret r) (secret_items d))"
  have "\<exists>items. mapR row_to_secret_item ?rows = Inr items \<and> length items = length ?rows"
    using assms by (intro mapR_defined) (auto simp: secrets_desc_def row_to_secret_item_ok secrets_row_ok)
  then show ?thesis by (auto simp: list_by_vault_id_def eff_simps secrets_desc_def count_where_def)
qed

text \<open>
  C36: Every state the program reaches is well typed. From an empty database, through any sequence of
  logins, changes of password, vault, secret, team, share and account operations, imports, security scans,
  failed or not, restarts and steps of the clock, the tables satisfy all constraints of the schema (keys, references,
  checks of coded columns); so no reader fails to decode a row: the list of accounts and the account of an
  identifier are returned in full, the accessible vaults of a user are exactly those the access rules
  grant, and the secrets of a vault are all returned unless a counter of uses has left 32 bits.
\<close>

theorem reachable_states_are_typed:
  assumes "reachable E A s" and "audit_ok A"
  shows "db_ok (w_db (ts_world s))
    \<and> (\<exists>us. user_list_all (w_db (ts_world s)) = (Inr us, w_db (ts_world s)) \<and> length us = length (users (w_db (ts_world s))))
    \<and> (\<forall>uid row. user_by_id uid (w_db (ts_world s)) = Some row \<longrightarrow>
        (\<exists>u. user_get_by_id uid (w_db (ts_world s)) = (Inr (Some u), w_db (ts_world s)) \<and> usr_username u = ur_username row))
    \<and> (\<forall>uid. \<exists>as. get_accessible_vaults uid (w_db (ts_world s)) = (Inr as, w_db (ts_world s))
        \<and> (\<forall>a. a \<in> set as \<longleftrightarrow> access_to uid (v_id (av_vault a)) (w_db (ts_world s)) = Some a))
    \<and> ((\<forall>r \<in> set (secret_items (w_db (ts_world s))). counted r) \<longrightarrow>
        (\<forall>vid. \<exists>items. list_by_vault_id vid (w_db (ts_world s)) = (Inr items, w_db (ts_world s))
          \<and> length items = count_where (\<lambda>r. sr_vault_id r = vid \<and> active_secret r) (secret_items (w_db (ts_world s)))))"
proof -
  have ok: "db_ok (w_db (ts_world s))" using reachable_ok [OF assms] by (simp add: world_ok_def)
  have vaults: "\<exists>as. get_accessible_vaults uid (w_db (ts_world s)) = (Inr as, w_db (ts_world s))
      \<and> (\<forall>a. a \<in> set as \<longleftrightarrow> access_to uid (v_id (av_vault a)) (w_db (ts_world s)) = Some a)" for uid
    by (rule accessible_vaults_run [OF ok, of uid]) blast
  show ?thesis
    by (intro conjI allI impI ok users_listed user_found secrets_listed vaults)
qed

definition sample_start :: totp_state where "sample_start = started (empty_db ''now'') toy_rng"

lemma sample_account:
  "reachable sample_env A (sample_start\<lparr>ts_world := (ts_world sample_start)
     \<lparr>w_db := snd (create_user_db 7 ''amy'' Admin (w_db (ts_world sample_start)))\<rparr>\<rparr>)"
  by (rule reachable.stepped [OF _ app_step.service [OF service_step.repository [OF repository_step.user_created]]])
    (simp add: sample_start_def reachable.installed)

theorem reachable_states_are_typed_witness:
  "\<exists>s. reachable sample_env sample_audit s \<and> users (w_db (ts_world s)) \<noteq> [] \<and> db_ok (w_db (ts_world s))
    \<and> (\<exists>us. user_list_all (w_db (ts_world s)) = (Inr us, w_db (ts_world s)) \<and> length us = 1)"
proof -
  let ?s = "sample_start\<lparr>ts_world := (ts_world sample_start)
     \<lparr>w_db := snd (create_user_db 7 ''amy'' Admin (w_db (ts_world sample_start)))\<rparr>\<rparr>"
  have us: "users (w_db (ts_world ?s)) = [new_user_row 7 ''amy'' Admin]"
    by (simp add: sample_start_def started_def create_user_db_def bindE_run getsE_run modifyE_run empty_db_def)
  have "audit_ok sample_audit" by (rule sample_audit_ok)
  from reachable_states_are_typed [OF sample_account this]
  have "db_ok (w_db (ts_world ?s))"
    "\<exists>us. user_list_all (w_db (ts_world ?s)) = (Inr us, w_db (ts_world ?s)) \<and> length us = length (users (w_db (ts_world ?s)))"
    by blast+
  then show ?thesis using sample_account us by (intro exI [of _ ?s]) simp
qed

end
