(* ===== verification/HV_Search.thy ===== *)
theory HV_Search
  imports HV_SecurityCenter HV_AccountKey
begin

text \<open>
  The search box and the filters of the main window: search_filter.rs, the records of types.rs, the
  predicates that core.rs installs on the list and the search data that secret_flow.rs computes for a row.
  Texts shown in the language of the user are arguments.
\<close>

section \<open>Characters\<close>

text \<open>\<open>str::chars\<close> on a well-formed text: the code points that its bytes encode.\<close>

fun scalars :: "nat list \<Rightarrow> nat list" where
  "scalars [] = []"
| "scalars (a # r) =
     (if a < 128 then a # scalars r
      else case r of
        b # r' \<Rightarrow>
          if a < 224 then ((a - 192) * 64 + (b - 128)) # scalars r'
          else (case r' of
            c # r'' \<Rightarrow>
              if a < 240 then ((a - 224) * 4096 + (b - 128) * 64 + (c - 128)) # scalars r''
              else (case r'' of
                d # r''' \<Rightarrow> ((a - 240) * 262144 + (b - 128) * 4096 + (c - 128) * 64 + (d - 128)) # scalars r'''
              | [] \<Rightarrow> [])
          | [] \<Rightarrow> [])
      | [] \<Rightarrow> [])"

definition str_chars :: "string \<Rightarrow> nat list" where
  "str_chars s = scalars (map of_char s)"

definition is_whitespace :: "nat \<Rightarrow> bool" where
  "is_whitespace c \<longleftrightarrow> 9 \<le> c \<and> c \<le> 13 \<or> c \<in> {32, 0x85, 0xA0, 0x1680, 0x2028, 0x2029, 0x202F, 0x205F, 0x3000}
     \<or> 0x2000 \<le> c \<and> c \<le> 0x200A"

text \<open>The \<open>match\<close> of \<open>normalize_search_text\<close> on one character; \<open>None\<close> is its \<open>continue\<close>.\<close>

definition normalize_char :: "nat \<Rightarrow> char option" where
  "normalize_char ch =
     (if 97 \<le> ch \<and> ch \<le> 122 \<or> 48 \<le> ch \<and> ch \<le> 57 then Some (char_of ch)
      else if 65 \<le> ch \<and> ch \<le> 90 then Some (char_of (ch + 32))
      else if 0xC0 \<le> ch \<and> ch \<le> 0xC5 \<or> 0xE0 \<le> ch \<and> ch \<le> 0xE5 then Some CHR ''a''
      else if ch = 0xC7 \<or> ch = 0xE7 then Some CHR ''c''
      else if 0xC8 \<le> ch \<and> ch \<le> 0xCB \<or> 0xE8 \<le> ch \<and> ch \<le> 0xEB then Some CHR ''e''
      else if 0xCC \<le> ch \<and> ch \<le> 0xCF \<or> 0xEC \<le> ch \<and> ch \<le> 0xEF then Some CHR ''i''
      else if ch = 0xD1 \<or> ch = 0xF1 then Some CHR ''n''
      else if 0xD2 \<le> ch \<and> ch \<le> 0xD6 \<or> ch = 0xD8 \<or> 0xF2 \<le> ch \<and> ch \<le> 0xF6 \<or> ch = 0xF8 then Some CHR ''o''
      else if 0xD9 \<le> ch \<and> ch \<le> 0xDC \<or> 0xF9 \<le> ch \<and> ch \<le> 0xFC then Some CHR ''u''
      else if ch = 0xDD \<or> ch = 0x178 \<or> ch = 0xFD \<or> ch = 0xFF then Some CHR ''y''
      else if ch = 0xC6 \<or> ch = 0xE6 then Some CHR ''a''
      else if ch = 0x152 \<or> ch = 0x153 then Some CHR ''o''
      else if is_whitespace ch \<or> ch = 45 \<or> ch = 95 \<or> ch = 46 \<or> ch = 64 then Some CHR '' ''
      else None)"

definition normalize_search_text :: "string \<Rightarrow> string" where
  "normalize_search_text raw = join_space (split_whitespace (List.map_filter normalize_char (str_chars raw)))"

section \<open>Matching\<close>

text \<open>The loop of \<open>within_one_edit\<close> over what is left of both texts, with the lengths of the whole.\<close>

fun edit_loop :: "nat \<Rightarrow> nat \<Rightarrow> 'a list \<Rightarrow> 'a list \<Rightarrow> nat \<Rightarrow> bool" where
  "edit_loop left_len right_len (x # xs) (y # ys) edits =
     (if x = y then edit_loop left_len right_len xs ys edits
      else if edits + 1 > 1 then False
      else if left_len > right_len then edit_loop left_len right_len xs (y # ys) (edits + 1)
      else if right_len > left_len then edit_loop left_len right_len (x # xs) ys (edits + 1)
      else edit_loop left_len right_len xs ys (edits + 1))"
| "edit_loop left_len right_len xs ys edits =
     ((if xs \<noteq> [] \<or> ys \<noteq> [] then edits + 1 else edits) \<le> 1)"

definition within_one_edit :: "'a list \<Rightarrow> 'a list \<Rightarrow> bool" where
  "within_one_edit left right =
     (if nat \<bar>int (length left) - int (length right)\<bar> > 1 then False
      else edit_loop (length left) (length right) left right 0)"

fun contains :: "string \<Rightarrow> string \<Rightarrow> bool" where
  "contains needle [] = (needle = [])"
| "contains needle (c # cs) = (starts_with (c # cs) needle \<or> contains needle cs)"

definition token_matches_haystack :: "string \<Rightarrow> string \<Rightarrow> bool" where
  "token_matches_haystack token haystack =
     (if token = [] then True
      else if contains token haystack then True
      else if length (str_chars token) < 4 then False
      else list_ex (\<lambda>word. within_one_edit (str_chars token) (str_chars word)) (split_whitespace haystack))"

section \<open>The query\<close>

datatype search_key =
    KeyTitle | KeyLogin | KeyEmail | KeyUrl | KeyNotes | KeyCategory | KeyTags | KeyType | KeyVault | KeyHealth

type_synonym search_term = "search_key option \<times> string"

text \<open>The text ''field: value'' is read like ''field:value''.\<close>

fun join_fields :: "string list \<Rightarrow> string list" where
  "join_fields [] = []"
| "join_fields [t] = [t]"
| "join_fields (t # v # rest) =
     (if ends_with t '':'' \<and> \<not> starts_with t '':'' \<and> CHR '':'' \<notin> set v
      then (t @ v) # join_fields rest else t # join_fields (v # rest))"

fun search_key_of :: "string \<Rightarrow> search_key option" where
  "search_key_of k =
     (if k \<in> {''title'', ''titre'', ''name'', ''nom''} then Some KeyTitle
      else if k \<in> {''login'', ''user'', ''username'', ''identifiant''} then Some KeyLogin
      else if k \<in> {''email'', ''mail''} then Some KeyEmail
      else if k \<in> {''url'', ''site'', ''domaine'', ''domain''} then Some KeyUrl
      else if k \<in> {''note'', ''notes''} then Some KeyNotes
      else if k \<in> {''category'', ''categorie'', ''cat''} then Some KeyCategory
      else if k \<in> {''tag'', ''tags''} then Some KeyTags
      else if k \<in> {''type'', ''kind''} then Some KeyType
      else if k \<in> {''vault'', ''coffre'', ''vault-name''} then Some KeyVault
      else None)"

definition free_term :: "string \<Rightarrow> search_term option" where
  "free_term raw = (let token = normalize_search_text raw in if token = [] then None else Some (None, token))"

definition parse_term :: "string \<Rightarrow> search_term option" where
  "parse_term t =
     (if starts_with t ''#'' then
        (let token = normalize_search_text (tl t)
         in if token = [] then None
            else if token = ''sante'' \<or> token = ''health'' then Some (Some KeyHealth, token)
            else Some (None, token))
      else case dropWhile (\<lambda>c. c \<noteq> CHR '':'') t of
        [] \<Rightarrow> free_term t
      | _ # raw_value \<Rightarrow>
          let raw_key = takeWhile (\<lambda>c. c \<noteq> CHR '':'') t in
          if raw_key = [] \<or> raw_value = [] then free_term t
          else
            let v = normalize_search_text raw_value in
            if v = [] then None
            else case search_key_of (normalize_search_text raw_key) of
              Some k \<Rightarrow> Some (Some k, v)
            | None \<Rightarrow> Some (None, normalize_search_text t))"

definition parse_search_terms :: "string \<Rightarrow> search_term list" where
  "parse_search_terms query =
     filter (\<lambda>(_, v). v \<noteq> []) (List.map_filter parse_term (join_fields (split_whitespace query)))"

section \<open>Rows and filters\<close>

datatype secret_category_filter = AllCategories | OnlyKind secret_type
datatype audit_filter = AllAudits | WeakOnly | DuplicateOnly

record secret_row_view =
  rv_secret_id :: uuid
  rv_vault_id :: uuid
  rv_icon_name :: string
  rv_type_label :: string
  rv_title :: string
  rv_created_at :: string
  rv_login :: string
  rv_email :: string
  rv_url :: string
  rv_notes :: string
  rv_category :: string
  rv_tags :: string
  rv_has_secret :: bool
  rv_kind :: secret_type
  rv_color_class :: string
  rv_is_weak :: bool
  rv_is_duplicate :: bool
  rv_is_health_access :: bool
  rv_usage_count :: "32 word"
  rv_vault_name :: string
  rv_vault_access :: "bool \<times> bool \<times> bool"

record secret_filter_meta =
  fm_searchable_text :: string
  fm_title_text :: string
  fm_login_text :: string
  fm_email_text :: string
  fm_url_text :: string
  fm_notes_text :: string
  fm_category_text :: string
  fm_tags_text :: string
  fm_type_text :: string
  fm_vault_name_text :: string
  fm_kind :: secret_type
  fm_original_rank :: nat
  fm_is_weak :: bool
  fm_is_duplicate :: bool
  fm_is_health :: bool
  fm_is_incomplete :: bool
  fm_is_never_used :: bool

definition matches_search_term :: "secret_filter_meta \<Rightarrow> search_term \<Rightarrow> bool" where
  "matches_search_term m t =
     (if snd t = [] then True
      else case fst t of
        Some KeyTitle \<Rightarrow> token_matches_haystack (snd t) (fm_title_text m)
      | Some KeyLogin \<Rightarrow> token_matches_haystack (snd t) (fm_login_text m)
      | Some KeyEmail \<Rightarrow> token_matches_haystack (snd t) (fm_email_text m)
      | Some KeyUrl \<Rightarrow> token_matches_haystack (snd t) (fm_url_text m)
      | Some KeyNotes \<Rightarrow> token_matches_haystack (snd t) (fm_notes_text m)
      | Some KeyCategory \<Rightarrow> token_matches_haystack (snd t) (fm_category_text m)
      | Some KeyTags \<Rightarrow> token_matches_haystack (snd t) (fm_tags_text m)
      | Some KeyType \<Rightarrow> token_matches_haystack (snd t) (fm_type_text m)
      | Some KeyVault \<Rightarrow> token_matches_haystack (snd t) (fm_vault_name_text m)
      | Some KeyHealth \<Rightarrow> fm_is_health m
      | None \<Rightarrow> token_matches_haystack (snd t) (fm_searchable_text m))"

definition shows_secret :: "string \<Rightarrow> secret_category_filter \<Rightarrow> audit_filter \<Rightarrow> secret_filter_meta \<Rightarrow> bool" where
  "shows_secret query category audit m =
     ((let terms = parse_search_terms query in terms = [] \<or> list_all (matches_search_term m) terms)
      \<and> (case category of AllCategories \<Rightarrow> True | OnlyKind k \<Rightarrow> fm_kind m = k)
      \<and> (case audit of AllAudits \<Rightarrow> True | WeakOnly \<Rightarrow> fm_is_weak m | DuplicateOnly \<Rightarrow> fm_is_duplicate m))"

fun kind_terms :: "secret_type \<Rightarrow> string" where
  "kind_terms Password = ''password motdepasse mdp''"
| "kind_terms ApiToken = ''token api acces''"
| "kind_terms SshKey = ''ssh cle key''"
| "kind_terms SecureDocument = ''document fichier''"

text \<open>The count of uses with those since the load.\<close>

definition usage_count_live :: "(uuid \<rightharpoonup> 32 word) \<Rightarrow> secret_row_view \<Rightarrow> 32 word" where
  "usage_count_live usage_counts row =
     (case usage_counts (rv_secret_id row) of Some n \<Rightarrow> n | None \<Rightarrow> rv_usage_count row)"

definition filter_meta :: "(bool \<Rightarrow> string) \<Rightarrow> string \<Rightarrow> (uuid \<rightharpoonup> 32 word) \<Rightarrow> nat \<Rightarrow> secret_row_view \<Rightarrow> secret_filter_meta" where
  "filter_meta strength_label unavailable usage_counts rank item =
     \<lparr>fm_searchable_text = normalize_search_text (join_space
        [rv_title item, rv_type_label item, rv_login item, rv_email item, rv_url item, rv_notes item,
         rv_category item, rv_tags item, rv_created_at item,
         (if rv_kind item \<noteq> Password then [] else if rv_has_secret item then strength_label (rv_is_weak item)
          else unavailable), rv_vault_name item]),
      fm_title_text = normalize_search_text (rv_title item),
      fm_login_text = normalize_search_text (rv_login item),
      fm_email_text = normalize_search_text (rv_email item),
      fm_url_text = normalize_search_text (rv_url item),
      fm_notes_text = normalize_search_text (rv_notes item),
      fm_category_text = normalize_search_text (rv_category item),
      fm_tags_text = normalize_search_text (rv_tags item),
      fm_type_text = normalize_search_text (join_space [rv_type_label item, kind_terms (rv_kind item)]),
      fm_vault_name_text = normalize_search_text (rv_vault_name item),
      fm_kind = rv_kind item, fm_original_rank = rank, fm_is_weak = rv_is_weak item,
      fm_is_duplicate = rv_is_duplicate item, fm_is_health = rv_is_health_access item,
      fm_is_incomplete = (\<not> rv_has_secret item \<or> trim (rv_login item) = [] \<or> trim (rv_url item) = []),
      fm_is_never_used = (usage_count_live usage_counts item = 0)\<rparr>"

text \<open>
  The rows are sorted before they are rendered, the most used first, then by title; their rank in this order is
  what the list knows as their original rank. \<open>sort_by\<close> is stable.
\<close>

definition ranked_rows :: "(uuid \<rightharpoonup> 32 word) \<Rightarrow> secret_row_view list \<Rightarrow> secret_row_view list" where
  "ranked_rows usage_counts items =
     sort_key (\<lambda>row. 2 ^ 32 - unat (usage_count_live usage_counts row)) (sort_key rv_title items)"

definition rendered_metas :: "(bool \<Rightarrow> string) \<Rightarrow> string \<Rightarrow> (uuid \<rightharpoonup> 32 word) \<Rightarrow> secret_row_view list
    \<Rightarrow> secret_filter_meta list" where
  "rendered_metas strength_label unavailable usage_counts items =
     map (\<lambda>(rank, row). filter_meta strength_label unavailable usage_counts rank row)
       (enumerate 0 (ranked_rows usage_counts items))"

section \<open>Order of the list\<close>

datatype secret_sort_mode = SortRecent | SortTitle | SortRisk

datatype comparison = Less | Equal | Greater

definition compare :: "'a :: linorder \<Rightarrow> 'a \<Rightarrow> comparison" where
  "compare x y = (if x < y then Less else if x = y then Equal else Greater)"

fun then_compare :: "comparison \<Rightarrow> comparison \<Rightarrow> comparison" where
  "then_compare Equal c = c"
| "then_compare c _ = c"

definition risk_score :: "secret_filter_meta \<Rightarrow> nat" where
  "risk_score m = of_bool (fm_is_weak m) + of_bool (fm_is_duplicate m)"

fun compare_meta :: "secret_sort_mode \<Rightarrow> secret_filter_meta \<Rightarrow> secret_filter_meta \<Rightarrow> comparison" where
  "compare_meta SortRecent l r = compare (fm_original_rank l) (fm_original_rank r)"
| "compare_meta SortTitle l r =
     then_compare (compare (fm_title_text l) (fm_title_text r))
       (compare (fm_original_rank l) (fm_original_rank r))"
| "compare_meta SortRisk l r =
     then_compare (then_compare (compare (risk_score r) (risk_score l)) (compare (fm_title_text l) (fm_title_text r)))
       (compare (fm_original_rank l) (fm_original_rank r))"

definition flow_compare :: "secret_sort_mode \<Rightarrow> (string \<rightharpoonup> secret_filter_meta) \<Rightarrow> string \<Rightarrow> string \<Rightarrow> comparison" where
  "flow_compare mode store l r =
     (case store l of None \<Rightarrow> compare l r
      | Some lm \<Rightarrow> (case store r of None \<Rightarrow> compare l r | Some rm \<Rightarrow> compare_meta mode lm rm))"

section \<open>Counters beside the list\<close>

record audit_counts =
  ac_all :: nat
  ac_weak :: nat
  ac_duplicate :: nat
  ac_non_compliant :: nat
  ac_incomplete :: nat
  ac_never_used :: nat
  ac_status_page :: bool

text \<open>The children of the list that pass the filter decide whether the page for an empty result shows.\<close>

definition apply_filters :: "string \<Rightarrow> secret_category_filter \<Rightarrow> audit_filter \<Rightarrow> secret_filter_meta list \<Rightarrow> audit_counts" where
  "apply_filters query category audit metas =
     \<lparr>ac_all = length metas,
      ac_weak = length (filter fm_is_weak metas),
      ac_duplicate = length (filter fm_is_duplicate metas),
      ac_non_compliant = length (filter (\<lambda>m. fm_is_weak m \<or> fm_is_duplicate m) metas),
      ac_incomplete = length (filter fm_is_incomplete metas),
      ac_never_used = length (filter fm_is_never_used metas),
      ac_status_page = (length (filter (shows_secret query category audit) metas) = 0)\<rparr>"

section \<open>Health accesses\<close>

fun trim_start_www :: "string \<Rightarrow> string" where
  "trim_start_www (a # b # c # d # r) =
     (if [a, b, c, d] = ''www.'' then trim_start_www r else a # b # c # d # r)"
| "trim_start_www s = s"

definition url_host_from_raw :: "string \<Rightarrow> string" where
  "url_host_from_raw url =
     (let trimmed = trim url;
          without_scheme =
            (if starts_with trimmed ''https://'' then drop 8 trimmed
             else if starts_with trimmed ''http://'' then drop 7 trimmed else trimmed)
      in map ascii_lower (trim_start_www (takeWhile (\<lambda>c. c \<notin> {CHR ''/'', CHR ''?'', CHR ''#''}) without_scheme)))"

definition contains_any_phrase :: "string \<Rightarrow> string list \<Rightarrow> bool" where
  "contains_any_phrase haystack phrases = list_ex (\<lambda>phrase. contains phrase haystack) phrases"

definition excluded_phrases :: "string list" where
  "excluded_phrases = [''assurance auto'', ''assurance habitation'', ''assurance voyage'', ''animal'', ''animaux'',
     ''beaute'', ''cosmetique'', ''fitness'', ''sport'', ''voyage'', ''veterinaire'']"

definition health_hosts :: "string list" where
  "health_hosts = [''ameli.fr'', ''doctolib.fr'', ''monespacesante.fr'', ''esante.gouv.fr'', ''mssante.fr'',
     ''qare.fr'', ''maiia.com'', ''medadom.com'']"

definition strong_phrases :: "string list" where
  "strong_phrases = [''ameli'', ''carte vitale'', ''cpam'', ''doctolib'', ''dossier medical'', ''medecin traitant'',
     ''mon espace sante'', ''mutuelle sante'', ''ordonnance'', ''patient portal'', ''rpps'', ''teleconsultation'',
     ''telemedecine'']"

definition weak_phrases :: "string list" where
  "weak_phrases = [''analyses'', ''clinique'', ''hopital'', ''laboratoire'', ''medical'', ''medecin'', ''pharmacie'',
     ''patient'', ''radiologie'', ''resultats'', ''soins'']"

definition classify_health_access ::
    "string \<Rightarrow> string \<Rightarrow> string \<Rightarrow> string \<Rightarrow> string \<Rightarrow> string \<Rightarrow> string \<Rightarrow> bool" where
  "classify_health_access title login url notes category tags type_label =
     (let normalized_text = normalize_search_text (join_space [title, login, url, notes, category, tags, type_label])
      in if contains_any_phrase normalized_text excluded_phrases then False
         else if contains_any_phrase (url_host_from_raw url) health_hosts then True
         else
           let score = (if contains_any_phrase normalized_text strong_phrases then 4 else 0)
                     + (if contains_any_phrase normalized_text weak_phrases then 2 else 0) :: int
           in 4 \<le> score)"

section \<open>One edit\<close>

text \<open>The edit distance, as the number of letters changed, left out or added.\<close>

fun edit_distance :: "'a list \<Rightarrow> 'a list \<Rightarrow> nat" where
  "edit_distance [] ys = length ys"
| "edit_distance xs [] = length xs"
| "edit_distance (x # xs) (y # ys) =
     min (edit_distance xs ys + (if x = y then 0 else 1))
         (min (1 + edit_distance xs (y # ys)) (1 + edit_distance (x # xs) ys))"

lemma edit_distance_Nil [simp]: "edit_distance xs [] = length xs"
  by (cases xs) simp_all

lemma edit_distance_0 [simp]: "edit_distance xs ys = 0 \<longleftrightarrow> xs = ys"
  by (induction xs ys rule: edit_distance.induct) (auto simp: min_def split: if_splits)

lemma edit_distance_same [simp]: "edit_distance xs xs = 0"
  by simp

lemma edit_distance_longer: "edit_distance (x # xs) xs \<le> 1" "edit_distance xs (x # xs) \<le> 1"
  by (cases xs; simp add: min_le_iff_disj)+

lemma edit_distance_1:
  "edit_distance (x # xs) (y # ys) \<le> 1 \<longleftrightarrow>
     (if x = y then edit_distance xs ys \<le> 1 else xs = ys \<or> xs = y # ys \<or> x # xs = ys)"
  using edit_distance_longer [where x = y and xs = ys] edit_distance_longer [where x = x and xs = xs]
  by (auto simp: min_le_iff_disj Suc_le_eq simp del: One_nat_def)

lemma edit_distance_length: "\<bar>int (length xs) - int (length ys)\<bar> \<le> int (edit_distance xs ys)"
  by (induction xs ys rule: edit_distance.induct) (auto simp: min_def)

lemma edit_loop_used: "edit_loop L R xs ys 1 \<longleftrightarrow> xs = ys"
  by (induction L R xs ys "1 :: nat" rule: edit_loop.induct) auto

lemma edit_loop_fresh:
  assumes "int (length xs) - int (length ys) = int L - int R" "\<bar>int L - int R\<bar> \<le> 1"
  shows "edit_loop L R xs ys 0 \<longleftrightarrow> edit_distance xs ys \<le> 1"
  using assms
proof (induction L R xs ys "0 :: nat" rule: edit_loop.induct)
  case (1 L R x xs y ys)
  show ?case
  proof (cases "x = y")
    case True
    then show ?thesis unfolding edit_loop.simps(1) edit_distance_1 using 1 by simp
  next
    case False
    have one: "(0 :: nat) + 1 = 1" by simp
    show ?thesis unfolding edit_loop.simps(1) one edit_loop_used edit_distance_1 using False 1(5,6)
      by (auto dest!: arg_cong [of _ _ length])
  qed
qed auto

lemma within_one_edit_distance: "within_one_edit xs ys = (edit_distance xs ys \<le> 1)"
proof (cases "\<bar>int (length xs) - int (length ys)\<bar> \<le> 1")
  case True
  then show ?thesis by (simp add: within_one_edit_def edit_loop_fresh)
next
  case False
  then show ?thesis using edit_distance_length [of xs ys] by (simp add: within_one_edit_def)
qed

text \<open>
  C39: The one-pass comparison of the search box is the edit distance: two texts of characters
  of any lengths are within one edit for it exactly if at most one letter changed, left out or added makes one
  of the other.
\<close>

theorem within_one_edit_is_distance_one: "within_one_edit xs ys = (edit_distance xs ys \<le> 1)"
  by (rule within_one_edit_distance)

section \<open>Order shown\<close>

text \<open>The order as stable sorting of the rows as loaded.\<close>

fun display_order :: "secret_sort_mode \<Rightarrow> secret_filter_meta list \<Rightarrow> secret_filter_meta list" where
  "display_order SortRecent ms = sort_key fm_original_rank ms"
| "display_order SortTitle ms = sort_key fm_title_text (sort_key fm_original_rank ms)"
| "display_order SortRisk ms =
     sort_key (\<lambda>m. 2 - risk_score m) (sort_key fm_title_text (sort_key fm_original_rank ms))"

lemma sorted_wrt_insort:
  assumes "sorted_wrt (\<lambda>a b. f a < f b \<or> f a = f b \<and> Q a b) zs" "\<forall>z \<in> set zs. Q x z"
  shows "sorted_wrt (\<lambda>a b. f a < f b \<or> f a = f b \<and> Q a b) (insort_key f x zs)"
  using assms by (induction zs) (auto simp: set_insort_key not_le order.order_iff_strict dest: less_trans)

lemma sorted_wrt_sort_key:
  "sorted_wrt Q ys \<Longrightarrow> sorted_wrt (\<lambda>a b. f a < f b \<or> f a = f b \<and> Q a b) (sort_key f ys)"
  by (induction ys) (auto intro!: sorted_wrt_insort)

lemma risk_score_le: "risk_score m \<le> 2"
  by (simp add: risk_score_def)

lemma compare_simps [simp]:
  "compare x y \<noteq> Greater \<longleftrightarrow> x \<le> y" "compare x y = Equal \<longleftrightarrow> x = y" "compare x y = Less \<longleftrightarrow> x < y"
  by (auto simp: compare_def)

lemma then_compare_not_greater:
  "then_compare c d \<noteq> Greater \<longleftrightarrow> c = Less \<or> c = Equal \<and> d \<noteq> Greater"
  by (cases c) simp_all

lemma then_compare_equal [simp]: "then_compare c d = Equal \<longleftrightarrow> c = Equal \<and> d = Equal"
  by (cases c) simp_all

lemma then_compare_less [simp]: "then_compare c d = Less \<longleftrightarrow> c = Less \<or> c = Equal \<and> d = Less"
  by (cases c) simp_all

lemma compare_meta_iff:
  "compare_meta SortRecent l r \<noteq> Greater \<longleftrightarrow> fm_original_rank l \<le> fm_original_rank r"
  "compare_meta SortTitle l r \<noteq> Greater \<longleftrightarrow>
     fm_title_text l < fm_title_text r \<or> fm_title_text l = fm_title_text r \<and> fm_original_rank l \<le> fm_original_rank r"
  "compare_meta SortRisk l r \<noteq> Greater \<longleftrightarrow>
     2 - risk_score l < 2 - risk_score r \<or> 2 - risk_score l = 2 - risk_score r \<and>
       (fm_title_text l < fm_title_text r \<or> fm_title_text l = fm_title_text r \<and> fm_original_rank l \<le> fm_original_rank r)"
  using risk_score_le [of l] risk_score_le [of r] by (auto simp: then_compare_not_greater)

lemma compare_meta_antisym:
  "compare_meta mode l r \<noteq> Greater \<Longrightarrow> compare_meta mode r l \<noteq> Greater \<Longrightarrow> fm_original_rank l = fm_original_rank r"
  by (cases mode) (auto simp: compare_meta_iff simp del: compare_meta.simps)

lemma display_order_sorted: "sorted_wrt (\<lambda>l r. compare_meta mode l r \<noteq> Greater) (display_order mode ms)"
proof -
  have rank: "sorted_wrt (\<lambda>l r. fm_original_rank l \<le> fm_original_rank r) (sort_key fm_original_rank ms)"
    using sorted_sort_key [of fm_original_rank ms] by (simp add: sorted_map)
  note title = sorted_wrt_sort_key [OF rank, of fm_title_text]
  note risk = sorted_wrt_sort_key [OF title, of "\<lambda>m. 2 - risk_score m"]
  show ?thesis
    by (cases mode) (simp_all add: compare_meta_iff rank title risk del: compare_meta.simps)
qed

lemma mset_display_order: "mset (display_order mode ms) = mset ms"
  by (cases mode) simp_all

lemma sorted_wrt_unique:
  assumes "sorted_wrt R xs" "sorted_wrt R ys" "mset xs = mset ys"
    and "\<And>x y. x \<in> set xs \<Longrightarrow> y \<in> set xs \<Longrightarrow> R x y \<Longrightarrow> R y x \<Longrightarrow> x = y"
  shows "xs = ys"
  using assms
proof (induction xs arbitrary: ys)
  case Nil
  then show ?case by simp
next
  case (Cons x xs)
  then obtain y zs where ys: "ys = y # zs" by (cases ys) auto
  have "y = x"
  proof (rule ccontr)
    assume "y \<noteq> x"
    then have "x \<in> set zs" "y \<in> set xs"
      using Cons.prems(3) ys by (metis mset_eq_setD set_ConsD list.set_intros(1))+
    then show False using Cons.prems(1,2,4) ys \<open>y \<noteq> x\<close> by auto
  qed
  then show ?case using Cons.IH [of zs] Cons.prems ys by auto
qed

lemma rendered_ranks: "map fm_original_rank (rendered_metas sl un live items) = [0..<length items]"
  by (simp add: rendered_metas_def ranked_rows_def comp_def case_prod_beta filter_meta_def)

text \<open>
  The list the user sees has one order only: however the widget arranges the loaded rows so that its
  comparison function never answers "greater" for an earlier row, the result is the stable sort by the chosen
  mode (as rendered, that is most used first and then by title; by normalised title; riskiest first, then by title),
  because the rows get different ranks when they are rendered.
\<close>

theorem display_order_is_unique:
  assumes "rows = rendered_metas strength_label unavailable usage_counts items"
    and "mset shown = mset rows"
    and "sorted_wrt (\<lambda>l r. compare_meta mode l r \<noteq> Greater) shown"
  shows "shown = display_order mode rows"
proof -
  have distinct: "distinct (map fm_original_rank rows)" unfolding assms(1) rendered_ranks by simp
  show ?thesis
  proof (rule sorted_wrt_unique [OF assms(3) display_order_sorted])
    show "mset shown = mset (display_order mode rows)" by (simp add: assms(2) mset_display_order)
  next
    fix l r assume "l \<in> set shown" "r \<in> set shown" "compare_meta mode l r \<noteq> Greater" "compare_meta mode r l \<noteq> Greater"
    moreover from this have "fm_original_rank l = fm_original_rank r" by (blast intro: compare_meta_antisym)
    ultimately show "l = r"
      using distinct mset_eq_setD [OF assms(2)] by (auto simp: distinct_map dest: inj_onD)
  qed
qed

section \<open>Finding a secret by its title\<close>






lemma blank_space [simp]: "ascii_blank CHR '' ''"
  by (simp add: ascii_blank_def white_space_def)
































text \<open>The title is Cafe-Creme with both its accents (in UTF-8); the query has none, and one slip.\<close>

definition sample_item :: secret_row_view where
  "sample_item = \<lparr>rv_secret_id = 5, rv_vault_id = 10, rv_icon_name = ''hv-key-symbolic'', rv_type_label = ''Password'', rv_title = ''Caf'' @ [CHR 0xC3, CHR 0xA9] @ ''-Cr'' @ [CHR 0xC3, CHR 0xA8] @ ''me'',
     rv_created_at = ''2026-01-01'', rv_login = ''amy'', rv_email = [], rv_url = [], rv_notes = [], rv_category = [],
     rv_tags = [], rv_has_secret = True, rv_kind = Password, rv_color_class = ''secret-type-password'', rv_is_weak = False, rv_is_duplicate = False,
     rv_is_health_access = False, rv_usage_count = 0, rv_vault_name = ''home'',
     rv_vault_access = (False, True, True)\<rparr>"



theorem display_order_is_unique_witness:
  "\<exists>a b. rendered_metas (\<lambda>_. []) [] (\<lambda>_. None) [sample_item, sample_item\<lparr>rv_is_weak := True\<rparr>] = [a, b]
    \<and> [b, a] = display_order SortRisk [a, b] \<and> \<not> fm_is_weak a \<and> fm_is_weak b"
proof -
  let ?items = "[sample_item, sample_item\<lparr>rv_is_weak := True\<rparr>]"
  define a where "a = filter_meta (\<lambda>_. []) [] (\<lambda>_. None) 0 sample_item"
  define b where "b = filter_meta (\<lambda>_. []) [] (\<lambda>_. None) 1 (sample_item\<lparr>rv_is_weak := True\<rparr>)"
  have facts: "\<not> fm_is_weak a" "fm_is_weak b" "risk_score a = 0" "risk_score b = 1"
    by (simp_all add: a_def b_def filter_meta_def risk_score_def sample_item_def)
  have rows: "[a, b] = rendered_metas (\<lambda>_. []) [] (\<lambda>_. None) ?items"
    by (simp add: rendered_metas_def ranked_rows_def a_def b_def usage_count_live_def)
  have "[b, a] = display_order SortRisk [a, b]"
    by (rule display_order_is_unique [OF rows]) (simp_all add: facts add_mset_commute compare_def)
  then show ?thesis using facts rows by metis
qed

end
