(* ===== verification/HV_Clipboard.thy ===== *)
theory HV_Clipboard
  imports HV_Prelude
begin

text \<open>
  The clipboard of the desktop application, ui/sensitive_clipboard.rs, in the variant for systems other than
  Windows: the ledger of copies, the provider that serves a copied secret until it expires, the exposure that
  is published, and the events of the main loop (timer, change of owner, lock). What GTK keeps is part of the
  state: the owner of the clipboard, the contents it was given, the timers, focus and time in milliseconds.
  The listeners are a log of what they are told; a call back from a listener into the module is not modelled.
\<close>

section \<open>Ledger and exposure\<close>

definition SECRET_CLEAR_DELAY :: nat where "SECRET_CLEAR_DELAY = 20 * 1000"
definition RECOVERY_PHRASE_CLEAR_DELAY :: nat where "RECOVERY_PHRASE_CLEAR_DELAY = 60 * 1000"
definition SNAPSHOT_WINDOW :: nat where "SNAPSHOT_WINDOW = 150"

definition serves_secret :: "nat \<Rightarrow> bool \<Rightarrow> bool" where
  "serves_secret since_copy expired \<longleftrightarrow> \<not> expired \<and> SNAPSHOT_WINDOW \<le> since_copy"

datatype sensitive_kind = KindPassword | KindLogin | KindRecoveryPhrase

datatype exposure = Idle | Decrypting | InClipboard sensitive_kind nat nat

record active_copy =
  ac_kind :: sensitive_kind
  ac_copied_at :: nat
  ac_expires_at :: nat

fun exposure_of :: "active_copy option \<Rightarrow> 32 word \<Rightarrow> exposure" where
  "exposure_of (Some copy) decrypting = InClipboard (ac_kind copy) (ac_copied_at copy) (ac_expires_at copy)"
| "exposure_of None decrypting = (if 0 < decrypting then Decrypting else Idle)"

record ledger =
  lg_generation :: "64 word"
  lg_pending :: bool

definition record_copy :: "ledger \<Rightarrow> 64 word \<times> ledger" where
  "record_copy l = (lg_generation l + 1, l\<lparr>lg_generation := lg_generation l + 1, lg_pending := True\<rparr>)"

definition ledger_expire :: "64 word \<Rightarrow> bool \<Rightarrow> ledger \<Rightarrow> bool \<times> ledger" where
  "ledger_expire generation clipboard_is_ours l =
     (if \<not> lg_pending l \<or> generation \<noteq> lg_generation l then (False, l)
      else (clipboard_is_ours, l\<lparr>lg_pending := False\<rparr>))"

definition take_pending :: "bool \<Rightarrow> ledger \<Rightarrow> bool \<times> ledger" where
  "take_pending clipboard_is_ours l = (lg_pending l \<and> clipboard_is_ours, l\<lparr>lg_pending := False\<rparr>)"

section \<open>State\<close>

text \<open>What a provider holds; who owns the clipboard: one of the providers, an empty text of the application, or
another application with a text.\<close>

record secret_content =
  ct_secret :: "string option"
  ct_copied_at :: nat

datatype selection = Provider nat | Emptied | Elsewhere string

record timer =
  tm_source :: nat
  tm_due :: nat
  tm_generation :: "64 word"

record clipboard =
  cb_ledger :: ledger
  cb_timer :: "nat option"
  cb_content :: "nat option"
  cb_active :: "active_copy option"
  cb_decrypting :: "32 word"
  cb_watching :: bool
  gt_display :: bool
  gt_focus :: bool
  gt_now :: nat
  gt_owner :: selection
  gt_contents :: "nat \<rightharpoonup> secret_content"
  gt_timers :: "timer list"
  gt_fresh :: nat
  gt_told :: "exposure list"

definition is_local :: "clipboard \<Rightarrow> bool" where
  "is_local c = (case gt_owner c of Elsewhere _ \<Rightarrow> False | _ \<Rightarrow> True)"

definition current_exposure :: "clipboard \<Rightarrow> exposure" where
  "current_exposure c = exposure_of (cb_active c) (cb_decrypting c)"

definition notify :: "clipboard \<Rightarrow> clipboard" where
  "notify c = c\<lparr>gt_told := gt_told c @ [current_exposure c]\<rparr>"

section \<open>Operations\<close>

definition expire_provider :: "nat \<Rightarrow> clipboard \<Rightarrow> clipboard" where
  "expire_provider i c = c\<lparr>gt_contents := (gt_contents c)(i := map_option (ct_secret_update (\<lambda>_. None)) (gt_contents c i))\<rparr>"

definition cancel_timer :: "clipboard \<Rightarrow> clipboard" where
  "cancel_timer c = (case cb_timer c of
     None \<Rightarrow> c
   | Some source \<Rightarrow> c\<lparr>cb_timer := None, gt_timers := filter (\<lambda>t. tm_source t \<noteq> source) (gt_timers c)\<rparr>)"

definition expire_content :: "clipboard \<Rightarrow> clipboard" where
  "expire_content c = (case cb_content c of
     None \<Rightarrow> c | Some i \<Rightarrow> expire_provider i (c\<lparr>cb_content := None\<rparr>))"

definition wipe_owned_clipboard :: "clipboard \<Rightarrow> clipboard" where
  "wipe_owned_clipboard c = (if gt_focus c then c\<lparr>gt_owner := Emptied\<rparr> else c)"

definition watch_clipboard :: "clipboard \<Rightarrow> clipboard" where
  "watch_clipboard c = c\<lparr>cb_watching := True\<rparr>"

text \<open>\<open>accepted\<close>: whether GDK takes the content.\<close>

definition copy_sensitive :: "bool \<Rightarrow> string \<Rightarrow> sensitive_kind \<Rightarrow> nat \<Rightarrow> clipboard \<Rightarrow> bool \<times> clipboard" where
  "copy_sensitive accepted content_text kind clear_after c =
     (if \<not> gt_display c then (False, c)
      else
        let i = gt_fresh c;
            c = c\<lparr>gt_fresh := i + 1, gt_contents := (gt_contents c)(i \<mapsto>
              \<lparr>ct_secret = Some content_text, ct_copied_at = gt_now c\<rparr>)\<rparr>
        in if \<not> accepted then (False, expire_provider i c)
        else
          let c = watch_clipboard (c\<lparr>gt_owner := Provider i\<rparr>);
              c = expire_content (cancel_timer c);
              copied_at = gt_now c;
              (generation, l) = record_copy (cb_ledger c);
              source = gt_fresh c
          in (True, notify (c\<lparr>cb_content := Some i,
               cb_active := Some \<lparr>ac_kind = kind, ac_copied_at = copied_at, ac_expires_at = copied_at + clear_after\<rparr>,
               cb_ledger := l, cb_timer := Some source, gt_fresh := source + 1,
               gt_timers := gt_timers c @ [\<lparr>tm_source = source, tm_due = copied_at + clear_after,
                 tm_generation = generation\<rparr>]\<rparr>)))"

text \<open>A timer that is due: its source is removed by the main loop.\<close>

definition timer_fires :: "timer \<Rightarrow> clipboard \<Rightarrow> clipboard" where
  "timer_fires t c =
     (let c = c\<lparr>gt_timers := filter (\<lambda>u. tm_source u \<noteq> tm_source t) (gt_timers c), cb_timer := None\<rparr>;
          c = (expire_content c)\<lparr>cb_active := None\<rparr>
      in notify (if gt_display c
         then (case ledger_expire (tm_generation t) (is_local c) (cb_ledger c) of
             (wipe, l) \<Rightarrow> if wipe then wipe_owned_clipboard (c\<lparr>cb_ledger := l\<rparr>) else c\<lparr>cb_ledger := l\<rparr>)
         else c))"

definition clear_now :: "clipboard \<Rightarrow> clipboard" where
  "clear_now c =
     (let c = (expire_content (cancel_timer c))\<lparr>cb_active := None\<rparr>
      in notify (if gt_display c
         then (case take_pending (is_local c) (cb_ledger c) of
             (wipe, l) \<Rightarrow> if wipe then wipe_owned_clipboard (c\<lparr>cb_ledger := l\<rparr>) else c\<lparr>cb_ledger := l\<rparr>)
         else c))"

text \<open>Another application takes the clipboard, and the handler of the signal \<open>changed\<close> runs.\<close>

definition clipboard_changed :: "clipboard \<Rightarrow> clipboard" where
  "clipboard_changed c =
     (if \<not> cb_watching c \<or> is_local c \<or> cb_active c = None then c
      else let c = (expire_content (cancel_timer c))\<lparr>cb_active := None\<rparr>
        in notify (c\<lparr>cb_ledger := snd (take_pending False (cb_ledger c))\<rparr>))"

definition taken_over :: "string \<Rightarrow> clipboard \<Rightarrow> clipboard" where
  "taken_over foreign c = clipboard_changed (c\<lparr>gt_owner := Elsewhere foreign\<rparr>)"

definition begin_decrypting :: "clipboard \<Rightarrow> clipboard" where
  "begin_decrypting c = notify (c\<lparr>cb_decrypting := (if cb_decrypting c = - 1 then - 1 else cb_decrypting c + 1)\<rparr>)"

definition drop_decrypting :: "clipboard \<Rightarrow> clipboard" where
  "drop_decrypting c = notify (c\<lparr>cb_decrypting := (if cb_decrypting c = 0 then 0 else cb_decrypting c - 1)\<rparr>)"

text \<open>What a paste receives (\<open>current_text\<close> for a provider).\<close>

definition current_text :: "nat \<Rightarrow> secret_content \<Rightarrow> string" where
  "current_text now s = (case ct_secret s of
     Some content_text \<Rightarrow> if serves_secret (now - ct_copied_at s) False then content_text else []
   | None \<Rightarrow> [])"

definition pasted :: "clipboard \<Rightarrow> string" where
  "pasted c = (case gt_owner c of
     Provider i \<Rightarrow> (case gt_contents c i of Some s \<Rightarrow> current_text (gt_now c) s | None \<Rightarrow> [])
   | Emptied \<Rightarrow> []
   | Elsewhere foreign \<Rightarrow> foreign)"

section \<open>Events\<close>

inductive clipboard_step :: "clipboard \<Rightarrow> clipboard \<Rightarrow> bool" where
  copied: "clipboard_step c (snd (copy_sensitive accepted content_text kind clear_after c))"
| expired: "t \<in> set (gt_timers c) \<Longrightarrow> tm_due t \<le> gt_now c \<Longrightarrow> clipboard_step c (timer_fires t c)"
| cleared: "clipboard_step c (clear_now c)"
| foreign: "clipboard_step c (taken_over content_text c)"
| decrypting: "clipboard_step c (begin_decrypting c)"
| decrypted: "clipboard_step c (drop_decrypting c)"
| focused: "clipboard_step c (c\<lparr>gt_focus := b\<rparr>)"
| passed: "gt_now c \<le> n \<Longrightarrow> clipboard_step c (c\<lparr>gt_now := n\<rparr>)"

definition initial_clipboard :: "bool \<Rightarrow> string \<Rightarrow> clipboard" where
  "initial_clipboard display foreign = \<lparr>cb_ledger = \<lparr>lg_generation = 0, lg_pending = False\<rparr>, cb_timer = None,
     cb_content = None, cb_active = None, cb_decrypting = 0, cb_watching = False, gt_display = display, gt_focus = False,
     gt_now = 0, gt_owner = Elsewhere foreign, gt_contents = Map.empty, gt_timers = [], gt_fresh = 0, gt_told = []\<rparr>"

inductive clipboard_run :: "clipboard \<Rightarrow> bool" where
  start: "clipboard_run (initial_clipboard display foreign)"
| step: "clipboard_run c \<Longrightarrow> clipboard_step c c' \<Longrightarrow> clipboard_run c'"

inductive_cases clipboard_stepE: "clipboard_step c c'"

section \<open>Invariant\<close>

text \<open>
  No copy is out, and then nothing is left of any; or one is, and then its provider alone holds a secret and
  owns the clipboard, and its timer alone is set, for its generation and the time it expires.
\<close>

definition no_copy :: "clipboard \<Rightarrow> bool" where
  "no_copy c \<longleftrightarrow> cb_active c = None \<and> cb_content c = None \<and> cb_timer c = None \<and> gt_timers c = []
     \<and> \<not> lg_pending (cb_ledger c) \<and> (\<forall>i s. gt_contents c i = Some s \<longrightarrow> ct_secret s = None)"

definition one_copy :: "clipboard \<Rightarrow> bool" where
  "one_copy c \<longleftrightarrow> cb_watching c \<and> gt_display c \<and> lg_pending (cb_ledger c)
     \<and> (\<exists>a i s source content_text. cb_active c = Some a \<and> cb_content c = Some i \<and> gt_owner c = Provider i
          \<and> gt_contents c i = Some s \<and> ct_secret s = Some content_text \<and> ct_copied_at s = ac_copied_at a
          \<and> ac_copied_at a \<le> gt_now c
          \<and> cb_timer c = Some source
          \<and> gt_timers c = [\<lparr>tm_source = source, tm_due = ac_expires_at a, tm_generation = lg_generation (cb_ledger c)\<rparr>]
          \<and> (\<forall>j s. j \<noteq> i \<longrightarrow> gt_contents c j = Some s \<longrightarrow> ct_secret s = None))"

definition clipboard_ok :: "clipboard \<Rightarrow> bool" where
  "clipboard_ok c \<longleftrightarrow> (no_copy c \<or> one_copy c) \<and> (\<forall>i. gt_contents c i \<noteq> None \<longrightarrow> i < gt_fresh c)"

lemmas clipboard_defs = no_copy_def one_copy_def clipboard_ok_def

text \<open>What is left when the timer is cancelled and the content expired.\<close>

definition released :: "clipboard \<Rightarrow> clipboard" where
  "released c = (expire_content (cancel_timer c))\<lparr>cb_active := None\<rparr>"

lemma released_facts:
  assumes "clipboard_ok c"
  shows "cb_content (released c) = None" "cb_timer (released c) = None" "cb_active (released c) = None"
    "gt_timers (released c) = []" "gt_contents (released c) i = Some s \<Longrightarrow> ct_secret s = None"
    "gt_contents (released c) i \<noteq> None \<longleftrightarrow> gt_contents c i \<noteq> None"
  using assms
  by (auto simp: clipboard_defs released_def expire_content_def cancel_timer_def expire_provider_def
      split: option.splits if_splits)

lemma released_same [simp]:
  "cb_ledger (released c) = cb_ledger c" "gt_owner (released c) = gt_owner c" "gt_display (released c) = gt_display c"
  "cb_watching (released c) = cb_watching c" "gt_now (released c) = gt_now c" "gt_fresh (released c) = gt_fresh c"
  "gt_focus (released c) = gt_focus c" "cb_decrypting (released c) = cb_decrypting c" "cb_active (released c) = None"
  by (auto simp: released_def expire_content_def cancel_timer_def expire_provider_def split: option.split)

lemma is_local_released [simp]: "is_local (released c) = is_local c"
  by (simp add: is_local_def)

text \<open>The timer that fires is the one of the copy that is out, so its firing is a release as well.\<close>

lemma timer_releases:
  assumes "clipboard_ok c" "t \<in> set (gt_timers c)"
  shows "timer_fires t c = notify (case take_pending (is_local c) (cb_ledger c) of
      (wipe, l) \<Rightarrow> if wipe then wipe_owned_clipboard ((released c)\<lparr>cb_ledger := l\<rparr>) else (released c)\<lparr>cb_ledger := l\<rparr>)"
proof -
  have one: "one_copy c" using assms by (auto simp: clipboard_defs)
  then obtain source where src: "cb_timer c = Some source" "tm_source t = source" "tm_generation t = lg_generation (cb_ledger c)"
    using assms(2) by (auto simp: one_copy_def)
  then have cancelled: "c\<lparr>gt_timers := filter (\<lambda>u. tm_source u \<noteq> tm_source t) (gt_timers c), cb_timer := None\<rparr> = cancel_timer c"
    by (simp add: cancel_timer_def)
  show ?thesis
    unfolding timer_fires_def Let_def cancelled released_def [symmetric]
    using one src(3) by (simp add: ledger_expire_def take_pending_def one_copy_def)
qed

lemma clear_releases: "clear_now c = notify (if gt_display c then (case take_pending (is_local c) (cb_ledger c) of
      (wipe, l) \<Rightarrow> if wipe then wipe_owned_clipboard ((released c)\<lparr>cb_ledger := l\<rparr>) else (released c)\<lparr>cb_ledger := l\<rparr>)
    else released c)"
  unfolding clear_now_def Let_def released_def [symmetric] by (simp add: is_local_released [unfolded is_local_def] is_local_def)

lemma notify_sel [simp]:
  "cb_ledger (notify c) = cb_ledger c" "cb_timer (notify c) = cb_timer c" "cb_content (notify c) = cb_content c"
  "cb_active (notify c) = cb_active c" "cb_decrypting (notify c) = cb_decrypting c" "cb_watching (notify c) = cb_watching c"
  "gt_display (notify c) = gt_display c" "gt_focus (notify c) = gt_focus c" "gt_now (notify c) = gt_now c"
  "gt_owner (notify c) = gt_owner c" "gt_contents (notify c) = gt_contents c" "gt_timers (notify c) = gt_timers c"
  "gt_fresh (notify c) = gt_fresh c"
  by (simp_all add: notify_def)

lemma clipboard_ok_notify [simp]: "clipboard_ok (notify c) = clipboard_ok c"
  by (simp add: clipboard_defs)

lemma no_copy_released:
  assumes "clipboard_ok c" "cb_ledger d = (cb_ledger c)\<lparr>lg_pending := False\<rparr>"
    "gt_contents d = gt_contents (released c)" "cb_active d = None" "cb_content d = None" "cb_timer d = None" "gt_timers d = []"
    "gt_fresh d = gt_fresh c"
  shows "no_copy d" "clipboard_ok d"
  using released_facts [OF assms(1)] assms by (auto simp: clipboard_defs)

lemma without_display: "clipboard_ok c \<Longrightarrow> \<not> gt_display c \<Longrightarrow> no_copy c"
  by (auto simp: clipboard_defs)

lemma clear_now_result:
  assumes "clipboard_ok c"
  shows "no_copy (clear_now c)" "clipboard_ok (clear_now c)"
    "gt_owner (clear_now c) = (if lg_pending (cb_ledger c) \<and> is_local c \<and> gt_focus c then Emptied else gt_owner c)"
proof -
  note facts = released_facts [OF assms]
  have "no_copy (clear_now c) \<and> clipboard_ok (clear_now c)
    \<and> gt_owner (clear_now c) = (if lg_pending (cb_ledger c) \<and> is_local c \<and> gt_focus c then Emptied else gt_owner c)"
  proof (cases "gt_display c")
    case True
    then show ?thesis
      unfolding clear_releases
      by (auto simp: take_pending_def wipe_owned_clipboard_def facts intro!: no_copy_released [OF assms])
  next
    case False
    then have "\<not> lg_pending (cb_ledger c)" using without_display [OF assms] by (simp add: no_copy_def)
    with False show ?thesis
      unfolding clear_releases using facts assms by (auto simp: no_copy_def clipboard_ok_def)
  qed
  then show "no_copy (clear_now c)" "clipboard_ok (clear_now c)"
    "gt_owner (clear_now c) = (if lg_pending (cb_ledger c) \<and> is_local c \<and> gt_focus c then Emptied else gt_owner c)" by blast+
qed

text \<open>The timer that fires does what a lock does.\<close>

lemma timer_fires_clears:
  assumes "clipboard_ok c" "t \<in> set (gt_timers c)"
  shows "timer_fires t c = clear_now c"
proof -
  have "gt_display c" using assms by (auto simp: clipboard_defs)
  then show ?thesis by (simp add: timer_releases [OF assms] clear_releases)
qed

lemma taken_over_result:
  assumes "clipboard_ok c"
  shows "no_copy (taken_over f c)" "clipboard_ok (taken_over f c)" "gt_owner (taken_over f c) = Elsewhere f"
proof -
  let ?d = "c\<lparr>gt_owner := Elsewhere f\<rparr>"
  have rel: "released ?d = (released c)\<lparr>gt_owner := Elsewhere f\<rparr>"
    by (auto simp: released_def expire_content_def cancel_timer_def expire_provider_def split: option.split)
  have "no_copy (taken_over f c) \<and> clipboard_ok (taken_over f c) \<and> gt_owner (taken_over f c) = Elsewhere f"
  proof (cases "one_copy c")
    case True
    then have "taken_over f c = notify ((released ?d)\<lparr>cb_ledger := (cb_ledger c)\<lparr>lg_pending := False\<rparr>\<rparr>)"
      unfolding taken_over_def clipboard_changed_def Let_def released_def [symmetric]
      by (auto simp: one_copy_def is_local_def take_pending_def rel)
    then show ?thesis using released_facts [OF assms]
      by (auto simp: rel intro!: no_copy_released [OF assms])
  next
    case False
    then have "no_copy c" using assms by (simp add: clipboard_ok_def)
    then have "taken_over f c = ?d" "no_copy ?d" by (simp_all add: taken_over_def clipboard_changed_def no_copy_def)
    then show ?thesis using assms by (simp add: clipboard_ok_def)
  qed
  then show "no_copy (taken_over f c)" "clipboard_ok (taken_over f c)" "gt_owner (taken_over f c) = Elsewhere f" by blast+
qed

lemma copy_rejected:
  assumes "clipboard_ok c" "copy_sensitive accepted x kind n c = (False, c')"
  shows "clipboard_ok c'"
proof (cases "gt_display c")
  case True
  with assms(2) have c': "c' = expire_provider (gt_fresh c) (c\<lparr>gt_fresh := gt_fresh c + 1, gt_contents := (gt_contents c)(gt_fresh c \<mapsto>
      \<lparr>ct_secret = Some x, ct_copied_at = gt_now c\<rparr>)\<rparr>)"
    by (auto simp: copy_sensitive_def Let_def record_copy_def split: if_splits)
  have fresh: "gt_contents c (gt_fresh c) = None" using assms(1) by (auto simp: clipboard_ok_def)
  then have contents: "gt_contents c' = (gt_contents c)(gt_fresh c \<mapsto> \<lparr>ct_secret = None, ct_copied_at = gt_now c\<rparr>)"
    by (simp add: c' expire_provider_def)
  have "no_copy c' \<or> one_copy c'"
  proof (cases "no_copy c")
    case True
    then show ?thesis unfolding no_copy_def contents by (simp add: c' expire_provider_def)
  next
    case False
    then have "one_copy c" using assms(1) by (simp add: clipboard_ok_def)
    then obtain a i s source y where one: "cb_active c = Some a" "cb_content c = Some i" "gt_owner c = Provider i"
      "gt_contents c i = Some s" "ct_secret s = Some y" "ct_copied_at s = ac_copied_at a" "ac_copied_at a \<le> gt_now c"
      "cb_timer c = Some source"
      "gt_timers c = [\<lparr>tm_source = source, tm_due = ac_expires_at a, tm_generation = lg_generation (cb_ledger c)\<rparr>]"
      "\<forall>j s. j \<noteq> i \<longrightarrow> gt_contents c j = Some s \<longrightarrow> ct_secret s = None" "cb_watching c" "gt_display c" "lg_pending (cb_ledger c)"
      unfolding one_copy_def by blast
    moreover from this(4) fresh have "i \<noteq> gt_fresh c" by auto
    ultimately have "one_copy c'" unfolding one_copy_def contents by (simp add: c' expire_provider_def)
    then show ?thesis ..
  qed
  then show ?thesis
    using assms(1) unfolding clipboard_ok_def contents by (auto simp: c' expire_provider_def less_Suc_eq)
qed (use assms in \<open>simp add: copy_sensitive_def\<close>)

lemma copy_accepted:
  assumes "clipboard_ok c" "copy_sensitive accepted x kind n c = (True, c')"
  shows "one_copy c'" "clipboard_ok c'"
    "cb_active c' = Some \<lparr>ac_kind = kind, ac_copied_at = gt_now c, ac_expires_at = gt_now c + n\<rparr>"
    "gt_owner c' = Provider (gt_fresh c)"
    "gt_contents c' (gt_fresh c) = Some \<lparr>ct_secret = Some x, ct_copied_at = gt_now c\<rparr>"
    "map tm_due (gt_timers c') = [gt_now c + n]" "gt_now c' = gt_now c" "is_local c'"
proof -
  let ?i = "gt_fresh c"
  let ?s = "\<lparr>ct_secret = Some x, ct_copied_at = gt_now c\<rparr>"
  define c1 where "c1 = watch_clipboard (c\<lparr>gt_fresh := ?i + 1, gt_contents := (gt_contents c)(?i \<mapsto> ?s), gt_owner := Provider ?i\<rparr>)"
  have disp: "gt_display c" using assms(2) by (auto simp: copy_sensitive_def split: if_splits)
  have fresh: "gt_contents c ?i = None" "cb_content c \<noteq> Some ?i"
    using assms(1) by (auto simp: clipboard_defs)
  have c': "c' = notify ((expire_content (cancel_timer c1))\<lparr>cb_content := Some ?i,
      cb_active := Some \<lparr>ac_kind = kind, ac_copied_at = gt_now c, ac_expires_at = gt_now c + n\<rparr>,
      cb_ledger := (cb_ledger c)\<lparr>lg_generation := lg_generation (cb_ledger c) + 1, lg_pending := True\<rparr>,
      cb_timer := Some (?i + 1), gt_fresh := ?i + 2,
      gt_timers := [\<lparr>tm_source = ?i + 1, tm_due = gt_now c + n, tm_generation = lg_generation (cb_ledger c) + 1\<rparr>]\<rparr>)"
    using assms disp
    by (auto simp: copy_sensitive_def Let_def record_copy_def c1_def watch_clipboard_def clipboard_defs expire_content_def
        cancel_timer_def expire_provider_def split: if_splits)
  have others: "gt_contents (expire_content (cancel_timer c1)) ?i = Some ?s"
    "\<And>j s. j \<noteq> ?i \<Longrightarrow> gt_contents (expire_content (cancel_timer c1)) j = Some s \<Longrightarrow> ct_secret s = None"
    "\<And>j. gt_contents (expire_content (cancel_timer c1)) j \<noteq> None \<Longrightarrow> j < ?i + 2"
    "gt_owner (expire_content (cancel_timer c1)) = Provider ?i" "cb_watching (expire_content (cancel_timer c1))"
    "gt_display (expire_content (cancel_timer c1))" "gt_now (expire_content (cancel_timer c1)) = gt_now c"
    using assms(1) fresh disp
    by (auto simp: c1_def watch_clipboard_def clipboard_defs expire_content_def cancel_timer_def expire_provider_def less_Suc_eq
        split: option.splits if_splits)
  show "one_copy c'" unfolding one_copy_def c' using others by (auto simp: notify_def)
  then show "clipboard_ok c'" using others(3) unfolding clipboard_ok_def c' by (auto simp: notify_def)
  show "cb_active c' = Some \<lparr>ac_kind = kind, ac_copied_at = gt_now c, ac_expires_at = gt_now c + n\<rparr>"
    "gt_owner c' = Provider (gt_fresh c)"
    "gt_contents c' (gt_fresh c) = Some \<lparr>ct_secret = Some x, ct_copied_at = gt_now c\<rparr>"
    "map tm_due (gt_timers c') = [gt_now c + n]" "gt_now c' = gt_now c" "is_local c'"
    using others unfolding c' by (simp_all add: is_local_def)
qed

lemma clipboard_ok_other [simp]:
  "clipboard_ok (c\<lparr>gt_focus := b\<rparr>) = clipboard_ok c" "clipboard_ok (c\<lparr>cb_decrypting := n\<rparr>) = clipboard_ok c"
  by (simp_all add: clipboard_defs)

lemma one_copy_later:
  assumes "one_copy c" "gt_now c \<le> n"
  shows "one_copy (c\<lparr>gt_now := n\<rparr>)"
proof -
  obtain a i s source y where "cb_active c = Some a" "cb_content c = Some i" "gt_owner c = Provider i"
      "gt_contents c i = Some s" "ct_secret s = Some y" "ct_copied_at s = ac_copied_at a" "ac_copied_at a \<le> gt_now c"
      "cb_timer c = Some source"
      "gt_timers c = [\<lparr>tm_source = source, tm_due = ac_expires_at a, tm_generation = lg_generation (cb_ledger c)\<rparr>]"
      "\<forall>j s. j \<noteq> i \<longrightarrow> gt_contents c j = Some s \<longrightarrow> ct_secret s = None" "cb_watching c" "gt_display c" "lg_pending (cb_ledger c)"
    using assms(1) unfolding one_copy_def by blast
  then show ?thesis using assms(2) by (simp add: one_copy_def)
qed

lemma clipboard_ok_later: "clipboard_ok c \<Longrightarrow> gt_now c \<le> n \<Longrightarrow> clipboard_ok (c\<lparr>gt_now := n\<rparr>)"
  using one_copy_later by (auto simp: clipboard_ok_def no_copy_def)

lemma clipboard_step_ok: "clipboard_step c c' \<Longrightarrow> clipboard_ok c \<Longrightarrow> clipboard_ok c'"
proof (induction rule: clipboard_step.induct)
  case (copied c accepted x kind n)
  obtain b c' where run: "copy_sensitive accepted x kind n c = (b, c')" by fastforce
  have "clipboard_ok c'"
  proof (cases b)
    case True
    with run show ?thesis by (intro copy_accepted(2) [OF copied]) simp
  next
    case False
    with run show ?thesis by (intro copy_rejected [OF copied]) simp
  qed
  with run show ?case by simp
next
  case (expired t c)
  then show ?case by (simp add: timer_fires_clears clear_now_result)
next
  case (passed c n)
  then show ?case by (intro clipboard_ok_later)
next
  case (foreign c f)
  then show ?case by (intro taken_over_result)
next
  case (cleared c)
  then show ?case by (intro clear_now_result)
qed (simp_all only: clipboard_ok_notify clipboard_ok_other begin_decrypting_def drop_decrypting_def)

lemma clipboard_run_ok: "clipboard_run c \<Longrightarrow> clipboard_ok c"
proof (induction rule: clipboard_run.induct)
  case (start display foreign)
  show ?case by (simp add: initial_clipboard_def clipboard_defs)
qed (rule clipboard_step_ok)

section \<open>Claims\<close>

text \<open>
  C37: A copied secret can be pasted only while its exposure is published and its expiry is set. In every state
  the application reaches, through any copies, timers, locks, decryptions, changes of focus and copies by other
  applications: a text that the application itself serves is the secret of the copy that is out, the published
  exposure is that copy, made at least 150 ms ago, and one timer is set, for the moment the exposure names; and
  when no copy is published, no provider holds a secret any more and no timer is left.
\<close>

theorem clipboard_serves_only_published_copy:
  assumes "clipboard_run c"
  shows "(is_local c \<and> pasted c \<noteq> [] \<longrightarrow> (\<exists>kind copied expires i.
        current_exposure c = InClipboard kind copied expires \<and> copied + 150 \<le> gt_now c
        \<and> gt_contents c i = Some \<lparr>ct_secret = Some (pasted c), ct_copied_at = copied\<rparr>))
    \<and> (case current_exposure c of
        InClipboard kind copied expires \<Rightarrow> map tm_due (gt_timers c) = [expires]
      | _ \<Rightarrow> gt_timers c = [] \<and> (\<forall>i s. gt_contents c i = Some s \<longrightarrow> ct_secret s = None))"
proof -
  have ok: "clipboard_ok c" by (rule clipboard_run_ok [OF assms])
  show ?thesis
  proof (cases "no_copy c")
    case True
    then have "is_local c \<Longrightarrow> pasted c = []"
      by (auto simp: no_copy_def pasted_def is_local_def current_text_def split: selection.splits option.splits)
    with True show ?thesis by (auto simp: no_copy_def current_exposure_def)
  next
    case False
    then have "one_copy c" using ok by (simp add: clipboard_ok_def)
    then obtain a i s y where one: "cb_active c = Some a" "gt_owner c = Provider i" "gt_contents c i = Some s"
      "ct_secret s = Some y" "ct_copied_at s = ac_copied_at a" "map tm_due (gt_timers c) = [ac_expires_at a]"
      "ac_copied_at a \<le> gt_now c"
      by (auto simp: one_copy_def)
    then have "gt_contents c i = Some \<lparr>ct_secret = Some y, ct_copied_at = ac_copied_at a\<rparr>" by simp
    then show ?thesis
      using one by (auto intro: exI [of _ i] simp: current_exposure_def pasted_def current_text_def serves_secret_def SNAPSHOT_WINDOW_def)
  qed
qed


section \<open>An example\<close>

definition sample_copy :: "bool \<times> clipboard" where
  "sample_copy = copy_sensitive True ''pw'' KindPassword SECRET_CLEAR_DELAY (initial_clipboard True ''note'')"

lemma sample_copied: "fst sample_copy" "gt_now (snd sample_copy) = 0" "clipboard_run ((snd sample_copy)\<lparr>gt_now := 200\<rparr>)"
  "is_local ((snd sample_copy)\<lparr>gt_now := 200\<rparr>)" "pasted ((snd sample_copy)\<lparr>gt_now := 200\<rparr>) = ''pw''"
proof -
  have run: "clipboard_run (snd sample_copy)"
    unfolding sample_copy_def by (rule clipboard_run.step [OF clipboard_run.start clipboard_step.copied])
  show "fst sample_copy" and now: "gt_now (snd sample_copy) = 0"
    by (simp_all add: sample_copy_def copy_sensitive_def initial_clipboard_def Let_def record_copy_def watch_clipboard_def
        expire_content_def cancel_timer_def)
  show "clipboard_run ((snd sample_copy)\<lparr>gt_now := 200\<rparr>)"
    by (rule clipboard_run.step [OF run clipboard_step.passed]) (simp add: now)
  show "is_local ((snd sample_copy)\<lparr>gt_now := 200\<rparr>)" "pasted ((snd sample_copy)\<lparr>gt_now := 200\<rparr>) = ''pw''"
    by (simp_all add: sample_copy_def copy_sensitive_def initial_clipboard_def Let_def record_copy_def watch_clipboard_def
        expire_content_def cancel_timer_def is_local_def pasted_def current_text_def serves_secret_def SNAPSHOT_WINDOW_def)
qed

theorem clipboard_serves_only_published_copy_witness:
  "\<exists>c kind copied expires. clipboard_run c \<and> is_local c \<and> pasted c = ''pw''
    \<and> current_exposure c = InClipboard kind copied expires \<and> copied + 150 \<le> gt_now c \<and> map tm_due (gt_timers c) = [expires]"
proof -
  let ?c = "(snd sample_copy)\<lparr>gt_now := 200\<rparr>"
  note claim = clipboard_serves_only_published_copy [OF sample_copied(3)]
  then obtain kind copied expires where "current_exposure ?c = InClipboard kind copied expires" "copied + 150 \<le> gt_now ?c"
    using sample_copied(4,5) by fastforce
  with claim sample_copied(3-5) show ?thesis by (intro exI [of _ ?c] exI [of _ kind] exI [of _ copied] exI [of _ expires]) simp
qed


end
