(* ===== verification/Spec2Isabelle.thy ===== *)
theory Spec2Isabelle
  imports
    HV_Prelude HV_Models HV_Db HV_Access HV_AuthPolicy HV_IpLimit HV_Crypto HV_Auth HV_AccountKey
    HV_UserRepo HV_VaultRepo HV_VaultAccess HV_SecretRepo HV_TeamRepo HV_Audit
    HV_VaultService HV_SecretService HV_Pin HV_Password HV_Totp HV_Rekey HV_UserService
    HV_Disk HV_Backup HV_BackupApp HV_Recovery HV_UrlCheck HV_SecurityCenter HV_Import
    HV_Login HV_System HV_Search HV_Clipboard
begin

text \<open>
  Verification development of HeelonVault, a desktop password manager written in Rust. It models the crate
  \<open>heelonvault-core\<close> (src/crates/heelonvault-core/src), that is the SQLite tables, the repositories over them and
  the services that throttle logins, wrap keys, encrypt secrets, make backups and check them; the crate
  \<open>heelonvault-url-check\<close>; and of the GTK application (src/crates/heelonvault-app) the parts that decide
  something: the login dialog, the search and order of the list of secrets, and the clipboard.

  \<^bold>\<open>How the program hangs together.\<close> A user owns vaults and vaults hold secrets. The password opens an account
  key (module auth_service), the account key opens the key of each vault (vault_service), the vault key opens the
  secrets (secret_service). The account key is also sealed under a recovery phrase (account_key). Shares of a vault
  hold its key wrapped for another user; teams hand out shares. Two services throttle logins, a third checks the
  second factor; the login dialog puts them in sequence. A change of the master password, the migration of old
  credentials and the recovery go through rekey_service, which rewraps every vault key in one transaction. A backup
  is a snapshot of the database in a container that the recovery phrase opens. Every service goes through a
  repository to the database and, for the audit trail, through the interface of audit_service.

  \<^bold>\<open>Theories and code.\<close> Paths are under src/crates/heelonvault-core/src unless they start otherwise.
  \<^item> HV_Prelude: results, effects (a function from a state to a result and the state it leaves), tables as lists of
    rows, bytes and texts. HV_Models: models/*.rs and errors.rs. HV_Db: the migrations, that is the tables and the
    constraints SQLite keeps (\<open>db_ok\<close>).
  \<^item> HV_Access: services/access_control.rs. HV_AuthPolicy and HV_IpLimit: the throttling of logins by username
    and by address. HV_Crypto: crypto_service.rs. HV_Auth: auth_service.rs. HV_AccountKey: account_key.rs.
  \<^item> HV_UserRepo, HV_VaultRepo with HV_VaultAccess, HV_SecretRepo, HV_TeamRepo: repositories/*.rs. HV_Audit: the
    audit log with its services and the login history.
  \<^item> HV_VaultService, HV_SecretService, HV_Totp, HV_Pin, HV_Password, HV_UserService, HV_Import: the services of the
    same names. HV_Rekey: rekey_service.rs. HV_SecurityCenter: security_center.rs.
  \<^item> HV_Disk: utils/private_fs.rs over a model of files, directories, modes and faults. HV_Backup:
    backup_service.rs. HV_BackupApp: backup_application_service.rs. HV_Recovery: recovery_service.rs and the
    bootstrap of admin_service.rs.
  \<^item> HV_UrlCheck: src/crates/heelonvault-url-check/src.
  \<^item> HV_Login, HV_Search, HV_Clipboard: under src/crates/heelonvault-app/src/ui the files
    dialogs/login_dialog/{core,login_flow,feedback,types}.rs, windows/main_window/search_filter.rs with the predicates of
    window/core.rs and the search data of secret_flow.rs, and sensitive_clipboard.rs.
  \<^item> HV_System: the operations put together, as a step relation on the whole state with the states reachable from
    an empty database.

  \<^bold>\<open>Correspondence.\<close> A struct is a record, an enum a datatype; \<open>Result<T, AppError>\<close> is the sum type \<open>'a result\<close>;
  an async method is an effect on the part of the state it may touch (\<open>db\<close> for a repository, \<open>world\<close> for a service:
  database, random bytes, memory of the authentication service; \<open>totp_state\<close> with the replay guard; \<open>disk\<close> for
  files). An SQL statement is written out as the function on the rows that it denotes, a transaction
  (\<open>transactionE\<close>) restores the database when its body fails, and a violated constraint is the error value sqlx
  reports. Integers of fixed width are words, or integers with the wrap written out where the code converts. A Rust
  \<open>String\<close> is the list of its UTF-8 bytes as characters, and UTF-8 validity is a function of the development. A time
  of day is an argument or part of the state. No fuel is used: every loop is structural or has a measure, except
  that of the password generator, which may run for ever and is a partial function; that it ends under a fair
  source of random bytes is proved.

  \<^bold>\<open>Parameters and what is assumed of them.\<close> Crates that are not in the repository are records of functions:
  \<open>crypto_lib\<close> (Argon2id, AES-256-GCM, Unicode lower-casing), of which \<open>crypto_lib_ok\<close> says that a sealed text opens
  with its key and nonce to what was sealed and that lengths are as documented; the records of HV_Backup, HV_Import,
  HV_SecurityCenter, HV_UrlCheck, HV_Totp and HV_IpLimit (bip39, base64, serde_json, csv, encoding_rs, url, zxcvbn, sha2,
  totp_rs, resolver and connections, chrono). No secrecy is assumed or proved; the two theorems on the security
  centre and on the clipboard say what is shown or handed out, not what can be computed. \<open>audit_svc\<close> is the audit
  implementation, with the laws of the locale \<open>audit_writer\<close>, interpreted on both implementations of the
  repository. Each theorem with such a hypothesis is applied to a concrete instance by its witness.

  \<^bold>\<open>What the lemmas show.\<close> Each repository operation keeps \<open>db_ok\<close> (collection \<open>inv_intros\<close>, one composition rule per
  combinator), and HV_System lifts this to every reachable state; what an operation leaves alone is stated with
  \<open>frames\<close> (collection \<open>frame_intros\<close>). Each operation has a lemma that says what it does on each branch (names ending
  in \<open>_run\<close>, \<open>_Inr\<close>). The claims, numbered C1 and on in the theories, state what components promise: a change of
  password or a recovery moves an account as a whole or not at all, wrapped keys open again, an opened vault key is
  the one that was stored, access decisions equal a lattice of rights, throttling equals a function of the history of
  attempts and locks an account after five failures, a login proves the password and the second factor, deletions hide
  or erase what they should, a second-factor code or a wrong PIN counts once, an import accounts for every row, a
  backup restores to what was saved, an interrupted restore keeps the database, the URL check contacts public
  addresses only and ends in time, the search matches exactly one edit, the clipboard serves a secret only while it is
  announced; failures leave the stored state as it was (or do not, where a finding says so).

  \<^bold>\<open>Bounds.\<close> The lengths, limits and delays of the code are definitions of their names (\<open>MAX_FAILED_ATTEMPTS\<close>,
  \<open>TOTP_REPLAY_TTL_SECS\<close>, \<open>MAX_CSV_ROWS\<close>, \<open>TOTAL_TIMEOUT\<close>, \<open>SHUTDOWN_TIMEOUT\<close>, \<open>SNAPSHOT_WINDOW\<close> and others).

  \<^bold>\<open>Not modelled.\<close> Failures of the SQLite engine itself (disk full, lost connection), poisoned mutexes, log
  messages, the wiping of memory, the order SQL leaves open between equal sort keys, identifiers written to the
  database by another program, two operations of different threads interleaved inside one another. The
  implementation behind the traits of the premium edition (teams, administration of users, reports, federated login)
  is not in the repository: what is there are stubs that answer a constant error. The widgets, the other dialogs,
  preferences, translations and the start-up of the application only call the services; the loading of the list of
  secrets and the countdown of the login button are left out.
\<close>

end
